(* ===== verification/Prelude.thy ===== *)
theory Prelude
  imports Main "HOL-Library.Word" "HOL-Library.AList"
begin

text \<open>
  Shared vocabulary of the development: names of the machine integer types, the
  result type of fallible Rust code (with \<open>panic!\<close> as a value), hash maps as
  association lists, big-endian byte strings, and three interfaces that several
  components share (a finite map, a byte codec, a machine whose steps keep an
  invariant) as locales.
\<close>

unbundle bit_operations_syntax

type_synonym u8 = "8 word"
type_synonym u16 = "16 word"
type_synonym u32 = "32 word"
type_synonym u64 = "64 word"
type_synonym i32 = "32 word"

named_theorems hm_simps \<open>rewriting of hash map operations\<close>
named_theorems inv_intros \<open>preservation of component invariants\<close>

section \<open>Results of fallible code\<close>

text \<open>
  \<open>Result<T, E>\<close> plus the third outcome a Rust function has, a panic (a failed
  \<open>expect\<close>, a slice split out of range).
\<close>

datatype ('a, 'e) outcome = Ok 'a | Err 'e | Panic

fun obind :: "('a, 'e) outcome \<Rightarrow> ('a \<Rightarrow> ('b, 'e) outcome) \<Rightarrow> ('b, 'e) outcome" where
  "obind (Ok x) f = f x"
| "obind (Err e) f = Err e"
| "obind Panic f = Panic"

fun is_ok :: "('a, 'e) outcome \<Rightarrow> bool" where
  "is_ok (Ok _) = True"
| "is_ok _ = False"

lemma obind_eq_Ok: "obind m f = Ok y \<longleftrightarrow> (\<exists>x. m = Ok x \<and> f x = Ok y)"
  by (cases m) auto

lemma obind_eq_Panic: "obind m f = Panic \<longleftrightarrow> m = Panic \<or> (\<exists>x. m = Ok x \<and> f x = Panic)"
  by (cases m) auto

section \<open>Finite maps\<close>

text \<open>
  What the code uses of \<open>HashMap\<close> and of \<open>Slab\<close>: lookup, insertion and removal
  by key.
\<close>

locale finite_map =
  fixes emp :: "'m"
    and get :: "'m \<Rightarrow> 'k \<Rightarrow> 'v option"
    and put :: "'k \<Rightarrow> 'v \<Rightarrow> 'm \<Rightarrow> 'm"
    and del :: "'k \<Rightarrow> 'm \<Rightarrow> 'm"
    and wf :: "'m \<Rightarrow> bool"
  assumes get_emp: "get emp k = None"
    and get_put: "get (put k v m) k' = (if k' = k then Some v else get m k')"
    and get_del: "get (del k m) k' = (if k' = k then None else get m k')"
    and wf_emp: "wf emp"
    and wf_put: "wf m \<Longrightarrow> wf (put k v m)"
    and wf_del: "wf m \<Longrightarrow> wf (del k m)"
begin

lemma get_put_put: "get (put k v (put k w m)) = get (put k v m)"
  by (rule ext) (simp add: get_put)

lemma get_del_put: "get m k = None \<Longrightarrow> get (del k (put k v m)) = get m"
  by (rule ext) (simp add: get_put get_del)

lemma get_put_get: "get m k = Some v \<Longrightarrow> get (put k v m) = get m"
  by (rule ext) (simp add: get_put)

lemma put_commute: "k \<noteq> l \<Longrightarrow> get (put k v (put l w m)) = get (put l w (put k v m))"
  by (rule ext) (simp add: get_put)

end

text \<open>
  \<open>HashMap<K, V>\<close> as an association list: an insertion overwrites in place or
  appends, so the list also stands for one iteration order of the map (the code
  never relies on a particular one). \<open>hm_ok\<close> says that no key occurs twice.
\<close>

type_synonym ('k, 'v) hmap = "('k \<times> 'v) list"

definition hm_get :: "('k, 'v) hmap \<Rightarrow> 'k \<Rightarrow> 'v option" where
  "hm_get m k = map_of m k"

definition hm_insert :: "'k \<Rightarrow> 'v \<Rightarrow> ('k, 'v) hmap \<Rightarrow> ('k, 'v) hmap" where
  "hm_insert k v m = AList.update k v m"

definition hm_remove :: "'k \<Rightarrow> ('k, 'v) hmap \<Rightarrow> ('k, 'v) hmap" where
  "hm_remove k m = filter (\<lambda>(k', _). k' \<noteq> k) m"

definition hm_keys :: "('k, 'v) hmap \<Rightarrow> 'k list" where
  "hm_keys m = map fst m"

definition hm_values :: "('k, 'v) hmap \<Rightarrow> 'v list" where
  "hm_values m = map snd m"

definition hm_ok :: "('k, 'v) hmap \<Rightarrow> bool" where
  "hm_ok m = distinct (map fst m)"

definition hm_modify :: "'k \<Rightarrow> ('v \<Rightarrow> 'v) \<Rightarrow> ('k, 'v) hmap \<Rightarrow> ('k, 'v) hmap" where
  "hm_modify k f m = map (\<lambda>(k', v). (k', if k' = k then f v else v)) m"

lemma hm_get_Nil [simp, hm_simps]: "hm_get [] k = None"
  by (simp add: hm_get_def)

lemma hm_get_Cons [hm_simps]: "hm_get ((k, v) # m) k' = (if k' = k then Some v else hm_get m k')"
  by (simp add: hm_get_def)

lemma hm_get_insert [simp, hm_simps]:
  "hm_get (hm_insert k v m) k' = (if k' = k then Some v else hm_get m k')"
  by (simp add: hm_get_def hm_insert_def update_conv')

lemma hm_get_remove [simp, hm_simps]:
  "hm_get (hm_remove k m) k' = (if k' = k then None else hm_get m k')"
  unfolding hm_get_def hm_remove_def by (induction m) auto

lemma hm_get_modify [simp, hm_simps]:
  "hm_get (hm_modify k f m) k' = (if k' = k then map_option f (hm_get m k') else hm_get m k')"
  unfolding hm_get_def hm_modify_def by (induction m) auto

lemma hm_ok_Nil [simp, intro]: "hm_ok []"
  by (simp add: hm_ok_def)

lemma hm_ok_insert [simp, intro]: "hm_ok m \<Longrightarrow> hm_ok (hm_insert k v m)"
  by (simp add: hm_ok_def hm_insert_def distinct_update)

lemma hm_ok_remove [simp, intro]: "hm_ok m \<Longrightarrow> hm_ok (hm_remove k m)"
  unfolding hm_ok_def hm_remove_def by (rule distinct_map_filter)

lemma hm_keys_modify [simp, hm_simps]: "hm_keys (hm_modify k f m) = hm_keys m"
  unfolding hm_keys_def hm_modify_def by (induction m) auto

lemma hm_ok_modify [simp, intro]: "hm_ok m \<Longrightarrow> hm_ok (hm_modify k f m)"
  using hm_keys_modify [of k f m] unfolding hm_ok_def hm_keys_def by simp

lemma hm_get_None_iff: "hm_get m k = None \<longleftrightarrow> k \<notin> set (hm_keys m)"
  unfolding hm_get_def hm_keys_def by (induction m) auto

lemma hm_mem_get: "hm_ok m \<Longrightarrow> (k, v) \<in> set m \<longleftrightarrow> hm_get m k = Some v"
  unfolding hm_ok_def hm_get_def by (simp add: map_of_eq_Some_iff)

lemma hm_get_mem: "hm_get m k = Some v \<Longrightarrow> (k, v) \<in> set m"
  unfolding hm_get_def by (rule map_of_SomeD)

lemma hm_values_get: "hm_ok m \<Longrightarrow> v \<in> set (hm_values m) \<longleftrightarrow> (\<exists>k. hm_get m k = Some v)"
  unfolding hm_values_def by (force simp: hm_mem_get [symmetric])

lemma hm_keys_get: "k \<in> set (hm_keys m) \<longleftrightarrow> (\<exists>v. hm_get m k = Some v)"
  using hm_get_None_iff [of m k] by (cases "hm_get m k") auto

lemma hm_values_insert:
  "hm_ok m \<Longrightarrow> hm_get m k = None \<Longrightarrow> set (hm_values (hm_insert k v m)) = insert v (set (hm_values m))"
proof -
  assume ok: "hm_ok m" and fresh: "hm_get m k = None"
  have "w \<in> set (hm_values (hm_insert k v m)) \<longleftrightarrow> w \<in> insert v (set (hm_values m))" for w
    using ok fresh by (auto simp: hm_values_get) (metis option.distinct(1))+
  then show ?thesis by blast
qed

lemma set_hm_keys_insert [simp, hm_simps]: "set (hm_keys (hm_insert k v m)) = insert k (set (hm_keys m))"
  by (auto simp: hm_keys_def hm_insert_def dom_update)

lemma set_hm_keys_remove [simp, hm_simps]: "set (hm_keys (hm_remove k m)) = set (hm_keys m) - {k}"
  by (auto simp: hm_keys_get split: if_splits)

lemma length_hm_keys [simp]: "length (hm_keys m) = length m"
  by (simp add: hm_keys_def)

interpretation hm: finite_map "[]" hm_get hm_insert hm_remove hm_ok
  by unfold_locales auto

section \<open>Byte codecs\<close>

text \<open>
  An encoding with a decoder that accepts what the encoder wrote whatever follows
  it. Both laws together make the code uniquely decodable: two values whose
  encodings are equal, even with different tails, are equal.
\<close>

locale prefix_codec =
  fixes enc :: "'a \<Rightarrow> 'b list"
    and dec :: "'b list \<Rightarrow> ('a \<times> 'b list, 'e) outcome"
    and ok :: "'a \<Rightarrow> bool"
  assumes dec_enc: "ok x \<Longrightarrow> dec (enc x @ rest) = Ok (x, rest)"
begin

lemma dec_enc_nil: "ok x \<Longrightarrow> dec (enc x) = Ok (x, [])"
  using dec_enc [of x "[]"] by simp

lemma enc_append_inj:
  assumes "ok x" and "ok y" and "enc x @ s = enc y @ t"
  shows "x = y \<and> s = t"
proof -
  have "Ok (x, s) = (Ok (y, t) :: ('a \<times> 'b list, 'e) outcome)"
    using dec_enc [OF assms(1), of s] dec_enc [OF assms(2), of t] assms(3) by metis
  then show ?thesis by simp
qed

lemma enc_inj: "ok x \<Longrightarrow> ok y \<Longrightarrow> enc x = enc y \<Longrightarrow> x = y"
  using enc_append_inj [of x y "[]" "[]"] by simp

lemma enc_prefix_free: "ok x \<Longrightarrow> ok y \<Longrightarrow> enc y = enc x @ s \<Longrightarrow> s = []"
  using enc_append_inj [of y x "[]" s] by simp

end

text \<open>Big-endian byte strings: \<open>to_be_bytes\<close> and \<open>from_be_bytes\<close> of the integer types.\<close>

definition be_bytes :: "nat \<Rightarrow> 'a::len word \<Rightarrow> u8 list" where
  "be_bytes n w = map (\<lambda>i. ucast (drop_bit (8 * i) w)) (rev [0..<n])"

definition of_be_bytes :: "u8 list \<Rightarrow> 'a::len word" where
  "of_be_bytes bs = fold (\<lambda>b acc. push_bit 8 acc OR ucast b) bs 0"

lemma length_be_bytes [simp]: "length (be_bytes n w) = n"
  by (simp add: be_bytes_def)

lemma be_bytes_Suc: "be_bytes (Suc n) w = ucast (drop_bit (8 * n) w) # be_bytes n w"
  by (simp add: be_bytes_def)

lemma fold_be_bytes:
  "fold (\<lambda>b acc. push_bit 8 acc OR ucast b) (be_bytes n w) acc
     = (push_bit (8 * n) acc OR take_bit (8 * n) w :: 'a::len word)"
proof (induction n arbitrary: acc)
  case 0
  then show ?case by (simp add: be_bytes_def)
next
  case (Suc n)
  have "push_bit (8 * n) (push_bit 8 acc OR ucast (ucast (drop_bit (8 * n) w) :: u8)) OR take_bit (8 * n) w
     = (push_bit (8 * Suc n) acc OR take_bit (8 * Suc n) w :: 'a word)"
    by (rule bit_word_eqI)
      (auto simp: bit_simps algebra_simps dest: bit_imp_le_length)
  then show ?case
    by (simp only: be_bytes_Suc fold.simps comp_apply Suc.IH)
qed

lemma of_be_bytes_be_bytes:
  "LENGTH('a) \<le> 8 * n \<Longrightarrow> of_be_bytes (be_bytes n w) = (w :: 'a::len word)"
  by (simp add: of_be_bytes_def fold_be_bytes take_bit_word_eq_self)

section \<open>Decimal numbers\<close>

text \<open>\<open>Display\<close> of an unsigned integer; strings are UTF-8 byte strings.\<close>

fun show_nat :: "nat \<Rightarrow> string" where
  "show_nat n = (if n < 10 then [char_of (48 + n)]
                 else show_nat (n div 10) @ [char_of (48 + n mod 10)])"

declare show_nat.simps [simp del]

definition show_word :: "'a::len word \<Rightarrow> string" where
  "show_word w = show_nat (unat w)"

definition show_int :: "int \<Rightarrow> string" where
  "show_int i = (if i < 0 then CHR ''-'' # show_nat (nat (- i)) else show_nat (nat i))"

definition read_digits :: "string \<Rightarrow> nat" where
  "read_digits s = fold (\<lambda>c acc. 10 * acc + (of_char c - 48)) s 0"

lemma read_digits_snoc: "read_digits (s @ [c]) = 10 * read_digits s + (of_char c - 48)"
  by (simp add: read_digits_def)

lemma read_show_nat: "read_digits (show_nat n) = n"
proof (induction n rule: show_nat.induct)
  case (1 n)
  show ?case
  proof (cases "n < 10")
    case True
    then show ?thesis by (simp add: show_nat.simps [of n] read_digits_def)
  next
    case False
    have "n mod 10 < 10" by simp
    then have d: "(of_char (char_of (48 + n mod 10) :: char) :: nat) = 48 + n mod 10" by simp
    show ?thesis
      using False "1.IH" by (subst show_nat.simps) (simp only: read_digits_snoc d if_False, simp)
  qed
qed

lemma show_nat_inj: "show_nat m = show_nat n \<longleftrightarrow> m = n"
  by (metis read_show_nat)

lemma show_nat_not_Nil [simp]: "show_nat n \<noteq> []"
  by (subst show_nat.simps) simp

lemma show_nat_digits: "c \<in> set (show_nat n) \<Longrightarrow> of_char c \<in> {48..57::nat}"
proof (induction n rule: show_nat.induct)
  case (1 n)
  have small: "k < 10 \<Longrightarrow> (of_char (char_of (48 + k) :: char) :: nat) = 48 + k" for k :: nat
    by simp
  have "n mod 10 < 10" by simp
  then show ?case
    using "1.prems" "1.IH" small by (subst (asm) show_nat.simps) (fastforce split: if_splits)
qed

section \<open>Sorting and removing duplicates\<close>

text \<open>\<open>sort_unstable\<close> followed by \<open>dedup\<close>\<close>

lemma sorted_remdups_adj:
  "sorted xs \<Longrightarrow> sorted (remdups_adj xs) \<and> distinct (remdups_adj (xs :: 'a::linorder list))"
proof (induction xs rule: remdups_adj.induct)
  case (3 x y xs)
  then show ?case
  proof (cases "x = y")
    case False
    with 3 have "sorted (remdups_adj (y # xs)) \<and> distinct (remdups_adj (y # xs))" "\<forall>z \<in> set (y # xs). x < z"
      by fastforce+
    with False show ?thesis by (auto simp: less_imp_le)
  qed simp
qed simp_all

lemma fold_inv: "P s \<Longrightarrow> (\<And>x s. P s \<Longrightarrow> P (f x s)) \<Longrightarrow> P (fold f xs s)"
  by (induction xs arbitrary: s) auto

section \<open>Machines that keep an invariant\<close>

text \<open>
  A component driven by a sequence of inputs. The client proves once that every
  step keeps the invariant; every run keeps it.
\<close>

locale machine =
  fixes step :: "'i \<Rightarrow> 's \<Rightarrow> 's"
    and inv :: "'s \<Rightarrow> bool"
  assumes step_inv: "inv s \<Longrightarrow> inv (step i s)"
begin

lemma run_inv: "inv s \<Longrightarrow> inv (fold step es s)"
  by (induction es arbitrary: s) (auto intro: step_inv)

lemma run_inv_every:
  "inv s \<Longrightarrow> \<forall>n. inv (fold step (take n es) s)"
  by (auto intro: run_inv)

end

end
