(* ===== verification/Scancode.thy ===== *)
theory Scancode
  imports Prelude
begin

text \<open>
  Key codes (\<open>input-event/src/scancode.rs\<close>): the Linux evdev codes the program
  uses everywhere, the Windows scan codes of its Windows backends, and the two
  conversions between them.
\<close>

section \<open>The enums\<close>

text \<open>
  \<open>repr(u32)\<close> enums: a value is its discriminant. The tables list the variants in
  source order with their discriminants.
\<close>

datatype linux = Linux (linux_code: u32)

datatype windows = Windows (windows_code: u32)

abbreviation W_Shutdown :: windows where "W_Shutdown \<equiv> Windows 0xe05e"
abbreviation W_SystemSleep :: windows where "W_SystemSleep \<equiv> Windows 0xe05f"
abbreviation W_SystemWakeUp :: windows where "W_SystemWakeUp \<equiv> Windows 0xe063"
abbreviation W_ErrorRollOver :: windows where "W_ErrorRollOver \<equiv> Windows 0xff"
abbreviation W_KeyA :: windows where "W_KeyA \<equiv> Windows 0x1e"
abbreviation W_KeyB :: windows where "W_KeyB \<equiv> Windows 0x30"
abbreviation W_KeyC :: windows where "W_KeyC \<equiv> Windows 0x2e"
abbreviation W_KeyD :: windows where "W_KeyD \<equiv> Windows 0x20"
abbreviation W_KeyE :: windows where "W_KeyE \<equiv> Windows 0x12"
abbreviation W_KeyF :: windows where "W_KeyF \<equiv> Windows 0x21"
abbreviation W_KeyG :: windows where "W_KeyG \<equiv> Windows 0x22"
abbreviation W_KeyH :: windows where "W_KeyH \<equiv> Windows 0x23"
abbreviation W_KeyI :: windows where "W_KeyI \<equiv> Windows 0x17"
abbreviation W_KeyJ :: windows where "W_KeyJ \<equiv> Windows 0x24"
abbreviation W_KeyK :: windows where "W_KeyK \<equiv> Windows 0x25"
abbreviation W_KeyL :: windows where "W_KeyL \<equiv> Windows 0x26"
abbreviation W_KeyM :: windows where "W_KeyM \<equiv> Windows 0x32"
abbreviation W_KeyN :: windows where "W_KeyN \<equiv> Windows 0x31"
abbreviation W_KeyO :: windows where "W_KeyO \<equiv> Windows 0x18"
abbreviation W_KeyP :: windows where "W_KeyP \<equiv> Windows 0x19"
abbreviation W_KeyQ :: windows where "W_KeyQ \<equiv> Windows 0x10"
abbreviation W_KeyR :: windows where "W_KeyR \<equiv> Windows 0x13"
abbreviation W_KeyS :: windows where "W_KeyS \<equiv> Windows 0x1f"
abbreviation W_KeyT :: windows where "W_KeyT \<equiv> Windows 0x14"
abbreviation W_KeyU :: windows where "W_KeyU \<equiv> Windows 0x16"
abbreviation W_KeyV :: windows where "W_KeyV \<equiv> Windows 0x2f"
abbreviation W_KeyW :: windows where "W_KeyW \<equiv> Windows 0x11"
abbreviation W_KeyX :: windows where "W_KeyX \<equiv> Windows 0x2d"
abbreviation W_KeyY :: windows where "W_KeyY \<equiv> Windows 0x15"
abbreviation W_KeyZ :: windows where "W_KeyZ \<equiv> Windows 0x2c"
abbreviation W_Key1 :: windows where "W_Key1 \<equiv> Windows 0x2"
abbreviation W_Key2 :: windows where "W_Key2 \<equiv> Windows 0x3"
abbreviation W_Key3 :: windows where "W_Key3 \<equiv> Windows 0x4"
abbreviation W_Key4 :: windows where "W_Key4 \<equiv> Windows 0x5"
abbreviation W_Key5 :: windows where "W_Key5 \<equiv> Windows 0x6"
abbreviation W_Key6 :: windows where "W_Key6 \<equiv> Windows 0x7"
abbreviation W_Key7 :: windows where "W_Key7 \<equiv> Windows 0x8"
abbreviation W_Key8 :: windows where "W_Key8 \<equiv> Windows 0x9"
abbreviation W_Key9 :: windows where "W_Key9 \<equiv> Windows 0xa"
abbreviation W_Key0 :: windows where "W_Key0 \<equiv> Windows 0xb"
abbreviation W_KeyEnter :: windows where "W_KeyEnter \<equiv> Windows 0x1c"
abbreviation W_KeyEsc :: windows where "W_KeyEsc \<equiv> Windows 0x1"
abbreviation W_KeyDelete :: windows where "W_KeyDelete \<equiv> Windows 0xe"
abbreviation W_KeyTab :: windows where "W_KeyTab \<equiv> Windows 0xf"
abbreviation W_KeySpace :: windows where "W_KeySpace \<equiv> Windows 0x39"
abbreviation W_KeyMinus :: windows where "W_KeyMinus \<equiv> Windows 0xc"
abbreviation W_KeyEqual :: windows where "W_KeyEqual \<equiv> Windows 0xd"
abbreviation W_KeyLeftBrace :: windows where "W_KeyLeftBrace \<equiv> Windows 0x1a"
abbreviation W_KeyRightBrace :: windows where "W_KeyRightBrace \<equiv> Windows 0x1b"
abbreviation W_KeyBackslash :: windows where "W_KeyBackslash \<equiv> Windows 0x2b"
abbreviation W_KeySemiColon :: windows where "W_KeySemiColon \<equiv> Windows 0x27"
abbreviation W_KeyApostrophe :: windows where "W_KeyApostrophe \<equiv> Windows 0x28"
abbreviation W_KeyGrave :: windows where "W_KeyGrave \<equiv> Windows 0x29"
abbreviation W_KeyComma :: windows where "W_KeyComma \<equiv> Windows 0x33"
abbreviation W_KeyDot :: windows where "W_KeyDot \<equiv> Windows 0x34"
abbreviation W_KeySlash :: windows where "W_KeySlash \<equiv> Windows 0x35"
abbreviation W_KeyCapsLock :: windows where "W_KeyCapsLock \<equiv> Windows 0x3a"
abbreviation W_KeyF1 :: windows where "W_KeyF1 \<equiv> Windows 0x3b"
abbreviation W_KeyF2 :: windows where "W_KeyF2 \<equiv> Windows 0x3c"
abbreviation W_KeyF3 :: windows where "W_KeyF3 \<equiv> Windows 0x3d"
abbreviation W_KeyF4 :: windows where "W_KeyF4 \<equiv> Windows 0x3e"
abbreviation W_KeyF5 :: windows where "W_KeyF5 \<equiv> Windows 0x3f"
abbreviation W_KeyF6 :: windows where "W_KeyF6 \<equiv> Windows 0x40"
abbreviation W_KeyF7 :: windows where "W_KeyF7 \<equiv> Windows 0x41"
abbreviation W_KeyF8 :: windows where "W_KeyF8 \<equiv> Windows 0x42"
abbreviation W_KeyF9 :: windows where "W_KeyF9 \<equiv> Windows 0x43"
abbreviation W_KeyF10 :: windows where "W_KeyF10 \<equiv> Windows 0x44"
abbreviation W_KeyF11 :: windows where "W_KeyF11 \<equiv> Windows 0x57"
abbreviation W_KeyF12 :: windows where "W_KeyF12 \<equiv> Windows 0x58"
abbreviation W_KeyPrintScreen :: windows where "W_KeyPrintScreen \<equiv> Windows 0xe037"
abbreviation W_KeyScrollLock :: windows where "W_KeyScrollLock \<equiv> Windows 0x46"
abbreviation W_KeyPause :: windows where "W_KeyPause \<equiv> Windows 0xe11d45"
abbreviation W_KeyInsert :: windows where "W_KeyInsert \<equiv> Windows 0xe052"
abbreviation W_KeyHome :: windows where "W_KeyHome \<equiv> Windows 0xe047"
abbreviation W_KeyPageUp :: windows where "W_KeyPageUp \<equiv> Windows 0xe049"
abbreviation W_KeyDeleteForward :: windows where "W_KeyDeleteForward \<equiv> Windows 0xe053"
abbreviation W_KeyEnd :: windows where "W_KeyEnd \<equiv> Windows 0xe04f"
abbreviation W_KeyPageDown :: windows where "W_KeyPageDown \<equiv> Windows 0xe051"
abbreviation W_KeyRight :: windows where "W_KeyRight \<equiv> Windows 0xe04d"
abbreviation W_KeyLeft :: windows where "W_KeyLeft \<equiv> Windows 0xe04b"
abbreviation W_KeyDown :: windows where "W_KeyDown \<equiv> Windows 0xe050"
abbreviation W_KeyUp :: windows where "W_KeyUp \<equiv> Windows 0xe048"
abbreviation W_KeypadNumLock :: windows where "W_KeypadNumLock \<equiv> Windows 0x45"
abbreviation W_KeypadSlash :: windows where "W_KeypadSlash \<equiv> Windows 0xe035"
abbreviation W_KeypadStar :: windows where "W_KeypadStar \<equiv> Windows 0x37"
abbreviation W_KeypadDash :: windows where "W_KeypadDash \<equiv> Windows 0x4a"
abbreviation W_KeypadPlus :: windows where "W_KeypadPlus \<equiv> Windows 0x4e"
abbreviation W_KeypadEnter :: windows where "W_KeypadEnter \<equiv> Windows 0xe01c"
abbreviation W_Keypad1End :: windows where "W_Keypad1End \<equiv> Windows 0x4f"
abbreviation W_Keypad2DownArrow :: windows where "W_Keypad2DownArrow \<equiv> Windows 0x50"
abbreviation W_Keypad3PageDn :: windows where "W_Keypad3PageDn \<equiv> Windows 0x51"
abbreviation W_Keypad4LeftArrow :: windows where "W_Keypad4LeftArrow \<equiv> Windows 0x4b"
abbreviation W_Keypad5 :: windows where "W_Keypad5 \<equiv> Windows 0x4c"
abbreviation W_Keypad6RightArrow :: windows where "W_Keypad6RightArrow \<equiv> Windows 0x4d"
abbreviation W_Keypad7Home :: windows where "W_Keypad7Home \<equiv> Windows 0x47"
abbreviation W_Keypad8UpArrow :: windows where "W_Keypad8UpArrow \<equiv> Windows 0x48"
abbreviation W_Keypad9PageUp :: windows where "W_Keypad9PageUp \<equiv> Windows 0x49"
abbreviation W_Keypad0Insert :: windows where "W_Keypad0Insert \<equiv> Windows 0x52"
abbreviation W_KeypadDot :: windows where "W_KeypadDot \<equiv> Windows 0x53"
abbreviation W_KeyNonUSSlashBar :: windows where "W_KeyNonUSSlashBar \<equiv> Windows 0x56"
abbreviation W_KeyApplication :: windows where "W_KeyApplication \<equiv> Windows 0xe05d"
abbreviation W_KeypadEquals :: windows where "W_KeypadEquals \<equiv> Windows 0x59"
abbreviation W_KeyF13 :: windows where "W_KeyF13 \<equiv> Windows 0x64"
abbreviation W_KeyF14 :: windows where "W_KeyF14 \<equiv> Windows 0x65"
abbreviation W_KeyF15 :: windows where "W_KeyF15 \<equiv> Windows 0x66"
abbreviation W_KeyF16 :: windows where "W_KeyF16 \<equiv> Windows 0x67"
abbreviation W_KeyF17 :: windows where "W_KeyF17 \<equiv> Windows 0x68"
abbreviation W_KeyF18 :: windows where "W_KeyF18 \<equiv> Windows 0x69"
abbreviation W_KeyF19 :: windows where "W_KeyF19 \<equiv> Windows 0x6a"
abbreviation W_KeyF20 :: windows where "W_KeyF20 \<equiv> Windows 0x6b"
abbreviation W_KeyF21 :: windows where "W_KeyF21 \<equiv> Windows 0x6c"
abbreviation W_KeyF22 :: windows where "W_KeyF22 \<equiv> Windows 0x6d"
abbreviation W_KeyF23 :: windows where "W_KeyF23 \<equiv> Windows 0x6e"
abbreviation W_KeyF24 :: windows where "W_KeyF24 \<equiv> Windows 0x76"
abbreviation W_KeypadComma :: windows where "W_KeypadComma \<equiv> Windows 0x7e"
abbreviation W_KeyInternational1 :: windows where "W_KeyInternational1 \<equiv> Windows 0x73"
abbreviation W_KeyInternational2 :: windows where "W_KeyInternational2 \<equiv> Windows 0x70"
abbreviation W_KeyInternational3 :: windows where "W_KeyInternational3 \<equiv> Windows 0x7d"
abbreviation W_KeyInternational4 :: windows where "W_KeyInternational4 \<equiv> Windows 0x79"
abbreviation W_KeyInternational5 :: windows where "W_KeyInternational5 \<equiv> Windows 0x7b"
abbreviation W_KeyLANG1 :: windows where "W_KeyLANG1 \<equiv> Windows 0x72"
abbreviation W_KeyLANG2 :: windows where "W_KeyLANG2 \<equiv> Windows 0x71"
abbreviation W_KeyLANG3 :: windows where "W_KeyLANG3 \<equiv> Windows 0x78"
abbreviation W_KeyLANG4 :: windows where "W_KeyLANG4 \<equiv> Windows 0x77"
abbreviation W_KeyLeftCtrl :: windows where "W_KeyLeftCtrl \<equiv> Windows 0x1d"
abbreviation W_KeyLeftShift :: windows where "W_KeyLeftShift \<equiv> Windows 0x2a"
abbreviation W_KeyLeftAlt :: windows where "W_KeyLeftAlt \<equiv> Windows 0x38"
abbreviation W_KeyLeftGUI :: windows where "W_KeyLeftGUI \<equiv> Windows 0xe05b"
abbreviation W_KeyRightCtrl :: windows where "W_KeyRightCtrl \<equiv> Windows 0xe01d"
abbreviation W_KeyRightShift :: windows where "W_KeyRightShift \<equiv> Windows 0x36"
abbreviation W_KeyFakeRightShift :: windows where "W_KeyFakeRightShift \<equiv> Windows 0xe036"
abbreviation W_KeyRightAlt :: windows where "W_KeyRightAlt \<equiv> Windows 0xe038"
abbreviation W_KeyRightGUI :: windows where "W_KeyRightGUI \<equiv> Windows 0xe05c"
abbreviation W_KeyScanNextTrack :: windows where "W_KeyScanNextTrack \<equiv> Windows 0xe019"
abbreviation W_KeyScanPreviousTrack :: windows where "W_KeyScanPreviousTrack \<equiv> Windows 0xe010"
abbreviation W_KeyStop :: windows where "W_KeyStop \<equiv> Windows 0xe024"
abbreviation W_KeyPlayPause :: windows where "W_KeyPlayPause \<equiv> Windows 0xe022"
abbreviation W_KeyMute :: windows where "W_KeyMute \<equiv> Windows 0xe020"
abbreviation W_KeyVolumeUp :: windows where "W_KeyVolumeUp \<equiv> Windows 0xe030"
abbreviation W_KeyVolumeDown :: windows where "W_KeyVolumeDown \<equiv> Windows 0xe02e"
abbreviation W_ALConsumerControlConfiguration :: windows where "W_ALConsumerControlConfiguration \<equiv> Windows 0xe06d"
abbreviation W_ALEmailReader :: windows where "W_ALEmailReader \<equiv> Windows 0xe06c"
abbreviation W_ALCalculator :: windows where "W_ALCalculator \<equiv> Windows 0xe021"
abbreviation W_ALLocalMachineBrowser :: windows where "W_ALLocalMachineBrowser \<equiv> Windows 0xe06b"
abbreviation W_ACSearch :: windows where "W_ACSearch \<equiv> Windows 0xe065"
abbreviation W_ACHome :: windows where "W_ACHome \<equiv> Windows 0xe032"
abbreviation W_ACBack :: windows where "W_ACBack \<equiv> Windows 0xe06a"
abbreviation W_ACForward :: windows where "W_ACForward \<equiv> Windows 0xe069"
abbreviation W_ACStop :: windows where "W_ACStop \<equiv> Windows 0xe068"
abbreviation W_ACRefresh :: windows where "W_ACRefresh \<equiv> Windows 0xe067"
abbreviation W_ACBookmarks :: windows where "W_ACBookmarks \<equiv> Windows 0xe066"

abbreviation L_KeyReserved :: linux where "L_KeyReserved \<equiv> Linux 0"
abbreviation L_KeyEsc :: linux where "L_KeyEsc \<equiv> Linux 1"
abbreviation L_Key1 :: linux where "L_Key1 \<equiv> Linux 2"
abbreviation L_Key2 :: linux where "L_Key2 \<equiv> Linux 3"
abbreviation L_Key3 :: linux where "L_Key3 \<equiv> Linux 4"
abbreviation L_Key4 :: linux where "L_Key4 \<equiv> Linux 5"
abbreviation L_Key5 :: linux where "L_Key5 \<equiv> Linux 6"
abbreviation L_Key6 :: linux where "L_Key6 \<equiv> Linux 7"
abbreviation L_Key7 :: linux where "L_Key7 \<equiv> Linux 8"
abbreviation L_Key8 :: linux where "L_Key8 \<equiv> Linux 9"
abbreviation L_Key9 :: linux where "L_Key9 \<equiv> Linux 10"
abbreviation L_Key0 :: linux where "L_Key0 \<equiv> Linux 11"
abbreviation L_KeyMinus :: linux where "L_KeyMinus \<equiv> Linux 12"
abbreviation L_KeyEqual :: linux where "L_KeyEqual \<equiv> Linux 13"
abbreviation L_KeyBackspace :: linux where "L_KeyBackspace \<equiv> Linux 14"
abbreviation L_KeyTab :: linux where "L_KeyTab \<equiv> Linux 15"
abbreviation L_KeyQ :: linux where "L_KeyQ \<equiv> Linux 16"
abbreviation L_KeyW :: linux where "L_KeyW \<equiv> Linux 17"
abbreviation L_KeyE :: linux where "L_KeyE \<equiv> Linux 18"
abbreviation L_KeyR :: linux where "L_KeyR \<equiv> Linux 19"
abbreviation L_KeyT :: linux where "L_KeyT \<equiv> Linux 20"
abbreviation L_KeyY :: linux where "L_KeyY \<equiv> Linux 21"
abbreviation L_KeyU :: linux where "L_KeyU \<equiv> Linux 22"
abbreviation L_KeyI :: linux where "L_KeyI \<equiv> Linux 23"
abbreviation L_KeyO :: linux where "L_KeyO \<equiv> Linux 24"
abbreviation L_KeyP :: linux where "L_KeyP \<equiv> Linux 25"
abbreviation L_KeyLeftbrace :: linux where "L_KeyLeftbrace \<equiv> Linux 26"
abbreviation L_KeyRightbrace :: linux where "L_KeyRightbrace \<equiv> Linux 27"
abbreviation L_KeyEnter :: linux where "L_KeyEnter \<equiv> Linux 28"
abbreviation L_KeyLeftCtrl :: linux where "L_KeyLeftCtrl \<equiv> Linux 29"
abbreviation L_KeyA :: linux where "L_KeyA \<equiv> Linux 30"
abbreviation L_KeyS :: linux where "L_KeyS \<equiv> Linux 31"
abbreviation L_KeyD :: linux where "L_KeyD \<equiv> Linux 32"
abbreviation L_KeyF :: linux where "L_KeyF \<equiv> Linux 33"
abbreviation L_KeyG :: linux where "L_KeyG \<equiv> Linux 34"
abbreviation L_KeyH :: linux where "L_KeyH \<equiv> Linux 35"
abbreviation L_KeyJ :: linux where "L_KeyJ \<equiv> Linux 36"
abbreviation L_KeyK :: linux where "L_KeyK \<equiv> Linux 37"
abbreviation L_KeyL :: linux where "L_KeyL \<equiv> Linux 38"
abbreviation L_KeySemicolon :: linux where "L_KeySemicolon \<equiv> Linux 39"
abbreviation L_KeyApostrophe :: linux where "L_KeyApostrophe \<equiv> Linux 40"
abbreviation L_KeyGrave :: linux where "L_KeyGrave \<equiv> Linux 41"
abbreviation L_KeyLeftShift :: linux where "L_KeyLeftShift \<equiv> Linux 42"
abbreviation L_KeyBackslash :: linux where "L_KeyBackslash \<equiv> Linux 43"
abbreviation L_KeyZ :: linux where "L_KeyZ \<equiv> Linux 44"
abbreviation L_KeyX :: linux where "L_KeyX \<equiv> Linux 45"
abbreviation L_KeyC :: linux where "L_KeyC \<equiv> Linux 46"
abbreviation L_KeyV :: linux where "L_KeyV \<equiv> Linux 47"
abbreviation L_KeyB :: linux where "L_KeyB \<equiv> Linux 48"
abbreviation L_KeyN :: linux where "L_KeyN \<equiv> Linux 49"
abbreviation L_KeyM :: linux where "L_KeyM \<equiv> Linux 50"
abbreviation L_KeyComma :: linux where "L_KeyComma \<equiv> Linux 51"
abbreviation L_KeyDot :: linux where "L_KeyDot \<equiv> Linux 52"
abbreviation L_KeySlash :: linux where "L_KeySlash \<equiv> Linux 53"
abbreviation L_KeyRightShift :: linux where "L_KeyRightShift \<equiv> Linux 54"
abbreviation L_KeyKpAsterisk :: linux where "L_KeyKpAsterisk \<equiv> Linux 55"
abbreviation L_KeyLeftAlt :: linux where "L_KeyLeftAlt \<equiv> Linux 56"
abbreviation L_KeySpace :: linux where "L_KeySpace \<equiv> Linux 57"
abbreviation L_KeyCapsLock :: linux where "L_KeyCapsLock \<equiv> Linux 58"
abbreviation L_KeyF1 :: linux where "L_KeyF1 \<equiv> Linux 59"
abbreviation L_KeyF2 :: linux where "L_KeyF2 \<equiv> Linux 60"
abbreviation L_KeyF3 :: linux where "L_KeyF3 \<equiv> Linux 61"
abbreviation L_KeyF4 :: linux where "L_KeyF4 \<equiv> Linux 62"
abbreviation L_KeyF5 :: linux where "L_KeyF5 \<equiv> Linux 63"
abbreviation L_KeyF6 :: linux where "L_KeyF6 \<equiv> Linux 64"
abbreviation L_KeyF7 :: linux where "L_KeyF7 \<equiv> Linux 65"
abbreviation L_KeyF8 :: linux where "L_KeyF8 \<equiv> Linux 66"
abbreviation L_KeyF9 :: linux where "L_KeyF9 \<equiv> Linux 67"
abbreviation L_KeyF10 :: linux where "L_KeyF10 \<equiv> Linux 68"
abbreviation L_KeyNumlock :: linux where "L_KeyNumlock \<equiv> Linux 69"
abbreviation L_KeyScrollLock :: linux where "L_KeyScrollLock \<equiv> Linux 70"
abbreviation L_KeyKp7 :: linux where "L_KeyKp7 \<equiv> Linux 71"
abbreviation L_KeyKp8 :: linux where "L_KeyKp8 \<equiv> Linux 72"
abbreviation L_KeyKp9 :: linux where "L_KeyKp9 \<equiv> Linux 73"
abbreviation L_KeyKpMinus :: linux where "L_KeyKpMinus \<equiv> Linux 74"
abbreviation L_KeyKp4 :: linux where "L_KeyKp4 \<equiv> Linux 75"
abbreviation L_KeyKp5 :: linux where "L_KeyKp5 \<equiv> Linux 76"
abbreviation L_KeyKp6 :: linux where "L_KeyKp6 \<equiv> Linux 77"
abbreviation L_KeyKpplus :: linux where "L_KeyKpplus \<equiv> Linux 78"
abbreviation L_KeyKp1 :: linux where "L_KeyKp1 \<equiv> Linux 79"
abbreviation L_KeyKp2 :: linux where "L_KeyKp2 \<equiv> Linux 80"
abbreviation L_KeyKp3 :: linux where "L_KeyKp3 \<equiv> Linux 81"
abbreviation L_KeyKp0 :: linux where "L_KeyKp0 \<equiv> Linux 82"
abbreviation L_KeyKpDot :: linux where "L_KeyKpDot \<equiv> Linux 83"
abbreviation L_Invalid :: linux where "L_Invalid \<equiv> Linux 84"
abbreviation L_KeyZenkakuhankaku :: linux where "L_KeyZenkakuhankaku \<equiv> Linux 85"
abbreviation L_Key102nd :: linux where "L_Key102nd \<equiv> Linux 86"
abbreviation L_KeyF11 :: linux where "L_KeyF11 \<equiv> Linux 87"
abbreviation L_KeyF12 :: linux where "L_KeyF12 \<equiv> Linux 88"
abbreviation L_KeyRo :: linux where "L_KeyRo \<equiv> Linux 89"
abbreviation L_KeyKatakana :: linux where "L_KeyKatakana \<equiv> Linux 90"
abbreviation L_KeyHiragana :: linux where "L_KeyHiragana \<equiv> Linux 91"
abbreviation L_KeyHenkan :: linux where "L_KeyHenkan \<equiv> Linux 92"
abbreviation L_KeyKatakanahiragana :: linux where "L_KeyKatakanahiragana \<equiv> Linux 93"
abbreviation L_KeyMuhenkan :: linux where "L_KeyMuhenkan \<equiv> Linux 94"
abbreviation L_KeyKpJpComma :: linux where "L_KeyKpJpComma \<equiv> Linux 95"
abbreviation L_KeyKpEnter :: linux where "L_KeyKpEnter \<equiv> Linux 96"
abbreviation L_KeyRightCtrl :: linux where "L_KeyRightCtrl \<equiv> Linux 97"
abbreviation L_KeyKpslash :: linux where "L_KeyKpslash \<equiv> Linux 98"
abbreviation L_KeySysrq :: linux where "L_KeySysrq \<equiv> Linux 99"
abbreviation L_KeyRightalt :: linux where "L_KeyRightalt \<equiv> Linux 100"
abbreviation L_KeyLinefeed :: linux where "L_KeyLinefeed \<equiv> Linux 101"
abbreviation L_KeyHome :: linux where "L_KeyHome \<equiv> Linux 102"
abbreviation L_KeyUp :: linux where "L_KeyUp \<equiv> Linux 103"
abbreviation L_KeyPageup :: linux where "L_KeyPageup \<equiv> Linux 104"
abbreviation L_KeyLeft :: linux where "L_KeyLeft \<equiv> Linux 105"
abbreviation L_KeyRight :: linux where "L_KeyRight \<equiv> Linux 106"
abbreviation L_KeyEnd :: linux where "L_KeyEnd \<equiv> Linux 107"
abbreviation L_KeyDown :: linux where "L_KeyDown \<equiv> Linux 108"
abbreviation L_KeyPagedown :: linux where "L_KeyPagedown \<equiv> Linux 109"
abbreviation L_KeyInsert :: linux where "L_KeyInsert \<equiv> Linux 110"
abbreviation L_KeyDelete :: linux where "L_KeyDelete \<equiv> Linux 111"
abbreviation L_KeyMacro :: linux where "L_KeyMacro \<equiv> Linux 112"
abbreviation L_KeyMute :: linux where "L_KeyMute \<equiv> Linux 113"
abbreviation L_KeyVolumeDown :: linux where "L_KeyVolumeDown \<equiv> Linux 114"
abbreviation L_KeyVolumeUp :: linux where "L_KeyVolumeUp \<equiv> Linux 115"
abbreviation L_KeyPower :: linux where "L_KeyPower \<equiv> Linux 116"
abbreviation L_KeyKpequal :: linux where "L_KeyKpequal \<equiv> Linux 117"
abbreviation L_KeyKpplusminus :: linux where "L_KeyKpplusminus \<equiv> Linux 118"
abbreviation L_KeyPause :: linux where "L_KeyPause \<equiv> Linux 119"
abbreviation L_KeyScale :: linux where "L_KeyScale \<equiv> Linux 120"
abbreviation L_KeyKpcomma :: linux where "L_KeyKpcomma \<equiv> Linux 121"
abbreviation L_KeyHanguel :: linux where "L_KeyHanguel \<equiv> Linux 122"
abbreviation L_KeyHanja :: linux where "L_KeyHanja \<equiv> Linux 123"
abbreviation L_KeyYen :: linux where "L_KeyYen \<equiv> Linux 124"
abbreviation L_KeyLeftMeta :: linux where "L_KeyLeftMeta \<equiv> Linux 125"
abbreviation L_KeyRightmeta :: linux where "L_KeyRightmeta \<equiv> Linux 126"
abbreviation L_KeyCompose :: linux where "L_KeyCompose \<equiv> Linux 127"
abbreviation L_KeyStop :: linux where "L_KeyStop \<equiv> Linux 128"
abbreviation L_KeyAgain :: linux where "L_KeyAgain \<equiv> Linux 129"
abbreviation L_KeyProps :: linux where "L_KeyProps \<equiv> Linux 130"
abbreviation L_KeyUndo :: linux where "L_KeyUndo \<equiv> Linux 131"
abbreviation L_KeyFront :: linux where "L_KeyFront \<equiv> Linux 132"
abbreviation L_KeyCopy :: linux where "L_KeyCopy \<equiv> Linux 133"
abbreviation L_KeyOpen :: linux where "L_KeyOpen \<equiv> Linux 134"
abbreviation L_KeyPaste :: linux where "L_KeyPaste \<equiv> Linux 135"
abbreviation L_KeyFind :: linux where "L_KeyFind \<equiv> Linux 136"
abbreviation L_KeyCut :: linux where "L_KeyCut \<equiv> Linux 137"
abbreviation L_KeyHelp :: linux where "L_KeyHelp \<equiv> Linux 138"
abbreviation L_KeyMenu :: linux where "L_KeyMenu \<equiv> Linux 139"
abbreviation L_KeyCalc :: linux where "L_KeyCalc \<equiv> Linux 140"
abbreviation L_KeySetup :: linux where "L_KeySetup \<equiv> Linux 141"
abbreviation L_KeySleep :: linux where "L_KeySleep \<equiv> Linux 142"
abbreviation L_KeyWakeup :: linux where "L_KeyWakeup \<equiv> Linux 143"
abbreviation L_KeyFile :: linux where "L_KeyFile \<equiv> Linux 144"
abbreviation L_KeySendfile :: linux where "L_KeySendfile \<equiv> Linux 145"
abbreviation L_KeyDeletefile :: linux where "L_KeyDeletefile \<equiv> Linux 146"
abbreviation L_KeyXfer :: linux where "L_KeyXfer \<equiv> Linux 147"
abbreviation L_KeyProg1 :: linux where "L_KeyProg1 \<equiv> Linux 148"
abbreviation L_KeyProg2 :: linux where "L_KeyProg2 \<equiv> Linux 149"
abbreviation L_KeyWww :: linux where "L_KeyWww \<equiv> Linux 150"
abbreviation L_KeyMsdos :: linux where "L_KeyMsdos \<equiv> Linux 151"
abbreviation L_KeyCoffee :: linux where "L_KeyCoffee \<equiv> Linux 152"
abbreviation L_KeyRotateDisplay :: linux where "L_KeyRotateDisplay \<equiv> Linux 153"
abbreviation L_KeyCyclewindows :: linux where "L_KeyCyclewindows \<equiv> Linux 154"
abbreviation L_KeyMail :: linux where "L_KeyMail \<equiv> Linux 155"
abbreviation L_KeyBookmarks :: linux where "L_KeyBookmarks \<equiv> Linux 156"
abbreviation L_KeyComputer :: linux where "L_KeyComputer \<equiv> Linux 157"
abbreviation L_KeyBack :: linux where "L_KeyBack \<equiv> Linux 158"
abbreviation L_KeyForward :: linux where "L_KeyForward \<equiv> Linux 159"
abbreviation L_KeyClosecd :: linux where "L_KeyClosecd \<equiv> Linux 160"
abbreviation L_KeyEjectcd :: linux where "L_KeyEjectcd \<equiv> Linux 161"
abbreviation L_KeyEjectclosecd :: linux where "L_KeyEjectclosecd \<equiv> Linux 162"
abbreviation L_KeyNextsong :: linux where "L_KeyNextsong \<equiv> Linux 163"
abbreviation L_KeyPlaypause :: linux where "L_KeyPlaypause \<equiv> Linux 164"
abbreviation L_KeyPrevioussong :: linux where "L_KeyPrevioussong \<equiv> Linux 165"
abbreviation L_KeyStopcd :: linux where "L_KeyStopcd \<equiv> Linux 166"
abbreviation L_KeyRecord :: linux where "L_KeyRecord \<equiv> Linux 167"
abbreviation L_KeyRewind :: linux where "L_KeyRewind \<equiv> Linux 168"
abbreviation L_KeyPhone :: linux where "L_KeyPhone \<equiv> Linux 169"
abbreviation L_KeyIso :: linux where "L_KeyIso \<equiv> Linux 170"
abbreviation L_KeyConfig :: linux where "L_KeyConfig \<equiv> Linux 171"
abbreviation L_KeyHomepage :: linux where "L_KeyHomepage \<equiv> Linux 172"
abbreviation L_KeyRefresh :: linux where "L_KeyRefresh \<equiv> Linux 173"
abbreviation L_KeyExit :: linux where "L_KeyExit \<equiv> Linux 174"
abbreviation L_KeyMove :: linux where "L_KeyMove \<equiv> Linux 175"
abbreviation L_KeyEdit :: linux where "L_KeyEdit \<equiv> Linux 176"
abbreviation L_KeyScrollup :: linux where "L_KeyScrollup \<equiv> Linux 177"
abbreviation L_KeyScrolldown :: linux where "L_KeyScrolldown \<equiv> Linux 178"
abbreviation L_KeyKpleftparen :: linux where "L_KeyKpleftparen \<equiv> Linux 179"
abbreviation L_KeyKprightparen :: linux where "L_KeyKprightparen \<equiv> Linux 180"
abbreviation L_KeyNew :: linux where "L_KeyNew \<equiv> Linux 181"
abbreviation L_KeyRedo :: linux where "L_KeyRedo \<equiv> Linux 182"
abbreviation L_KeyF13 :: linux where "L_KeyF13 \<equiv> Linux 183"
abbreviation L_KeyF14 :: linux where "L_KeyF14 \<equiv> Linux 184"
abbreviation L_KeyF15 :: linux where "L_KeyF15 \<equiv> Linux 185"
abbreviation L_KeyF16 :: linux where "L_KeyF16 \<equiv> Linux 186"
abbreviation L_KeyF17 :: linux where "L_KeyF17 \<equiv> Linux 187"
abbreviation L_KeyF18 :: linux where "L_KeyF18 \<equiv> Linux 188"
abbreviation L_KeyF19 :: linux where "L_KeyF19 \<equiv> Linux 189"
abbreviation L_KeyF20 :: linux where "L_KeyF20 \<equiv> Linux 190"
abbreviation L_KeyF21 :: linux where "L_KeyF21 \<equiv> Linux 191"
abbreviation L_KeyF22 :: linux where "L_KeyF22 \<equiv> Linux 192"
abbreviation L_KeyF23 :: linux where "L_KeyF23 \<equiv> Linux 193"
abbreviation L_KeyF24 :: linux where "L_KeyF24 \<equiv> Linux 194"
abbreviation L_Invalid1 :: linux where "L_Invalid1 \<equiv> Linux 195"
abbreviation L_Invalid2 :: linux where "L_Invalid2 \<equiv> Linux 196"
abbreviation L_Invalid3 :: linux where "L_Invalid3 \<equiv> Linux 197"
abbreviation L_Invalid4 :: linux where "L_Invalid4 \<equiv> Linux 198"
abbreviation L_Invalid5 :: linux where "L_Invalid5 \<equiv> Linux 199"
abbreviation L_KeyPlaycd :: linux where "L_KeyPlaycd \<equiv> Linux 200"
abbreviation L_KeyPausecd :: linux where "L_KeyPausecd \<equiv> Linux 201"
abbreviation L_KeyProg3 :: linux where "L_KeyProg3 \<equiv> Linux 202"
abbreviation L_KeyProg4 :: linux where "L_KeyProg4 \<equiv> Linux 203"
abbreviation L_KeyAllApplications :: linux where "L_KeyAllApplications \<equiv> Linux 204"
abbreviation L_KeySuspend :: linux where "L_KeySuspend \<equiv> Linux 205"
abbreviation L_KeyClose :: linux where "L_KeyClose \<equiv> Linux 206"
abbreviation L_KeyPlay :: linux where "L_KeyPlay \<equiv> Linux 207"
abbreviation L_KeyFastforward :: linux where "L_KeyFastforward \<equiv> Linux 208"
abbreviation L_KeyBassboost :: linux where "L_KeyBassboost \<equiv> Linux 209"
abbreviation L_KeyPrint :: linux where "L_KeyPrint \<equiv> Linux 210"
abbreviation L_KeyHp :: linux where "L_KeyHp \<equiv> Linux 211"
abbreviation L_KeyCamera :: linux where "L_KeyCamera \<equiv> Linux 212"
abbreviation L_KeySound :: linux where "L_KeySound \<equiv> Linux 213"
abbreviation L_KeyQuestion :: linux where "L_KeyQuestion \<equiv> Linux 214"
abbreviation L_KeyEmail :: linux where "L_KeyEmail \<equiv> Linux 215"
abbreviation L_KeyChat :: linux where "L_KeyChat \<equiv> Linux 216"
abbreviation L_KeySearch :: linux where "L_KeySearch \<equiv> Linux 217"
abbreviation L_KeyConnect :: linux where "L_KeyConnect \<equiv> Linux 218"
abbreviation L_KeyFinance :: linux where "L_KeyFinance \<equiv> Linux 219"
abbreviation L_KeySport :: linux where "L_KeySport \<equiv> Linux 220"
abbreviation L_KeyShop :: linux where "L_KeyShop \<equiv> Linux 221"
abbreviation L_KeyAlterase :: linux where "L_KeyAlterase \<equiv> Linux 222"
abbreviation L_KeyCancel :: linux where "L_KeyCancel \<equiv> Linux 223"
abbreviation L_KeyBrightnessdown :: linux where "L_KeyBrightnessdown \<equiv> Linux 224"
abbreviation L_KeyBrightnessup :: linux where "L_KeyBrightnessup \<equiv> Linux 225"
abbreviation L_KeyMedia :: linux where "L_KeyMedia \<equiv> Linux 226"
abbreviation L_KeySwitchvideomode :: linux where "L_KeySwitchvideomode \<equiv> Linux 227"
abbreviation L_KeyKbdillumtoggle :: linux where "L_KeyKbdillumtoggle \<equiv> Linux 228"
abbreviation L_KeyKbdillumdown :: linux where "L_KeyKbdillumdown \<equiv> Linux 229"
abbreviation L_KeyKbdillumup :: linux where "L_KeyKbdillumup \<equiv> Linux 230"
abbreviation L_KeySend :: linux where "L_KeySend \<equiv> Linux 231"
abbreviation L_KeyReply :: linux where "L_KeyReply \<equiv> Linux 232"
abbreviation L_KeyForwardmail :: linux where "L_KeyForwardmail \<equiv> Linux 233"
abbreviation L_KeySave :: linux where "L_KeySave \<equiv> Linux 234"
abbreviation L_KeyDocuments :: linux where "L_KeyDocuments \<equiv> Linux 235"
abbreviation L_KeyBattery :: linux where "L_KeyBattery \<equiv> Linux 236"
abbreviation L_KeyBluetooth :: linux where "L_KeyBluetooth \<equiv> Linux 237"
abbreviation L_KeyWlan :: linux where "L_KeyWlan \<equiv> Linux 238"
abbreviation L_KeyUwb :: linux where "L_KeyUwb \<equiv> Linux 239"
abbreviation L_KeyUnknown :: linux where "L_KeyUnknown \<equiv> Linux 240"
abbreviation L_KeyVideoNext :: linux where "L_KeyVideoNext \<equiv> Linux 241"
abbreviation L_KeyVideoPrev :: linux where "L_KeyVideoPrev \<equiv> Linux 242"
abbreviation L_KeyBrightnessCycle :: linux where "L_KeyBrightnessCycle \<equiv> Linux 243"
abbreviation L_KeyBrightnessAuto :: linux where "L_KeyBrightnessAuto \<equiv> Linux 244"
abbreviation L_KeyDisplayOff :: linux where "L_KeyDisplayOff \<equiv> Linux 245"
abbreviation L_KeyWwan :: linux where "L_KeyWwan \<equiv> Linux 246"
abbreviation L_KeyRfkill :: linux where "L_KeyRfkill \<equiv> Linux 247"
abbreviation L_KeyMicmute :: linux where "L_KeyMicmute \<equiv> Linux 248"
abbreviation L_KeyCount :: linux where "L_KeyCount \<equiv> Linux 249"

definition windows_variants_1 :: "(string \<times> windows) list" where
  "windows_variants_1 = [
   (''Shutdown'', W_Shutdown), (''SystemSleep'', W_SystemSleep),
   (''SystemWakeUp'', W_SystemWakeUp), (''ErrorRollOver'', W_ErrorRollOver), (''KeyA'', W_KeyA),
   (''KeyB'', W_KeyB), (''KeyC'', W_KeyC), (''KeyD'', W_KeyD), (''KeyE'', W_KeyE),
   (''KeyF'', W_KeyF), (''KeyG'', W_KeyG), (''KeyH'', W_KeyH), (''KeyI'', W_KeyI),
   (''KeyJ'', W_KeyJ), (''KeyK'', W_KeyK), (''KeyL'', W_KeyL), (''KeyM'', W_KeyM),
   (''KeyN'', W_KeyN), (''KeyO'', W_KeyO), (''KeyP'', W_KeyP), (''KeyQ'', W_KeyQ),
   (''KeyR'', W_KeyR), (''KeyS'', W_KeyS), (''KeyT'', W_KeyT), (''KeyU'', W_KeyU),
   (''KeyV'', W_KeyV), (''KeyW'', W_KeyW), (''KeyX'', W_KeyX), (''KeyY'', W_KeyY),
   (''KeyZ'', W_KeyZ), (''Key1'', W_Key1), (''Key2'', W_Key2), (''Key3'', W_Key3),
   (''Key4'', W_Key4), (''Key5'', W_Key5), (''Key6'', W_Key6), (''Key7'', W_Key7),
   (''Key8'', W_Key8), (''Key9'', W_Key9), (''Key0'', W_Key0), (''KeyEnter'', W_KeyEnter),
   (''KeyEsc'', W_KeyEsc), (''KeyDelete'', W_KeyDelete), (''KeyTab'', W_KeyTab),
   (''KeySpace'', W_KeySpace), (''KeyMinus'', W_KeyMinus), (''KeyEqual'', W_KeyEqual),
   (''KeyLeftBrace'', W_KeyLeftBrace), (''KeyRightBrace'', W_KeyRightBrace),
   (''KeyBackslash'', W_KeyBackslash), (''KeySemiColon'', W_KeySemiColon),
   (''KeyApostrophe'', W_KeyApostrophe), (''KeyGrave'', W_KeyGrave), (''KeyComma'', W_KeyComma),
   (''KeyDot'', W_KeyDot), (''KeySlash'', W_KeySlash), (''KeyCapsLock'', W_KeyCapsLock),
   (''KeyF1'', W_KeyF1), (''KeyF2'', W_KeyF2), (''KeyF3'', W_KeyF3), (''KeyF4'', W_KeyF4),
   (''KeyF5'', W_KeyF5), (''KeyF6'', W_KeyF6), (''KeyF7'', W_KeyF7), (''KeyF8'', W_KeyF8),
   (''KeyF9'', W_KeyF9), (''KeyF10'', W_KeyF10), (''KeyF11'', W_KeyF11), (''KeyF12'', W_KeyF12),
   (''KeyPrintScreen'', W_KeyPrintScreen), (''KeyScrollLock'', W_KeyScrollLock),
   (''KeyPause'', W_KeyPause), (''KeyInsert'', W_KeyInsert), (''KeyHome'', W_KeyHome),
   (''KeyPageUp'', W_KeyPageUp), (''KeyDeleteForward'', W_KeyDeleteForward),
   (''KeyEnd'', W_KeyEnd), (''KeyPageDown'', W_KeyPageDown), (''KeyRight'', W_KeyRight),
   (''KeyLeft'', W_KeyLeft), (''KeyDown'', W_KeyDown), (''KeyUp'', W_KeyUp),
   (''KeypadNumLock'', W_KeypadNumLock), (''KeypadSlash'', W_KeypadSlash),
   (''KeypadStar'', W_KeypadStar), (''KeypadDash'', W_KeypadDash), (''KeypadPlus'', W_KeypadPlus),
   (''KeypadEnter'', W_KeypadEnter), (''Keypad1End'', W_Keypad1End),
   (''Keypad2DownArrow'', W_Keypad2DownArrow), (''Keypad3PageDn'', W_Keypad3PageDn),
   (''Keypad4LeftArrow'', W_Keypad4LeftArrow), (''Keypad5'', W_Keypad5),
   (''Keypad6RightArrow'', W_Keypad6RightArrow), (''Keypad7Home'', W_Keypad7Home),
   (''Keypad8UpArrow'', W_Keypad8UpArrow), (''Keypad9PageUp'', W_Keypad9PageUp),
   (''Keypad0Insert'', W_Keypad0Insert), (''KeypadDot'', W_KeypadDot),
   (''KeyNonUSSlashBar'', W_KeyNonUSSlashBar), (''KeyApplication'', W_KeyApplication),
   (''KeypadEquals'', W_KeypadEquals), (''KeyF13'', W_KeyF13), (''KeyF14'', W_KeyF14),
   (''KeyF15'', W_KeyF15), (''KeyF16'', W_KeyF16), (''KeyF17'', W_KeyF17), (''KeyF18'', W_KeyF18),
   (''KeyF19'', W_KeyF19), (''KeyF20'', W_KeyF20), (''KeyF21'', W_KeyF21), (''KeyF22'', W_KeyF22),
   (''KeyF23'', W_KeyF23), (''KeyF24'', W_KeyF24), (''KeypadComma'', W_KeypadComma),
   (''KeyInternational1'', W_KeyInternational1), (''KeyInternational2'', W_KeyInternational2),
   (''KeyInternational3'', W_KeyInternational3), (''KeyInternational4'', W_KeyInternational4),
   (''KeyInternational5'', W_KeyInternational5), (''KeyLANG1'', W_KeyLANG1),
   (''KeyLANG2'', W_KeyLANG2), (''KeyLANG3'', W_KeyLANG3), (''KeyLANG4'', W_KeyLANG4),
   (''KeyLeftCtrl'', W_KeyLeftCtrl), (''KeyLeftShift'', W_KeyLeftShift),
   (''KeyLeftAlt'', W_KeyLeftAlt), (''KeyLeftGUI'', W_KeyLeftGUI),
   (''KeyRightCtrl'', W_KeyRightCtrl), (''KeyRightShift'', W_KeyRightShift),
   (''KeyFakeRightShift'', W_KeyFakeRightShift), (''KeyRightAlt'', W_KeyRightAlt),
   (''KeyRightGUI'', W_KeyRightGUI), (''KeyScanNextTrack'', W_KeyScanNextTrack),
   (''KeyScanPreviousTrack'', W_KeyScanPreviousTrack), (''KeyStop'', W_KeyStop),
   (''KeyPlayPause'', W_KeyPlayPause), (''KeyMute'', W_KeyMute), (''KeyVolumeUp'', W_KeyVolumeUp),
   (''KeyVolumeDown'', W_KeyVolumeDown),
   (''ALConsumerControlConfiguration'', W_ALConsumerControlConfiguration),
   (''ALEmailReader'', W_ALEmailReader), (''ALCalculator'', W_ALCalculator)]"

definition windows_variants_2 :: "(string \<times> windows) list" where
  "windows_variants_2 = [
   (''ALLocalMachineBrowser'', W_ALLocalMachineBrowser), (''ACSearch'', W_ACSearch),
   (''ACHome'', W_ACHome), (''ACBack'', W_ACBack), (''ACForward'', W_ACForward),
   (''ACStop'', W_ACStop), (''ACRefresh'', W_ACRefresh), (''ACBookmarks'', W_ACBookmarks)]"

definition windows_variants :: "(string \<times> windows) list" where
  "windows_variants = windows_variants_1 @ windows_variants_2"

definition linux_variants_1 :: "(string \<times> linux) list" where
  "linux_variants_1 = [
   (''KeyReserved'', L_KeyReserved), (''KeyEsc'', L_KeyEsc), (''Key1'', L_Key1),
   (''Key2'', L_Key2), (''Key3'', L_Key3), (''Key4'', L_Key4), (''Key5'', L_Key5),
   (''Key6'', L_Key6), (''Key7'', L_Key7), (''Key8'', L_Key8), (''Key9'', L_Key9),
   (''Key0'', L_Key0), (''KeyMinus'', L_KeyMinus), (''KeyEqual'', L_KeyEqual),
   (''KeyBackspace'', L_KeyBackspace), (''KeyTab'', L_KeyTab), (''KeyQ'', L_KeyQ),
   (''KeyW'', L_KeyW), (''KeyE'', L_KeyE), (''KeyR'', L_KeyR), (''KeyT'', L_KeyT),
   (''KeyY'', L_KeyY), (''KeyU'', L_KeyU), (''KeyI'', L_KeyI), (''KeyO'', L_KeyO),
   (''KeyP'', L_KeyP), (''KeyLeftbrace'', L_KeyLeftbrace), (''KeyRightbrace'', L_KeyRightbrace),
   (''KeyEnter'', L_KeyEnter), (''KeyLeftCtrl'', L_KeyLeftCtrl), (''KeyA'', L_KeyA),
   (''KeyS'', L_KeyS), (''KeyD'', L_KeyD), (''KeyF'', L_KeyF), (''KeyG'', L_KeyG),
   (''KeyH'', L_KeyH), (''KeyJ'', L_KeyJ), (''KeyK'', L_KeyK), (''KeyL'', L_KeyL),
   (''KeySemicolon'', L_KeySemicolon), (''KeyApostrophe'', L_KeyApostrophe),
   (''KeyGrave'', L_KeyGrave), (''KeyLeftShift'', L_KeyLeftShift),
   (''KeyBackslash'', L_KeyBackslash), (''KeyZ'', L_KeyZ), (''KeyX'', L_KeyX), (''KeyC'', L_KeyC),
   (''KeyV'', L_KeyV), (''KeyB'', L_KeyB), (''KeyN'', L_KeyN), (''KeyM'', L_KeyM),
   (''KeyComma'', L_KeyComma), (''KeyDot'', L_KeyDot), (''KeySlash'', L_KeySlash),
   (''KeyRightShift'', L_KeyRightShift), (''KeyKpAsterisk'', L_KeyKpAsterisk),
   (''KeyLeftAlt'', L_KeyLeftAlt), (''KeySpace'', L_KeySpace), (''KeyCapsLock'', L_KeyCapsLock),
   (''KeyF1'', L_KeyF1), (''KeyF2'', L_KeyF2), (''KeyF3'', L_KeyF3), (''KeyF4'', L_KeyF4),
   (''KeyF5'', L_KeyF5), (''KeyF6'', L_KeyF6), (''KeyF7'', L_KeyF7), (''KeyF8'', L_KeyF8),
   (''KeyF9'', L_KeyF9), (''KeyF10'', L_KeyF10), (''KeyNumlock'', L_KeyNumlock),
   (''KeyScrollLock'', L_KeyScrollLock), (''KeyKp7'', L_KeyKp7), (''KeyKp8'', L_KeyKp8),
   (''KeyKp9'', L_KeyKp9), (''KeyKpMinus'', L_KeyKpMinus), (''KeyKp4'', L_KeyKp4),
   (''KeyKp5'', L_KeyKp5), (''KeyKp6'', L_KeyKp6), (''KeyKpplus'', L_KeyKpplus),
   (''KeyKp1'', L_KeyKp1), (''KeyKp2'', L_KeyKp2), (''KeyKp3'', L_KeyKp3), (''KeyKp0'', L_KeyKp0),
   (''KeyKpDot'', L_KeyKpDot), (''Invalid'', L_Invalid),
   (''KeyZenkakuhankaku'', L_KeyZenkakuhankaku), (''Key102nd'', L_Key102nd),
   (''KeyF11'', L_KeyF11), (''KeyF12'', L_KeyF12), (''KeyRo'', L_KeyRo),
   (''KeyKatakana'', L_KeyKatakana), (''KeyHiragana'', L_KeyHiragana),
   (''KeyHenkan'', L_KeyHenkan), (''KeyKatakanahiragana'', L_KeyKatakanahiragana),
   (''KeyMuhenkan'', L_KeyMuhenkan), (''KeyKpJpComma'', L_KeyKpJpComma),
   (''KeyKpEnter'', L_KeyKpEnter), (''KeyRightCtrl'', L_KeyRightCtrl),
   (''KeyKpslash'', L_KeyKpslash), (''KeySysrq'', L_KeySysrq), (''KeyRightalt'', L_KeyRightalt),
   (''KeyLinefeed'', L_KeyLinefeed), (''KeyHome'', L_KeyHome), (''KeyUp'', L_KeyUp),
   (''KeyPageup'', L_KeyPageup), (''KeyLeft'', L_KeyLeft), (''KeyRight'', L_KeyRight),
   (''KeyEnd'', L_KeyEnd), (''KeyDown'', L_KeyDown), (''KeyPagedown'', L_KeyPagedown),
   (''KeyInsert'', L_KeyInsert), (''KeyDelete'', L_KeyDelete), (''KeyMacro'', L_KeyMacro),
   (''KeyMute'', L_KeyMute), (''KeyVolumeDown'', L_KeyVolumeDown),
   (''KeyVolumeUp'', L_KeyVolumeUp), (''KeyPower'', L_KeyPower), (''KeyKpequal'', L_KeyKpequal),
   (''KeyKpplusminus'', L_KeyKpplusminus), (''KeyPause'', L_KeyPause), (''KeyScale'', L_KeyScale),
   (''KeyKpcomma'', L_KeyKpcomma), (''KeyHanguel'', L_KeyHanguel), (''KeyHanja'', L_KeyHanja),
   (''KeyYen'', L_KeyYen), (''KeyLeftMeta'', L_KeyLeftMeta), (''KeyRightmeta'', L_KeyRightmeta),
   (''KeyCompose'', L_KeyCompose), (''KeyStop'', L_KeyStop), (''KeyAgain'', L_KeyAgain),
   (''KeyProps'', L_KeyProps), (''KeyUndo'', L_KeyUndo), (''KeyFront'', L_KeyFront),
   (''KeyCopy'', L_KeyCopy), (''KeyOpen'', L_KeyOpen), (''KeyPaste'', L_KeyPaste),
   (''KeyFind'', L_KeyFind), (''KeyCut'', L_KeyCut), (''KeyHelp'', L_KeyHelp),
   (''KeyMenu'', L_KeyMenu), (''KeyCalc'', L_KeyCalc), (''KeySetup'', L_KeySetup),
   (''KeySleep'', L_KeySleep), (''KeyWakeup'', L_KeyWakeup), (''KeyFile'', L_KeyFile),
   (''KeySendfile'', L_KeySendfile), (''KeyDeletefile'', L_KeyDeletefile)]"

definition linux_variants_2 :: "(string \<times> linux) list" where
  "linux_variants_2 = [
   (''KeyXfer'', L_KeyXfer), (''KeyProg1'', L_KeyProg1), (''KeyProg2'', L_KeyProg2),
   (''KeyWww'', L_KeyWww), (''KeyMsdos'', L_KeyMsdos), (''KeyCoffee'', L_KeyCoffee),
   (''KeyRotateDisplay'', L_KeyRotateDisplay), (''KeyCyclewindows'', L_KeyCyclewindows),
   (''KeyMail'', L_KeyMail), (''KeyBookmarks'', L_KeyBookmarks), (''KeyComputer'', L_KeyComputer),
   (''KeyBack'', L_KeyBack), (''KeyForward'', L_KeyForward), (''KeyClosecd'', L_KeyClosecd),
   (''KeyEjectcd'', L_KeyEjectcd), (''KeyEjectclosecd'', L_KeyEjectclosecd),
   (''KeyNextsong'', L_KeyNextsong), (''KeyPlaypause'', L_KeyPlaypause),
   (''KeyPrevioussong'', L_KeyPrevioussong), (''KeyStopcd'', L_KeyStopcd),
   (''KeyRecord'', L_KeyRecord), (''KeyRewind'', L_KeyRewind), (''KeyPhone'', L_KeyPhone),
   (''KeyIso'', L_KeyIso), (''KeyConfig'', L_KeyConfig), (''KeyHomepage'', L_KeyHomepage),
   (''KeyRefresh'', L_KeyRefresh), (''KeyExit'', L_KeyExit), (''KeyMove'', L_KeyMove),
   (''KeyEdit'', L_KeyEdit), (''KeyScrollup'', L_KeyScrollup),
   (''KeyScrolldown'', L_KeyScrolldown), (''KeyKpleftparen'', L_KeyKpleftparen),
   (''KeyKprightparen'', L_KeyKprightparen), (''KeyNew'', L_KeyNew), (''KeyRedo'', L_KeyRedo),
   (''KeyF13'', L_KeyF13), (''KeyF14'', L_KeyF14), (''KeyF15'', L_KeyF15), (''KeyF16'', L_KeyF16),
   (''KeyF17'', L_KeyF17), (''KeyF18'', L_KeyF18), (''KeyF19'', L_KeyF19), (''KeyF20'', L_KeyF20),
   (''KeyF21'', L_KeyF21), (''KeyF22'', L_KeyF22), (''KeyF23'', L_KeyF23), (''KeyF24'', L_KeyF24),
   (''Invalid1'', L_Invalid1), (''Invalid2'', L_Invalid2), (''Invalid3'', L_Invalid3),
   (''Invalid4'', L_Invalid4), (''Invalid5'', L_Invalid5), (''KeyPlaycd'', L_KeyPlaycd),
   (''KeyPausecd'', L_KeyPausecd), (''KeyProg3'', L_KeyProg3), (''KeyProg4'', L_KeyProg4),
   (''KeyAllApplications'', L_KeyAllApplications), (''KeySuspend'', L_KeySuspend),
   (''KeyClose'', L_KeyClose), (''KeyPlay'', L_KeyPlay), (''KeyFastforward'', L_KeyFastforward),
   (''KeyBassboost'', L_KeyBassboost), (''KeyPrint'', L_KeyPrint), (''KeyHp'', L_KeyHp),
   (''KeyCamera'', L_KeyCamera), (''KeySound'', L_KeySound), (''KeyQuestion'', L_KeyQuestion),
   (''KeyEmail'', L_KeyEmail), (''KeyChat'', L_KeyChat), (''KeySearch'', L_KeySearch),
   (''KeyConnect'', L_KeyConnect), (''KeyFinance'', L_KeyFinance), (''KeySport'', L_KeySport),
   (''KeyShop'', L_KeyShop), (''KeyAlterase'', L_KeyAlterase), (''KeyCancel'', L_KeyCancel),
   (''KeyBrightnessdown'', L_KeyBrightnessdown), (''KeyBrightnessup'', L_KeyBrightnessup),
   (''KeyMedia'', L_KeyMedia), (''KeySwitchvideomode'', L_KeySwitchvideomode),
   (''KeyKbdillumtoggle'', L_KeyKbdillumtoggle), (''KeyKbdillumdown'', L_KeyKbdillumdown),
   (''KeyKbdillumup'', L_KeyKbdillumup), (''KeySend'', L_KeySend), (''KeyReply'', L_KeyReply),
   (''KeyForwardmail'', L_KeyForwardmail), (''KeySave'', L_KeySave),
   (''KeyDocuments'', L_KeyDocuments), (''KeyBattery'', L_KeyBattery),
   (''KeyBluetooth'', L_KeyBluetooth), (''KeyWlan'', L_KeyWlan), (''KeyUwb'', L_KeyUwb),
   (''KeyUnknown'', L_KeyUnknown), (''KeyVideoNext'', L_KeyVideoNext),
   (''KeyVideoPrev'', L_KeyVideoPrev), (''KeyBrightnessCycle'', L_KeyBrightnessCycle),
   (''KeyBrightnessAuto'', L_KeyBrightnessAuto), (''KeyDisplayOff'', L_KeyDisplayOff),
   (''KeyWwan'', L_KeyWwan), (''KeyRfkill'', L_KeyRfkill), (''KeyMicmute'', L_KeyMicmute),
   (''KeyCount'', L_KeyCount)]"

definition linux_variants :: "(string \<times> linux) list" where
  "linux_variants = linux_variants_1 @ linux_variants_2"

section \<open>The conversion tables\<close>

text \<open>
  The arms of the two \<open>TryFrom\<close> implementations in source order: \<open>None\<close> is
  \<open>Err(())\<close>.
\<close>

definition linux_to_windows_arms_1 :: "(linux \<times> windows option) list" where
  "linux_to_windows_arms_1 = [
   (L_KeyReserved, None), (L_KeyEsc, Some W_KeyEsc), (L_Key1, Some W_Key1), (L_Key2, Some W_Key2),
   (L_Key3, Some W_Key3), (L_Key4, Some W_Key4), (L_Key5, Some W_Key5), (L_Key6, Some W_Key6),
   (L_Key7, Some W_Key7), (L_Key8, Some W_Key8), (L_Key9, Some W_Key9), (L_Key0, Some W_Key0),
   (L_KeyMinus, Some W_KeyMinus), (L_KeyEqual, Some W_KeyEqual),
   (L_KeyBackspace, Some W_KeyDelete), (L_KeyTab, Some W_KeyTab), (L_KeyQ, Some W_KeyQ),
   (L_KeyW, Some W_KeyW), (L_KeyE, Some W_KeyE), (L_KeyR, Some W_KeyR), (L_KeyT, Some W_KeyT),
   (L_KeyY, Some W_KeyY), (L_KeyU, Some W_KeyU), (L_KeyI, Some W_KeyI), (L_KeyO, Some W_KeyO),
   (L_KeyP, Some W_KeyP), (L_KeyLeftbrace, Some W_KeyLeftBrace),
   (L_KeyRightbrace, Some W_KeyRightBrace), (L_KeyEnter, Some W_KeyEnter),
   (L_KeyLeftCtrl, Some W_KeyLeftCtrl), (L_KeyA, Some W_KeyA), (L_KeyS, Some W_KeyS),
   (L_KeyD, Some W_KeyD), (L_KeyF, Some W_KeyF), (L_KeyG, Some W_KeyG), (L_KeyH, Some W_KeyH),
   (L_KeyJ, Some W_KeyJ), (L_KeyK, Some W_KeyK), (L_KeyL, Some W_KeyL),
   (L_KeySemicolon, Some W_KeySemiColon), (L_KeyApostrophe, Some W_KeyApostrophe),
   (L_KeyGrave, Some W_KeyGrave), (L_KeyLeftShift, Some W_KeyLeftShift),
   (L_KeyBackslash, Some W_KeyBackslash), (L_KeyZ, Some W_KeyZ), (L_KeyX, Some W_KeyX),
   (L_KeyC, Some W_KeyC), (L_KeyV, Some W_KeyV), (L_KeyB, Some W_KeyB), (L_KeyN, Some W_KeyN),
   (L_KeyM, Some W_KeyM), (L_KeyComma, Some W_KeyComma), (L_KeyDot, Some W_KeyDot),
   (L_KeySlash, Some W_KeySlash), (L_KeyRightShift, Some W_KeyRightShift),
   (L_KeyKpAsterisk, Some W_KeypadStar), (L_KeyLeftAlt, Some W_KeyLeftAlt),
   (L_KeySpace, Some W_KeySpace), (L_KeyCapsLock, Some W_KeyCapsLock), (L_KeyF1, Some W_KeyF1),
   (L_KeyF2, Some W_KeyF2), (L_KeyF3, Some W_KeyF3), (L_KeyF4, Some W_KeyF4),
   (L_KeyF5, Some W_KeyF5), (L_KeyF6, Some W_KeyF6), (L_KeyF7, Some W_KeyF7),
   (L_KeyF8, Some W_KeyF8), (L_KeyF9, Some W_KeyF9), (L_KeyF10, Some W_KeyF10),
   (L_KeyNumlock, Some W_KeypadNumLock), (L_KeyScrollLock, Some W_KeyScrollLock),
   (L_KeyKp7, Some W_Keypad7Home), (L_KeyKp8, Some W_Keypad8UpArrow),
   (L_KeyKp9, Some W_Keypad9PageUp), (L_KeyKpMinus, Some W_KeypadDash),
   (L_KeyKp4, Some W_Keypad4LeftArrow), (L_KeyKp5, Some W_Keypad5),
   (L_KeyKp6, Some W_Keypad6RightArrow), (L_KeyKpplus, Some W_KeypadPlus),
   (L_KeyKp1, Some W_Keypad1End), (L_KeyKp2, Some W_Keypad2DownArrow),
   (L_KeyKp3, Some W_Keypad3PageDn), (L_KeyKp0, Some W_Keypad0Insert),
   (L_KeyKpDot, Some W_KeypadDot), (L_KeyZenkakuhankaku, Some W_KeyF24),
   (L_Key102nd, Some W_KeyNonUSSlashBar), (L_KeyF11, Some W_KeyF11), (L_KeyF12, Some W_KeyF12),
   (L_KeyRo, Some W_KeyInternational1), (L_KeyKatakana, Some W_KeyLANG3),
   (L_KeyHiragana, Some W_KeyLANG4), (L_KeyHenkan, Some W_KeyInternational4),
   (L_KeyKatakanahiragana, Some W_KeyInternational2), (L_KeyMuhenkan, Some W_KeyInternational5),
   (L_KeyKpJpComma, Some W_KeypadComma), (L_KeyKpEnter, Some W_KeypadEnter),
   (L_KeyRightCtrl, Some W_KeyRightCtrl), (L_KeyKpslash, Some W_KeypadSlash),
   (L_KeySysrq, Some W_KeyPrintScreen), (L_KeyRightalt, Some W_KeyRightAlt),
   (L_KeyLinefeed, Some W_KeyEnter), (L_KeyHome, Some W_KeyHome), (L_KeyUp, Some W_KeyUp),
   (L_KeyPageup, Some W_KeyPageUp), (L_KeyLeft, Some W_KeyLeft), (L_KeyRight, Some W_KeyRight),
   (L_KeyEnd, Some W_KeyEnd), (L_KeyDown, Some W_KeyDown), (L_KeyPagedown, Some W_KeyPageDown),
   (L_KeyInsert, Some W_KeyInsert), (L_KeyDelete, Some W_KeyDeleteForward), (L_KeyMacro, None),
   (L_KeyMute, Some W_KeyMute), (L_KeyVolumeDown, Some W_KeyVolumeDown),
   (L_KeyVolumeUp, Some W_KeyVolumeUp), (L_KeyPower, Some W_Shutdown),
   (L_KeyKpequal, Some W_KeypadEquals), (L_KeyKpplusminus, Some W_KeypadPlus),
   (L_KeyPause, Some W_KeyPause), (L_KeyScale, None), (L_KeyKpcomma, Some W_KeypadComma),
   (L_KeyHanguel, Some W_KeyLANG1), (L_KeyHanja, Some W_KeyLANG2),
   (L_KeyYen, Some W_KeyInternational3), (L_KeyLeftMeta, Some W_KeyLeftGUI),
   (L_KeyRightmeta, Some W_KeyRightGUI), (L_KeyCompose, Some W_KeyApplication),
   (L_KeyStop, Some W_ACStop), (L_KeyAgain, None), (L_KeyProps, None), (L_KeyUndo, None),
   (L_KeyFront, None), (L_KeyCopy, None), (L_KeyOpen, None), (L_KeyPaste, None),
   (L_KeyFind, Some W_ACSearch), (L_KeyCut, None), (L_KeyHelp, Some W_KeyF1),
   (L_KeyMenu, Some W_KeyApplication), (L_KeyCalc, Some W_ALCalculator), (L_KeySetup, None),
   (L_KeySleep, Some W_SystemSleep), (L_KeyWakeup, Some W_SystemWakeUp),
   (L_KeyFile, Some W_ALLocalMachineBrowser), (L_KeySendfile, None), (L_KeyDeletefile, None),
   (L_KeyXfer, None), (L_KeyProg1, None)]"

definition linux_to_windows_arms_2 :: "(linux \<times> windows option) list" where
  "linux_to_windows_arms_2 = [
   (L_KeyProg2, None), (L_KeyWww, Some W_ACSearch), (L_KeyMsdos, None), (L_KeyCoffee, None),
   (L_KeyRotateDisplay, None), (L_KeyCyclewindows, None), (L_KeyMail, Some W_ALEmailReader),
   (L_KeyBookmarks, Some W_ACBookmarks), (L_KeyComputer, Some W_ACHome),
   (L_KeyBack, Some W_ACBack), (L_KeyForward, Some W_ACForward), (L_KeyClosecd, None),
   (L_KeyEjectcd, None), (L_KeyEjectclosecd, None), (L_KeyNextsong, Some W_KeyScanNextTrack),
   (L_KeyPlaypause, Some W_KeyPlayPause), (L_KeyPrevioussong, Some W_KeyScanPreviousTrack),
   (L_KeyStopcd, Some W_KeyStop), (L_KeyRecord, None), (L_KeyRewind, None), (L_KeyPhone, None),
   (L_KeyIso, None), (L_KeyConfig, None), (L_KeyHomepage, Some W_ACHome),
   (L_KeyRefresh, Some W_ACRefresh), (L_KeyExit, None), (L_KeyMove, None), (L_KeyEdit, None),
   (L_KeyScrollup, None), (L_KeyScrolldown, None), (L_KeyKpleftparen, None),
   (L_KeyKprightparen, None), (L_KeyNew, None), (L_KeyRedo, None), (L_KeyF13, Some W_KeyF13),
   (L_KeyF14, Some W_KeyF14), (L_KeyF15, Some W_KeyF15), (L_KeyF16, Some W_KeyF16),
   (L_KeyF17, Some W_KeyF17), (L_KeyF18, Some W_KeyF18), (L_KeyF19, Some W_KeyF19),
   (L_KeyF20, Some W_KeyF20), (L_KeyF21, Some W_KeyF21), (L_KeyF22, Some W_KeyF22),
   (L_KeyF23, Some W_KeyF23), (L_KeyF24, Some W_KeyF24), (L_KeyPlaycd, None), (L_KeyPausecd, None),
   (L_KeyProg3, None), (L_KeyProg4, None), (L_KeyAllApplications, None), (L_KeySuspend, None),
   (L_KeyClose, None), (L_KeyPlay, None), (L_KeyFastforward, None), (L_KeyBassboost, None),
   (L_KeyPrint, None), (L_KeyHp, None), (L_KeyCamera, None), (L_KeySound, None),
   (L_KeyQuestion, None), (L_KeyEmail, None), (L_KeyChat, None), (L_KeySearch, None),
   (L_KeyConnect, None), (L_KeyFinance, None), (L_KeySport, None), (L_KeyShop, None),
   (L_KeyAlterase, None), (L_KeyCancel, None), (L_KeyBrightnessdown, None),
   (L_KeyBrightnessup, None), (L_KeyMedia, None), (L_KeySwitchvideomode, None),
   (L_KeyKbdillumtoggle, None), (L_KeyKbdillumdown, None), (L_KeyKbdillumup, None),
   (L_KeySend, None), (L_KeyReply, None), (L_KeyForwardmail, None), (L_KeySave, None),
   (L_KeyDocuments, None), (L_KeyBattery, None), (L_KeyBluetooth, None), (L_KeyWlan, None),
   (L_KeyUwb, None), (L_KeyUnknown, None), (L_KeyVideoNext, None), (L_KeyVideoPrev, None),
   (L_KeyBrightnessCycle, None), (L_KeyBrightnessAuto, None), (L_KeyDisplayOff, None),
   (L_KeyWwan, None), (L_KeyRfkill, None), (L_KeyMicmute, None), (L_KeyCount, None),
   (L_Invalid, None), (L_Invalid1, None), (L_Invalid2, None), (L_Invalid3, None),
   (L_Invalid4, None), (L_Invalid5, None)]"

definition linux_to_windows_arms :: "(linux \<times> windows option) list" where
  "linux_to_windows_arms = linux_to_windows_arms_1 @ linux_to_windows_arms_2"

definition windows_to_linux_arms_1 :: "(windows \<times> linux option) list" where
  "windows_to_linux_arms_1 = [
   (W_Shutdown, Some L_KeyPower), (W_SystemSleep, Some L_KeySleep),
   (W_SystemWakeUp, Some L_KeyWakeup), (W_ErrorRollOver, Some L_KeyRo), (W_KeyA, Some L_KeyA),
   (W_KeyB, Some L_KeyB), (W_KeyC, Some L_KeyC), (W_KeyD, Some L_KeyD), (W_KeyE, Some L_KeyE),
   (W_KeyF, Some L_KeyF), (W_KeyG, Some L_KeyG), (W_KeyH, Some L_KeyH), (W_KeyI, Some L_KeyI),
   (W_KeyJ, Some L_KeyJ), (W_KeyK, Some L_KeyK), (W_KeyL, Some L_KeyL), (W_KeyM, Some L_KeyM),
   (W_KeyN, Some L_KeyN), (W_KeyO, Some L_KeyO), (W_KeyP, Some L_KeyP), (W_KeyQ, Some L_KeyQ),
   (W_KeyR, Some L_KeyR), (W_KeyS, Some L_KeyS), (W_KeyT, Some L_KeyT), (W_KeyU, Some L_KeyU),
   (W_KeyV, Some L_KeyV), (W_KeyW, Some L_KeyW), (W_KeyX, Some L_KeyX), (W_KeyY, Some L_KeyY),
   (W_KeyZ, Some L_KeyZ), (W_Key1, Some L_Key1), (W_Key2, Some L_Key2), (W_Key3, Some L_Key3),
   (W_Key4, Some L_Key4), (W_Key5, Some L_Key5), (W_Key6, Some L_Key6), (W_Key7, Some L_Key7),
   (W_Key8, Some L_Key8), (W_Key9, Some L_Key9), (W_Key0, Some L_Key0),
   (W_KeyEnter, Some L_KeyEnter), (W_KeyEsc, Some L_KeyEsc), (W_KeyDelete, Some L_KeyBackspace),
   (W_KeyTab, Some L_KeyTab), (W_KeySpace, Some L_KeySpace), (W_KeyMinus, Some L_KeyMinus),
   (W_KeyEqual, Some L_KeyEqual), (W_KeyLeftBrace, Some L_KeyLeftbrace),
   (W_KeyRightBrace, Some L_KeyRightbrace), (W_KeyBackslash, Some L_KeyBackslash),
   (W_KeySemiColon, Some L_KeySemicolon), (W_KeyApostrophe, Some L_KeyApostrophe),
   (W_KeyGrave, Some L_KeyGrave), (W_KeyComma, Some L_KeyComma), (W_KeyDot, Some L_KeyDot),
   (W_KeySlash, Some L_KeySlash), (W_KeyCapsLock, Some L_KeyCapsLock), (W_KeyF1, Some L_KeyF1),
   (W_KeyF2, Some L_KeyF2), (W_KeyF3, Some L_KeyF3), (W_KeyF4, Some L_KeyF4),
   (W_KeyF5, Some L_KeyF5), (W_KeyF6, Some L_KeyF6), (W_KeyF7, Some L_KeyF7),
   (W_KeyF8, Some L_KeyF8), (W_KeyF9, Some L_KeyF9), (W_KeyF10, Some L_KeyF10),
   (W_KeyF11, Some L_KeyF11), (W_KeyF12, Some L_KeyF12), (W_KeyPrintScreen, Some L_KeySysrq),
   (W_KeyScrollLock, Some L_KeyScrollLock), (W_KeyPause, Some L_KeyPause),
   (W_KeyInsert, Some L_KeyInsert), (W_KeyHome, Some L_KeyHome), (W_KeyPageUp, Some L_KeyPageup),
   (W_KeyDeleteForward, Some L_KeyDelete), (W_KeyEnd, Some L_KeyEnd),
   (W_KeyPageDown, Some L_KeyPagedown), (W_KeyRight, Some L_KeyRight), (W_KeyLeft, Some L_KeyLeft),
   (W_KeyDown, Some L_KeyDown), (W_KeyUp, Some L_KeyUp), (W_KeypadNumLock, Some L_KeyNumlock),
   (W_KeypadSlash, Some L_KeyKpslash), (W_KeypadStar, Some L_KeyKpAsterisk),
   (W_KeypadDash, Some L_KeyKpMinus), (W_KeypadPlus, Some L_KeyKpplus),
   (W_KeypadEnter, Some L_KeyKpEnter), (W_Keypad1End, Some L_KeyKp1),
   (W_Keypad2DownArrow, Some L_KeyKp2), (W_Keypad3PageDn, Some L_KeyKp3),
   (W_Keypad4LeftArrow, Some L_KeyKp4), (W_Keypad5, Some L_KeyKp5),
   (W_Keypad6RightArrow, Some L_KeyKp6), (W_Keypad7Home, Some L_KeyKp7),
   (W_Keypad8UpArrow, Some L_KeyKp8), (W_Keypad9PageUp, Some L_KeyKp9),
   (W_Keypad0Insert, Some L_KeyKp0), (W_KeypadDot, Some L_KeyKpDot),
   (W_KeyNonUSSlashBar, Some L_Key102nd), (W_KeyApplication, Some L_KeyMenu),
   (W_KeypadEquals, Some L_KeyKpequal), (W_KeyF13, Some L_KeyF13), (W_KeyF14, Some L_KeyF14),
   (W_KeyF15, Some L_KeyF15), (W_KeyF16, Some L_KeyF16), (W_KeyF17, Some L_KeyF17),
   (W_KeyF18, Some L_KeyF18), (W_KeyF19, Some L_KeyF19), (W_KeyF20, Some L_KeyF20),
   (W_KeyF21, Some L_KeyF21), (W_KeyF22, Some L_KeyF22), (W_KeyF23, Some L_KeyF23),
   (W_KeyF24, Some L_KeyF24), (W_KeypadComma, Some L_KeyKpcomma),
   (W_KeyInternational1, Some L_KeyRo), (W_KeyInternational2, Some L_KeyKatakanahiragana),
   (W_KeyInternational3, Some L_KeyYen), (W_KeyInternational4, Some L_KeyHenkan),
   (W_KeyInternational5, Some L_KeyMuhenkan), (W_KeyLANG1, Some L_KeyHanguel),
   (W_KeyLANG2, Some L_KeyHanja), (W_KeyLANG3, Some L_KeyKatakana),
   (W_KeyLANG4, Some L_KeyHiragana), (W_KeyLeftCtrl, Some L_KeyLeftCtrl),
   (W_KeyLeftShift, Some L_KeyLeftShift), (W_KeyLeftAlt, Some L_KeyLeftAlt),
   (W_KeyLeftGUI, Some L_KeyLeftMeta), (W_KeyRightCtrl, Some L_KeyRightCtrl),
   (W_KeyRightShift, Some L_KeyRightShift), (W_KeyFakeRightShift, Some L_KeyRightShift),
   (W_KeyRightAlt, Some L_KeyRightalt), (W_KeyRightGUI, Some L_KeyRightmeta),
   (W_KeyScanNextTrack, Some L_KeyNextsong), (W_KeyScanPreviousTrack, Some L_KeyPrevioussong),
   (W_KeyStop, Some L_KeyStopcd), (W_KeyPlayPause, Some L_KeyPlaypause),
   (W_KeyMute, Some L_KeyMute), (W_KeyVolumeUp, Some L_KeyVolumeUp),
   (W_KeyVolumeDown, Some L_KeyVolumeDown), (W_ALConsumerControlConfiguration, None),
   (W_ALEmailReader, Some L_KeyMail), (W_ALCalculator, Some L_KeyCalc),
   (W_ALLocalMachineBrowser, Some L_KeyFile), (W_ACSearch, Some L_KeyWww),
   (W_ACHome, Some L_KeyHomepage), (W_ACBack, Some L_KeyBack), (W_ACForward, Some L_KeyForward)]"

definition windows_to_linux_arms_2 :: "(windows \<times> linux option) list" where
  "windows_to_linux_arms_2 = [
   (W_ACStop, Some L_KeyStop), (W_ACRefresh, Some L_KeyRefresh),
   (W_ACBookmarks, Some L_KeyBookmarks)]"

definition windows_to_linux_arms :: "(windows \<times> linux option) list" where
  "windows_to_linux_arms = windows_to_linux_arms_1 @ windows_to_linux_arms_2"

section \<open>Operations\<close>

text \<open>\<open>TryFromPrimitive\<close>: a number is a variant when it is one of the discriminants.\<close>

definition linux_try_from :: "u32 \<Rightarrow> linux option" where
  "linux_try_from c = (if Linux c \<in> set (map snd linux_variants) then Some (Linux c) else None)"

definition windows_try_from :: "u32 \<Rightarrow> windows option" where
  "windows_try_from c = (if Windows c \<in> set (map snd windows_variants) then Some (Windows c) else None)"

text \<open>the derived \<open>Debug\<close>: the name of the variant\<close>

definition linux_debug :: "linux \<Rightarrow> string option" where
  "linux_debug l = map_option fst (find (\<lambda>(_, v). v = l) linux_variants)"

text \<open>The two conversions: \<open>None\<close> is \<open>Err(())\<close>.\<close>

definition linux_to_windows :: "linux \<Rightarrow> windows option" where
  "linux_to_windows l = Option.bind (map_of linux_to_windows_arms l) id"

definition windows_to_linux :: "windows \<Rightarrow> linux option" where
  "windows_to_linux w = Option.bind (map_of windows_to_linux_arms w) id"

section \<open>Facts\<close>

lemmas scancode_tables =
  linux_variants_def linux_variants_1_def linux_variants_2_def
  windows_variants_def windows_variants_1_def windows_variants_2_def
  linux_to_windows_arms_def linux_to_windows_arms_1_def linux_to_windows_arms_2_def
  windows_to_linux_arms_def windows_to_linux_arms_1_def windows_to_linux_arms_2_def

text \<open>The Linux discriminants are exactly \<open>0 .. 249\<close>, in order.\<close>

lemma linux_discriminants: "map (unat \<circ> linux_code \<circ> snd) linux_variants = [0..<250]"
  by (simp add: scancode_tables upt_rec)

lemma linux_try_from_eq: "linux_try_from c = (if c < 250 then Some (Linux c) else None)"
proof -
  have "Linux c \<in> set (map snd linux_variants) \<longleftrightarrow> unat c \<in> set [0..<250]"
  proof
    assume "Linux c \<in> set (map snd linux_variants)"
    then have "unat c \<in> (unat \<circ> linux_code \<circ> snd) ` set linux_variants"
      by (force simp: image_iff)
    then show "unat c \<in> set [0..<250]"
      by (simp only: list.set_map [symmetric] linux_discriminants)
  next
    assume "unat c \<in> set [0..<250]"
    then obtain n l where "(n, l) \<in> set linux_variants" "unat (linux_code l) = unat c"
      unfolding linux_discriminants [symmetric] by force
    then show "Linux c \<in> set (map snd linux_variants)"
      by (metis linux.collapse list.set_map imageI snd_conv word_unat_eq_iff)
  qed
  then show ?thesis by (simp add: linux_try_from_def word_less_nat_alt)
qed

lemma linux_arms_distinct: "distinct (map (unat \<circ> linux_code \<circ> fst) linux_to_windows_arms)"
  by (simp add: scancode_tables)

lemma windows_arms_distinct: "distinct (map (unat \<circ> windows_code \<circ> fst) windows_to_linux_arms)"
  by (simp add: scancode_tables)

lemma arms_lookup:
  "distinct (map fst t) \<Longrightarrow> list_all (\<lambda>(k, v). Option.bind (map_of t k) id = v) t"
  by (auto simp: list_all_iff)

lemma linux_arms_lookup: "list_all (\<lambda>(l, r). linux_to_windows l = r) linux_to_windows_arms"
  unfolding linux_to_windows_def
  by (rule arms_lookup) (use linux_arms_distinct in \<open>simp add: distinct_map inj_on_def\<close>)

lemma windows_arms_lookup: "list_all (\<lambda>(w, r). windows_to_linux w = r) windows_to_linux_arms"
  unfolding windows_to_linux_def
  by (rule arms_lookup) (use windows_arms_distinct in \<open>simp add: distinct_map inj_on_def\<close>)

text \<open>every arm as an equation of the conversion\<close>

lemmas linux_arms = linux_arms_lookup [unfolded scancode_tables append.simps list.pred_inject prod.case]
lemmas windows_arms = windows_arms_lookup [unfolded scancode_tables append.simps list.pred_inject prod.case]

text \<open>the keys that do not come back from the other platform as themselves\<close>

definition windows_lossy :: "windows set" where
  "windows_lossy = {W_ErrorRollOver, W_KeyFakeRightShift}"

definition linux_lossy :: "linux set" where
  "linux_lossy = {L_KeyZenkakuhankaku, L_KeyKpJpComma, L_KeyLinefeed, L_KeyKpplusminus,
     L_KeyCompose, L_KeyFind, L_KeyHelp, L_KeyComputer}"

lemma windows_arms_roundtrip:
  "list_all (\<lambda>(w, r). case r of None \<Rightarrow> True
     | Some l \<Rightarrow> linux_to_windows l = Some w \<or> w \<in> windows_lossy) windows_to_linux_arms"
  by (simp add: scancode_tables linux_arms windows_lossy_def)

lemma linux_arms_roundtrip:
  "list_all (\<lambda>(l, r). case r of None \<Rightarrow> True
     | Some w \<Rightarrow> windows_to_linux w = Some l \<or> l \<in> linux_lossy) linux_to_windows_arms"
  by (simp add: scancode_tables windows_arms linux_lossy_def)

lemma windows_roundtrip:
  assumes "windows_to_linux w = Some l" and "w \<notin> windows_lossy"
  shows "linux_to_windows l = Some w"
proof -
  from assms(1) have "(w, Some l) \<in> set windows_to_linux_arms"
    by (auto simp: windows_to_linux_def bind_eq_Some_conv dest: map_of_SomeD)
  with windows_arms_roundtrip assms(2) show ?thesis by (auto simp: list_all_iff)
qed

lemma linux_roundtrip:
  assumes "linux_to_windows l = Some w" and "l \<notin> linux_lossy"
  shows "windows_to_linux w = Some l"
proof -
  from assms(1) have "(l, Some w) \<in> set linux_to_windows_arms"
    by (auto simp: linux_to_windows_def bind_eq_Some_conv dest: map_of_SomeD)
  with linux_arms_roundtrip assms(2) show ?thesis by (auto simp: list_all_iff)
qed

text \<open>
  \<^bold>\<open>C38.\<close> A key that a Windows machine captures and that crosses the wire as a Linux
  code is injected on another Windows machine as the very same key, and the other
  way round, except for the two Windows and the eight Linux codes listed in
  \<open>windows_lossy\<close> and \<open>linux_lossy\<close>; for each of those the trip does change the key.
\<close>

theorem scancode_roundtrip:
  "(windows_to_linux w = Some l \<longrightarrow> (linux_to_windows l = Some w \<longleftrightarrow> w \<notin> windows_lossy)) \<and>
   (linux_to_windows l = Some w \<longrightarrow> (windows_to_linux w = Some l \<longleftrightarrow> l \<notin> linux_lossy))"
proof (intro conjI impI iffI)
  assume w: "windows_to_linux w = Some l" and l: "linux_to_windows l = Some w"
  show "w \<notin> windows_lossy"
    using w l by (auto simp: windows_lossy_def linux_arms windows_arms)
next
  assume l: "linux_to_windows l = Some w" and w: "windows_to_linux w = Some l"
  show "l \<notin> linux_lossy"
    using w l by (auto simp: linux_lossy_def linux_arms windows_arms)
qed (auto intro: windows_roundtrip linux_roundtrip)

theorem scancode_roundtrip_witness:
  "linux_to_windows L_KeyA = Some W_KeyA \<and> windows_to_linux W_KeyA = Some L_KeyA"
proof -
  have "windows_to_linux W_KeyA = Some L_KeyA" by (simp add: windows_arms)
  moreover have "W_KeyA \<notin> windows_lossy" by (simp add: windows_lossy_def)
  ultimately show ?thesis using scancode_roundtrip [of W_KeyA L_KeyA] by blast
qed

end
