(* ===== verification/F64.thy ===== *)
theory F64
  imports Prelude
begin

text \<open>
  The part of IEEE-754 binary64 (Rust's \<open>f64\<close>) that the program computes with:
  comparison, negation, addition, subtraction, multiplication and truncation. A
  value is its 64-bit pattern, the form in which it travels on the wire. Rounding
  is to nearest, ties to even. A NaN result is the canonical quiet NaN; the code
  never looks at a NaN's payload.
\<close>

type_synonym f64 = "64 word"

section \<open>Fields of the bit pattern\<close>

definition f64_sign :: "f64 \<Rightarrow> bool" where
  "f64_sign x = (unat x \<ge> 2 ^ 63)"

definition f64_mag :: "f64 \<Rightarrow> nat" where
  "f64_mag x = unat x mod 2 ^ 63"

definition f64_exp :: "f64 \<Rightarrow> nat" where
  "f64_exp x = f64_mag x div 2 ^ 52"

definition f64_frac :: "f64 \<Rightarrow> nat" where
  "f64_frac x = f64_mag x mod 2 ^ 52"

definition f64_inf_mag :: nat where
  "f64_inf_mag = 2047 * 2 ^ 52"

definition f64_is_nan :: "f64 \<Rightarrow> bool" where
  "f64_is_nan x = (f64_mag x > f64_inf_mag)"

definition f64_is_inf :: "f64 \<Rightarrow> bool" where
  "f64_is_inf x = (f64_mag x = f64_inf_mag)"

definition f64_is_finite :: "f64 \<Rightarrow> bool" where
  "f64_is_finite x = (f64_mag x < f64_inf_mag)"

definition f64_is_zero :: "f64 \<Rightarrow> bool" where
  "f64_is_zero x = (f64_mag x = 0)"

definition f64_nan :: f64 where
  "f64_nan = word_of_nat (4095 * 2 ^ 51)"

text \<open>sign and magnitude bits back to a pattern\<close>

definition f64_make :: "bool \<Rightarrow> nat \<Rightarrow> f64" where
  "f64_make s m = word_of_nat ((if s then 2 ^ 63 else 0) + m)"

text \<open>
  A finite value is \<open>(-1) ^ sign * f64_sig * 2 ^ (f64_pow - 1074)\<close>: the integer
  significand and the exponent in units of the smallest subnormal.
\<close>

definition f64_sig :: "f64 \<Rightarrow> nat" where
  "f64_sig x = (if f64_exp x = 0 then f64_frac x else 2 ^ 52 + f64_frac x)"

definition f64_pow :: "f64 \<Rightarrow> nat" where
  "f64_pow x = f64_exp x - 1"

text \<open>the exact value of a finite pattern, in units of \<open>2 ^ (-1074)\<close>\<close>

definition f64_units :: "f64 \<Rightarrow> int" where
  "f64_units x = (if f64_sign x then -1 else 1) * int (f64_sig x * 2 ^ f64_pow x)"

section \<open>Rounding\<close>

fun nbits :: "nat \<Rightarrow> nat" where
  "nbits m = (if m = 0 then 0 else Suc (nbits (m div 2)))"

declare nbits.simps [simp del]

text \<open>divide by \<open>2 ^ k\<close>, to nearest, ties to even\<close>

definition round_half_even :: "nat \<Rightarrow> nat \<Rightarrow> nat" where
  "round_half_even m k =
     (let q = m div 2 ^ k; r = m mod 2 ^ k in
      if 2 * r < 2 ^ k then q
      else if 2 * r > 2 ^ k then q + 1
      else if even q then q else q + 1)"

text \<open>
  The magnitude bits of the double nearest to \<open>m / 2 ^ d\<close> units: \<open>d\<close> is the number
  of bits below the unit that an exact product carries. A significand that
  rounds up to \<open>2 ^ 53\<close> carries into the exponent field by itself.
\<close>

definition f64_round_mag :: "nat \<Rightarrow> nat \<Rightarrow> nat" where
  "f64_round_mag m d =
     (let q = nbits m - (53 + d);
          r = round_half_even m (q + d)
      in min f64_inf_mag (q * 2 ^ 52 + r))"

section \<open>Operations\<close>

definition f64_eq :: "f64 \<Rightarrow> f64 \<Rightarrow> bool" where
  "f64_eq x y = (\<not> f64_is_nan x \<and> \<not> f64_is_nan y
                 \<and> (x = y \<or> (f64_is_zero x \<and> f64_is_zero y)))"

text \<open>order key: the patterns of one sign are ordered by their magnitude bits\<close>

definition f64_key :: "f64 \<Rightarrow> int" where
  "f64_key x = (if f64_sign x then - int (f64_mag x) else int (f64_mag x))"

definition f64_lt :: "f64 \<Rightarrow> f64 \<Rightarrow> bool" where
  "f64_lt x y = (\<not> f64_is_nan x \<and> \<not> f64_is_nan y \<and> f64_key x < f64_key y)"

definition f64_neg :: "f64 \<Rightarrow> f64" where
  "f64_neg x = f64_make (\<not> f64_sign x) (f64_mag x)"

definition f64_add :: "f64 \<Rightarrow> f64 \<Rightarrow> f64" where
  "f64_add x y =
     (if f64_is_nan x \<or> f64_is_nan y then f64_nan
      else if f64_is_inf x then (if f64_is_inf y \<and> f64_sign x \<noteq> f64_sign y then f64_nan else x)
      else if f64_is_inf y then y
      else (let s = f64_units x + f64_units y in
            if s = 0 then f64_make (f64_sign x \<and> f64_sign y) 0
            else f64_make (s < 0) (f64_round_mag (nat \<bar>s\<bar>) 0)))"

definition f64_sub :: "f64 \<Rightarrow> f64 \<Rightarrow> f64" where
  "f64_sub x y = f64_add x (f64_neg y)"

text \<open>a product of units is in units of \<open>2 ^ (-2148)\<close>\<close>

definition f64_mul :: "f64 \<Rightarrow> f64 \<Rightarrow> f64" where
  "f64_mul x y =
     (if f64_is_nan x \<or> f64_is_nan y then f64_nan
      else if f64_is_inf x \<or> f64_is_inf y then
        (if f64_is_zero x \<or> f64_is_zero y then f64_nan
         else f64_make (f64_sign x \<noteq> f64_sign y) f64_inf_mag)
      else f64_make (f64_sign x \<noteq> f64_sign y)
             (f64_round_mag (nat \<bar>f64_units x * f64_units y\<bar>) 1074))"

text \<open>
  \<open>f64::trunc\<close>: a magnitude below 1 becomes a zero of the same sign, a magnitude
  of at least \<open>2 ^ 52\<close> (and infinity, NaN) is already integral, in between the
  fraction bits below the point are cleared.
\<close>

definition f64_trunc :: "f64 \<Rightarrow> f64" where
  "f64_trunc x =
     (let e = f64_exp x in
      if e < 1023 then f64_make (f64_sign x) 0
      else if e \<ge> 1075 then x
      else f64_make (f64_sign x) (f64_mag x - f64_mag x mod 2 ^ (1075 - e)))"

text \<open>\<open>f64::clamp(lo, hi)\<close> for \<open>lo \<le> hi\<close>\<close>

definition f64_clamp :: "f64 \<Rightarrow> f64 \<Rightarrow> f64 \<Rightarrow> f64" where
  "f64_clamp x lo hi = (if f64_lt x lo then lo else if f64_lt hi x then hi else x)"

text \<open>an \<open>i32\<close> as \<open>f64\<close>, exact, and back, which truncates and saturates\<close>

definition f64_of_int :: "int \<Rightarrow> f64" where
  "f64_of_int n = f64_make (n < 0) (f64_round_mag (nat \<bar>n\<bar> * 2 ^ 1074) 0)"

definition f64_to_i32 :: "f64 \<Rightarrow> i32" where
  "f64_to_i32 x =
     (if f64_is_nan x then 0
      else
        let m = (if f64_is_inf x then 2 ^ 31 else int (nat \<bar>f64_units x\<bar> div 2 ^ 1074));
            n = (if f64_sign x then - m else m)
        in word_of_int (max (- (2 ^ 31)) (min (2 ^ 31 - 1) n)))"

text \<open>constants: 0.0, 0.25, 1.0, 4.0\<close>

definition f64_zero :: f64 where "f64_zero = 0"
definition f64_quarter :: f64 where "f64_quarter = word_of_nat (1021 * 2 ^ 52)"
definition f64_one :: f64 where "f64_one = word_of_nat (1023 * 2 ^ 52)"
definition f64_four :: f64 where "f64_four = word_of_nat (1025 * 2 ^ 52)"

section \<open>Facts\<close>

text \<open>units of a magnitude, and how magnitudes are put together\<close>

definition mag_units :: "nat \<Rightarrow> nat" where
  "mag_units m = (if m div 2 ^ 52 = 0 then m mod 2 ^ 52
                  else (2 ^ 52 + m mod 2 ^ 52) * 2 ^ (m div 2 ^ 52 - 1))"

lemma f64_units_mag:
  "f64_units x = (if f64_sign x then - int (mag_units (f64_mag x)) else int (mag_units (f64_mag x)))"
  by (simp add: f64_units_def f64_sig_def f64_pow_def f64_exp_def f64_frac_def mag_units_def)

lemma f64_mag_less: "f64_mag x < 2 ^ 63"
  by (simp add: f64_mag_def)

lemma unat_f64_make:
  assumes "m < 2 ^ 63"
  shows "unat (f64_make s m) = (if s then 2 ^ 63 else 0) + m"
proof -
  have "unat (word_of_nat n :: 64 word) = n" if "n < 2 ^ 64" for n
    using that by (simp add: unsigned_of_nat take_bit_nat_eq_self)
  from this [of "(if s then 2 ^ 63 else 0) + m"] show ?thesis
    using assms by (simp only: f64_make_def) (simp split: if_splits)
qed

lemma f64_mag_make [simp]: "m < 2 ^ 63 \<Longrightarrow> f64_mag (f64_make s m) = m"
  by (simp add: f64_mag_def unat_f64_make)

lemma f64_sign_make [simp]: "m < 2 ^ 63 \<Longrightarrow> f64_sign (f64_make s m) = s"
  by (simp add: f64_sign_def unat_f64_make)

lemma f64_mag_sign: "unat x = (if f64_sign x then 2 ^ 63 else 0) + f64_mag x"
proof -
  have "unat x < 2 ^ 64" using unsigned_less [of x] by simp
  then show ?thesis by (auto simp: f64_sign_def f64_mag_def mod_if div_if)
qed

lemma f64_eqI: "f64_sign x = f64_sign y \<Longrightarrow> f64_mag x = f64_mag y \<Longrightarrow> x = y"
  using f64_mag_sign [of x] f64_mag_sign [of y] by (simp add: word_unat_eq_iff)

lemma f64_mag_neg [simp]: "f64_mag (f64_neg x) = f64_mag x"
  by (simp add: f64_neg_def f64_mag_make [OF f64_mag_less])

lemma f64_sign_neg [simp]: "f64_sign (f64_neg x) = (\<not> f64_sign x)"
  by (simp add: f64_neg_def f64_sign_make [OF f64_mag_less])

lemma f64_units_neg: "f64_units (f64_neg x) = - f64_units x"
  by (simp add: f64_units_mag)

lemma f64_inf_mag_less: "f64_inf_mag < 2 ^ 63"
  by (simp add: f64_inf_mag_def)

subsection \<open>Rounding what is representable\<close>

lemma nbits_upper: "m < 2 ^ nbits m"
proof (induction m rule: nbits.induct)
  case (1 m)
  then show ?case
    by (cases "m = 0") (auto simp: nbits.simps [of m])
qed

lemma nbits_lower: "m \<noteq> 0 \<Longrightarrow> 2 ^ (nbits m - 1) \<le> m"
proof (induction m rule: nbits.induct)
  case (1 m)
  show ?case
  proof (cases "m div 2 = 0")
    case True
    with "1.prems" show ?thesis by (simp add: nbits.simps [of m] nbits.simps [of 0])
  next
    case False
    have "2 ^ (nbits (m div 2) - 1) \<le> m div 2" using "1.IH" [OF "1.prems" False] .
    moreover obtain n where n: "nbits (m div 2) = Suc n"
      using False by (metis nbits.simps)
    ultimately have "2 ^ Suc n \<le> m" by simp
    with "1.prems" n show ?thesis by (simp add: nbits.simps [of m])
  qed
qed

lemma nbits_le: "m < 2 ^ k \<Longrightarrow> nbits m \<le> k"
proof (rule ccontr)
  assume m: "m < 2 ^ k" and "\<not> nbits m \<le> k"
  then have k: "k \<le> nbits m - 1" and "m \<noteq> 0" by (auto simp: nbits.simps [of 0] intro!: gr0I)
  then have "(2::nat) ^ k \<le> m" using nbits_lower [of m] power_increasing [OF k, of "2::nat"] by linarith
  with m show False by simp
qed

lemma mag_split_iff: "2 ^ 52 + (f::nat) < 2 ^ 53 \<longleftrightarrow> f < 2 ^ 52"
  by simp

lemma mag_frac_less: "m mod 2 ^ 52 < (2 ^ 52 :: nat)"
  by simp

lemma mag_units_compose:
  assumes "r \<le> 2 ^ 53" and "q = 0 \<or> 2 ^ 52 \<le> r"
  shows "mag_units (q * 2 ^ 52 + r) = r * 2 ^ q"
proof -
  consider "r < 2 ^ 52" "q = 0" | "2 ^ 52 \<le> r" "r < 2 ^ 53" | "r = 2 ^ 53"
    using assms by linarith
  then show ?thesis
  proof cases
    case 1
    then show ?thesis by (simp add: mag_units_def)
  next
    case 2
    then obtain f where f: "r = 2 ^ 52 + f" "f < 2 ^ 52"
      by (metis le_Suc_ex mag_split_iff)
    have "q * 2 ^ 52 + r = Suc q * 2 ^ 52 + f" using f by simp
    moreover have "(Suc q * 2 ^ 52 + f) div 2 ^ 52 = Suc q" "(Suc q * 2 ^ 52 + f) mod 2 ^ 52 = f"
      using f(2) by (simp_all only: div_mult_self3 mod_mult_self3) simp_all
    ultimately show ?thesis using f(1) by (simp only: mag_units_def) simp
  next
    case 3
    have "q * 2 ^ 52 + r = (q + 2) * 2 ^ 52" using 3 by simp
    then show ?thesis using 3 by (simp add: mag_units_def)
  qed
qed

text \<open>
  A multiple of \<open>2 ^ k\<close> with at most 53 significant bits, below the overflow
  threshold, is rounded to itself.
\<close>

lemma round_half_even_exact: "2 ^ k dvd m \<Longrightarrow> round_half_even m k = m div 2 ^ k"
  by (simp add: round_half_even_def dvd_eq_mod_eq_0)

lemma round_mag_exact:
  assumes c: "c < 2 ^ 53" and v: "c * 2 ^ k < 2 ^ 2098"
  shows "mag_units (f64_round_mag (c * 2 ^ k) 0) = c * 2 ^ k"
    and "f64_round_mag (c * 2 ^ k) 0 < f64_inf_mag"
proof -
  let ?v = "c * 2 ^ k" and ?q = "nbits (c * 2 ^ k) - 53"
  define r where "r = ?v div 2 ^ ?q"
  have "?v < 2 ^ (53 + k)" using c by (simp add: power_add)
  then have "nbits ?v \<le> 53 + k" by (rule nbits_le)
  then have q: "?q \<le> k" by simp
  then have dvd: "2 ^ ?q dvd ?v" by (simp add: dvd_mult le_imp_power_dvd)
  then have v_r: "?v = r * 2 ^ ?q" by (simp add: r_def)
  have "r * 2 ^ ?q < 2 ^ 53 * 2 ^ ?q"
  proof (cases "?q = 0")
    case True
    then have "nbits ?v \<le> 53" by simp
    then have "(2::nat) ^ nbits ?v \<le> 2 ^ 53" by (rule power_increasing) simp
    with nbits_upper [of ?v] True v_r show ?thesis by simp
  next
    case False
    then have "nbits ?v = 53 + ?q" by simp
    then show ?thesis using nbits_upper [of ?v] v_r by (metis power_add)
  qed
  then have r_up: "r < 2 ^ 53" by simp
  have r_lo: "?q = 0 \<or> 2 ^ 52 \<le> r"
  proof (cases "?q = 0")
    case False
    then have n: "nbits ?v - 1 = 52 + ?q" and "?v \<noteq> 0" by (auto simp: nbits.simps [of 0] intro!: gr0I)
    then have "2 ^ (52 + ?q) \<le> r * 2 ^ ?q" using nbits_lower [of ?v] v_r by (metis n)
    then show ?thesis by (simp add: power_add)
  qed simp
  have "nbits ?v \<le> 2098" using v by (rule nbits_le)
  then have "?q * 2 ^ 52 + r < f64_inf_mag"
    using r_up by (simp add: f64_inf_mag_def)
  moreover have "f64_round_mag ?v 0 = min f64_inf_mag (?q * 2 ^ 52 + r)"
    by (simp add: f64_round_mag_def Let_def round_half_even_exact dvd r_def)
  ultimately have eq: "f64_round_mag ?v 0 = ?q * 2 ^ 52 + r" and lt: "f64_round_mag ?v 0 < f64_inf_mag"
    by auto
  show "mag_units (f64_round_mag ?v 0) = ?v"
    unfolding eq using mag_units_compose [of r ?q] r_up r_lo v_r by simp
  show "f64_round_mag ?v 0 < f64_inf_mag" by (rule lt)
qed

subsection \<open>Truncation and the fraction it leaves\<close>

lemma mag_units_form: "\<exists>c p. mag_units m = c * 2 ^ p \<and> c < 2 ^ 53"
proof (cases "m div 2 ^ 52 = 0")
  case True
  then have "mag_units m = (m mod 2 ^ 52) * 2 ^ 0" by (simp add: mag_units_def)
  moreover have "m mod 2 ^ 52 < 2 ^ 53"
    using mag_frac_less [of m] by (rule less_trans) simp
  ultimately show ?thesis by blast
next
  case False
  then have "mag_units m = (2 ^ 52 + m mod 2 ^ 52) * 2 ^ (m div 2 ^ 52 - 1)"
    by (simp only: mag_units_def if_False)
  moreover have "2 ^ 52 + m mod 2 ^ 52 < (2 ^ 53 :: nat)"
    using mag_frac_less [of m] by (simp only: mag_split_iff)
  ultimately show ?thesis by blast
qed

lemma mag_units_mod_form: "\<exists>c p. mag_units m mod 2 ^ 1074 = c * 2 ^ p \<and> c < 2 ^ 53"
proof -
  obtain c p where m: "mag_units m = c * 2 ^ p" and c: "c < 2 ^ 53"
    using mag_units_form by blast
  show ?thesis
  proof (cases "p < 1074")
    case True
    then have "(2::nat) ^ 1074 = 2 ^ (1074 - p) * 2 ^ p" by (simp flip: power_add)
    then have "mag_units m mod 2 ^ 1074 = (c mod 2 ^ (1074 - p)) * 2 ^ p"
      by (simp only: m mod_mult_mult2)
    moreover have "c mod 2 ^ (1074 - p) < 2 ^ 53"
      using c by (meson le_less_trans mod_less_eq_dividend)
    ultimately show ?thesis by blast
  next
    case False
    then have "(2::nat) ^ 1074 dvd 2 ^ p" by (intro le_imp_power_dvd) simp
    then have "2 ^ 1074 dvd mag_units m" by (simp only: m dvd_mult)
    then have "mag_units m mod 2 ^ 1074 = 0 * 2 ^ 0" by (simp only: dvd_imp_mod_0 mult_0)
    moreover have "(0::nat) < 2 ^ 53" by simp
    ultimately show ?thesis by blast
  qed
qed

lemma trunc_mag_small:
  assumes "m div 2 ^ 52 < 1023"
  shows "mag_units m < 2 ^ 1074"
proof -
  have f: "m mod 2 ^ 52 < 2 ^ 52" by simp
  show ?thesis
  proof (cases "m div 2 ^ 52 = 0")
    case True
    then have "mag_units m < 2 ^ 52" using f by (simp only: mag_units_def) simp
    also have "(2::nat) ^ 52 \<le> 2 ^ 1074" by (rule power_increasing) simp_all
    finally show ?thesis .
  next
    case False
    have "(2::nat) ^ (m div 2 ^ 52 - 1) \<le> 2 ^ 1021" using assms by (intro power_increasing) simp_all
    moreover have "2 ^ 52 + m mod 2 ^ 52 < (2 ^ 53 :: nat)" using f by (simp only: mag_split_iff)
    ultimately have "(2 ^ 52 + m mod 2 ^ 52) * 2 ^ (m div 2 ^ 52 - 1) < (2 ^ 53 :: nat) * 2 ^ 1021"
      by (intro mult_less_le_imp_less) simp_all
    with False show ?thesis by (simp only: mag_units_def flip: power_add) simp
  qed
qed

lemma trunc_mag_large:
  assumes "1075 \<le> m div 2 ^ 52"
  shows "2 ^ 1074 dvd mag_units m"
proof -
  have "(2::nat) ^ 1074 dvd 2 ^ (m div 2 ^ 52 - 1)" using assms by (intro le_imp_power_dvd) simp
  then show ?thesis using assms by (simp add: mag_units_def)
qed

lemma trunc_mag_mid:
  assumes "1023 \<le> m div 2 ^ 52" "m div 2 ^ 52 < 1075"
  defines "j \<equiv> 1075 - m div 2 ^ 52"
  shows "mag_units (m - m mod 2 ^ j) = mag_units m - mag_units m mod 2 ^ 1074"
proof -
  define e where "e = m div 2 ^ 52"
  define f where "f = m mod 2 ^ 52"
  have f: "f < 2 ^ 52" by (simp add: f_def)
  have m: "m = e * 2 ^ 52 + f" by (simp add: e_def f_def)
  have j: "j \<le> 52" "1 \<le> j" "j + (e - 1) = 1074" "e \<noteq> 0"
    using assms by (auto simp: e_def)
  have dvd: "(2::nat) ^ j dvd 2 ^ 52" using j by (intro le_imp_power_dvd) simp
  have "m mod 2 ^ j = f mod 2 ^ j"
    using dvd by (simp add: f_def mod_mod_cancel)
  then have m': "m - m mod 2 ^ j = e * 2 ^ 52 + (f - f mod 2 ^ j)" by (simp add: m)
  have f': "f - f mod 2 ^ j < 2 ^ 52" using f by simp
  have units: "mag_units (e * 2 ^ 52 + g) = (2 ^ 52 + g) * 2 ^ (e - 1)" if "g < 2 ^ 52" for g
  proof -
    have "(e * 2 ^ 52 + g) div 2 ^ 52 = e" "(e * 2 ^ 52 + g) mod 2 ^ 52 = g"
      using that by (simp_all only: div_mult_self3 mod_mult_self3) simp_all
    then show ?thesis using j by (simp only: mag_units_def) simp
  qed
  have "(2::nat) ^ 1074 = 2 ^ j * 2 ^ (e - 1)" using j by (metis power_add)
  then have "mag_units m mod 2 ^ 1074 = ((2 ^ 52 + f) mod 2 ^ j) * 2 ^ (e - 1)"
    by (simp only: m units [OF f] mod_mult_mult2)
  moreover have "(2 ^ 52 + f) mod 2 ^ j = f mod 2 ^ j"
    using dvd by (metis add_0 dvd_imp_mod_0 mod_add_left_eq)
  ultimately have md: "mag_units m mod 2 ^ 1074 = (f mod 2 ^ j) * 2 ^ (e - 1)" by (simp only:)
  have mu: "mag_units m = (2 ^ 52 + f) * 2 ^ (e - 1)" by (subst m, rule units [OF f])
  have mu': "mag_units (m - m mod 2 ^ j) = (2 ^ 52 + (f - f mod 2 ^ j)) * 2 ^ (e - 1)"
    by (subst m', rule units [OF f'])
  have "2 ^ 52 + (f - f mod 2 ^ j) = 2 ^ 52 + f - f mod 2 ^ j"
    by (metis mod_less_eq_dividend Nat.diff_add_assoc)
  then show ?thesis unfolding mu' md by (simp only: mu diff_mult_distrib)
qed

lemma f64_finite_units_bound:
  assumes "f64_is_finite x"
  shows "mag_units (f64_mag x) < 2 ^ 2098"
proof -
  have e: "f64_mag x div 2 ^ 52 \<le> 2046"
    using assms by (simp add: f64_is_finite_def f64_inf_mag_def)
  show ?thesis
  proof (cases "f64_mag x div 2 ^ 52 = 0")
    case True
    then have "mag_units (f64_mag x) < 2 ^ 52"
      using mag_frac_less [of "f64_mag x"] by (simp only: mag_units_def simp_thms if_True)
    also have "(2::nat) ^ 52 \<le> 2 ^ 2098" by (rule power_increasing) simp_all
    finally show ?thesis .
  next
    case False
    have "(2::nat) ^ (f64_mag x div 2 ^ 52 - 1) \<le> 2 ^ 2045" using e by (intro power_increasing) simp_all
    moreover have "2 ^ 52 + f64_mag x mod 2 ^ 52 < (2 ^ 53 :: nat)"
      using mag_frac_less [of "f64_mag x"] by (simp only: mag_split_iff)
    ultimately have "(2 ^ 52 + f64_mag x mod 2 ^ 52) * 2 ^ (f64_mag x div 2 ^ 52 - 1)
        < (2 ^ 53 :: nat) * 2 ^ 2045"
      by (intro mult_less_le_imp_less) simp_all
    with False show ?thesis by (simp only: mag_units_def if_False flip: power_add) simp
  qed
qed

text \<open>
  Truncation of a finite value removes exactly the part below 1 (\<open>2 ^ 1074\<close> units),
  and keeps the sign.
\<close>

lemma trunc_mag:
  "mag_units (f64_mag (f64_trunc x)) = mag_units (f64_mag x) - mag_units (f64_mag x) mod 2 ^ 1074"
  (is "?lhs = ?rhs")
  and trunc_sign: "f64_sign (f64_trunc x) = f64_sign x"
  and trunc_finite: "f64_is_finite x \<Longrightarrow> f64_is_finite (f64_trunc x)"
proof -
  let ?m = "f64_mag x"
  have m63: "?m < 2 ^ 63" by (rule f64_mag_less)
  consider (small) "f64_exp x < 1023" | (large) "1075 \<le> f64_exp x"
    | (mid) "1023 \<le> f64_exp x" "f64_exp x < 1075" by linarith
  then have "?lhs = ?rhs \<and> f64_sign (f64_trunc x) = f64_sign x
      \<and> (f64_is_finite x \<longrightarrow> f64_is_finite (f64_trunc x))"
  proof cases
    case small
    then have "mag_units ?m < 2 ^ 1074" by (intro trunc_mag_small) (simp add: f64_exp_def)
    then have "?rhs = 0" by (simp only: mod_less diff_self_eq_0)
    moreover have "f64_trunc x = f64_make (f64_sign x) 0" using small by (simp add: f64_trunc_def)
    ultimately show ?thesis by (simp add: mag_units_def f64_is_finite_def f64_inf_mag_def)
  next
    case large
    then have "2 ^ 1074 dvd mag_units ?m" by (intro trunc_mag_large) (simp add: f64_exp_def)
    then have "?rhs = mag_units ?m" by (simp only: dvd_imp_mod_0 diff_zero)
    moreover have "f64_trunc x = x" using large by (simp add: f64_trunc_def)
    ultimately show ?thesis by simp
  next
    case mid
    let ?m' = "?m - ?m mod 2 ^ (1075 - f64_exp x)"
    have le: "?m' < 2 ^ 63" using m63 by (meson diff_le_self le_less_trans)
    have tr: "f64_trunc x = f64_make (f64_sign x) ?m'" using mid by (simp add: f64_trunc_def)
    have "mag_units ?m' = ?rhs"
      using trunc_mag_mid [of ?m] mid by (simp only: f64_exp_def)
    moreover have "f64_is_finite x \<longrightarrow> ?m' < f64_inf_mag"
      by (auto simp: f64_is_finite_def)
    ultimately show ?thesis using le by (simp only: tr f64_mag_make f64_sign_make f64_is_finite_def)
  qed
  then show "?lhs = ?rhs" "f64_sign (f64_trunc x) = f64_sign x"
    "f64_is_finite x \<Longrightarrow> f64_is_finite (f64_trunc x)" by blast+
qed

lemma f64_units_trunc:
  "f64_units (f64_trunc x) =
     (if f64_sign x then -1 else 1) * int (mag_units (f64_mag x) - mag_units (f64_mag x) mod 2 ^ 1074)"
  by (simp only: f64_units_mag trunc_mag trunc_sign) simp

lemma f64_trunc_whole: "2 ^ 1074 dvd f64_units (f64_trunc x)"
proof -
  have "(2::nat) ^ 1074 dvd mag_units (f64_mag x) - mag_units (f64_mag x) mod 2 ^ 1074"
    by (rule dvd_minus_mod)
  then have "int (2 ^ 1074) dvd int (mag_units (f64_mag x) - mag_units (f64_mag x) mod 2 ^ 1074)"
    by (simp only: int_dvd_int_iff)
  then show ?thesis by (simp only: f64_units_trunc of_nat_power of_nat_numeral dvd_mult)
qed

lemma f64_units_minus_trunc:
  "f64_units x - f64_units (f64_trunc x) =
     (if f64_sign x then -1 else 1) * int (mag_units (f64_mag x) mod 2 ^ 1074)"
proof -
  let ?u = "mag_units (f64_mag x)"
  have "?u mod 2 ^ 1074 \<le> ?u" by (rule mod_less_eq_dividend)
  then have "int (?u - ?u mod 2 ^ 1074) = int ?u - int (?u mod 2 ^ 1074)" by (rule of_nat_diff)
  then show ?thesis by (simp only: f64_units_trunc f64_units_mag [of x]) (simp split: if_splits)
qed

lemma f64_make_units:
  assumes "m < f64_inf_mag"
  shows "f64_units (f64_make s m) = (if s then - int (mag_units m) else int (mag_units m))"
    and "f64_is_finite (f64_make s m)"
proof -
  have "m < 2 ^ 63" using assms f64_inf_mag_less by (rule less_trans)
  then show "f64_units (f64_make s m) = (if s then - int (mag_units m) else int (mag_units m))"
    "f64_is_finite (f64_make s m)"
    using assms by (simp_all only: f64_units_mag f64_mag_make f64_sign_make f64_is_finite_def)
qed

lemma f64_finite_not: "f64_is_finite x \<Longrightarrow> \<not> f64_is_nan x \<and> \<not> f64_is_inf x"
  by (simp add: f64_is_finite_def f64_is_nan_def f64_is_inf_def)

text \<open>The fraction that truncation leaves is representable: the subtraction is exact.\<close>

theorem f64_sub_trunc_exact:
  assumes fin: "f64_is_finite x"
  shows "f64_units (f64_sub x (f64_trunc x)) = f64_units x - f64_units (f64_trunc x)"
    and "f64_is_finite (f64_sub x (f64_trunc x))"
proof -
  let ?t = "f64_neg (f64_trunc x)"
  define s where "s = f64_units x - f64_units (f64_trunc x)"
  obtain c p where cp: "mag_units (f64_mag x) mod 2 ^ 1074 = c * 2 ^ p" "c < 2 ^ 53"
    using mag_units_mod_form by blast
  have abs_s: "nat \<bar>s\<bar> = c * 2 ^ p"
    unfolding s_def f64_units_minus_trunc cp(1)
    by (cases "f64_sign x") (simp_all only: if_True if_False mult_1 mult_minus1 abs_minus_cancel abs_of_nat nat_int)
  have "c * 2 ^ p < 2 ^ 2098"
    using f64_finite_units_bound [OF fin] cp(1) by (metis le_less_trans mod_less_eq_dividend)
  note exact = round_mag_exact [OF cp(2) this, folded abs_s]
  have t_fin: "f64_is_finite ?t"
    using trunc_finite [OF fin] by (simp add: f64_is_finite_def)
  have units: "f64_units x + f64_units ?t = s" by (simp add: f64_units_neg s_def)
  have "f64_sub x (f64_trunc x) =
      (if s = 0 then f64_make (f64_sign x \<and> f64_sign ?t) 0
       else f64_make (s < 0) (f64_round_mag (nat \<bar>s\<bar>) 0))"
    using f64_finite_not [OF fin] f64_finite_not [OF t_fin]
    by (simp only: f64_sub_def f64_add_def Let_def units) simp
  moreover have "f64_units (f64_make b 0) = 0" "f64_is_finite (f64_make b 0)" for b
    using f64_make_units [of 0 b] by (simp_all add: f64_inf_mag_def mag_units_def)
  moreover have "f64_units (f64_make (s < 0) (f64_round_mag (nat \<bar>s\<bar>) 0)) = s"
    using f64_make_units(1) [OF exact(2)] by (simp only: exact(1)) simp
  ultimately show "f64_units (f64_sub x (f64_trunc x)) = f64_units x - f64_units (f64_trunc x)"
    "f64_is_finite (f64_sub x (f64_trunc x))"
    using f64_make_units(2) [OF exact(2)] by (simp_all add: s_def [symmetric])
qed

lemma f64_fraction_less_one:
  assumes "f64_is_finite x"
  shows "\<bar>f64_units (f64_sub x (f64_trunc x))\<bar> < 2 ^ 1074"
proof -
  have "mag_units (f64_mag x) mod 2 ^ 1074 < 2 ^ 1074" by (rule mod_less_divisor) simp
  then have "int (mag_units (f64_mag x) mod 2 ^ 1074) < int (2 ^ 1074)" by (simp only: of_nat_less_iff)
  then show ?thesis
    unfolding f64_sub_trunc_exact(1) [OF assms] f64_units_minus_trunc abs_mult
    by (simp only: of_nat_power of_nat_numeral abs_of_nat) simp
qed

lemma nbits_eq:
  assumes "2 ^ k \<le> m" and "m < 2 ^ Suc k"
  shows "nbits m = Suc k"
proof (rule antisym)
  show "nbits m \<le> Suc k" using assms(2) by (rule nbits_le)
  have "(2::nat) ^ k < 2 ^ nbits m" using assms(1) nbits_upper [of m] by linarith
  then show "Suc k \<le> nbits m" using power_less_imp_less_exp [of "2::nat" k "nbits m"] by simp
qed

text \<open>a value with a 53-bit significand is not rounded\<close>

lemma f64_round_mag_normal:
  assumes "2 ^ 52 \<le> r" and "r < 2 ^ 53"
  shows "f64_round_mag (r * 2 ^ (q + d)) d = min f64_inf_mag (q * 2 ^ 52 + r)"
proof -
  have "nbits (r * 2 ^ (q + d)) = Suc (52 + (q + d))"
  proof (rule nbits_eq)
    show "2 ^ (52 + (q + d)) \<le> r * 2 ^ (q + d)" unfolding power_add [of _ 52] by (rule mult_le_mono1 [OF assms(1)])
    have "r * 2 ^ (q + d) < 2 ^ 53 * 2 ^ (q + d)" using assms(2) by (intro mult_strict_right_mono) simp_all
    also have "(2::nat) ^ 53 * 2 ^ (q + d) = 2 ^ Suc (52 + (q + d))" by (simp only: power_add [symmetric]) simp
    finally show "r * 2 ^ (q + d) < 2 ^ Suc (52 + (q + d))" .
  qed
  then have "nbits (r * 2 ^ (q + d)) - (53 + d) = q" by simp
  then show ?thesis by (simp add: f64_round_mag_def round_half_even_exact)
qed

section \<open>Integers\<close>

lemma f64_of_int_units:
  assumes "\<bar>n\<bar> < 2 ^ 53"
  shows "f64_units (f64_of_int n) = n * 2 ^ 1074" and "f64_is_finite (f64_of_int n)"
    and "n \<noteq> 0 \<Longrightarrow> f64_sign (f64_of_int n) \<longleftrightarrow> n < 0"
proof -
  have c: "nat \<bar>n\<bar> < 2 ^ 53" using assms by (simp add: nat_less_iff)
  have "nat \<bar>n\<bar> * 2 ^ 1074 < 2 ^ 53 * 2 ^ (1074::nat)" using c by (simp only: mult_less_cancel2) simp
  also have "\<dots> \<le> 2 ^ 2098" by (simp only: power_add [symmetric]) (rule power_increasing; simp)
  finally have v: "nat \<bar>n\<bar> * 2 ^ 1074 < 2 ^ 2098" .
  note r = round_mag_exact [OF c v]
  show "f64_units (f64_of_int n) = n * 2 ^ 1074"
    unfolding f64_of_int_def f64_make_units(1) [OF r(2)] r(1) by (simp split: abs_split)
  show "f64_is_finite (f64_of_int n)" unfolding f64_of_int_def by (rule f64_make_units(2) [OF r(2)])
  show "f64_sign (f64_of_int n) \<longleftrightarrow> n < 0"
    unfolding f64_of_int_def using r(2) f64_inf_mag_less by simp
qed

lemma f64_of_int_back:
  assumes "- (2 ^ 31) \<le> n" "n < 2 ^ 31"
  shows "f64_to_i32 (f64_of_int n) = word_of_int n"
proof -
  have n: "\<bar>n\<bar> < 2 ^ 53" using assms by auto
  note u = f64_of_int_units [OF n]
  have q: "nat \<bar>f64_units (f64_of_int n)\<bar> div 2 ^ 1074 = nat \<bar>n\<bar>"
    unfolding u(1) by (simp only: abs_mult nat_mult_distrib abs_ge_zero) simp
  have "f64_to_i32 (f64_of_int n) = word_of_int (max (- (2 ^ 31)) (min (2 ^ 31 - 1)
      (if f64_sign (f64_of_int n) then - int (nat \<bar>n\<bar>) else int (nat \<bar>n\<bar>))))"
    using f64_finite_not [OF u(2)] by (simp only: f64_to_i32_def Let_def q if_False)
  also have "(if f64_sign (f64_of_int n) then - int (nat \<bar>n\<bar>) else int (nat \<bar>n\<bar>)) = n"
    using u(3) by (cases "n = 0") auto
  also have "max (- (2 ^ 31)) (min (2 ^ 31 - 1) n) = n" using assms by (simp add: max_def min_def)
  finally show ?thesis .
qed

end
