(* ===== verification/InputEvent.thy ===== *)
theory InputEvent
  imports Scancode F64
begin

text \<open>
  Input events (\<open>input-event/src/lib.rs\<close>): what a capture backend produces, the
  wire carries and an emulation backend injects.
\<close>

definition BTN_LEFT :: u32 where "BTN_LEFT = 0x110"
definition BTN_RIGHT :: u32 where "BTN_RIGHT = 0x111"
definition BTN_MIDDLE :: u32 where "BTN_MIDDLE = 0x112"
definition BTN_BACK :: u32 where "BTN_BACK = 0x113"
definition BTN_FORWARD :: u32 where "BTN_FORWARD = 0x114"

text \<open>times, key codes and button codes are \<open>u32\<close>, motion deltas and axis values \<open>f64\<close>\<close>

datatype pointer_event =
    Motion (m_time: u32) (m_dx: f64) (m_dy: f64)
  | Button (b_time: u32) (b_button: u32) (b_state: u32)
  | Axis (a_time: u32) (a_axis: u8) (a_value: f64)
  | AxisDiscrete120 (d_axis: u8) (d_value: i32)

datatype keyboard_event =
    Key (k_time: u32) (k_key: u32) (k_state: u8)
  | Modifiers (k_depressed: u32) (k_latched: u32) (k_locked: u32) (k_group: u32)

datatype event = Pointer pointer_event | Keyboard keyboard_event

section \<open>Display\<close>

text \<open>
  The formatting of an \<open>f64\<close> is the standard library's shortest decimal; it is an
  argument here because nothing depends on it.
\<close>

definition button_name :: "u32 \<Rightarrow> string option" where
  "button_name b =
     (if b = BTN_LEFT then Some ''left''
      else if b = BTN_RIGHT then Some ''right''
      else if b = BTN_MIDDLE then Some ''middle''
      else if b = BTN_FORWARD then Some ''forward''
      else if b = BTN_BACK then Some ''back''
      else None)"

fun pointer_display :: "(f64 \<Rightarrow> string) \<Rightarrow> pointer_event \<Rightarrow> string" where
  "pointer_display ff (Motion _ dx dy) = ''motion('' @ ff dx @ '','' @ ff dy @ '')''"
| "pointer_display ff (Button _ button state) =
     (case button_name button of
        Some n \<Rightarrow> ''button('' @ n @ '', '' @ show_word state @ '')''
      | None \<Rightarrow> ''button('' @ show_word button @ '', '' @ show_word state)"
| "pointer_display ff (Axis _ axis value) = ''scroll('' @ show_word axis @ '', '' @ ff value @ '')''"
| "pointer_display ff (AxisDiscrete120 axis value) =
     ''scroll-120 ('' @ show_word axis @ '', '' @ show_int (sint value) @ '')''"

fun keyboard_display :: "keyboard_event \<Rightarrow> string" where
  "keyboard_display (Key _ key state) =
     (case Option.bind (linux_try_from key) linux_debug of
        Some n \<Rightarrow> ''key('' @ n @ '', '' @ show_word state @ '')''
      | None \<Rightarrow> ''key('' @ show_word key @ '', '' @ show_word state @ '')'')"
| "keyboard_display (Modifiers d la lo g) =
     ''modifiers('' @ show_word d @ '','' @ show_word la @ '','' @ show_word lo @ '','' @ show_word g @ '')''"

fun event_display :: "(f64 \<Rightarrow> string) \<Rightarrow> event \<Rightarrow> string" where
  "event_display ff (Pointer p) = pointer_display ff p"
| "event_display ff (Keyboard k) = keyboard_display k"

text \<open>
  The log line of a button the table does not name is not closed: the format
  string of that branch has no \<open>)\<close>.
\<close>

lemma unknown_button_unclosed:
  assumes "button_name b = None"
  shows "last (pointer_display ff (Button t b s)) \<noteq> CHR '')''"
proof -
  have "of_char (last (show_word s)) \<in> {48..57::nat}"
    unfolding show_word_def by (rule show_nat_digits) (rule last_in_set, simp)
  then have "last (show_word s) \<noteq> CHR '')''" by auto
  then show ?thesis using assms by (simp add: show_word_def)
qed

end
