(* ===== verification/Proto.thy ===== *)
theory Proto
  imports InputEvent
begin

text \<open>
  The datagram format of the input channel (\<open>lan-mouse-proto/src/lib.rs\<close>): one event
  per DTLS datagram of at most \<open>MAX_EVENT_SIZE\<close> bytes, a type byte followed by the
  big-endian fields.
\<close>

definition MAX_EVENT_SIZE :: nat where
  "MAX_EVENT_SIZE = 1 + 4 + 2 * 8"

datatype proto_position = P_Left | P_Right | P_Top | P_Bottom

fun proto_position_display :: "proto_position \<Rightarrow> string" where
  "proto_position_display P_Left = ''left''"
| "proto_position_display P_Right = ''right''"
| "proto_position_display P_Top = ''top''"
| "proto_position_display P_Bottom = ''bottom''"

text \<open>\<open>pos as u8\<close> and the derived \<open>TryFromPrimitive\<close>\<close>

fun position_code :: "proto_position \<Rightarrow> u8" where
  "position_code P_Left = 0"
| "position_code P_Right = 1"
| "position_code P_Top = 2"
| "position_code P_Bottom = 3"

definition position_try_from :: "u8 \<Rightarrow> proto_position option" where
  "position_try_from c = find (\<lambda>p. position_code p = c) [P_Left, P_Right, P_Top, P_Bottom]"

datatype proto_event =
    Enter proto_position
  | Leave u32
  | Ack u32
  | Input event
  | Ping
  | Pong bool
  | Hello "u8 list"

datatype protocol_error = InvalidEventId u8 | InvalidPosition u8

datatype event_type =
    ET_PointerMotion | ET_PointerButton | ET_PointerAxis | ET_PointerAxisValue120
  | ET_KeyboardKey | ET_KeyboardModifiers | ET_Ping | ET_Pong | ET_Enter | ET_Leave
  | ET_Ack | ET_Hello

definition event_types :: "event_type list" where
  "event_types = [ET_PointerMotion, ET_PointerButton, ET_PointerAxis, ET_PointerAxisValue120,
     ET_KeyboardKey, ET_KeyboardModifiers, ET_Ping, ET_Pong, ET_Enter, ET_Leave, ET_Ack, ET_Hello]"

fun event_type_code :: "event_type \<Rightarrow> u8" where
  "event_type_code ET_PointerMotion = 0"
| "event_type_code ET_PointerButton = 1"
| "event_type_code ET_PointerAxis = 2"
| "event_type_code ET_PointerAxisValue120 = 3"
| "event_type_code ET_KeyboardKey = 4"
| "event_type_code ET_KeyboardModifiers = 5"
| "event_type_code ET_Ping = 6"
| "event_type_code ET_Pong = 7"
| "event_type_code ET_Enter = 8"
| "event_type_code ET_Leave = 9"
| "event_type_code ET_Ack = 10"
| "event_type_code ET_Hello = 11"

definition event_type_try_from :: "u8 \<Rightarrow> event_type option" where
  "event_type_try_from c = find (\<lambda>t. event_type_code t = c) event_types"

fun event_type_of :: "proto_event \<Rightarrow> event_type" where
  "event_type_of (Input (Pointer (Motion _ _ _))) = ET_PointerMotion"
| "event_type_of (Input (Pointer (Button _ _ _))) = ET_PointerButton"
| "event_type_of (Input (Pointer (Axis _ _ _))) = ET_PointerAxis"
| "event_type_of (Input (Pointer (AxisDiscrete120 _ _))) = ET_PointerAxisValue120"
| "event_type_of (Input (Keyboard (Key _ _ _))) = ET_KeyboardKey"
| "event_type_of (Input (Keyboard (Modifiers _ _ _ _))) = ET_KeyboardModifiers"
| "event_type_of Ping = ET_Ping"
| "event_type_of (Pong _) = ET_Pong"
| "event_type_of (Enter _) = ET_Enter"
| "event_type_of (Leave _) = ET_Leave"
| "event_type_of (Ack _) = ET_Ack"
| "event_type_of (Hello _) = ET_Hello"

section \<open>Decoding\<close>

text \<open>
  The readers take the front of the slice and advance it; \<open>split_at\<close> panics when the
  slice is too short.
\<close>

definition decode_n :: "nat \<Rightarrow> u8 list \<Rightarrow> ('a::len word \<times> u8 list, protocol_error) outcome" where
  "decode_n n data =
     (if length data < n then Panic else Ok (of_be_bytes (take n data), drop n data))"

definition decode_u8 :: "u8 list \<Rightarrow> (u8 \<times> u8 list, protocol_error) outcome" where
  "decode_u8 = decode_n 1"

definition decode_u32 :: "u8 list \<Rightarrow> (u32 \<times> u8 list, protocol_error) outcome" where
  "decode_u32 = decode_n 4"

definition decode_i32 :: "u8 list \<Rightarrow> (i32 \<times> u8 list, protocol_error) outcome" where
  "decode_i32 = decode_n 4"

definition decode_f64 :: "u8 list \<Rightarrow> (f64 \<times> u8 list, protocol_error) outcome" where
  "decode_f64 = decode_n 8"

text \<open>the loop that fills the commit array, \<open>n\<close> bytes to go\<close>

fun decode_commit :: "nat \<Rightarrow> u8 list \<Rightarrow> (u8 list \<times> u8 list, protocol_error) outcome" where
  "decode_commit 0 d = Ok ([], d)"
| "decode_commit (Suc n) d =
     obind (decode_u8 d) (\<lambda>(b, d). obind (decode_commit n d) (\<lambda>(bs, d). Ok (b # bs, d)))"

definition decode_body :: "event_type \<Rightarrow> u8 list \<Rightarrow> (proto_event \<times> u8 list, protocol_error) outcome" where
  "decode_body t d =
     (case t of
        ET_PointerMotion \<Rightarrow>
          obind (decode_u32 d) (\<lambda>(time, d). obind (decode_f64 d) (\<lambda>(dx, d).
          obind (decode_f64 d) (\<lambda>(dy, d). Ok (Input (Pointer (Motion time dx dy)), d))))
      | ET_PointerButton \<Rightarrow>
          obind (decode_u32 d) (\<lambda>(time, d). obind (decode_u32 d) (\<lambda>(button, d).
          obind (decode_u32 d) (\<lambda>(state, d). Ok (Input (Pointer (Button time button state)), d))))
      | ET_PointerAxis \<Rightarrow>
          obind (decode_u32 d) (\<lambda>(time, d). obind (decode_u8 d) (\<lambda>(axis, d).
          obind (decode_f64 d) (\<lambda>(value, d). Ok (Input (Pointer (Axis time axis value)), d))))
      | ET_PointerAxisValue120 \<Rightarrow>
          obind (decode_u8 d) (\<lambda>(axis, d). obind (decode_i32 d) (\<lambda>(value, d).
          Ok (Input (Pointer (AxisDiscrete120 axis value)), d)))
      | ET_KeyboardKey \<Rightarrow>
          obind (decode_u32 d) (\<lambda>(time, d). obind (decode_u32 d) (\<lambda>(key, d).
          obind (decode_u8 d) (\<lambda>(state, d). Ok (Input (Keyboard (Key time key state)), d))))
      | ET_KeyboardModifiers \<Rightarrow>
          obind (decode_u32 d) (\<lambda>(depressed, d). obind (decode_u32 d) (\<lambda>(latched, d).
          obind (decode_u32 d) (\<lambda>(locked, d). obind (decode_u32 d) (\<lambda>(grp, d).
          Ok (Input (Keyboard (Modifiers depressed latched locked grp)), d)))))
      | ET_Ping \<Rightarrow> Ok (Ping, d)
      | ET_Pong \<Rightarrow> obind (decode_u8 d) (\<lambda>(b, d). Ok (Pong (b \<noteq> 0), d))
      | ET_Enter \<Rightarrow>
          obind (decode_u8 d) (\<lambda>(b, d).
            case position_try_from b of None \<Rightarrow> Err (InvalidPosition b) | Some p \<Rightarrow> Ok (Enter p, d))
      | ET_Leave \<Rightarrow> obind (decode_u32 d) (\<lambda>(serial, d). Ok (Leave serial, d))
      | ET_Ack \<Rightarrow> obind (decode_u32 d) (\<lambda>(serial, d). Ok (Ack serial, d))
      | ET_Hello \<Rightarrow> obind (decode_commit 8 d) (\<lambda>(commit, d). Ok (Hello commit, d)))"

definition proto_parse :: "u8 list \<Rightarrow> (proto_event \<times> u8 list, protocol_error) outcome" where
  "proto_parse data =
     obind (decode_u8 data) (\<lambda>(c, d).
       case event_type_try_from c of
         None \<Rightarrow> Err (InvalidEventId c)
       | Some t \<Rightarrow> decode_body t d)"

text \<open>\<open>TryFrom<[u8; MAX_EVENT_SIZE]>\<close>: what is left of the buffer is ignored.\<close>

definition proto_decode :: "u8 list \<Rightarrow> (proto_event, protocol_error) outcome" where
  "proto_decode buf = obind (proto_parse buf) (\<lambda>(e, _). Ok e)"

section \<open>Encoding\<close>

text \<open>
  The writer's state: the bytes written, the slice that is left of the buffer, the
  length so far. \<open>split_at_mut\<close> panics when the slice is too short.
\<close>

type_synonym enc_buf = "u8 list \<times> u8 list \<times> nat"

fun encode_bytes :: "u8 list \<Rightarrow> enc_buf \<Rightarrow> (enc_buf, protocol_error) outcome" where
  "encode_bytes src (written, rest, len) =
     (if length rest < length src then Panic
      else Ok (written @ src, drop (length src) rest, len + length src))"

definition encode_u8 :: "u8 \<Rightarrow> enc_buf \<Rightarrow> (enc_buf, protocol_error) outcome" where
  "encode_u8 n = encode_bytes (be_bytes 1 n)"

definition encode_u32 :: "u32 \<Rightarrow> enc_buf \<Rightarrow> (enc_buf, protocol_error) outcome" where
  "encode_u32 n = encode_bytes (be_bytes 4 n)"

definition encode_i32 :: "i32 \<Rightarrow> enc_buf \<Rightarrow> (enc_buf, protocol_error) outcome" where
  "encode_i32 n = encode_bytes (be_bytes 4 n)"

definition encode_f64 :: "f64 \<Rightarrow> enc_buf \<Rightarrow> (enc_buf, protocol_error) outcome" where
  "encode_f64 n = encode_bytes (be_bytes 8 n)"

fun encode_commit :: "u8 list \<Rightarrow> enc_buf \<Rightarrow> (enc_buf, protocol_error) outcome" where
  "encode_commit [] b = Ok b"
| "encode_commit (c # cs) b = obind (encode_u8 c b) (encode_commit cs)"

fun encode_body :: "proto_event \<Rightarrow> enc_buf \<Rightarrow> (enc_buf, protocol_error) outcome" where
  "encode_body (Input (Pointer (Motion time dx dy))) b =
     obind (encode_u32 time b) (\<lambda>b. obind (encode_f64 dx b) (encode_f64 dy))"
| "encode_body (Input (Pointer (Button time button state))) b =
     obind (encode_u32 time b) (\<lambda>b. obind (encode_u32 button b) (encode_u32 state))"
| "encode_body (Input (Pointer (Axis time axis value))) b =
     obind (encode_u32 time b) (\<lambda>b. obind (encode_u8 axis b) (encode_f64 value))"
| "encode_body (Input (Pointer (AxisDiscrete120 axis value))) b =
     obind (encode_u8 axis b) (encode_i32 value)"
| "encode_body (Input (Keyboard (Key time key state))) b =
     obind (encode_u32 time b) (\<lambda>b. obind (encode_u32 key b) (encode_u8 state))"
| "encode_body (Input (Keyboard (Modifiers depressed latched locked grp))) b =
     obind (encode_u32 depressed b) (\<lambda>b. obind (encode_u32 latched b)
       (\<lambda>b. obind (encode_u32 locked b) (encode_u32 grp)))"
| "encode_body Ping b = Ok b"
| "encode_body (Pong alive) b = encode_u8 (if alive then 1 else 0) b"
| "encode_body (Enter pos) b = encode_u8 (position_code pos) b"
| "encode_body (Leave serial) b = encode_u32 serial b"
| "encode_body (Ack serial) b = encode_u32 serial b"
| "encode_body (Hello commit) b = encode_commit commit b"

definition proto_encode :: "proto_event \<Rightarrow> (u8 list \<times> nat, protocol_error) outcome" where
  "proto_encode e =
     obind (encode_u8 (event_type_code (event_type_of e)) ([], replicate MAX_EVENT_SIZE 0, 0)) (\<lambda>b.
     obind (encode_body e b) (\<lambda>(written, rest, len). Ok (written @ rest, len)))"

text \<open>a \<open>[u8; 8]\<close> is a list of eight bytes\<close>

fun proto_wf :: "proto_event \<Rightarrow> bool" where
  "proto_wf (Hello commit) = (length commit = 8)"
| "proto_wf _ = True"

section \<open>Specification of the format\<close>

text \<open>The bytes of an event, as a plain concatenation of its fields.\<close>

fun proto_fields :: "proto_event \<Rightarrow> u8 list" where
  "proto_fields (Input (Pointer (Motion time dx dy))) = be_bytes 4 time @ be_bytes 8 dx @ be_bytes 8 dy"
| "proto_fields (Input (Pointer (Button time button state))) =
     be_bytes 4 time @ be_bytes 4 button @ be_bytes 4 state"
| "proto_fields (Input (Pointer (Axis time axis value))) = be_bytes 4 time @ be_bytes 1 axis @ be_bytes 8 value"
| "proto_fields (Input (Pointer (AxisDiscrete120 axis value))) = be_bytes 1 axis @ be_bytes 4 value"
| "proto_fields (Input (Keyboard (Key time key state))) = be_bytes 4 time @ be_bytes 4 key @ be_bytes 1 state"
| "proto_fields (Input (Keyboard (Modifiers d la lo g))) =
     be_bytes 4 d @ be_bytes 4 la @ be_bytes 4 lo @ be_bytes 4 g"
| "proto_fields Ping = []"
| "proto_fields (Pong alive) = be_bytes 1 (if alive then 1 else 0 :: u8)"
| "proto_fields (Enter pos) = be_bytes 1 (position_code pos)"
| "proto_fields (Leave serial) = be_bytes 4 serial"
| "proto_fields (Ack serial) = be_bytes 4 serial"
| "proto_fields (Hello commit) = concat (map (be_bytes 1) commit)"

definition proto_bytes :: "proto_event \<Rightarrow> u8 list" where
  "proto_bytes e = be_bytes 1 (event_type_code (event_type_of e)) @ proto_fields e"

subsection \<open>The field readers undo the field writers\<close>

lemma decode_n_be_bytes:
  "LENGTH('a) \<le> 8 * n \<Longrightarrow> decode_n n (be_bytes n (w :: 'a::len word) @ rest) = Ok (w, rest)"
  by (simp add: decode_n_def of_be_bytes_be_bytes)

interpretation u8_codec: prefix_codec "be_bytes (Suc 0)" decode_u8 "\<lambda>_. True"
  by unfold_locales (simp add: decode_u8_def decode_n_be_bytes)

interpretation u32_codec: prefix_codec "be_bytes 4" decode_u32 "\<lambda>_. True"
  by unfold_locales (simp add: decode_u32_def decode_n_be_bytes)

interpretation f64_codec: prefix_codec "be_bytes 8" decode_f64 "\<lambda>_. True"
  by unfold_locales (simp add: decode_f64_def decode_n_be_bytes)

interpretation i32_codec: prefix_codec "be_bytes 4" decode_i32 "\<lambda>_. True"
  by unfold_locales (simp add: decode_i32_def decode_n_be_bytes)

lemmas field_codecs =
  u8_codec.dec_enc [OF TrueI] u32_codec.dec_enc [OF TrueI] i32_codec.dec_enc [OF TrueI] f64_codec.dec_enc [OF TrueI]
  u8_codec.dec_enc_nil [OF TrueI] u32_codec.dec_enc_nil [OF TrueI] i32_codec.dec_enc_nil [OF TrueI]
  f64_codec.dec_enc_nil [OF TrueI]

lemma decode_commit_bytes: "decode_commit (length cs) (concat (map (be_bytes 1) cs) @ rest) = Ok (cs, rest)"
  by (induction cs) (simp_all add: field_codecs)

interpretation commit_codec: prefix_codec "\<lambda>cs. concat (map (be_bytes (Suc 0)) cs)" "decode_commit 8" "\<lambda>cs. length cs = 8"
  by unfold_locales (metis decode_commit_bytes One_nat_def)

lemma event_type_try_code [simp]: "event_type_try_from (event_type_code t) = Some t"
  by (cases t) (simp_all add: event_type_try_from_def event_types_def)

lemma position_try_code [simp]: "position_try_from (position_code p) = Some p"
  by (cases p) (simp_all add: position_try_from_def)

lemma decode_body_fields:
  "proto_wf e \<Longrightarrow> decode_body (event_type_of e) (proto_fields e @ rest) = Ok (e, rest)"
  by (induction e rule: proto_fields.induct)
    (simp_all add: decode_body_def field_codecs commit_codec.dec_enc)

lemma proto_parse_bytes: "proto_wf e \<Longrightarrow> proto_parse (proto_bytes e @ rest) = Ok (e, rest)"
  by (simp add: proto_parse_def proto_bytes_def field_codecs decode_body_fields)

interpretation event_codec: prefix_codec proto_bytes proto_parse proto_wf
  by unfold_locales (rule proto_parse_bytes)

subsection \<open>The writer produces the specified bytes\<close>

lemma length_commit_bytes [simp]: "length (concat (map (be_bytes (Suc 0)) cs)) = length cs"
  by (induction cs) simp_all

lemma encode_field:
  "length bs \<le> length rest \<Longrightarrow>
   encode_bytes bs (w, rest, len) = Ok (w @ bs, drop (length bs) rest, len + length bs)"
  by simp

declare encode_bytes.simps [simp del]

lemmas encode_fields = encode_u8_def encode_u32_def encode_i32_def encode_f64_def encode_field

lemma encode_commit_bytes:
  "length cs \<le> length rest \<Longrightarrow>
   encode_commit cs (w, rest, len) =
     Ok (w @ concat (map (be_bytes 1) cs), drop (length cs) rest, len + length cs)"
  by (induction cs arbitrary: w rest len) (simp_all add: encode_fields)

lemma length_proto_fields: "proto_wf e \<Longrightarrow> length (proto_fields e) \<le> 20"
  by (induction e rule: proto_fields.induct) simp_all

lemma encode_body_fields:
  "proto_wf e \<Longrightarrow> length rest = 20 \<Longrightarrow>
   encode_body e (w, rest, len) =
     Ok (w @ proto_fields e, drop (length (proto_fields e)) rest, len + length (proto_fields e))"
  by (induction e rule: proto_fields.induct) (simp_all add: encode_fields encode_commit_bytes)

lemma length_proto_bytes: "length (proto_bytes e) = Suc (length (proto_fields e))"
  by (simp add: proto_bytes_def)

lemma proto_encode_bytes:
  assumes "proto_wf e"
  shows "proto_encode e =
    Ok (proto_bytes e @ replicate (MAX_EVENT_SIZE - length (proto_bytes e)) 0, length (proto_bytes e))"
  using assms length_proto_fields [OF assms]
  by (simp add: proto_encode_def MAX_EVENT_SIZE_def encode_u8_def encode_field encode_body_fields
      proto_bytes_def)

lemma proto_encode_wf:
  assumes "proto_wf e"
  shows "\<exists>buf len. proto_encode e = Ok (buf, len) \<and> length buf = MAX_EVENT_SIZE \<and>
    take len buf = proto_bytes e \<and> 1 \<le> len \<and> len \<le> MAX_EVENT_SIZE"
  using proto_encode_bytes [OF assms] length_proto_fields [OF assms]
  by (simp add: MAX_EVENT_SIZE_def length_proto_bytes)

section \<open>Properties of the format\<close>

text \<open>
  \<^bold>\<open>C6.\<close> Sending and receiving an event gives the event back. The sender transmits the
  first \<open>len\<close> bytes of the encoded buffer; the receive loops copy a datagram over the
  front of a buffer they reuse, so the decoder sees those bytes followed by whatever the
  previous datagrams left. The datagram is never empty, never longer than the buffer, and
  the stale tail does not matter.
\<close>

theorem proto_roundtrip:
  assumes "proto_wf e" and "proto_encode e = Ok (buf, len)"
  shows "1 \<le> len \<and> len \<le> MAX_EVENT_SIZE \<and> proto_decode (take len buf @ stale) = Ok e"
  using proto_encode_wf [OF assms(1)] assms(2) proto_parse_bytes [OF assms(1), of stale]
  by (auto simp: proto_decode_def)

lemma proto_roundtrip_witness:
  "proto_decode (take 9 [11, 97, 98, 99, 48, 49, 50, 51, 52, 0, 0, 0, 0, 0, 0, 0, 0, 0, 0, 0, 0]
     @ [7, 7, 7, 7, 7, 7, 7, 7, 7, 7, 7, 7]) = Ok (Hello [97, 98, 99, 48, 49, 50, 51, 52])"
proof -
  have "proto_encode (Hello [97, 98, 99, 48, 49, 50, 51, 52])
      = Ok ([11, 97, 98, 99, 48, 49, 50, 51, 52, 0, 0, 0, 0, 0, 0, 0, 0, 0, 0, 0, 0], 9)"
    by code_simp
  from proto_roundtrip [OF _ this] show ?thesis by simp
qed

text \<open>decoding of an arbitrary buffer\<close>

lemma decode_n_enough: "n \<le> length d \<Longrightarrow> \<exists>w. decode_n n d = Ok (w, drop n d)"
  by (simp add: decode_n_def)

lemma decode_commit_enough:
  "n \<le> length d \<Longrightarrow> \<exists>bs. decode_commit n d = Ok (bs, drop n d) \<and> length bs = n"
proof (induction n arbitrary: d)
  case (Suc n)
  from Suc.prems have "n \<le> length (drop 1 d)" by simp
  from Suc.IH [OF this] obtain bs where "decode_commit n (drop 1 d) = Ok (bs, drop n (drop 1 d)) \<and> length bs = n"
    by blast
  with Suc.prems show ?case by (auto simp: decode_u8_def decode_n_def)
qed simp

lemma code_image: "n \<le> 256 \<Longrightarrow> c \<in> word_of_nat ` {..<n} \<longleftrightarrow> unat (c :: u8) < n"
  by (auto simp: image_iff unat_of_nat intro!: bexI [of _ "unat c"])

lemma event_type_try_from_None: "event_type_try_from c = None \<longleftrightarrow> 12 \<le> c"
proof -
  have "event_type_try_from c = None \<longleftrightarrow> c \<notin> event_type_code ` set event_types"
    by (auto simp: event_type_try_from_def find_None_iff)
  also have "event_type_code ` set event_types = word_of_nat ` {..<12}"
    by (auto simp: event_types_def lessThan_nat_numeral lessThan_Suc)
  also have "c \<notin> word_of_nat ` {..<12} \<longleftrightarrow> 12 \<le> c"
    using code_image [of 12 c] by (simp add: word_le_nat_alt not_less)
  finally show ?thesis .
qed

lemma position_try_from_None: "position_try_from c = None \<longleftrightarrow> 4 \<le> c"
proof -
  have "position_try_from c = None \<longleftrightarrow> c \<notin> word_of_nat ` {..<4}"
    by (auto simp: position_try_from_def find_None_iff lessThan_nat_numeral lessThan_Suc)
  also have "c \<notin> word_of_nat ` {..<4} \<longleftrightarrow> 4 \<le> c"
    using code_image [of 4 c] by (simp add: word_le_nat_alt not_less)
  finally show ?thesis .
qed

lemma event_type_try_from_Some: "event_type_try_from c = Some t \<Longrightarrow> event_type_code t = c"
  by (auto simp: event_type_try_from_def find_Some_iff)

lemma position_try_from_Some: "position_try_from c = Some t \<Longrightarrow> position_code t = c"
  unfolding position_try_from_def find_Some_iff by auto

lemma event_type_code_8: "event_type_code t = 8 \<longleftrightarrow> t = ET_Enter"
  by (cases t) simp_all

lemma decode_u8_enough: "d \<noteq> [] \<Longrightarrow> decode_u8 d = Ok (hd d, List.tl d)"
  by (cases d) (auto simp: decode_u8_def decode_n_def of_be_bytes_def)

lemma decode_word_enough:
  "4 \<le> length d \<Longrightarrow> decode_u32 d = Ok (of_be_bytes (take 4 d), drop 4 d)"
  "4 \<le> length d \<Longrightarrow> decode_i32 d = Ok (of_be_bytes (take 4 d), drop 4 d)"
  "8 \<le> length d \<Longrightarrow> decode_f64 d = Ok (of_be_bytes (take 8 d), drop 8 d)"
  by (simp_all add: decode_u32_def decode_i32_def decode_f64_def decode_n_def)

lemma decode_body_enough:
  assumes "20 \<le> length d" and "t \<noteq> ET_Enter"
  shows "\<exists>e rest. decode_body t d = Ok (e, rest) \<and> proto_wf e \<and> event_type_of e = t"
proof -
  have ne: "drop n d \<noteq> []" if "n < 20" for n using assms(1) that by simp
  obtain bs where bs: "decode_commit 8 d = Ok (bs, drop 8 d)" "length bs = 8"
    using decode_commit_enough [of 8 d] assms(1) by auto
  from assms ne [of 0] ne [of 4] ne [of 8] bs show ?thesis
    by (cases t) (auto simp: decode_body_def decode_word_enough decode_u8_enough)
qed

lemma decode_body_enter:
  assumes "20 \<le> length d"
  shows "decode_body ET_Enter d =
    (case position_try_from (hd d) of None \<Rightarrow> Err (InvalidPosition (hd d))
     | Some p \<Rightarrow> Ok (Enter p, List.tl d))"
  using assms by (cases d) (auto simp: decode_body_def decode_u8_enough split: option.split)

text \<open>
  \<^bold>\<open>C37.\<close> Decoding a full buffer, whatever bytes a peer put there, never panics and has
  exactly three outcomes: an unknown type byte is \<open>InvalidEventId\<close> with that byte, an
  \<open>Enter\<close> with an unknown position is \<open>InvalidPosition\<close> with that byte, and everything else
  is a well-formed event whose type is the first byte.
\<close>

theorem proto_decode_total:
  assumes "length buf = MAX_EVENT_SIZE"
  shows "(12 \<le> buf ! 0 \<longrightarrow> proto_decode buf = Err (InvalidEventId (buf ! 0))) \<and>
    (buf ! 0 = 8 \<and> 4 \<le> buf ! 1 \<longrightarrow> proto_decode buf = Err (InvalidPosition (buf ! 1))) \<and>
    (buf ! 0 < 12 \<and> \<not> (buf ! 0 = 8 \<and> 4 \<le> buf ! 1) \<longrightarrow>
      (\<exists>e. proto_decode buf = Ok e \<and> proto_wf e \<and> event_type_code (event_type_of e) = buf ! 0))"
proof -
  obtain c d where buf: "buf = c # d" and d: "20 \<le> length d"
    using assms by (cases buf) (auto simp: MAX_EVENT_SIZE_def)
  then have d: "20 \<le> length d" "d \<noteq> []" by auto
  have parse: "proto_parse buf = (case event_type_try_from c of None \<Rightarrow> Err (InvalidEventId c)
      | Some t \<Rightarrow> decode_body t d)"
    by (simp add: proto_parse_def buf decode_u8_enough)
  have hd: "d ! 0 = hd d" using d(2) by (simp add: hd_conv_nth)
  show ?thesis
  proof (cases "event_type_try_from c")
    case None
    then show ?thesis
      using event_type_try_from_None [of c] parse buf
      by (auto simp: proto_decode_def not_le [symmetric] simp del: not_le)
  next
    case (Some t)
    have c: "c < 12" "c = event_type_code t"
      using Some event_type_try_from_None [of c] event_type_try_from_Some [OF Some] by (simp_all add: not_le)
    show ?thesis
    proof (cases "t = ET_Enter")
      case False
      then have "c \<noteq> 8" using c(2) event_type_code_8 by simp
      then show ?thesis
        using decode_body_enough [OF d(1) False] c Some parse buf
        by (fastforce simp: proto_decode_def not_le [symmetric] simp del: not_le)
    next
      case True
      then show ?thesis
        using c Some position_try_from_None [of "hd d"] hd
          parse [unfolded buf] decode_body_enter [OF d(1)]
        by (cases "position_try_from (hd d)") (auto simp: proto_decode_def buf)
    qed
  qed
qed

lemma proto_decode_total_witness:
  "proto_decode (8 # replicate 20 3) = Ok (Enter P_Bottom) \<and>
   proto_decode (8 # replicate 20 4) = Err (InvalidPosition 4) \<and>
   proto_decode (12 # replicate 20 0) = Err (InvalidEventId 12)"
proof -
  have len: "length (x # replicate 20 y) = MAX_EVENT_SIZE" for x y :: u8
    by (simp add: MAX_EVENT_SIZE_def)
  have "proto_decode (8 # replicate 20 3) = Ok (Enter P_Bottom)" by code_simp
  then show ?thesis
    using proto_decode_total [OF len, of 8 4] proto_decode_total [OF len, of 12 0] by simp
qed

end
