(* ===== verification/Strings.thy ===== *)
theory Strings
  imports Prelude "HOL-Library.Sublist"
begin

text \<open>
  The string functions of the standard library the code relies on, on UTF-8 byte
  strings: \<open>str::trim\<close>, \<open>trim_end_matches\<close>, and splitting at a character.
\<close>

definition bytes_str :: "nat list \<Rightarrow> string" where
  "bytes_str ns = map char_of ns"

text \<open>the UTF-8 sequences of the characters with the Unicode property \<open>White_Space\<close>\<close>

definition ws_seqs :: "string list" where
  "ws_seqs = map bytes_str
     ([[9], [10], [11], [12], [13], [32], [0xC2, 0x85], [0xC2, 0xA0], [0xE1, 0x9A, 0x80]]
      @ map (\<lambda>b. [0xE2, 0x80, b]) ([0x80..<0x8B] @ [0xA8, 0xA9, 0xAF])
      @ [[0xE2, 0x81, 0x9F], [0xE3, 0x80, 0x80]])"

lemma ws_seqs_nonempty: "w \<in> set ws_seqs \<Longrightarrow> w \<noteq> []"
  by (auto simp: ws_seqs_def bytes_str_def)

function trim_start :: "string \<Rightarrow> string" where
  "trim_start s = (case find (\<lambda>w. prefix w s) ws_seqs of
      None \<Rightarrow> s | Some w \<Rightarrow> trim_start (drop (length w) s))"
  by auto
termination
  by (relation "measure length")
    (auto simp: find_Some_iff prefix_def dest!: ws_seqs_nonempty [OF nth_mem])

function trim_end :: "string \<Rightarrow> string" where
  "trim_end s = (case find (\<lambda>w. suffix w s) ws_seqs of
      None \<Rightarrow> s | Some w \<Rightarrow> trim_end (take (length s - length w) s))"
  by auto
termination
  by (relation "measure length")
    (auto simp: find_Some_iff suffix_def dest!: ws_seqs_nonempty [OF nth_mem])

declare trim_start.simps [simp del] trim_end.simps [simp del]

definition trim :: "string \<Rightarrow> string" where
  "trim s = trim_end (trim_start s)"

text \<open>\<open>trim_end_matches\<close> with a non-empty string: strip every copy at the end\<close>

function trim_end_matches :: "string \<Rightarrow> string \<Rightarrow> string" where
  "trim_end_matches w s =
     (if w \<noteq> [] \<and> suffix w s then trim_end_matches w (take (length s - length w) s) else s)"
  by auto
termination
  by (relation "measure (\<lambda>(w, s). length s)") (auto simp: suffix_def)

declare trim_end_matches.simps [simp del]

lemma trim_start_suffix: "suffix (trim_start s) s"
proof (induction s rule: trim_start.induct)
  case (1 s)
  show ?case
  proof (cases "find (\<lambda>w. prefix w s) ws_seqs")
    case None
    then show ?thesis by (simp add: trim_start.simps [of s])
  next
    case (Some w)
    from 1 [OF Some] have "suffix (trim_start (drop (length w) s)) s"
      by (meson suffix_drop suffix_order.trans)
    with Some show ?thesis by (simp add: trim_start.simps [of s])
  qed
qed

lemma trim_end_prefix: "prefix (trim_end s) s"
proof (induction s rule: trim_end.induct)
  case (1 s)
  show ?case
  proof (cases "find (\<lambda>w. suffix w s) ws_seqs")
    case None
    then show ?thesis by (simp add: trim_end.simps [of s])
  next
    case (Some w)
    from 1 [OF Some] have "prefix (trim_end (take (length s - length w) s)) s"
      by (meson take_is_prefix prefix_order.trans)
    with Some show ?thesis by (simp add: trim_end.simps [of s])
  qed
qed

lemma trim_end_done: "w \<in> set ws_seqs \<Longrightarrow> \<not> suffix w (trim_end s)"
proof (induction s rule: trim_end.induct)
  case (1 s)
  show ?case
  proof (cases "find (\<lambda>w. suffix w s) ws_seqs")
    case None
    have "trim_end s = s" by (subst trim_end.simps) (simp add: None)
    moreover have "\<not> suffix w s" using "1.prems" None by (auto simp: find_None_iff)
    ultimately show ?thesis by simp
  next
    case (Some w')
    then show ?thesis using 1 by (subst trim_end.simps) simp
  qed
qed

lemma trim_end_fixed: "(\<And>w. w \<in> set ws_seqs \<Longrightarrow> \<not> suffix w s) \<Longrightarrow> trim_end s = s"
  by (subst trim_end.simps) (auto simp: find_None_iff split: option.split dest: find_Some_iff [THEN iffD1])

lemma trim_end_idem [simp]: "trim_end (trim_end s) = trim_end s"
  by (rule trim_end_fixed) (rule trim_end_done)

lemma trim_sublist: "sublist (trim s) s"
  unfolding trim_def
  by (meson trim_end_prefix trim_start_suffix prefix_imp_sublist suffix_imp_sublist sublist_order.order.trans)

lemma set_trim: "set (trim s) \<subseteq> set s"
  using trim_sublist [of s] unfolding sublist_def by (metis Un_upper1 Un_upper2 le_supI2 set_append)

lemma length_trim: "length (trim s) \<le> length s"
  by (rule sublist_length_le [OF trim_sublist])

end
