(* ===== verification/Ipc.thy ===== *)
theory Ipc
  imports Scancode F64
begin

text \<open>
  The vocabulary the service, its frontends and the configuration share
  (\<open>lan-mouse-ipc/src/lib.rs\<close>): positions, modifier maps, the configuration and the
  state of a client, the requests of a frontend and the events it is sent.
\<close>

definition DEFAULT_PORT :: u16 where "DEFAULT_PORT = 4242"
definition DEFAULT_SYNC_PORT :: u16 where "DEFAULT_SYNC_PORT = 4243"

section \<open>Positions\<close>

datatype position = Left | Right | Top | Bottom

fun opposite :: "position \<Rightarrow> position" where
  "opposite Left = Right"
| "opposite Right = Left"
| "opposite Top = Bottom"
| "opposite Bottom = Top"

text \<open>\<open>FromStr\<close>, with the offending string in the error, and \<open>TryFrom<&str>\<close>\<close>

datatype position_parse_error = PositionParseError string

definition position_from_str :: "string \<Rightarrow> (position, position_parse_error) outcome" where
  "position_from_str s =
     (if s = ''left'' then Ok Left
      else if s = ''right'' then Ok Right
      else if s = ''top'' then Ok Top
      else if s = ''bottom'' then Ok Bottom
      else Err (PositionParseError s))"

fun position_display :: "position \<Rightarrow> string" where
  "position_display Left = ''left''"
| "position_display Right = ''right''"
| "position_display Top = ''top''"
| "position_display Bottom = ''bottom''"

definition position_try_from_str :: "string \<Rightarrow> position option" where
  "position_try_from_str s =
     (if s = ''left'' then Some Left
      else if s = ''right'' then Some Right
      else if s = ''top'' then Some Top
      else if s = ''bottom'' then Some Bottom
      else None)"

section \<open>Modifier maps\<close>

datatype modifier = Ctrl | Alt | Meta

fun modifier_display :: "modifier \<Rightarrow> string" where
  "modifier_display Ctrl = ''ctrl''"
| "modifier_display Alt = ''alt''"
| "modifier_display Meta = ''meta''"

definition modifier_try_from_str :: "string \<Rightarrow> modifier option" where
  "modifier_try_from_str s =
     (if s = ''ctrl'' then Some Ctrl
      else if s = ''alt'' then Some Alt
      else if s = ''meta'' then Some Meta
      else None)"

record modifier_map =
  mm_ctrl :: modifier
  mm_alt :: modifier
  mm_meta :: modifier

definition modifier_map_default :: modifier_map where
  "modifier_map_default = \<lparr>mm_ctrl = Ctrl, mm_alt = Alt, mm_meta = Meta\<rparr>"

definition is_identity :: "modifier_map \<Rightarrow> bool" where
  "is_identity m = (m = modifier_map_default)"

section \<open>Pointer speed\<close>

definition DEFAULT_SPEED :: f64 where "DEFAULT_SPEED = f64_one"
definition MIN_SPEED :: f64 where "MIN_SPEED = f64_quarter"
definition MAX_SPEED :: f64 where "MAX_SPEED = f64_four"

definition clamp_speed :: "f64 \<Rightarrow> f64" where
  "clamp_speed speed =
     (if f64_is_nan speed then DEFAULT_SPEED else f64_clamp speed MIN_SPEED MAX_SPEED)"

section \<open>Clients\<close>

text \<open>an \<open>IpAddr\<close> is its four or sixteen bytes, a \<open>SocketAddr\<close> an address and a port\<close>

datatype ip_addr = V4 u32 | V6 "128 word"

text \<open>the derived order of \<open>IpAddr\<close>: version 4 before version 6, then numerically\<close>

instantiation ip_addr :: linorder
begin

fun less_eq_ip_addr :: "ip_addr \<Rightarrow> ip_addr \<Rightarrow> bool" where
  "less_eq_ip_addr (V4 a) (V4 b) = (a \<le> b)"
| "less_eq_ip_addr (V4 a) (V6 b) = True"
| "less_eq_ip_addr (V6 a) (V4 b) = False"
| "less_eq_ip_addr (V6 a) (V6 b) = (a \<le> b)"

definition less_ip_addr :: "ip_addr \<Rightarrow> ip_addr \<Rightarrow> bool" where
  "less_ip_addr a b = (a \<le> b \<and> \<not> b \<le> a)"

instance
proof
  fix x y z :: ip_addr
  show "(x < y) = (x \<le> y \<and> \<not> y \<le> x)" by (rule less_ip_addr_def)
  show "x \<le> x" by (cases x) simp_all
  show "x \<le> y \<Longrightarrow> y \<le> z \<Longrightarrow> x \<le> z" by (cases x; cases y; cases z) simp_all
  show "x \<le> y \<Longrightarrow> y \<le> x \<Longrightarrow> x = y" by (cases x; cases y) simp_all
  show "x \<le> y \<or> y \<le> x" by (cases x; cases y) auto
qed

end

record socket_addr =
  sa_ip :: ip_addr
  sa_port :: u16

record client_config =
  cc_hostname :: "string option"
  cc_fix_ips :: "ip_addr list"
  cc_port :: u16
  cc_pos :: position
  cc_cmd :: "string option"
  cc_speed :: f64
  cc_modifiers :: modifier_map

definition client_config_default :: client_config where
  "client_config_default =
     \<lparr>cc_hostname = None, cc_fix_ips = [], cc_port = DEFAULT_PORT, cc_pos = Left,
      cc_cmd = None, cc_speed = DEFAULT_SPEED, cc_modifiers = modifier_map_default\<rparr>"

type_synonym client_handle = u64

record client_state =
  cs_active :: bool
  cs_active_addr :: "socket_addr option"
  cs_alive :: bool
  cs_dns_ips :: "ip_addr list"
  cs_ips :: "ip_addr set"
  cs_has_pressed_keys :: bool
  cs_resolving :: bool
  cs_peer_commit :: "u8 list option"

definition client_state_default :: client_state where
  "client_state_default =
     \<lparr>cs_active = False, cs_active_addr = None, cs_alive = False, cs_dns_ips = [], cs_ips = {},
      cs_has_pressed_keys = False, cs_resolving = False, cs_peer_commit = None\<rparr>"

section \<open>Frontend messages\<close>

datatype direction = Sent | Received
datatype clipboard_kind = CK_Text | CK_Image
datatype transfer_state = TS_Active | TS_Done | TS_Failed
datatype transfer_kind = TK_File | TK_Folder
datatype status = Disabled | Enabled

fun status_bool :: "status \<Rightarrow> bool" where
  "status_bool Enabled = True"
| "status_bool Disabled = False"

record file_transfer_status =
  ft_id :: u64
  ft_name :: string
  ft_direction :: direction
  ft_transferred :: u64
  ft_total :: u64
  ft_state :: transfer_state
  ft_detail :: "string option"
  ft_kind :: transfer_kind
  ft_files :: u32

record discovered_peer =
  dp_name :: string
  dp_addrs :: "ip_addr list"
  dp_port :: u16

datatype frontend_event =
    Created client_handle client_config client_state
  | NoSuchClient client_handle
  | State client_handle client_config client_state
  | Deleted client_handle
  | PortChanged u16 "string option"
  | EnumerateE "(client_handle \<times> client_config \<times> client_state) list"
  | ErrorE string
  | CaptureStatus status
  | EmulationStatus status
  | AuthorizedUpdated "(string, string) hmap"
  | PublicKeyFingerprint string
  | DeviceConnected socket_addr string
  | DeviceEntered string socket_addr position
  | IncomingDisconnected socket_addr
  | ConnectionAttempt string
  | PairingStarted string u16
  | PairingComplete string string
  | PairingFailed string
  | PeersDiscovered "discovered_peer list"
  | SyncStatus bool "string option"
  | VyloState bool bool string string u16
  | ClipboardSynced direction clipboard_kind
  | FileTransfer file_transfer_status
  | FilesDropped "string list"

datatype frontend_request =
    Activate client_handle bool
  | Create
  | ChangePort u16
  | Delete client_handle
  | Enumerate
  | ResolveDns client_handle
  | UpdateHostname client_handle "string option"
  | UpdatePort client_handle u16
  | UpdatePosition client_handle position
  | UpdateFixIps client_handle "ip_addr list"
  | EnableCapture
  | EnableEmulation
  | Sync
  | AuthorizeKey string string
  | RemoveAuthorizedKey string
  | UpdateEnterHook u64 "string option"
  | SaveConfiguration
  | StartPairing
  | PairWithPeer string string
  | CancelPairing
  | SendFiles "string list"
  | SetClipboardSync bool
  | SetKeyboardLayoutSync bool
  | SetFileDir string
  | SetDeviceName string
  | UpdateSpeed client_handle f64
  | UpdateModifierMap client_handle modifier_map

section \<open>Lemmas\<close>

lemma opposite_opposite [simp]: "opposite (opposite p) = p"
  by (cases p) simp_all

lemma opposite_neq [simp]: "opposite p \<noteq> p"
  by (cases p) simp_all

lemma position_parse_display [simp]:
  "position_from_str (position_display p) = Ok p"
  "position_try_from_str (position_display p) = Some p"
  by (cases p; simp add: position_from_str_def position_try_from_str_def)+

lemma position_parse_eq:
  "position_from_str s = (case position_try_from_str s of Some p \<Rightarrow> Ok p | None \<Rightarrow> Err (PositionParseError s))"
  by (simp add: position_from_str_def position_try_from_str_def)

lemma position_try_from_str_Some: "position_try_from_str s = Some p \<longleftrightarrow> s = position_display p"
  by (cases p) (auto simp: position_try_from_str_def)

lemma modifier_parse_display [simp]: "modifier_try_from_str (modifier_display m) = Some m"
  by (cases m) (simp_all add: modifier_try_from_str_def)

lemma modifier_try_from_str_Some: "modifier_try_from_str s = Some m \<longleftrightarrow> s = modifier_display m"
  by (cases m) (auto simp: modifier_try_from_str_def)

lemmas speed_defs = MIN_SPEED_def MAX_SPEED_def DEFAULT_SPEED_def f64_quarter_def f64_four_def f64_one_def

lemma speed_keys:
  "f64_key MIN_SPEED = 1021 * 2 ^ 52" "f64_key MAX_SPEED = 1025 * 2 ^ 52" "f64_key DEFAULT_SPEED = 1023 * 2 ^ 52"
  by (simp_all add: speed_defs f64_key_def f64_sign_def f64_mag_def)

lemma speed_finite:
  "f64_is_finite MIN_SPEED" "f64_is_finite MAX_SPEED" "f64_is_finite DEFAULT_SPEED"
  "\<not> f64_is_nan MIN_SPEED" "\<not> f64_is_nan MAX_SPEED" "\<not> f64_is_nan DEFAULT_SPEED"
  by (simp_all add: speed_defs f64_is_finite_def f64_is_nan_def f64_mag_def f64_inf_mag_def)

lemma speed_order:
  "\<not> f64_lt MIN_SPEED MIN_SPEED" "\<not> f64_lt MAX_SPEED MAX_SPEED" "\<not> f64_lt MAX_SPEED MIN_SPEED"
  "\<not> f64_lt DEFAULT_SPEED MIN_SPEED" "\<not> f64_lt MAX_SPEED DEFAULT_SPEED"
  by (simp_all add: f64_lt_def speed_keys)

lemma finite_of_key: "\<not> f64_is_nan s \<Longrightarrow> \<bar>f64_key s\<bar> < int f64_inf_mag \<Longrightarrow> f64_is_finite s"
  by (auto simp: f64_key_def f64_is_finite_def split: if_splits)

lemma clamp_speed_idem: "clamp_speed (clamp_speed s) = clamp_speed s"
  by (auto simp: clamp_speed_def f64_clamp_def speed_finite speed_order)

text \<open>
  Whatever bit pattern a frontend or a configuration file supplies as the speed
  (infinities, not-a-numbers, negative zero), the value used is an ordinary number between
  \<open>MIN_SPEED\<close> and \<open>MAX_SPEED\<close>; a speed already in range is kept bit for bit, and clamping
  twice changes nothing.
\<close>

theorem clamp_speed_bounds:
  "f64_is_finite (clamp_speed s) \<and> \<not> f64_lt (clamp_speed s) MIN_SPEED \<and>
   \<not> f64_lt MAX_SPEED (clamp_speed s) \<and> clamp_speed (clamp_speed s) = clamp_speed s \<and>
   (f64_is_nan s \<or> f64_lt s MIN_SPEED \<or> f64_lt MAX_SPEED s \<or> clamp_speed s = s)"
proof (cases "f64_is_nan s \<or> f64_lt s MIN_SPEED \<or> f64_lt MAX_SPEED s")
  case True
  then show ?thesis
    by (auto simp: clamp_speed_def f64_clamp_def speed_finite speed_order)
next
  case False
  then have "f64_key s \<le> f64_key MAX_SPEED" "f64_key MIN_SPEED \<le> f64_key s" "\<not> f64_is_nan s"
    by (auto simp: f64_lt_def speed_finite)
  then have "f64_is_finite s"
    by (intro finite_of_key) (simp_all add: speed_keys f64_inf_mag_def)
  with False show ?thesis by (simp add: clamp_speed_def f64_clamp_def)
qed

end
