(* ===== verification/Config.thy ===== *)
theory Config
  imports Strings Ipc
begin

text \<open>
  The configuration (\<open>src/config.rs\<close>): the TOML document as a record of optional
  fields, the accessors with their defaults, the conversion between the client entries of
  the document and \<open>ConfigClient\<close>, reading and writing the file. The TOML library and the
  environment (host name, directories) are arguments.
\<close>

section \<open>Data\<close>

datatype capture_backend =
    CB_InputCapturePortal | CB_LayerShell | CB_X11 | CB_Windows | CB_MacOs | CB_Dummy

fun capture_backend_display :: "capture_backend \<Rightarrow> string" where
  "capture_backend_display CB_InputCapturePortal = ''input-capture-portal''"
| "capture_backend_display CB_LayerShell = ''layer-shell''"
| "capture_backend_display CB_X11 = ''X11''"
| "capture_backend_display CB_Windows = ''windows''"
| "capture_backend_display CB_MacOs = ''MacOS''"
| "capture_backend_display CB_Dummy = ''dummy''"

datatype emulation_backend =
    EB_Wlroots | EB_Libei | EB_Xdp | EB_X11 | EB_Windows | EB_MacOs | EB_Dummy

fun emulation_backend_display :: "emulation_backend \<Rightarrow> string" where
  "emulation_backend_display EB_Wlroots = ''wlroots''"
| "emulation_backend_display EB_Libei = ''libei''"
| "emulation_backend_display EB_Xdp = ''xdg-desktop-portal''"
| "emulation_backend_display EB_X11 = ''X11''"
| "emulation_backend_display EB_Windows = ''windows''"
| "emulation_backend_display EB_MacOs = ''macos''"
| "emulation_backend_display EB_Dummy = ''dummy''"

record toml_client =
  tc_hostname :: "string option"
  tc_host_name :: "string option"
  tc_ips :: "ip_addr list option"
  tc_port :: "u16 option"
  tc_position :: "position option"
  tc_activate_on_startup :: "bool option"
  tc_enter_hook :: "string option"
  tc_speed :: "f64 option"
  tc_modifiers :: "modifier_map option"

record config_toml =
  ct_capture_backend :: "capture_backend option"
  ct_emulation_backend :: "emulation_backend option"
  ct_port :: "u16 option"
  ct_release_bind :: "linux list option"
  ct_cert_path :: "string option"
  ct_clients :: "toml_client list option"
  ct_authorized_fingerprints :: "(string, string) hmap option"
  ct_clipboard_sync :: "bool option"
  ct_keyboard_layout_sync :: "bool option"
  ct_file_dir :: "string option"
  ct_sync_port :: "u16 option"
  ct_device_name :: "string option"

definition config_toml_default :: config_toml where
  "config_toml_default =
     \<lparr>ct_capture_backend = None, ct_emulation_backend = None, ct_port = None, ct_release_bind = None,
      ct_cert_path = None, ct_clients = None, ct_authorized_fingerprints = None,
      ct_clipboard_sync = None, ct_keyboard_layout_sync = None, ct_file_dir = None,
      ct_sync_port = None, ct_device_name = None\<rparr>"

record config_args =
  arg_port :: "u16 option"
  arg_config :: "string option"
  arg_capture_backend :: "capture_backend option"
  arg_emulation_backend :: "emulation_backend option"
  arg_cert_path :: "string option"

record config =
  cfg_args :: config_args
  cfg_cert_path :: string
  cfg_config_path :: string
  cfg_config_dir :: string
  cfg_toml :: "config_toml option"

record config_client =
  ccl_ips :: "ip_addr set"
  ccl_hostname :: "string option"
  ccl_port :: u16
  ccl_pos :: position
  ccl_active :: bool
  ccl_enter_hook :: "string option"
  ccl_speed :: f64
  ccl_modifiers :: modifier_map

definition unwrap_or :: "'a option \<Rightarrow> 'a \<Rightarrow> 'a" where
  "unwrap_or x d = (case x of Some v \<Rightarrow> v | None \<Rightarrow> d)"

definition or_else :: "'a option \<Rightarrow> 'a option \<Rightarrow> 'a option" where
  "or_else x y = (case x of Some v \<Rightarrow> Some v | None \<Rightarrow> y)"

lemma unwrap_or_simps [simp]: "unwrap_or None d = d" "unwrap_or (Some v) d = v"
  by (simp_all add: unwrap_or_def)

lemma or_else_simps [simp]: "or_else None y = y" "or_else (Some v) y = Some v"
  by (simp_all add: or_else_def)

section \<open>Client entries\<close>

definition config_client_of_toml :: "toml_client \<Rightarrow> config_client" where
  "config_client_of_toml t =
     \<lparr>ccl_ips = set (unwrap_or (tc_ips t) []),
      ccl_hostname = tc_hostname t,
      ccl_port = unwrap_or (tc_port t) DEFAULT_PORT,
      ccl_pos = unwrap_or (tc_position t) Left,
      ccl_active = unwrap_or (tc_activate_on_startup t) False,
      ccl_enter_hook = tc_enter_hook t,
      ccl_speed = clamp_speed (unwrap_or (tc_speed t) DEFAULT_SPEED),
      ccl_modifiers = unwrap_or (tc_modifiers t) modifier_map_default\<rparr>"

definition toml_of_config_client :: "config_client \<Rightarrow> toml_client" where
  "toml_of_config_client c =
     \<lparr>tc_hostname = ccl_hostname c,
      tc_host_name = None,
      tc_ips = Some (sorted_list_of_set (ccl_ips c)),
      tc_port = (if ccl_port c = DEFAULT_PORT then None else Some (ccl_port c)),
      tc_position = Some (ccl_pos c),
      tc_activate_on_startup = (if ccl_active c then Some True else None),
      tc_enter_hook = ccl_enter_hook c,
      tc_speed = (if \<not> f64_eq (ccl_speed c) DEFAULT_SPEED then Some (ccl_speed c) else None),
      tc_modifiers = (if \<not> is_identity (ccl_modifiers c) then Some (ccl_modifiers c) else None)\<rparr>"

section \<open>Accessors\<close>

definition toml_field :: "config \<Rightarrow> (config_toml \<Rightarrow> 'a option) \<Rightarrow> 'a option" where
  "toml_field cfg f = Option.bind (cfg_toml cfg) f"

definition DEFAULT_RELEASE_KEYS :: "linux list" where
  "DEFAULT_RELEASE_KEYS = [L_KeyLeftCtrl, L_KeyLeftShift, L_KeyLeftMeta, L_KeyLeftAlt]"

definition authorized_fingerprints :: "config \<Rightarrow> (string, string) hmap" where
  "authorized_fingerprints cfg = unwrap_or (toml_field cfg ct_authorized_fingerprints) []"

definition config_capture_backend :: "config \<Rightarrow> capture_backend option" where
  "config_capture_backend cfg = or_else (arg_capture_backend (cfg_args cfg)) (toml_field cfg ct_capture_backend)"

definition config_emulation_backend :: "config \<Rightarrow> emulation_backend option" where
  "config_emulation_backend cfg =
     or_else (arg_emulation_backend (cfg_args cfg)) (toml_field cfg ct_emulation_backend)"

definition config_port :: "config \<Rightarrow> u16" where
  "config_port cfg = unwrap_or (or_else (arg_port (cfg_args cfg)) (toml_field cfg ct_port)) DEFAULT_PORT"

definition config_clients :: "config \<Rightarrow> config_client list" where
  "config_clients cfg =
     map config_client_of_toml (unwrap_or (unwrap_or (map_option ct_clients (cfg_toml cfg)) None) [])"

definition config_release_bind :: "config \<Rightarrow> linux list" where
  "config_release_bind cfg = unwrap_or (toml_field cfg ct_release_bind) DEFAULT_RELEASE_KEYS"

definition config_clipboard_sync :: "config \<Rightarrow> bool" where
  "config_clipboard_sync cfg = unwrap_or (toml_field cfg ct_clipboard_sync) True"

definition config_keyboard_layout_sync :: "config \<Rightarrow> bool" where
  "config_keyboard_layout_sync cfg = unwrap_or (toml_field cfg ct_keyboard_layout_sync) True"

definition config_sync_port :: "config \<Rightarrow> u16" where
  "config_sync_port cfg = unwrap_or (toml_field cfg ct_sync_port) DEFAULT_SYNC_PORT"

text \<open>the environment's download directory joined with \<open>VyloShare\<close>, and the host name\<close>

definition config_file_dir :: "string \<Rightarrow> config \<Rightarrow> string" where
  "config_file_dir default_dir cfg = unwrap_or (toml_field cfg ct_file_dir) default_dir"

definition config_device_name :: "string \<Rightarrow> config \<Rightarrow> string" where
  "config_device_name gethostname cfg =
     unwrap_or (toml_field cfg ct_device_name) (trim_end_matches ''.local'' gethostname)"

section \<open>Updates\<close>

text \<open>\<open>get_or_insert_with(Default::default)\<close>, then the field\<close>

definition with_toml :: "(config_toml \<Rightarrow> config_toml) \<Rightarrow> config \<Rightarrow> config" where
  "with_toml f cfg = cfg\<lparr>cfg_toml := Some (f (unwrap_or (cfg_toml cfg) config_toml_default))\<rparr>"

definition set_keyboard_layout_sync :: "bool \<Rightarrow> config \<Rightarrow> config" where
  "set_keyboard_layout_sync enabled = with_toml (\<lambda>t. t\<lparr>ct_keyboard_layout_sync := Some enabled\<rparr>)"

definition set_clipboard_sync :: "bool \<Rightarrow> config \<Rightarrow> config" where
  "set_clipboard_sync enabled = with_toml (\<lambda>t. t\<lparr>ct_clipboard_sync := Some enabled\<rparr>)"

definition set_file_dir :: "string \<Rightarrow> config \<Rightarrow> config" where
  "set_file_dir dir = with_toml (\<lambda>t. t\<lparr>ct_file_dir := Some dir\<rparr>)"

definition set_device_name :: "string \<Rightarrow> config \<Rightarrow> config" where
  "set_device_name name cfg =
     (let name = trim name in
      with_toml (\<lambda>t. t\<lparr>ct_device_name := (if name = [] then None else Some name)\<rparr>) cfg)"

definition set_clients :: "config_client list \<Rightarrow> config \<Rightarrow> config" where
  "set_clients cs = with_toml (\<lambda>t. t\<lparr>ct_clients := Some (map toml_of_config_client cs)\<rparr>)"

definition set_authorized_keys :: "(string, string) hmap \<Rightarrow> config \<Rightarrow> config" where
  "set_authorized_keys fingerprints = with_toml (\<lambda>t. t\<lparr>ct_authorized_fingerprints := Some fingerprints\<rparr>)"

section \<open>Reading and writing the file\<close>

text \<open>
  The equality \<open>read_from_disk\<close> compares documents with: hash maps compare as maps, speeds
  as floating point numbers.
\<close>

definition opt_eq :: "('a \<Rightarrow> 'a \<Rightarrow> bool) \<Rightarrow> 'a option \<Rightarrow> 'a option \<Rightarrow> bool" where
  "opt_eq eq x y = (case (x, y) of (None, None) \<Rightarrow> True | (Some a, Some b) \<Rightarrow> eq a b | _ \<Rightarrow> False)"

definition hmap_eq :: "('k, 'v) hmap \<Rightarrow> ('k, 'v) hmap \<Rightarrow> bool" where
  "hmap_eq a b = ((\<forall>(k, v) \<in> set a. hm_get b k = hm_get a k) \<and> (\<forall>(k, v) \<in> set b. hm_get a k = hm_get b k))"

definition toml_client_eq :: "toml_client \<Rightarrow> toml_client \<Rightarrow> bool" where
  "toml_client_eq a b =
     (a\<lparr>tc_speed := None\<rparr> = b\<lparr>tc_speed := None\<rparr> \<and> opt_eq f64_eq (tc_speed a) (tc_speed b))"

definition config_toml_eq :: "config_toml \<Rightarrow> config_toml \<Rightarrow> bool" where
  "config_toml_eq a b =
     (a\<lparr>ct_clients := None, ct_authorized_fingerprints := None\<rparr>
        = b\<lparr>ct_clients := None, ct_authorized_fingerprints := None\<rparr>
      \<and> opt_eq (list_all2 toml_client_eq) (ct_clients a) (ct_clients b)
      \<and> opt_eq hmap_eq (ct_authorized_fingerprints a) (ct_authorized_fingerprints b))"

datatype config_error = CE_Toml | CE_Io | CE_Var | CE_Watcher

text \<open>
  The environment of the configuration: the TOML library (serialiser, the document parser
  \<open>read_from_disk\<close> checks first, the deserialiser), \<open>Path::parent\<close>, the variables, and
  whether the operations on the file system succeed this time.
\<close>

record config_env =
  env_ser :: "config_toml \<Rightarrow> string"
  env_doc :: "string \<Rightarrow> bool"
  env_de :: "string \<Rightarrow> config_toml option"
  env_parent :: "string \<Rightarrow> string option"
  env_XDG_CONFIG_HOME :: "string option"
  env_HOME :: "string option"
  env_mkdir_ok :: bool
  env_create_ok :: bool
  env_write_ok :: bool
  env_watch_ok :: bool

type_synonym files = "(string, string) hmap"

definition CONFIG_FILE_NAME :: string where "CONFIG_FILE_NAME = ''config.toml''"
definition CERT_FILE_NAME :: string where "CERT_FILE_NAME = ''vylo.pem''"

text \<open>the argument of \<open>unwrap_or\<close> is evaluated in any case, so \<open>HOME\<close> must be set\<close>

definition default_path :: "config_env \<Rightarrow> string option" where
  "default_path env =
     Option.bind (env_HOME env) (\<lambda>home.
       Some (unwrap_or (env_XDG_CONFIG_HOME env) (home @ ''/.config'') @ ''/vylo/''))"

definition config_toml_new :: "config_env \<Rightarrow> files \<Rightarrow> string \<Rightarrow> (config_toml, config_error) outcome" where
  "config_toml_new env fs path =
     (case hm_get fs path of
        None \<Rightarrow> Err CE_Io
      | Some s \<Rightarrow> (case env_de env s of None \<Rightarrow> Err CE_Toml | Some t \<Rightarrow> Ok t))"

definition config_with_args :: "config_env \<Rightarrow> config_args \<Rightarrow> files \<Rightarrow> (config, config_error) outcome \<times> files" where
  "config_with_args env args fs =
     (case default_path env of
        None \<Rightarrow> (Err CE_Var, fs)
      | Some dp \<Rightarrow>
        (let config_path = unwrap_or (arg_config args) (dp @ CONFIG_FILE_NAME) in
         case env_parent env config_path of
           None \<Rightarrow> (Panic, fs)
         | Some config_dir \<Rightarrow>
           if \<not> env_mkdir_ok env then (Err CE_Io, fs)
           else if hm_get fs config_path = None \<and> \<not> (env_create_ok env \<and> env_write_ok env) then (Err CE_Io, fs)
           else
             let fs = (if hm_get fs config_path = None
                       then hm_insert config_path (env_ser env config_toml_default) fs else fs);
                 toml = (case config_toml_new env fs config_path of Ok c \<Rightarrow> Some c | _ \<Rightarrow> None);
                 cert_path = unwrap_or (or_else (arg_cert_path args) (Option.bind toml ct_cert_path))
                               (dp @ CERT_FILE_NAME)
             in if \<not> env_watch_ok env then (Err CE_Watcher, fs)
                else (Ok \<lparr>cfg_args = args, cfg_cert_path = cert_path, cfg_config_path = config_path,
                          cfg_config_dir = config_dir, cfg_toml = toml\<rparr>, fs)))"

definition read_from_disk :: "config_env \<Rightarrow> files \<Rightarrow> config \<Rightarrow> (bool, config_error) outcome \<times> config" where
  "read_from_disk env fs cfg =
     (case hm_get fs (cfg_config_path cfg) of
        None \<Rightarrow> (Err CE_Io, cfg)
      | Some s \<Rightarrow>
        if \<not> env_doc env s then (Ok False, cfg)
        else (case env_de env s of
            None \<Rightarrow> (Ok False, cfg)
          | Some current \<Rightarrow>
              (Ok (case cfg_toml cfg of None \<Rightarrow> True | Some c \<Rightarrow> \<not> config_toml_eq c current),
               cfg\<lparr>cfg_toml := Some current\<rparr>)))"

text \<open>
  \<open>File::create\<close> truncates: when the write that follows fails, what is on disk is a prefix of
  the document, \<open>partial\<close> bytes long.
\<close>

definition write_back :: "config_env \<Rightarrow> nat \<Rightarrow> files \<Rightarrow> config \<Rightarrow> (unit, config_error) outcome \<times> files" where
  "write_back env partial fs cfg =
     (let new_config = env_ser env (unwrap_or (cfg_toml cfg) config_toml_default);
          path = cfg_config_path cfg
      in if env_parent env path \<noteq> None \<and> \<not> env_mkdir_ok env then (Err CE_Io, fs)
         else if \<not> env_create_ok env then (Err CE_Io, fs)
         else if \<not> env_write_ok env then (Err CE_Io, hm_insert path (take partial new_config) fs)
         else (Ok (), hm_insert path new_config fs))"

section \<open>Properties\<close>

lemma f64_eq_default_speed: "f64_eq s DEFAULT_SPEED \<longleftrightarrow> s = DEFAULT_SPEED"
  by (auto simp: f64_eq_def speed_finite f64_is_zero_def f64_mag_def f64_is_nan_def
      f64_inf_mag_def DEFAULT_SPEED_def f64_one_def)

definition client_normal :: "config_client \<Rightarrow> bool" where
  "client_normal c \<longleftrightarrow> finite (ccl_ips c) \<and> clamp_speed (ccl_speed c) = ccl_speed c"

lemma toml_client_roundtrip:
  "client_normal c \<Longrightarrow> config_client_of_toml (toml_of_config_client c) = c"
  by (cases c) (auto simp: client_normal_def config_client_of_toml_def toml_of_config_client_def
      f64_eq_default_speed is_identity_def)

lemma config_clients_set_clients:
  "\<forall>c \<in> set cs. client_normal c \<Longrightarrow> config_clients (set_clients cs cfg) = cs"
  by (simp add: config_clients_def set_clients_def with_toml_def toml_client_roundtrip map_idI)

lemma config_clients_normal: "c \<in> set (config_clients cfg) \<Longrightarrow> client_normal c"
  using clamp_speed_idem
  by (auto simp: config_clients_def config_client_of_toml_def client_normal_def)

text \<open>
  Saving the clients survives a restart, the empty list included. Whatever the old
  document held, when the clients are set and the file is written, then a configuration
  of the same path that reads the file afterwards lists exactly these clients, provided the
  TOML library reads back the document it wrote; the other settings of the document are kept.
\<close>

theorem clients_persist:
  assumes normal: "\<forall>c \<in> set cs. client_normal c"
    and toml: "\<And>t. cfg_toml (set_clients cs cfg) = Some t \<Longrightarrow>
                 env_doc env (env_ser env t) \<and> env_de env (env_ser env t) = Some t"
    and written: "write_back env partial fs (set_clients cs cfg) = (Ok (), fs')"
    and same: "cfg_config_path cfg' = cfg_config_path cfg"
  shows "config_clients (snd (read_from_disk env fs' cfg')) = cs \<and>
    config_port (snd (read_from_disk env fs' (cfg'\<lparr>cfg_args := cfg_args cfg\<rparr>))) = config_port cfg \<and>
    authorized_fingerprints (snd (read_from_disk env fs' cfg')) = authorized_fingerprints cfg"
proof -
  obtain t where t: "cfg_toml (set_clients cs cfg) = Some t" by (simp add: set_clients_def with_toml_def)
  have path: "cfg_config_path (set_clients cs cfg) = cfg_config_path cfg"
    by (simp add: set_clients_def with_toml_def)
  have "hm_get fs' (cfg_config_path cfg) = Some (env_ser env t)"
    using written by (auto simp: write_back_def Let_def t path split: if_splits)
  then have read: "cfg_toml (snd (read_from_disk env fs' c)) = Some t \<and> cfg_args (snd (read_from_disk env fs' c)) = cfg_args c"
    if "cfg_config_path c = cfg_config_path cfg" for c
    using that toml [OF t] by (simp add: read_from_disk_def)
  have "config_clients (snd (read_from_disk env fs' cfg')) = config_clients (set_clients cs cfg)"
    using read [OF same] t by (simp add: config_clients_def)
  moreover have "ct_port t = ct_port (unwrap_or (cfg_toml cfg) config_toml_default)"
      "ct_authorized_fingerprints t = ct_authorized_fingerprints (unwrap_or (cfg_toml cfg) config_toml_default)"
    using t by (auto simp: set_clients_def with_toml_def)
  ultimately show ?thesis
    using read [OF same] read [of "cfg'\<lparr>cfg_args := cfg_args cfg\<rparr>"] same config_clients_set_clients [OF normal]
    by (cases "cfg_toml cfg")
      (auto simp: config_port_def authorized_fingerprints_def toml_field_def config_toml_default_def)
qed

text \<open>deleting the last client: the empty list is what a restart sees\<close>

definition example_config :: config where
  "example_config =
     \<lparr>cfg_args = \<lparr>arg_port = None, arg_config = None, arg_capture_backend = None,
                  arg_emulation_backend = None, arg_cert_path = None\<rparr>,
      cfg_cert_path = ''c'', cfg_config_path = ''p'', cfg_config_dir = ''d'',
      cfg_toml = Some config_toml_default\<rparr>"

definition example_env :: "config_toml \<Rightarrow> config_env" where
  "example_env t =
     \<lparr>env_ser = \<lambda>_. ''doc'', env_doc = \<lambda>s. s = ''doc'', env_de = \<lambda>s. Some t, env_parent = \<lambda>_. Some ''d'',
      env_XDG_CONFIG_HOME = None, env_HOME = Some ''h'', env_mkdir_ok = True, env_create_ok = True,
      env_write_ok = True, env_watch_ok = True\<rparr>"

lemma clients_persist_witness:
  "config_clients (snd (read_from_disk (example_env (config_toml_default\<lparr>ct_clients := Some []\<rparr>))
     [(''p'', ''doc'')] example_config)) = []"
proof -
  let ?t = "config_toml_default\<lparr>ct_clients := Some []\<rparr>"
  have "write_back (example_env ?t) 0 [] (set_clients [] example_config) = (Ok (), [(''p'', ''doc'')])"
    by (simp add: write_back_def example_env_def example_config_def set_clients_def with_toml_def hm_insert_def)
  then show ?thesis
    using clients_persist [of "[]" example_config "example_env ?t" 0 "[]" "[(''p'', ''doc'')]" example_config]
    by (simp add: example_env_def example_config_def set_clients_def with_toml_def)
qed

end
