(* ===== verification/ClientMgr.thy ===== *)
theory ClientMgr
  imports Config
begin

text \<open>
  The client manager (\<open>src/client.rs\<close>): a slab of configurations and states by handle.
  The key a slab insertion takes is chosen by the slab, so it is an argument. The order of
  the association list stands for the iteration order of the slab; no result about lookups
  depends on it.
\<close>

type_synonym client_manager = "(client_handle, client_config \<times> client_state) hmap"

section \<open>Operations\<close>

definition clients :: "client_manager \<Rightarrow> (client_config \<times> client_state) list" where
  "clients m = hm_values m"

definition add_client :: "client_handle \<Rightarrow> client_manager \<Rightarrow> client_handle \<times> client_manager" where
  "add_client k m = (k, hm_insert k (client_config_default, client_state_default) m)"

definition set_config :: "client_handle \<Rightarrow> client_config \<Rightarrow> client_manager \<Rightarrow> client_manager" where
  "set_config h config = hm_modify h (\<lambda>(c, s). (config, s))"

definition set_state :: "client_handle \<Rightarrow> client_state \<Rightarrow> client_manager \<Rightarrow> client_manager" where
  "set_state h state = hm_modify h (\<lambda>(c, s). (c, state))"

definition add_with_config ::
  "client_handle \<Rightarrow> config_client \<Rightarrow> client_manager \<Rightarrow> client_handle \<times> client_manager" where
  "add_with_config k cc m =
     (let config = \<lparr>cc_hostname = ccl_hostname cc, cc_fix_ips = sorted_list_of_set (ccl_ips cc),
                    cc_port = ccl_port cc, cc_pos = ccl_pos cc, cc_cmd = ccl_enter_hook cc,
                    cc_speed = ccl_speed cc, cc_modifiers = ccl_modifiers cc\<rparr>;
          state = client_state_default\<lparr>cs_active := ccl_active cc, cs_ips := set (cc_fix_ips config)\<rparr>;
          (handle, m) = add_client k m
      in (handle, set_state handle state (set_config handle config m)))"

definition activate_client :: "client_handle \<Rightarrow> client_manager \<Rightarrow> bool \<times> client_manager" where
  "activate_client h m =
     (case hm_get m h of
        Some (c, s) \<Rightarrow>
          if \<not> cs_active s then (True, hm_modify h (\<lambda>(c, s). (c, s\<lparr>cs_active := True\<rparr>)) m) else (False, m)
      | None \<Rightarrow> (False, m))"

definition deactivate_client :: "client_handle \<Rightarrow> client_manager \<Rightarrow> bool \<times> client_manager" where
  "deactivate_client h m =
     (case hm_get m h of
        Some (c, s) \<Rightarrow>
          if cs_active s then (True, hm_modify h (\<lambda>(c, s). (c, s\<lparr>cs_active := False\<rparr>)) m) else (False, m)
      | None \<Rightarrow> (False, m))"

definition get_client :: "socket_addr \<Rightarrow> client_manager \<Rightarrow> client_handle option" where
  "get_client addr m = map_option fst (find (\<lambda>(k, c, s). cs_active s \<and> sa_ip addr \<in> cs_ips s) m)"

definition client_at :: "position \<Rightarrow> client_manager \<Rightarrow> client_handle option" where
  "client_at pos m = map_option fst (find (\<lambda>(k, c, s). cs_active s \<and> cc_pos c = pos) m)"

definition get_hostname :: "client_handle \<Rightarrow> client_manager \<Rightarrow> string option" where
  "get_hostname h m = Option.bind (hm_get m h) (\<lambda>(c, s). cc_hostname c)"

definition get_pos :: "client_handle \<Rightarrow> client_manager \<Rightarrow> position option" where
  "get_pos h m = map_option (\<lambda>(c, s). cc_pos c) (hm_get m h)"

definition remove_client ::
  "client_handle \<Rightarrow> client_manager \<Rightarrow> (client_config \<times> client_state) option \<times> client_manager" where
  "remove_client h m = (hm_get m h, hm_remove h m)"

definition get_state :: "client_handle \<Rightarrow> client_manager \<Rightarrow> (client_config \<times> client_state) option" where
  "get_state h m = hm_get m h"

definition get_client_states ::
  "client_manager \<Rightarrow> (client_handle \<times> client_config \<times> client_state) list" where
  "get_client_states m = m"

definition update_ips :: "client_handle \<Rightarrow> client_manager \<Rightarrow> client_manager" where
  "update_ips h = hm_modify h (\<lambda>(c, s). (c, s\<lparr>cs_ips := set (cc_fix_ips c @ cs_dns_ips s)\<rparr>))"

definition set_fix_ips :: "client_handle \<Rightarrow> ip_addr list \<Rightarrow> client_manager \<Rightarrow> client_manager" where
  "set_fix_ips h fix_ips m = update_ips h (hm_modify h (\<lambda>(c, s). (c\<lparr>cc_fix_ips := fix_ips\<rparr>, s)) m)"

definition set_dns_ips :: "client_handle \<Rightarrow> ip_addr list \<Rightarrow> client_manager \<Rightarrow> client_manager" where
  "set_dns_ips h dns_ips m = update_ips h (hm_modify h (\<lambda>(c, s). (c, s\<lparr>cs_dns_ips := dns_ips\<rparr>)) m)"

definition set_hostname :: "client_handle \<Rightarrow> string option \<Rightarrow> client_manager \<Rightarrow> bool \<times> client_manager" where
  "set_hostname h hostname m =
     (case hm_get m h of
        None \<Rightarrow> (False, m)
      | Some (c, s) \<Rightarrow>
          if cc_hostname c \<noteq> hostname then
            (True, update_ips h (hm_modify h
               (\<lambda>(c, s). (c\<lparr>cc_hostname := hostname\<rparr>, s\<lparr>cs_active_addr := None, cs_dns_ips := []\<rparr>)) m))
          else (False, m))"

definition set_port :: "client_handle \<Rightarrow> u16 \<Rightarrow> client_manager \<Rightarrow> client_manager" where
  "set_port h port m =
     (case hm_get m h of
        Some (c, s) \<Rightarrow>
          if cc_port c \<noteq> port then
            hm_modify h (\<lambda>(c, s). (c\<lparr>cc_port := port\<rparr>,
              s\<lparr>cs_active_addr := map_option (\<lambda>a. \<lparr>sa_ip = sa_ip a, sa_port = port\<rparr>) (cs_active_addr s)\<rparr>)) m
          else m
      | None \<Rightarrow> m)"

definition set_pos :: "client_handle \<Rightarrow> position \<Rightarrow> client_manager \<Rightarrow> bool \<times> client_manager" where
  "set_pos h pos m =
     (case hm_get m h of
        Some (c, s) \<Rightarrow>
          if cc_pos c \<noteq> pos then (cs_active s, hm_modify h (\<lambda>(c, s). (c\<lparr>cc_pos := pos\<rparr>, s)) m)
          else (False, m)
      | None \<Rightarrow> (False, m))"

definition set_enter_hook :: "client_handle \<Rightarrow> string option \<Rightarrow> client_manager \<Rightarrow> client_manager" where
  "set_enter_hook h enter_hook = hm_modify h (\<lambda>(c, s). (c\<lparr>cc_cmd := enter_hook\<rparr>, s))"

definition set_speed :: "client_handle \<Rightarrow> f64 \<Rightarrow> client_manager \<Rightarrow> client_manager" where
  "set_speed h speed = hm_modify h (\<lambda>(c, s). (c\<lparr>cc_speed := speed\<rparr>, s))"

definition set_modifiers :: "client_handle \<Rightarrow> modifier_map \<Rightarrow> client_manager \<Rightarrow> client_manager" where
  "set_modifiers h modifiers = hm_modify h (\<lambda>(c, s). (c\<lparr>cc_modifiers := modifiers\<rparr>, s))"

definition get_tuning :: "client_handle \<Rightarrow> client_manager \<Rightarrow> (f64 \<times> modifier_map) option" where
  "get_tuning h m = map_option (\<lambda>(c, s). (cc_speed c, cc_modifiers c)) (hm_get m h)"

definition set_resolving :: "client_handle \<Rightarrow> bool \<Rightarrow> client_manager \<Rightarrow> client_manager" where
  "set_resolving h st = hm_modify h (\<lambda>(c, s). (c, s\<lparr>cs_resolving := st\<rparr>))"

definition get_enter_cmd :: "client_handle \<Rightarrow> client_manager \<Rightarrow> string option" where
  "get_enter_cmd h m = Option.bind (hm_get m h) (\<lambda>(c, s). cc_cmd c)"

definition registered_clients :: "client_manager \<Rightarrow> client_handle list" where
  "registered_clients m = hm_keys m"

definition active_clients :: "client_manager \<Rightarrow> client_handle list" where
  "active_clients m = map fst (filter (\<lambda>(h, c, s). cs_active s) m)"

definition set_active_addr :: "client_handle \<Rightarrow> socket_addr option \<Rightarrow> client_manager \<Rightarrow> client_manager" where
  "set_active_addr h addr = hm_modify h (\<lambda>(c, s). (c, s\<lparr>cs_active_addr := addr\<rparr>))"

definition set_alive :: "client_handle \<Rightarrow> bool \<Rightarrow> client_manager \<Rightarrow> client_manager" where
  "set_alive h alive = hm_modify h (\<lambda>(c, s). (c, s\<lparr>cs_alive := alive\<rparr>))"

definition set_peer_commit :: "client_handle \<Rightarrow> u8 list option \<Rightarrow> client_manager \<Rightarrow> client_manager" where
  "set_peer_commit h commit = hm_modify h (\<lambda>(c, s). (c, s\<lparr>cs_peer_commit := commit\<rparr>))"

definition active_addr :: "client_handle \<Rightarrow> client_manager \<Rightarrow> socket_addr option" where
  "active_addr h m = Option.bind (hm_get m h) (\<lambda>(c, s). cs_active_addr s)"

definition alive :: "client_handle \<Rightarrow> client_manager \<Rightarrow> bool" where
  "alive h m = unwrap_or (map_option (\<lambda>(c, s). cs_alive s) (hm_get m h)) False"

definition get_port :: "client_handle \<Rightarrow> client_manager \<Rightarrow> u16 option" where
  "get_port h m = map_option (\<lambda>(c, s). cc_port c) (hm_get m h)"

definition get_ips :: "client_handle \<Rightarrow> client_manager \<Rightarrow> ip_addr set option" where
  "get_ips h m = map_option (\<lambda>(c, s). cs_ips s) (hm_get m h)"

section \<open>The invariant\<close>

text \<open>handles are unique, and the address set of a client is its fixed and its resolved addresses\<close>

definition ips_ok :: "client_config \<times> client_state \<Rightarrow> bool" where
  "ips_ok = (\<lambda>(c, s). cs_ips s = set (cc_fix_ips c) \<union> set (cs_dns_ips s))"

definition mgr_ok :: "client_manager \<Rightarrow> bool" where
  "mgr_ok m \<longleftrightarrow> hm_ok m \<and> (\<forall>h cs. hm_get m h = Some cs \<longrightarrow> ips_ok cs)"

text \<open>the state changing operations of the manager that the service and its tasks call\<close>

datatype mgr_op =
    M_AddWithConfig client_handle config_client
  | M_AddClient client_handle
  | M_Remove client_handle
  | M_Activate client_handle
  | M_Deactivate client_handle
  | M_FixIps client_handle "ip_addr list"
  | M_DnsIps client_handle "ip_addr list"
  | M_Hostname client_handle "string option"
  | M_Port client_handle u16
  | M_Pos client_handle position
  | M_EnterHook client_handle "string option"
  | M_Speed client_handle f64
  | M_Modifiers client_handle modifier_map
  | M_Resolving client_handle bool
  | M_ActiveAddr client_handle "socket_addr option"
  | M_Alive client_handle bool
  | M_PeerCommit client_handle "u8 list option"

fun mgr_step :: "mgr_op \<Rightarrow> client_manager \<Rightarrow> client_manager" where
  "mgr_step (M_AddWithConfig k cc) m = snd (add_with_config k cc m)"
| "mgr_step (M_AddClient k) m = snd (add_client k m)"
| "mgr_step (M_Remove h) m = snd (remove_client h m)"
| "mgr_step (M_Activate h) m = snd (activate_client h m)"
| "mgr_step (M_Deactivate h) m = snd (deactivate_client h m)"
| "mgr_step (M_FixIps h ips) m = set_fix_ips h ips m"
| "mgr_step (M_DnsIps h ips) m = set_dns_ips h ips m"
| "mgr_step (M_Hostname h name) m = snd (set_hostname h name m)"
| "mgr_step (M_Port h port) m = set_port h port m"
| "mgr_step (M_Pos h pos) m = snd (set_pos h pos m)"
| "mgr_step (M_EnterHook h cmd) m = set_enter_hook h cmd m"
| "mgr_step (M_Speed h v) m = set_speed h v m"
| "mgr_step (M_Modifiers h mm) m = set_modifiers h mm m"
| "mgr_step (M_Resolving h b) m = set_resolving h b m"
| "mgr_step (M_ActiveAddr h a) m = set_active_addr h a m"
| "mgr_step (M_Alive h b) m = set_alive h b m"
| "mgr_step (M_PeerCommit h c) m = set_peer_commit h c m"

lemma mgr_ok_insert: "mgr_ok m \<Longrightarrow> ips_ok cs \<Longrightarrow> mgr_ok (hm_insert h cs m)"
  by (simp add: mgr_ok_def del: split_paired_All)

lemma mgr_ok_remove: "mgr_ok m \<Longrightarrow> mgr_ok (hm_remove h m)"
  by (simp add: mgr_ok_def)

lemma mgr_ok_modify: "mgr_ok m \<Longrightarrow> (\<And>cs. ips_ok cs \<Longrightarrow> ips_ok (f cs)) \<Longrightarrow> mgr_ok (hm_modify h f m)"
  unfolding mgr_ok_def by (auto simp del: split_paired_All split: if_splits) metis

lemma mgr_ok_update_ips:
  "mgr_ok m \<Longrightarrow> mgr_ok (update_ips h (hm_modify h f m))"
  by (auto simp: mgr_ok_def update_ips_def ips_ok_def)

lemma mgr_ok_add_with_config: "mgr_ok m \<Longrightarrow> mgr_ok (snd (add_with_config k cc m))"
  by (auto simp: add_with_config_def add_client_def set_state_def set_config_def mgr_ok_def
      client_state_default_def ips_ok_def Let_def split: if_splits)

lemma mgr_step_ok: "mgr_ok m \<Longrightarrow> mgr_ok (mgr_step op m)"
  by (cases op)
    (auto simp: mgr_ok_add_with_config add_client_def remove_client_def activate_client_def
      deactivate_client_def set_fix_ips_def set_dns_ips_def set_hostname_def set_port_def set_pos_def
      set_enter_hook_def set_speed_def set_modifiers_def set_resolving_def set_active_addr_def
      set_alive_def set_peer_commit_def ips_ok_def client_config_default_def client_state_default_def
      intro!: mgr_ok_insert mgr_ok_remove mgr_ok_modify mgr_ok_update_ips
      split: option.splits)

interpretation mgr: machine mgr_step mgr_ok
  by unfold_locales (rule mgr_step_ok)

section \<open>Properties\<close>

text \<open>
  After any sequence of operations of the manager, starting with no clients, the set of addresses a
  client is reached at and recognised by is exactly its fixed addresses and its currently
  resolved ones: no stale address of an old host name, configuration or lookup survives.
\<close>

theorem client_ips_exact:
  "case hm_get (fold mgr_step ops []) h of
     None \<Rightarrow> get_ips h (fold mgr_step ops []) = None
   | Some (c, s) \<Rightarrow> get_ips h (fold mgr_step ops []) = Some (set (cc_fix_ips c) \<union> set (cs_dns_ips s))"
proof -
  have "mgr_ok (fold mgr_step ops [])" by (rule mgr.run_inv) (simp add: mgr_ok_def)
  then show ?thesis by (auto simp: mgr_ok_def ips_ok_def get_ips_def split: option.split)
qed

lemma find_entry:
  assumes "hm_ok m"
  shows "(\<forall>h. map_option fst (find P m) = Some h \<longrightarrow> (\<exists>v. hm_get m h = Some v \<and> P (h, v))) \<and>
    (map_option fst (find P m) = None \<longrightarrow> (\<forall>h v. hm_get m h = Some v \<longrightarrow> \<not> P (h, v)))"
proof (cases "find P m")
  case None
  then have "\<forall>e \<in> set m. \<not> P e" by (auto simp: find_None_iff)
  then show ?thesis using assms None by (auto simp: hm_mem_get [symmetric])
next
  case (Some e)
  then have "e \<in> set m" "P e" by (auto simp: find_Some_iff)
  moreover obtain h v where "e = (h, v)" by fastforce
  ultimately have "hm_get m h = Some v \<and> P (h, v) \<and> find P m = Some (h, v)"
    using assms Some by (auto simp: hm_mem_get)
  then show ?thesis by auto
qed

text \<open>
  Looking a client up by an address, or by the screen edge it sits at, finds an
  active client with that address (at that edge), and finds none only when there is none;
  this holds after every sequence of operations and whatever the iteration order.
\<close>

theorem client_lookup_correct:
  "let m = fold mgr_step ops [] in
   (case get_client addr m of
      Some h \<Rightarrow> (\<exists>c s. get_state h m = Some (c, s) \<and> cs_active s \<and> sa_ip addr \<in> cs_ips s)
    | None \<Rightarrow> \<not> (\<exists>h c s. get_state h m = Some (c, s) \<and> cs_active s \<and> sa_ip addr \<in> cs_ips s)) \<and>
   (case client_at pos m of
      Some h \<Rightarrow> (\<exists>c s. get_state h m = Some (c, s) \<and> cs_active s \<and> cc_pos c = pos)
    | None \<Rightarrow> \<not> (\<exists>h c s. get_state h m = Some (c, s) \<and> cs_active s \<and> cc_pos c = pos))"
proof -
  have "mgr_ok (fold mgr_step ops [])" by (rule mgr.run_inv) (simp add: mgr_ok_def)
  then have ok: "hm_ok (fold mgr_step ops [])" by (simp add: mgr_ok_def)
  show ?thesis
    using find_entry [OF ok, of "\<lambda>(k, c, s). cs_active s \<and> sa_ip addr \<in> cs_ips s"]
      find_entry [OF ok, of "\<lambda>(k, c, s). cs_active s \<and> cc_pos c = pos"]
    unfolding Let_def get_client_def client_at_def get_state_def
    by (simp split: option.split)
qed

text \<open>what the service relies on: the other clients are not touched\<close>

lemma set_hostname_get:
  "hm_get (snd (set_hostname h name m)) h' =
     (case hm_get m h' of
        Some (c, s) \<Rightarrow>
          if h' = h \<and> cc_hostname c \<noteq> name then
            Some (c\<lparr>cc_hostname := name\<rparr>,
                  s\<lparr>cs_active_addr := None, cs_dns_ips := [], cs_ips := set (cc_fix_ips c)\<rparr>)
          else Some (c, s)
      | None \<Rightarrow> None)"
  by (auto simp: set_hostname_def update_ips_def split: option.splits)

lemma set_hostname_fst:
  "fst (set_hostname h name m) \<longleftrightarrow> (\<exists>c s. hm_get m h = Some (c, s) \<and> cc_hostname c \<noteq> name)"
  by (auto simp: set_hostname_def split: option.splits)

lemma active_clients_get:
  "hm_ok m \<Longrightarrow> h \<in> set (active_clients m) \<longleftrightarrow> (\<exists>c s. hm_get m h = Some (c, s) \<and> cs_active s)"
  by (force simp: active_clients_def hm_mem_get)

end
