(* ===== verification/InputCapture.thy ===== *)
theory InputCapture
  imports InputEvent
begin

text \<open>
  The platform independent part of input capture (\<open>input-capture/src/lib.rs\<close>): the
  registration of capture ids at screen edges and the stream that fans the events of the
  platform backend out to them. The backend is outside: its answers are arguments, its
  event stream is a list of items, and the calls made to it are logged in \<open>ic_calls\<close>.
\<close>

type_synonym capture_handle = u64

datatype capture_event = Begin | CInput event

definition capture_event_display :: "(f64 \<Rightarrow> string) \<Rightarrow> capture_event \<Rightarrow> string" where
  "capture_event_display fmt e =
     (case e of Begin \<Rightarrow> ''begin capture'' | CInput e \<Rightarrow> event_display fmt e)"

datatype capture_position = C_Left | C_Right | C_Top | C_Bottom

fun capture_opposite :: "capture_position \<Rightarrow> capture_position" where
  "capture_opposite C_Left = C_Right"
| "capture_opposite C_Right = C_Left"
| "capture_opposite C_Top = C_Bottom"
| "capture_opposite C_Bottom = C_Top"

fun capture_position_display :: "capture_position \<Rightarrow> string" where
  "capture_position_display C_Left = ''left''"
| "capture_position_display C_Right = ''right''"
| "capture_position_display C_Top = ''top''"
| "capture_position_display C_Bottom = ''bottom''"

datatype backend_call =
    B_Create capture_position
  | B_Destroy capture_position
  | B_Release
  | B_Terminate

record input_capture =
  ic_pressed_keys :: "linux set"
  ic_position_map :: "(capture_position, capture_handle list) hmap"
  ic_id_map :: "(capture_handle, capture_position) hmap"
  ic_pending :: "(capture_handle \<times> capture_event) list"
  ic_calls :: "backend_call list"

definition input_capture_new :: input_capture where
  "input_capture_new =
     \<lparr>ic_pressed_keys = {}, ic_position_map = [], ic_id_map = [], ic_pending = [], ic_calls = []\<rparr>"

text \<open>a call of the backend: log it and return its answer \<open>r\<close>\<close>

type_synonym 'e ic_result = "(unit, 'e) outcome \<times> input_capture"

definition backend :: "backend_call \<Rightarrow> (unit, 'e) outcome \<Rightarrow> input_capture \<Rightarrow> 'e ic_result" where
  "backend c r ic = (r, ic\<lparr>ic_calls := ic_calls ic @ [c]\<rparr>)"

section \<open>Operations\<close>

definition ic_create ::
  "(unit, 'e) outcome \<Rightarrow> capture_handle \<Rightarrow> capture_position \<Rightarrow> input_capture \<Rightarrow> 'e ic_result" where
  "ic_create r i pos ic =
     (if hm_get (ic_id_map ic) i \<noteq> None then (Ok (), ic)
      else
        let ic = ic\<lparr>ic_id_map := hm_insert i pos (ic_id_map ic)\<rparr> in
        (case hm_get (ic_position_map ic) pos of
           Some v \<Rightarrow> (Ok (), ic\<lparr>ic_position_map := hm_insert pos (v @ [i]) (ic_position_map ic)\<rparr>)
         | None \<Rightarrow> backend (B_Create pos) r
             (ic\<lparr>ic_position_map := hm_insert pos [i] (ic_position_map ic)\<rparr>)))"

definition ic_destroy :: "(unit, 'e) outcome \<Rightarrow> capture_handle \<Rightarrow> input_capture \<Rightarrow> 'e ic_result" where
  "ic_destroy r i ic =
     (case hm_get (ic_id_map ic) i of
        None \<Rightarrow> (Ok (), ic)
      | Some pos \<Rightarrow>
        let ic = ic\<lparr>ic_id_map := hm_remove i (ic_id_map ic),
                    ic_pending := filter (\<lambda>(j, _). j \<noteq> i) (ic_pending ic)\<rparr> in
        (case hm_get (ic_position_map ic) pos of
           None \<Rightarrow> (Panic, ic)
         | Some v \<Rightarrow>
           let remaining = filter (\<lambda>j. j \<noteq> i) v in
           if remaining = [] then
             backend (B_Destroy pos) r (ic\<lparr>ic_position_map := hm_remove pos (ic_position_map ic)\<rparr>)
           else (Ok (), ic\<lparr>ic_position_map := hm_insert pos remaining (ic_position_map ic)\<rparr>)))"

definition ic_release :: "(unit, 'e) outcome \<Rightarrow> input_capture \<Rightarrow> 'e ic_result" where
  "ic_release r ic = backend B_Release r (ic\<lparr>ic_pressed_keys := {}\<rparr>)"

definition take_pressed_keys :: "input_capture \<Rightarrow> linux set \<times> input_capture" where
  "take_pressed_keys ic = (ic_pressed_keys ic, ic\<lparr>ic_pressed_keys := {}\<rparr>)"

definition ic_terminate :: "(unit, 'e) outcome \<Rightarrow> input_capture \<Rightarrow> 'e ic_result" where
  "ic_terminate r ic = backend B_Terminate r ic"

definition keys_pressed :: "linux list \<Rightarrow> input_capture \<Rightarrow> bool" where
  "keys_pressed ks ic = list_all (\<lambda>k. k \<in> ic_pressed_keys ic) ks"

definition update_pressed_keys :: "u32 \<Rightarrow> u8 \<Rightarrow> input_capture \<Rightarrow> input_capture" where
  "update_pressed_keys key state ic =
     (case linux_try_from key of
        None \<Rightarrow> ic
      | Some scancode \<Rightarrow>
          if state = 1 then ic\<lparr>ic_pressed_keys := insert scancode (ic_pressed_keys ic)\<rparr>
          else ic\<lparr>ic_pressed_keys := ic_pressed_keys ic - {scancode}\<rparr>)"

section \<open>The event stream\<close>

text \<open>what the backend has to say next: an event at an edge, an error, the end of the stream\<close>

datatype 'e backend_item =
    BEvent capture_position capture_event
  | BError 'e
  | BClosed

datatype 'e poll =
    Pending
  | ReadyNone
  | ReadyErr 'e
  | ReadyOk capture_handle capture_event

definition track_keys :: "capture_event \<Rightarrow> input_capture \<Rightarrow> input_capture" where
  "track_keys e ic =
     (case e of CInput (Keyboard (Key _ key state)) \<Rightarrow> update_pressed_keys key state ic | _ \<Rightarrow> ic)"

text \<open>the loop of \<open>poll_next\<close> over the items the backend has ready\<close>

fun poll_backend :: "'e backend_item list \<Rightarrow> input_capture \<Rightarrow> 'e poll \<times> 'e backend_item list \<times> input_capture" where
  "poll_backend [] ic = (Pending, [], ic)"
| "poll_backend (BClosed # items) ic = (ReadyNone, items, ic)"
| "poll_backend (BError e # items) ic = (ReadyErr e, items, ic)"
| "poll_backend (BEvent pos event # items) ic =
     (let ic = track_keys event ic in
      case hm_get (ic_position_map ic) pos of
        Some (first # others) \<Rightarrow>
          (ReadyOk first event, items, ic\<lparr>ic_pending := ic_pending ic @ map (\<lambda>i. (i, event)) others\<rparr>)
      | _ \<Rightarrow> poll_backend items ic)"

definition poll_next :: "'e backend_item list \<Rightarrow> input_capture \<Rightarrow> 'e poll \<times> 'e backend_item list \<times> input_capture" where
  "poll_next items ic =
     (case ic_pending ic of
        (i, e) # pending \<Rightarrow> (ReadyOk i e, items, ic\<lparr>ic_pending := pending\<rparr>)
      | [] \<Rightarrow> poll_backend items ic)"

section \<open>The invariant\<close>

text \<open>the edges the backend is asked to watch, from the calls made to it\<close>

fun barrier_call :: "backend_call \<Rightarrow> capture_position set \<Rightarrow> capture_position set" where
  "barrier_call (B_Create p) bs = insert p bs"
| "barrier_call (B_Destroy p) bs = bs - {p}"
| "barrier_call _ bs = bs"

definition barriers :: "input_capture \<Rightarrow> capture_position set" where
  "barriers ic = fold barrier_call (ic_calls ic) {}"

definition ids_at :: "input_capture \<Rightarrow> capture_position \<Rightarrow> capture_handle list" where
  "ids_at ic pos = (case hm_get (ic_position_map ic) pos of Some v \<Rightarrow> v | None \<Rightarrow> [])"

text \<open>
  An id is registered at a position exactly when it is in that position's list, once;
  positions without ids have no entry and no barrier; pending events are addressed to
  registered ids only.
\<close>

definition ic_inv :: "input_capture \<Rightarrow> bool" where
  "ic_inv ic \<longleftrightarrow>
     hm_ok (ic_id_map ic) \<and> hm_ok (ic_position_map ic) \<and>
     (\<forall>pos. hm_get (ic_position_map ic) pos \<noteq> Some []) \<and>
     (\<forall>pos. distinct (ids_at ic pos)) \<and>
     (\<forall>i pos. hm_get (ic_id_map ic) i = Some pos \<longleftrightarrow> i \<in> set (ids_at ic pos)) \<and>
     (\<forall>pos. pos \<in> barriers ic \<longleftrightarrow> ids_at ic pos \<noteq> []) \<and>
     (\<forall>(i, e) \<in> set (ic_pending ic). hm_get (ic_id_map ic) i \<noteq> None)"

datatype 'e ic_op =
    O_Create "(unit, 'e) outcome" capture_handle capture_position
  | O_Destroy "(unit, 'e) outcome" capture_handle
  | O_Release "(unit, 'e) outcome"
  | O_TakePressedKeys
  | O_Terminate "(unit, 'e) outcome"
  | O_Poll "'e backend_item list"

fun ic_step :: "'e ic_op \<Rightarrow> input_capture \<Rightarrow> input_capture" where
  "ic_step (O_Create r i pos) ic = snd (ic_create r i pos ic)"
| "ic_step (O_Destroy r i) ic = snd (ic_destroy r i ic)"
| "ic_step (O_Release r) ic = snd (ic_release r ic)"
| "ic_step O_TakePressedKeys ic = snd (take_pressed_keys ic)"
| "ic_step (O_Terminate r) ic = snd (ic_terminate r ic)"
| "ic_step (O_Poll items) ic = snd (snd (poll_next items ic))"

lemma barriers_snoc: "barriers (ic\<lparr>ic_calls := ic_calls ic @ [c]\<rparr>) = barrier_call c (barriers ic)"
  by (simp add: barriers_def)

lemma barriers_cong: "ic_calls a = ic_calls b \<Longrightarrow> barriers a = barriers b"
  by (simp add: barriers_def)

lemma ids_at_insert:
  "ids_at (ic\<lparr>ic_position_map := hm_insert pos v m\<rparr>) p =
     (if p = pos then v else (case hm_get m p of Some v \<Rightarrow> v | None \<Rightarrow> []))"
  by (simp add: ids_at_def)

text \<open>the invariant after a change of the maps, the pending events and the calls\<close>

lemma ic_invI:
  assumes "hm_ok (ic_id_map ic)" "hm_ok (ic_position_map ic)"
    and "\<And>pos. hm_get (ic_position_map ic) pos \<noteq> Some []"
    and "\<And>pos. distinct (ids_at ic pos)"
    and "\<And>i pos. hm_get (ic_id_map ic) i = Some pos \<longleftrightarrow> i \<in> set (ids_at ic pos)"
    and "\<And>pos. pos \<in> barriers ic \<longleftrightarrow> ids_at ic pos \<noteq> []"
    and "\<And>i e. (i, e) \<in> set (ic_pending ic) \<Longrightarrow> hm_get (ic_id_map ic) i \<noteq> None"
  shows "ic_inv ic"
  using assms by (auto simp: ic_inv_def)

lemma ic_invD:
  assumes "ic_inv ic"
  shows "hm_ok (ic_id_map ic)" "hm_ok (ic_position_map ic)"
    and "hm_get (ic_position_map ic) pos \<noteq> Some []"
    and "distinct (ids_at ic pos)"
    and "hm_get (ic_id_map ic) i = Some pos \<longleftrightarrow> i \<in> set (ids_at ic pos)"
    and "pos \<in> barriers ic \<longleftrightarrow> ids_at ic pos \<noteq> []"
    and "(i, e) \<in> set (ic_pending ic) \<Longrightarrow> hm_get (ic_id_map ic) i \<noteq> None"
  using assms by (auto simp: ic_inv_def)

lemma ids_at_unique: "ic_inv ic \<Longrightarrow> i \<in> set (ids_at ic p) \<Longrightarrow> i \<in> set (ids_at ic q) \<Longrightarrow> p = q"
  by (metis ic_invD(5) option.inject)

lemma ic_inv_pending:
  "ic_inv ic \<Longrightarrow> (\<And>i e. (i, e) \<in> set ps \<Longrightarrow> hm_get (ic_id_map ic) i \<noteq> None) \<Longrightarrow> ic_inv (ic\<lparr>ic_pending := ps\<rparr>)"
  by (auto simp: ic_inv_def ids_at_def barriers_def)

lemma ic_inv_new [inv_intros]: "ic_inv input_capture_new"
  by (simp add: ic_inv_def input_capture_new_def ids_at_def barriers_def)

lemma ic_inv_frame:
  "ic_inv ic \<Longrightarrow> ic_id_map ic' = ic_id_map ic \<Longrightarrow> ic_position_map ic' = ic_position_map ic \<Longrightarrow>
   barriers ic' = barriers ic \<Longrightarrow> set (ic_pending ic') \<subseteq> set (ic_pending ic) \<Longrightarrow> ic_inv ic'"
  by (fastforce simp: ic_inv_def ids_at_def)

lemma ic_create_inv [inv_intros]:
  assumes inv: "ic_inv ic"
  shows "ic_inv (snd (ic_create r i pos ic))"
proof (cases "hm_get (ic_id_map ic) i")
  case (Some p)
  then show ?thesis using inv by (simp add: ic_create_def)
next
  case None
  define ic' where "ic' = snd (ic_create r i pos ic)"
  have ids: "ids_at ic' p = (if p = pos then ids_at ic pos @ [i] else ids_at ic p)" for p
    by (auto simp: ic'_def ic_create_def None ids_at_def backend_def Let_def split: option.split)
  have idm: "ic_id_map ic' = hm_insert i pos (ic_id_map ic)" and pend: "ic_pending ic' = ic_pending ic"
    by (auto simp: ic'_def ic_create_def None backend_def Let_def split: option.split)
  have fresh: "i \<notin> set (ids_at ic p)" for p using ic_invD(5) [OF inv, of i p] None by simp
  have bar: "p \<in> barriers ic' \<longleftrightarrow> p = pos \<or> p \<in> barriers ic" for p
    using ic_invD(6) [OF inv, of pos] ic_invD(3) [OF inv, of pos]
    by (auto simp: ic'_def ic_create_def None backend_def barriers_def ids_at_def Let_def split: option.splits)
  have pm: "hm_ok (ic_position_map ic')" "\<And>p. hm_get (ic_position_map ic') p \<noteq> Some []"
    using ic_invD(2,3) [OF inv]
    by (auto simp: ic'_def ic_create_def None backend_def Let_def split: option.splits)
  have "ic_inv ic'"
    using ic_invD [OF inv] fresh
    by (intro ic_invI) (auto simp: pm ids idm pend bar split: if_splits)
  then show ?thesis by (simp add: ic'_def)
qed

lemma ic_destroy_ok:
  assumes inv: "ic_inv ic"
  shows "ic_inv (snd (ic_destroy r i ic))" and "r \<noteq> Panic \<Longrightarrow> fst (ic_destroy r i ic) \<noteq> Panic"
    and "hm_get (ic_id_map (snd (ic_destroy r i ic))) i = None"
proof -
  have all: "ic_inv (snd (ic_destroy r i ic)) \<and> (r \<noteq> Panic \<longrightarrow> fst (ic_destroy r i ic) \<noteq> Panic) \<and>
    hm_get (ic_id_map (snd (ic_destroy r i ic))) i = None"
  proof (cases "hm_get (ic_id_map ic) i")
    case None
    then show ?thesis using inv by (simp add: ic_destroy_def)
  next
    case (Some pos)
    then have mem: "i \<in> set (ids_at ic pos)" using ic_invD(5) [OF inv] by simp
    then obtain v where v: "hm_get (ic_position_map ic) pos = Some v" and iv: "i \<in> set v"
      by (cases "hm_get (ic_position_map ic) pos") (auto simp: ids_at_def)
    have vids: "ids_at ic pos = v" by (simp add: ids_at_def v)
    define ic' where "ic' = snd (ic_destroy r i ic)"
    have ids: "ids_at ic' p = filter (\<lambda>j. j \<noteq> i) (ids_at ic p)" for p
    proof (cases "p = pos")
      case True
      then show ?thesis by (simp add: ic'_def ic_destroy_def Some v ids_at_def backend_def Let_def)
    next
      case False
      then have "i \<notin> set (ids_at ic p)" using ids_at_unique [OF inv mem, of p] by blast
      then have "filter (\<lambda>j. j \<noteq> i) (ids_at ic p) = ids_at ic p" by (auto simp: filter_id_conv)
      moreover have "hm_get (ic_position_map ic') p = hm_get (ic_position_map ic) p"
        using False by (simp add: ic'_def ic_destroy_def Some v backend_def Let_def)
      ultimately show ?thesis by (simp add: ids_at_def)
    qed
    have others: "ids_at ic' p = ids_at ic p" if "p \<noteq> pos" for p
    proof -
      have "\<forall>j \<in> set (ids_at ic p). j \<noteq> i" using ids_at_unique [OF inv mem, of p] that by blast
      then show ?thesis unfolding ids by (rule filter_True)
    qed
    have idm: "ic_id_map ic' = hm_remove i (ic_id_map ic)"
      and pend: "ic_pending ic' = filter (\<lambda>(j, _). j \<noteq> i) (ic_pending ic)"
      by (auto simp: ic'_def ic_destroy_def Some v backend_def Let_def)
    have bar: "p \<in> barriers ic' \<longleftrightarrow> p \<in> barriers ic \<and> ids_at ic' p \<noteq> []" for p
    proof (cases "filter (\<lambda>j. j \<noteq> i) v = []")
      case True
      then have "barriers ic' = barriers ic - {pos}"
        by (simp add: ic'_def ic_destroy_def Some v backend_def barriers_def Let_def)
      moreover have "ids_at ic' pos = []" by (simp only: ids vids True)
      moreover have "p \<in> barriers ic \<longleftrightarrow> ids_at ic p \<noteq> []" by (rule ic_invD(6) [OF inv])
      ultimately show ?thesis by (cases "p = pos") (simp_all add: others)
    next
      case False
      then have "barriers ic' = barriers ic"
        by (simp add: ic'_def ic_destroy_def Some v backend_def barriers_def Let_def)
      moreover have "ids_at ic' p \<noteq> []" if "p \<in> barriers ic"
      proof (cases "p = pos")
        case True
        then show ?thesis using False by (simp only: ids vids not_False_eq_True)
      next
        case p: False
        then show ?thesis using ic_invD(6) [OF inv, of p] others [of p] that by simp
      qed
      ultimately show ?thesis by auto
    qed
    have pm: "hm_ok (ic_position_map ic')" "\<And>p. hm_get (ic_position_map ic') p \<noteq> Some []"
      using ic_invD(2,3) [OF inv]
      by (auto simp: ic'_def ic_destroy_def Some v backend_def Let_def)
    have "ic_inv ic'"
      using ic_invD [OF inv]
      by (intro ic_invI) (auto simp: pm ids idm pend bar split: if_splits)
    moreover have "r \<noteq> Panic \<longrightarrow> fst (ic_destroy r i ic) \<noteq> Panic"
      by (simp add: ic_destroy_def Some v backend_def Let_def)
    ultimately show ?thesis using idm by (simp add: ic'_def)
  qed
  then show "ic_inv (snd (ic_destroy r i ic))" "hm_get (ic_id_map (snd (ic_destroy r i ic))) i = None"
    by simp_all
  show "r \<noteq> Panic \<Longrightarrow> fst (ic_destroy r i ic) \<noteq> Panic" using all by simp
qed

lemma barriers_other: "barrier_call c = id \<Longrightarrow> barriers (snd (backend c r ic)) = barriers ic"
  by (simp add: backend_def barriers_def)

lemma ic_release_inv [inv_intros]: "ic_inv ic \<Longrightarrow> ic_inv (snd (ic_release r ic))"
  by (rule ic_inv_frame) (auto simp: ic_release_def backend_def barriers_def)

lemma ic_terminate_inv [inv_intros]: "ic_inv ic \<Longrightarrow> ic_inv (snd (ic_terminate r ic))"
  by (rule ic_inv_frame) (auto simp: ic_terminate_def backend_def barriers_def)

lemma take_pressed_keys_inv [inv_intros]: "ic_inv ic \<Longrightarrow> ic_inv (snd (take_pressed_keys ic))"
  by (rule ic_inv_frame) (auto simp: take_pressed_keys_def barriers_def)

lemma update_pressed_keys_frame:
  "ic_id_map (update_pressed_keys k st ic) = ic_id_map ic"
  "ic_position_map (update_pressed_keys k st ic) = ic_position_map ic"
  "ic_pending (update_pressed_keys k st ic) = ic_pending ic"
  "ic_calls (update_pressed_keys k st ic) = ic_calls ic"
  by (auto simp: update_pressed_keys_def split: option.split)

lemma track_keys_frame [simp]:
  "ic_id_map (track_keys e ic) = ic_id_map ic"
  "ic_position_map (track_keys e ic) = ic_position_map ic"
  "ic_pending (track_keys e ic) = ic_pending ic"
  "ic_calls (track_keys e ic) = ic_calls ic"
  by (auto simp: track_keys_def update_pressed_keys_frame split: capture_event.split event.split keyboard_event.split)

lemma track_keys_inv [inv_intros]: "ic_inv ic \<Longrightarrow> ic_inv (track_keys e ic)"
  by (rule ic_inv_frame) (auto simp: barriers_def)

lemma poll_backend_inv: "ic_inv ic \<Longrightarrow> ic_inv (snd (snd (poll_backend items ic)))"
proof (induction items ic rule: poll_backend.induct)
  case (4 pos event items ic)
  let ?ic = "track_keys event ic"
  have inv: "ic_inv ?ic" by (rule track_keys_inv [OF "4.prems"])
  show ?case
  proof (cases "hm_get (ic_position_map ?ic) pos")
    case None
    then show ?thesis using 4 inv by (simp add: Let_def)
  next
    case (Some v)
    show ?thesis
    proof (cases v)
      case Nil
      then show ?thesis using Some ic_invD(3) [OF inv, of pos] by simp
    next
      case (Cons i js)
      then have "\<And>j. j \<in> set (i # js) \<Longrightarrow> hm_get (ic_id_map ic) j = Some pos"
        using ic_invD(5) [OF inv] Some by (simp add: ids_at_def)
      then have "ic_inv (?ic\<lparr>ic_pending := ic_pending ?ic @ map (\<lambda>i. (i, event)) js\<rparr>)"
        using inv ic_invD(7) [OF inv] by (intro ic_inv_pending) auto
      then show ?thesis using Some Cons by (simp add: Let_def)
    qed
  qed
qed simp_all

lemma poll_next_inv [inv_intros]: "ic_inv ic \<Longrightarrow> ic_inv (snd (snd (poll_next items ic)))"
proof (cases "ic_pending ic")
  case (Cons p ps)
  assume "ic_inv ic"
  then have "ic_inv (ic\<lparr>ic_pending := ps\<rparr>)"
    by (rule ic_inv_frame) (auto simp: barriers_def Cons)
  then show ?thesis by (cases p) (simp add: poll_next_def Cons)
qed (simp add: poll_next_def poll_backend_inv)

lemma ic_step_inv: "ic_inv ic \<Longrightarrow> ic_inv (ic_step op ic)"
  by (cases op) (auto intro: inv_intros ic_destroy_ok(1))

interpretation capture: machine ic_step ic_inv
  by unfold_locales (rule ic_step_inv)

lemma ic_reachable: "ic_inv (fold ic_step ops input_capture_new)"
  by (rule capture.run_inv [OF ic_inv_new])

section \<open>Properties\<close>

text \<open>
  \<^bold>\<open>C9.\<close> However captures are created, destroyed, polled and released, in any order and
  with any answers of the backend: an id is registered at a position exactly when it is in
  that position's list (and there once), the backend has been asked to watch exactly the edges
  that have at least one id, and destroying a capture never runs into a missing list.
\<close>

theorem capture_registration:
  "let ic = fold ic_step ops input_capture_new in
   (\<forall>i pos. hm_get (ic_id_map ic) i = Some pos \<longleftrightarrow> i \<in> set (ids_at ic pos)) \<and>
   (\<forall>pos. distinct (ids_at ic pos)) \<and>
   barriers ic = {pos. \<exists>i. hm_get (ic_id_map ic) i = Some pos} \<and>
   (\<forall>i. fst (ic_destroy (Ok ()) i ic) \<noteq> Panic)"
proof -
  let ?ic = "fold ic_step ops input_capture_new"
  note inv = ic_reachable [of ops]
  have "barriers ?ic = {pos. \<exists>i. hm_get (ic_id_map ?ic) i = Some pos}"
  proof (rule set_eqI)
    fix pos
    show "pos \<in> barriers ?ic \<longleftrightarrow> pos \<in> {pos. \<exists>i. hm_get (ic_id_map ?ic) i = Some pos}"
      unfolding ic_invD(6) [OF inv, of pos] mem_Collect_eq ic_invD(5) [OF inv]
      by (cases "ids_at ?ic pos") auto
  qed
  then show ?thesis
    unfolding Let_def using ic_invD(4,5) [OF inv] ic_destroy_ok(2) [OF inv] by blast
qed

lemma poll_backend_registered:
  "ic_inv ic \<Longrightarrow> fst (poll_backend items ic) = ReadyOk i e \<Longrightarrow> hm_get (ic_id_map ic) i \<noteq> None"
proof (induction items ic rule: poll_backend.induct)
  case (4 pos event items ic)
  have inv: "ic_inv (track_keys event ic)" by (rule track_keys_inv [OF "4.prems"(1)])
  show ?case
    using 4 ic_invD(5) [OF inv, of i pos] inv
    by (cases "hm_get (ic_position_map ic) pos" rule: option.exhaust)
      (auto simp: Let_def ids_at_def split: list.splits)
qed simp_all

lemma poll_next_registered:
  assumes "ic_inv ic" and "fst (poll_next items ic) = ReadyOk i e"
  shows "hm_get (ic_id_map ic) i \<noteq> None"
  using assms poll_backend_registered [OF assms(1), of items i e] ic_invD(7) [OF assms(1), of i e]
  by (cases "ic_pending ic") (auto simp: poll_next_def)

lemma poll_backend_id_map: "ic_id_map (snd (snd (poll_backend items ic))) = ic_id_map ic"
  by (induction items ic rule: poll_backend.induct)
    (auto simp: Let_def split: option.split list.split)

lemma ic_step_unregistered:
  assumes "hm_get (ic_id_map ic) i = None" and "\<And>r pos. op \<noteq> O_Create r i pos"
  shows "hm_get (ic_id_map (ic_step op ic)) i = None"
  using assms
  by (cases op)
    (auto simp: ic_create_def ic_destroy_def ic_release_def ic_terminate_def take_pressed_keys_def
      poll_next_def poll_backend_id_map backend_def Let_def split: option.split list.split)

text \<open>
  Once a capture is destroyed, the stream never again delivers an event to its id,
  not even one that was already fanned out and waiting, unless the id is created again.
\<close>

theorem destroyed_gets_nothing:
  assumes "\<And>op r' pos. op \<in> set later \<Longrightarrow> op \<noteq> O_Create r' i pos"
  shows "fst (poll_next items (fold ic_step later
           (snd (ic_destroy r i (fold ic_step ops input_capture_new))))) \<noteq> ReadyOk i e"
proof -
  let ?ic = "snd (ic_destroy r i (fold ic_step ops input_capture_new))"
  have inv: "ic_inv ?ic" and un: "hm_get (ic_id_map ?ic) i = None"
    using ic_destroy_ok(1,3) [OF ic_reachable] by blast+
  have "hm_get (ic_id_map (fold ic_step later ic)) i = None" if "hm_get (ic_id_map ic) i = None" for ic
    using assms that by (induction later arbitrary: ic) (auto simp: ic_step_unregistered)
  then have "hm_get (ic_id_map (fold ic_step later ?ic)) i = None" using un by blast
  then show ?thesis using poll_next_registered [OF capture.run_inv [OF inv]] by blast
qed

definition example_ops :: "nat ic_op list" where
  "example_ops = [O_Create (Ok ()) 1 C_Left, O_Create (Ok ()) 2 C_Left, O_Poll [BEvent C_Left Begin]]"

lemma example_pending: "ic_pending (fold ic_step example_ops input_capture_new) = [(2, Begin)]"
  by (simp add: example_ops_def ic_create_def poll_next_def backend_def input_capture_new_def Let_def
      hm_insert_def hm_get_def track_keys_def)

lemma destroyed_gets_nothing_witness:
  "ic_pending (fold ic_step example_ops input_capture_new) = [(2, Begin)] \<and>
   fst (poll_next [BEvent C_Left Begin] (fold ic_step [O_Release (Ok ())]
      (snd (ic_destroy (Ok ()) 2 (fold ic_step example_ops input_capture_new))))) \<noteq> ReadyOk 2 Begin"
  by (rule conjI [OF example_pending], rule destroyed_gets_nothing) simp

text \<open>polling until the fanned out copies are delivered\<close>

fun poll_times :: "nat \<Rightarrow> 'e backend_item list \<Rightarrow> input_capture \<Rightarrow> 'e poll list" where
  "poll_times 0 items ic = []"
| "poll_times (Suc n) items ic =
     (case poll_next items ic of (p, items, ic) \<Rightarrow> p # poll_times n items ic)"

lemma poll_pending:
  "ic_pending ic = map (\<lambda>i. (i, e)) js \<Longrightarrow> poll_times (length js) items ic = map (\<lambda>i. ReadyOk i e) js"
  by (induction js arbitrary: ic) (auto simp: poll_next_def)

text \<open>
  An event at an edge reaches every capture registered there exactly once, in the
  order of registration, before the next event of the backend is looked at; events at edges
  that have lost all their captures are dropped without stalling the stream.
\<close>

theorem capture_fan_out:
  assumes "ic_pending ic = []" and "ids_at ic pos \<noteq> []" and "\<And>p e. (p, e) \<in> set gone \<Longrightarrow> ids_at ic p = []"
  shows "poll_times (length (ids_at ic pos)) (map (\<lambda>(p, e). BEvent p e) gone @ BEvent pos event # items) ic
    = map (\<lambda>i. ReadyOk i event) (ids_at ic pos)"
  using assms
proof (induction gone arbitrary: ic)
  case Nil
  then obtain i js where v: "hm_get (ic_position_map ic) pos = Some (i # js)" "ids_at ic pos = i # js"
    by (auto simp: ids_at_def neq_Nil_conv split: option.splits)
  then show ?case
    using Nil.prems(1) poll_pending [of _ event js items] by (simp add: poll_next_def Let_def)
next
  case (Cons pe gone)
  obtain p e where pe: "pe = (p, e)" by fastforce
  let ?ic = "track_keys e ic"
  have same: "ids_at ?ic q = ids_at ic q" for q by (simp add: ids_at_def)
  have none: "case hm_get (ic_position_map ic) p of Some (first # others) \<Rightarrow> False | _ \<Rightarrow> True"
    using Cons.prems(3) [of p e] by (auto simp: pe ids_at_def split: option.splits list.splits)
  have "poll_next (map (\<lambda>(p, e). BEvent p e) (pe # gone) @ BEvent pos event # items) ic
      = poll_next (map (\<lambda>(p, e). BEvent p e) gone @ BEvent pos event # items) ?ic"
    using none Cons.prems(1) by (auto simp: poll_next_def pe Let_def split: option.splits list.splits)
  then have "poll_times n (map (\<lambda>(p, e). BEvent p e) (pe # gone) @ BEvent pos event # items) ic
      = poll_times n (map (\<lambda>(p, e). BEvent p e) gone @ BEvent pos event # items) ?ic" for n
    by (cases n) simp_all
  moreover have "poll_times (length (ids_at ic pos))
      (map (\<lambda>(p, e). BEvent p e) gone @ BEvent pos event # items) ?ic = map (\<lambda>i. ReadyOk i event) (ids_at ic pos)"
    using Cons.IH [of ?ic, unfolded same] Cons.prems by force
  ultimately show ?case by (simp only:)
qed

definition example_ic :: input_capture where
  "example_ic = fold ic_step [O_Create (Ok ()) 1 C_Left, O_Create (Ok () :: (unit, nat) outcome) 2 C_Left]
     input_capture_new"

lemma example_ic: "ic_pending example_ic = []" "ids_at example_ic C_Left = [1, 2]" "ids_at example_ic C_Top = []"
  by (simp_all add: example_ic_def ic_create_def backend_def input_capture_new_def Let_def hm_insert_def hm_get_def
      ids_at_def)

lemma capture_fan_out_witness:
  "poll_times (length [1 :: nat, 2]) [BEvent C_Top Begin, BEvent C_Left Begin, BError (0 :: nat)] example_ic
   = [ReadyOk 1 Begin, ReadyOk 2 Begin]"
proof -
  have "poll_times (length (ids_at example_ic C_Left))
      (map (\<lambda>(p, e). BEvent p e) [(C_Top, Begin)] @ BEvent C_Left Begin # [BError (0 :: nat)]) example_ic
    = map (\<lambda>i. ReadyOk i Begin) (ids_at example_ic C_Left)"
    by (rule capture_fan_out) (simp_all add: example_ic)
  then show ?thesis by (simp add: example_ic del: poll_times.simps)
qed

end
