(* ===== verification/Connect.thy ===== *)
theory Connect
  imports ClientMgr Proto
begin

text \<open>
  Outgoing connections (\<open>src/connect.rs\<close>): sending an event to a client, connecting in the
  background, the keep-alive pings and the receive loop. The DTLS stack is outside: a
  connection is known by its address, whether its sends succeed is read off the list
  \<open>co_dtls\<close> (in order; a send beyond its end succeeds), and what is put on the wire is
  logged in \<open>co_sent\<close>.
\<close>

datatype connection_error = CErr_Bind | CErr_Dtls | NotConnected | TargetEmulationDisabled | Timeout

section \<open>Certificates\<close>

text \<open>
  \<open>crypto::generate_fingerprint\<close>: the bytes of the digest as two digit hexadecimal numbers,
  joined by colons. The digest is the argument \<open>sha256\<close>.
\<close>

definition hex_digit :: "nat \<Rightarrow> char" where
  "hex_digit n = (if n < 10 then char_of (48 + n) else char_of (87 + n))"

definition hex_byte :: "u8 \<Rightarrow> string" where
  "hex_byte b = [hex_digit (unat b div 16), hex_digit (unat b mod 16)]"

fun join_colon :: "string list \<Rightarrow> string" where
  "join_colon [] = []"
| "join_colon [s] = s"
| "join_colon (s # t # ss) = s @ CHR '':'' # join_colon (t # ss)"

definition generate_fingerprint :: "(u8 list \<Rightarrow> u8 list) \<Rightarrow> u8 list \<Rightarrow> string" where
  "generate_fingerprint sha256 cert = join_colon (map hex_byte (sha256 cert))"

text \<open>the callback that pins the peer of an outgoing connection\<close>

definition verify_peer ::
  "(u8 list \<Rightarrow> u8 list) \<Rightarrow> (string, string) hmap \<Rightarrow> u8 list list \<Rightarrow> (unit, connection_error) outcome" where
  "verify_peer sha256 authorized_keys certs =
     (case certs of
        [] \<Rightarrow> Err CErr_Dtls
      | c # _ \<Rightarrow> if hm_get authorized_keys (generate_fingerprint sha256 c) \<noteq> None then Ok () else Err CErr_Dtls)"

text \<open>\<open>connect_any\<close>: the attempts in the order they finish; the first success wins\<close>

fun connect_any :: "(socket_addr, socket_addr \<times> connection_error) outcome list \<Rightarrow> (socket_addr, connection_error) outcome" where
  "connect_any [] = Err NotConnected"
| "connect_any (Ok addr # rs) = Ok addr"
| "connect_any (Err _ # rs) = connect_any rs"
| "connect_any (Panic # rs) = Panic"

section \<open>State\<close>

record connection =
  co_mgr :: client_manager
  co_conns :: "socket_addr set"
  co_connecting :: "client_handle set"
  co_recv :: "(client_handle \<times> proto_event) list"
  co_ping_response :: "socket_addr set"
  co_dtls :: "bool list"
  co_sent :: "(socket_addr \<times> u8 list) list"
  co_spawned :: "client_handle list"

definition dtls_send :: "socket_addr \<Rightarrow> u8 list \<Rightarrow> connection \<Rightarrow> bool \<times> connection" where
  "dtls_send addr buf co =
     (case co_dtls co of
        [] \<Rightarrow> (True, co\<lparr>co_sent := co_sent co @ [(addr, buf)]\<rparr>)
      | ok # oks \<Rightarrow>
          (ok, if ok then co\<lparr>co_dtls := oks, co_sent := co_sent co @ [(addr, buf)]\<rparr> else co\<lparr>co_dtls := oks\<rparr>))"

definition disconnect :: "client_handle \<Rightarrow> socket_addr \<Rightarrow> connection \<Rightarrow> connection" where
  "disconnect h addr co =
     co\<lparr>co_conns := co_conns co - {addr},
        co_mgr := set_peer_commit h None (set_active_addr h None (co_mgr co))\<rparr>"

section \<open>Sending\<close>

text \<open>the datagram of an event; encoding a well-formed event never panics\<close>

definition datagram :: "proto_event \<Rightarrow> u8 list" where
  "datagram e = (case proto_encode e of Ok (buf, len) \<Rightarrow> take len buf | _ \<Rightarrow> [])"

definition conn_send :: "proto_event \<Rightarrow> client_handle \<Rightarrow> connection \<Rightarrow> (unit, connection_error) outcome \<times> connection" where
  "conn_send event h co =
     (case (case active_addr h (co_mgr co) of
              Some addr \<Rightarrow> if addr \<in> co_conns co then Some addr else None
            | None \<Rightarrow> None) of
        Some addr \<Rightarrow>
          if \<not> alive h (co_mgr co) then (Err TargetEmulationDisabled, co)
          else
            let (ok, co) = dtls_send addr (datagram event) co in
            (Ok (), if ok then co else disconnect h addr co)
      | None \<Rightarrow>
          (Err NotConnected,
           if h \<notin> co_connecting co then
             co\<lparr>co_connecting := insert h (co_connecting co), co_spawned := co_spawned co @ [h]\<rparr>
           else co))"

section \<open>Connecting in the background\<close>

text \<open>the first half of \<open>connect_to_handle\<close>: the addresses to try, read when the task starts\<close>

definition connect_addrs :: "client_handle \<Rightarrow> connection \<Rightarrow> socket_addr list option" where
  "connect_addrs h co =
     map_option (\<lambda>ips. map (\<lambda>a. \<lparr>sa_ip = a, sa_port = unwrap_or (get_port h (co_mgr co)) DEFAULT_PORT\<rparr>)
                        (sorted_list_of_set ips))
       (get_ips h (co_mgr co))"

text \<open>
  the second half, once the attempts are over (\<open>None\<close> when there was no such client);
  \<open>commit\<close> is the build hash
\<close>

definition connect_finish ::
  "u8 list \<Rightarrow> client_handle \<Rightarrow> (socket_addr, connection_error) outcome option \<Rightarrow> connection
     \<Rightarrow> (unit, connection_error) outcome \<times> connection" where
  "connect_finish commit h res co =
     (case res of
        None \<Rightarrow> (Err NotConnected, co\<lparr>co_connecting := co_connecting co - {h}\<rparr>)
      | Some (Err e) \<Rightarrow> (Err e, co\<lparr>co_connecting := co_connecting co - {h}\<rparr>)
      | Some Panic \<Rightarrow> (Panic, co)
      | Some (Ok addr) \<Rightarrow>
          let co = co\<lparr>co_mgr := set_active_addr h (Some addr) (co_mgr co),
                      co_conns := insert addr (co_conns co),
                      co_connecting := co_connecting co - {h}\<rparr>
          in (Ok (), snd (dtls_send addr (datagram (Hello commit)) co)))"

text \<open>one round of \<open>ping_pong\<close>: up to four pings, then an answer must have come; \<open>True\<close> to go on\<close>

fun pings :: "nat \<Rightarrow> socket_addr \<Rightarrow> connection \<Rightarrow> bool \<times> connection" where
  "pings 0 addr co = (True, co)"
| "pings (Suc n) addr co =
     (case dtls_send addr (datagram Ping) co of
        (False, co) \<Rightarrow> (False, co)
      | (True, co) \<Rightarrow> pings n addr co)"

definition ping_check :: "socket_addr \<Rightarrow> connection \<Rightarrow> bool \<times> connection" where
  "ping_check addr co =
     (addr \<in> co_ping_response co, co\<lparr>co_ping_response := co_ping_response co - {addr}\<rparr>)"

section \<open>Receiving\<close>

definition receive_event :: "client_handle \<Rightarrow> socket_addr \<Rightarrow> proto_event \<Rightarrow> connection \<Rightarrow> connection" where
  "receive_event h addr event co =
     (case event of
        Pong b \<Rightarrow>
          co\<lparr>co_mgr := set_alive h b (set_active_addr h (Some addr) (co_mgr co)),
             co_ping_response := insert addr (co_ping_response co)\<rparr>
      | Hello commit \<Rightarrow> co\<lparr>co_mgr := set_peer_commit h (Some commit) (co_mgr co)\<rparr>
      | _ \<Rightarrow> co\<lparr>co_recv := co_recv co @ [(h, event)]\<rparr>)"

text \<open>
  One turn of \<open>receive_loop\<close>. A datagram of at most the buffer's size overwrites the front of
  the buffer, which is reused; \<open>None\<close> is a receive error, which ends the loop.
\<close>

definition receive_step ::
  "client_handle \<Rightarrow> socket_addr \<Rightarrow> u8 list option \<Rightarrow> u8 list \<times> connection \<Rightarrow> bool \<times> u8 list \<times> connection" where
  "receive_step h addr msg s =
     (case s of (buf, co) \<Rightarrow>
       (case msg of
          None \<Rightarrow> (False, buf, disconnect h addr co)
        | Some d \<Rightarrow>
            let buf = d @ drop (length d) buf in
            (True, buf, case proto_decode buf of Ok event \<Rightarrow> receive_event h addr event co | _ \<Rightarrow> co)))"

section \<open>Fingerprints\<close>

lemma hex_digit_inj: "m < 16 \<Longrightarrow> n < 16 \<Longrightarrow> hex_digit m = hex_digit n \<longleftrightarrow> m = n"
  by (auto simp: hex_digit_def split: if_splits)

lemma hex_byte_inj: "hex_byte a = hex_byte b \<Longrightarrow> a = b"
proof -
  assume eq: "hex_byte a = hex_byte b"
  have "unat a < 256" "unat b < 256" using unsigned_less [of a] unsigned_less [of b] by simp_all
  then have "unat a div 16 = unat b div 16" "unat a mod 16 = unat b mod 16"
    using eq by (simp_all add: hex_byte_def hex_digit_inj less_mult_imp_div_less)
  then have "unat a = unat b" by (metis div_mult_mod_eq)
  then show "a = b" by (simp add: word_unat_eq_iff)
qed

lemma length_hex_byte [simp]: "length (hex_byte b) = 2"
  by (simp add: hex_byte_def)

lemma length_join_hex: "length (join_colon (map hex_byte bs)) = 3 * length bs - 1"
proof (induction bs)
  case (Cons b bs)
  then show ?case by (cases bs) auto
qed simp

lemma join_hex_inj: "join_colon (map hex_byte as) = join_colon (map hex_byte bs) \<Longrightarrow> as = bs"
proof (induction as arbitrary: bs)
  case Nil
  then show ?case using length_join_hex [of bs] by (cases bs) auto
next
  case (Cons a as)
  have len: "length (a # as) = length bs"
    using arg_cong [OF Cons.prems, of length] length_join_hex [of bs] length_join_hex [of "a # as"]
    by (cases bs) auto
  then obtain b bs' where bs: "bs = b # bs'" by (cases bs) auto
  have len': "length as = length bs'" using len bs by simp
  show ?case
  proof (cases as)
    case Nil
    then show ?thesis using Cons.prems len' bs hex_byte_inj by auto
  next
    case as: (Cons a2 as2)
    then obtain b2 bs2 where bs2: "bs' = b2 # bs2" using len' by (cases bs') auto
    have "hex_byte a = hex_byte b" "join_colon (map hex_byte as) = join_colon (map hex_byte bs')"
      using Cons.prems by (simp_all add: bs as bs2)
    then show ?thesis using Cons.IH hex_byte_inj bs by blast
  qed
qed

text \<open>
  The callback of an outgoing connection accepts a peer exactly when the
  fingerprint of its first certificate is authorized, and distinct digests have distinct
  fingerprints: authorizing one certificate authorizes another one only if their
  SHA-256 digests collide.
\<close>

theorem verify_peer_pins:
  "(verify_peer sha256 keys certs = Ok () \<longleftrightarrow>
      (\<exists>c cs. certs = c # cs \<and> generate_fingerprint sha256 c \<in> set (hm_keys keys))) \<and>
   (generate_fingerprint sha256 c1 = generate_fingerprint sha256 c2 \<longleftrightarrow> sha256 c1 = sha256 c2)"
  using hm_get_None_iff [of keys] join_hex_inj
  by (auto simp: verify_peer_def generate_fingerprint_def hm_keys_get split: list.splits)

section \<open>Receiving what was sent\<close>

lemma datagram_bytes: "proto_wf e \<Longrightarrow> datagram e = proto_bytes e"
  by (simp add: datagram_def proto_encode_bytes)

lemma receive_datagram:
  "proto_wf e \<Longrightarrow> \<exists>buf'. receive_step h addr (Some (datagram e)) (buf, co) = (True, buf', receive_event h addr e co)"
  by (simp add: receive_step_def datagram_bytes proto_decode_def proto_parse_bytes Let_def)

fun receive_loop :: "client_handle \<Rightarrow> socket_addr \<Rightarrow> u8 list option list \<Rightarrow> u8 list \<times> connection \<Rightarrow> connection" where
  "receive_loop h addr [] (buf, co) = co"
| "receive_loop h addr (msg # msgs) (buf, co) =
     (case receive_step h addr msg (buf, co) of
        (True, buf, co) \<Rightarrow> receive_loop h addr msgs (buf, co)
      | (False, buf, co) \<Rightarrow> co)"

text \<open>
  \<^bold>\<open>C35.\<close> What the peer sends is what the receive loop acts on: for every sequence of
  well-formed events sent as datagrams, with undecodable datagrams of newer peers in between,
  the loop handles exactly these events in order and ignores the others, although it
  decodes every datagram out of one reused buffer.
\<close>

theorem receive_loop_faithful:
  assumes "\<And>m. m \<in> set msgs \<Longrightarrow>
      (\<exists>e. m = Inl e \<and> proto_wf e) \<or> (\<exists>d. m = Inr d \<and> d \<noteq> [] \<and> 12 \<le> d ! 0)"
  shows "receive_loop h addr (map (\<lambda>m. Some (case m of Inl e \<Rightarrow> datagram e | Inr d \<Rightarrow> d)) msgs) (buf, co)
    = fold (\<lambda>m. case m of Inl e \<Rightarrow> receive_event h addr e | Inr _ \<Rightarrow> id) msgs co"
  using assms
proof (induction msgs arbitrary: buf co)
  case (Cons m msgs)
  have rest: "receive_loop h addr (map (\<lambda>m. Some (case m of Inl e \<Rightarrow> datagram e | Inr d \<Rightarrow> d)) msgs) (buf', co')
    = fold (\<lambda>m. case m of Inl e \<Rightarrow> receive_event h addr e | Inr _ \<Rightarrow> id) msgs co'" for buf' co'
    using Cons by simp
  show ?case
  proof (cases m)
    case (Inl e)
    then have "proto_wf e" using Cons.prems [of m] by auto
    from receive_datagram [OF this, of h addr buf co] show ?thesis using rest by (auto simp: Inl)
  next
    case (Inr d)
    then obtain c d' where d: "d = c # d'" "12 \<le> c" using Cons.prems [of m] by (cases d) auto
    then have "event_type_try_from c = None" by (simp add: event_type_try_from_None)
    then have "\<exists>buf'. receive_step h addr (Some d) (buf, co) = (True, buf', co)"
      by (simp add: receive_step_def d proto_decode_def proto_parse_def decode_u8_enough Let_def)
    then show ?thesis using rest by (auto simp: Inr)
  qed
qed simp

definition example_conn :: connection where
  "example_conn =
     \<lparr>co_mgr = [], co_conns = {}, co_connecting = {}, co_recv = [], co_ping_response = {}, co_dtls = [],
      co_sent = [], co_spawned = []\<rparr>"

definition example_addr :: socket_addr where "example_addr = \<lparr>sa_ip = V4 0, sa_port = 0\<rparr>"

lemma receive_loop_faithful_witness:
  "receive_loop 1 example_addr [Some (datagram (Leave 0)), Some [99], Some (datagram (Ack 0))]
     (replicate 21 0, example_conn)
   = receive_event 1 example_addr (Ack 0) (receive_event 1 example_addr (Leave 0) example_conn)"
proof -
  have "receive_loop 1 example_addr (map (\<lambda>m. Some (case m of Inl e \<Rightarrow> datagram e | Inr d \<Rightarrow> d))
        [Inl (Leave 0), Inr [99 :: u8], Inl (Ack 0)]) (replicate 21 0, example_conn)
    = fold (\<lambda>m. case m of Inl e \<Rightarrow> receive_event 1 example_addr e | Inr _ \<Rightarrow> id)
        [Inl (Leave 0), Inr [99 :: u8], Inl (Ack 0)] example_conn"
    by (rule receive_loop_faithful) auto
  then show ?thesis by (simp del: receive_loop.simps)
qed

section \<open>Sending and connecting\<close>

text \<open>what \<open>send\<close> puts on the wire, and when\<close>

lemma conn_send_ok:
  assumes "active_addr h (co_mgr co) = Some addr" "addr \<in> co_conns co" "alive h (co_mgr co)"
    and "False \<notin> set (co_dtls co)"
  shows "\<exists>co'. conn_send e h co = (Ok (), co') \<and> co_sent co' = co_sent co @ [(addr, datagram e)] \<and>
    co_mgr co' = co_mgr co \<and> co_conns co' = co_conns co \<and> False \<notin> set (co_dtls co') \<and>
    co_connecting co' = co_connecting co \<and> co_recv co' = co_recv co"
  using assms by (cases "co_dtls co") (auto simp: conn_send_def dtls_send_def Let_def)

text \<open>
  \<open>send\<close> and the background tasks it starts, with the list of tasks in flight: a task
  finishes once, with any result
\<close>

datatype conn_op = CO_Send proto_event client_handle
  | CO_Finish client_handle "(socket_addr, connection_error) outcome option"
  | CO_Receive client_handle socket_addr "u8 list option" "u8 list"

fun conn_step :: "conn_op \<Rightarrow> connection \<times> client_handle list \<Rightarrow> connection \<times> client_handle list" where
  "conn_step (CO_Send e h) (co, inflight) =
     (let co' = snd (conn_send e h co)
      in (co', inflight @ drop (length (co_spawned co)) (co_spawned co')))"
| "conn_step (CO_Finish h res) (co, inflight) =
     (if h \<in> set inflight \<and> res \<noteq> Some Panic
      then (snd (connect_finish [] h res co), remove1 h inflight) else (co, inflight))"
| "conn_step (CO_Receive h addr msg buf) (co, inflight) =
     (snd (snd (receive_step h addr msg (buf, co))), inflight)"

definition inflight_ok :: "connection \<times> client_handle list \<Rightarrow> bool" where
  "inflight_ok = (\<lambda>(co, inflight). distinct inflight \<and> set inflight = co_connecting co)"

lemma dtls_send_frame:
  "co_connecting (snd (dtls_send a b co)) = co_connecting co"
  "co_spawned (snd (dtls_send a b co)) = co_spawned co"
  by (auto simp: dtls_send_def split: list.split)

lemma dtls_send_eqD:
  "dtls_send a b co = (ok, co') \<Longrightarrow> co_connecting co' = co_connecting co \<and> co_spawned co' = co_spawned co"
  by (metis dtls_send_frame snd_conv)

lemma disconnect_frame [simp]:
  "co_connecting (disconnect h a co) = co_connecting co"
  "co_spawned (disconnect h a co) = co_spawned co"
  by (simp_all add: disconnect_def)

lemma receive_step_frame: "co_connecting (snd (snd (receive_step h a msg (buf, co)))) = co_connecting co"
  by (auto simp: receive_step_def receive_event_def Let_def split: option.split outcome.split proto_event.split)

lemma conn_send_spawn:
  "conn_send e h co = (r, co') \<Longrightarrow>
   (co_connecting co' = co_connecting co \<and> co_spawned co' = co_spawned co) \<or>
   (h \<notin> co_connecting co \<and> co_connecting co' = insert h (co_connecting co) \<and> co_spawned co' = co_spawned co @ [h])"
  by (auto simp: conn_send_def Let_def dest: dtls_send_eqD split: option.splits if_splits prod.splits)

lemma connect_finish_connecting:
  "res \<noteq> Some Panic \<Longrightarrow> co_connecting (snd (connect_finish c h res co)) = co_connecting co - {h}"
  by (auto simp: connect_finish_def Let_def dtls_send_frame split: option.split outcome.split)

lemma conn_step_ok: "inflight_ok s \<Longrightarrow> inflight_ok (conn_step op s)"
proof (induction op s rule: conn_step.induct)
  case (1 e h co inflight)
  obtain r co' where "conn_send e h co = (r, co')" by fastforce
  with 1 conn_send_spawn [OF this] show ?case by (auto simp: inflight_ok_def)
next
  case (2 h res co inflight)
  then show ?case by (auto simp: inflight_ok_def connect_finish_connecting)
next
  case (3 h addr msg buf co inflight)
  then show ?case by (simp add: inflight_ok_def receive_step_frame)
qed

interpretation connecting: machine conn_step inflight_ok
  by unfold_locales (rule conn_step_ok)

text \<open>
  However often input for an unconnected client is sent, at most one attempt to
  connect to it is under way at any time, \<open>connecting\<close> names exactly the clients with one,
  and a client is never blocked by an attempt that is over.
\<close>

theorem one_connection_attempt:
  "case fold conn_step ops (co\<lparr>co_connecting := {}\<rparr>, []) of
     (co', inflight) \<Rightarrow> distinct inflight \<and> (\<forall>h. h \<in> co_connecting co' \<longleftrightarrow> h \<in> set inflight)"
proof -
  have "inflight_ok (fold conn_step ops (co\<lparr>co_connecting := {}\<rparr>, []))"
    by (rule connecting.run_inv) (simp add: inflight_ok_def)
  then show ?thesis by (auto simp: inflight_ok_def split: prod.splits)
qed

end
