(* ===== verification/Tuning.thy ===== *)
theory Tuning
  imports InputEvent Ipc
begin

text \<open>
  Per-client input tuning (\<open>src/tuning.rs\<close>): what the sending side does to a captured
  event before it leaves. Modifier keys are remapped by the client's \<open>ModifierMap\<close> and
  remembered in \<open>held\<close>, pointer motion is scaled with the fraction carried over.
\<close>

definition CONTROL_MASK :: u32 where "CONTROL_MASK = push_bit 2 1"
definition MOD1_MASK :: u32 where "MOD1_MASK = push_bit 3 1"
definition MOD4_MASK :: u32 where "MOD4_MASK = push_bit 6 1"

record client_tuning =
  ct_speed :: f64
  ct_modifiers :: modifier_map

definition client_tuning_default :: client_tuning where
  "client_tuning_default = \<lparr>ct_speed = DEFAULT_SPEED, ct_modifiers = modifier_map_default\<rparr>"

definition client_tuning_new :: "f64 \<Rightarrow> modifier_map \<Rightarrow> client_tuning" where
  "client_tuning_new speed modifiers = \<lparr>ct_speed = clamp_speed speed, ct_modifiers = modifiers\<rparr>"

record tuning_state =
  ts_rem_dx :: f64
  ts_rem_dy :: f64
  ts_held :: "(u32, u32) hmap"

definition tuning_state_default :: tuning_state where
  "tuning_state_default = \<lparr>ts_rem_dx = f64_zero, ts_rem_dy = f64_zero, ts_held = []\<rparr>"

section \<open>Modifier roles\<close>

fun keys_of :: "modifier \<Rightarrow> linux \<times> linux" where
  "keys_of Ctrl = (L_KeyLeftCtrl, L_KeyRightCtrl)"
| "keys_of Alt = (L_KeyLeftAlt, L_KeyRightalt)"
| "keys_of Meta = (L_KeyLeftMeta, L_KeyRightmeta)"

fun mask_of :: "modifier \<Rightarrow> u32" where
  "mask_of Ctrl = CONTROL_MASK"
| "mask_of Alt = MOD1_MASK"
| "mask_of Meta = MOD4_MASK"

definition role_of :: "u32 \<Rightarrow> (modifier \<times> bool) option" where
  "role_of key =
     (case linux_try_from key of
        None \<Rightarrow> None
      | Some k \<Rightarrow>
          if k = L_KeyLeftCtrl then Some (Ctrl, False)
          else if k = L_KeyRightCtrl then Some (Ctrl, True)
          else if k = L_KeyLeftAlt then Some (Alt, False)
          else if k = L_KeyRightalt then Some (Alt, True)
          else if k = L_KeyLeftMeta then Some (Meta, False)
          else if k = L_KeyRightmeta then Some (Meta, True)
          else None)"

fun target_of :: "modifier_map \<Rightarrow> modifier \<Rightarrow> modifier" where
  "target_of m Ctrl = mm_ctrl m"
| "target_of m Alt = mm_alt m"
| "target_of m Meta = mm_meta m"

definition map_key :: "modifier_map \<Rightarrow> u32 \<Rightarrow> u32" where
  "map_key m key =
     (if is_identity m then key
      else case role_of key of
        Some (role, right) \<Rightarrow>
          (case keys_of (target_of m role) of (l, r) \<Rightarrow> linux_code (if right then r else l))
      | None \<Rightarrow> key)"

definition map_mods :: "modifier_map \<Rightarrow> u32 \<Rightarrow> u32" where
  "map_mods m mods =
     (if is_identity m then mods
      else fold (\<lambda>role out. if mods AND mask_of role \<noteq> 0 then out OR mask_of (target_of m role) else out)
        [Ctrl, Alt, Meta]
        (mods AND NOT (CONTROL_MASK OR MOD1_MASK OR MOD4_MASK)))"

section \<open>The state of a session\<close>

definition tuning_reset :: "tuning_state \<Rightarrow> tuning_state" where
  "tuning_reset st = tuning_state_default"

definition scale :: "f64 \<Rightarrow> f64 \<Rightarrow> f64 \<Rightarrow> tuning_state \<Rightarrow> (f64 \<times> f64) \<times> tuning_state" where
  "scale dx dy speed st =
     (if f64_eq speed DEFAULT_SPEED then ((dx, dy), st)
      else
        let rem_dx = f64_add (ts_rem_dx st) (f64_mul dx speed);
            rem_dy = f64_add (ts_rem_dy st) (f64_mul dy speed);
            sx = f64_trunc rem_dx;
            sy = f64_trunc rem_dy
        in ((sx, sy), st\<lparr>ts_rem_dx := f64_sub rem_dx sx, ts_rem_dy := f64_sub rem_dy sy\<rparr>))"

definition modifier_key :: "modifier_map \<Rightarrow> u32 \<Rightarrow> u8 \<Rightarrow> tuning_state \<Rightarrow> u32 option \<times> tuning_state" where
  "modifier_key m key state st =
     (if state = 1 then
        (case hm_get (ts_held st) key of
           Some sent \<Rightarrow> (Some sent, st)
         | None \<Rightarrow>
             let target = map_key m key;
                 already_down = (\<exists>s \<in> set (hm_values (ts_held st)). s = target)
             in (if already_down then None else Some target,
                 st\<lparr>ts_held := hm_insert key target (ts_held st)\<rparr>))
      else
        let sent = (case hm_get (ts_held st) key of Some s \<Rightarrow> s | None \<Rightarrow> map_key m key);
            held = hm_remove key (ts_held st);
            still_down = (\<exists>s \<in> set (hm_values held). s = sent)
        in (if still_down then None else Some sent, st\<lparr>ts_held := held\<rparr>))"

definition release_code :: "modifier_map \<Rightarrow> u32 \<Rightarrow> tuning_state \<Rightarrow> u32 \<times> tuning_state" where
  "release_code m key st =
     (case hm_get (ts_held st) key of Some s \<Rightarrow> s | None \<Rightarrow> map_key m key,
      st\<lparr>ts_held := hm_remove key (ts_held st)\<rparr>)"

definition drain_held :: "tuning_state \<Rightarrow> u32 list \<times> tuning_state" where
  "drain_held st = (remdups_adj (sort (hm_values (ts_held st))), st\<lparr>ts_held := []\<rparr>)"

fun tune_event :: "client_tuning \<Rightarrow> event \<Rightarrow> tuning_state \<Rightarrow> event option \<times> tuning_state" where
  "tune_event t (Pointer (Motion time dx dy)) st =
     (case scale dx dy (ct_speed t) st of ((dx, dy), st) \<Rightarrow> (Some (Pointer (Motion time dx dy)), st))"
| "tune_event t (Keyboard (Key time key key_state)) st =
     (if role_of key \<noteq> None then
        (case modifier_key (ct_modifiers t) key key_state st of
           (None, st) \<Rightarrow> (None, st)
         | (Some key, st) \<Rightarrow> (Some (Keyboard (Key time key key_state)), st))
      else (Some (Keyboard (Key time key key_state)), st))"
| "tune_event t (Keyboard (Modifiers depressed latched locked grp)) st =
     (Some (Keyboard (Modifiers (map_mods (ct_modifiers t) depressed) (map_mods (ct_modifiers t) latched)
        (map_mods (ct_modifiers t) locked) grp)), st)"
| "tune_event t other st = (Some other, st)"

section \<open>Roles and keys\<close>

lemma modifiers_valid:
  "linux_try_from 29 = Some L_KeyLeftCtrl" "linux_try_from 97 = Some L_KeyRightCtrl"
  "linux_try_from 56 = Some L_KeyLeftAlt" "linux_try_from 100 = Some L_KeyRightalt"
  "linux_try_from 125 = Some L_KeyLeftMeta" "linux_try_from 126 = Some L_KeyRightmeta"
  by (simp_all add: linux_try_from_eq)

definition modifier_code :: "modifier \<times> bool \<Rightarrow> u32" where
  "modifier_code r = (case keys_of (fst r) of (l, rt) \<Rightarrow> linux_code (if snd r then rt else l))"

lemma role_of_eq:
  "role_of key =
     (if key = 29 then Some (Ctrl, False) else if key = 97 then Some (Ctrl, True)
      else if key = 56 then Some (Alt, False) else if key = 100 then Some (Alt, True)
      else if key = 125 then Some (Meta, False) else if key = 126 then Some (Meta, True) else None)"
  by (auto simp: role_of_def linux_try_from_eq)

lemma role_of_modifier_code [simp]: "role_of (modifier_code r) = Some r"
  by (cases r; cases "fst r"; cases "snd r") (auto simp: role_of_eq modifier_code_def)

lemma modifier_code_role_of: "role_of key = Some r \<Longrightarrow> modifier_code r = key"
  by (auto simp: role_of_eq modifier_code_def split: if_splits)

lemma target_identity: "is_identity m \<Longrightarrow> target_of m r = r"
  by (cases r) (simp_all add: is_identity_def modifier_map_default_def)

lemma map_key_role:
  "role_of key = Some (r, right) \<Longrightarrow> map_key m key = modifier_code (target_of m r, right)"
  using modifier_code_role_of [of key "(r, right)"]
  by (simp add: map_key_def target_identity modifier_code_def)

lemma map_key_other: "role_of key = None \<Longrightarrow> map_key m key = key"
  by (simp add: map_key_def)

lemma role_of_map_key: "role_of (map_key m key) = map_option (\<lambda>(r, right). (target_of m r, right)) (role_of key)"
  by (cases "role_of key") (auto simp: map_key_role map_key_other)

text \<open>
  Key remapping replaces the role of a modifier key by the role the map gives it
  and keeps the side (left stays left, right stays right); every other key is untouched.
\<close>

theorem map_key_correct:
  "case role_of key of
     None \<Rightarrow> map_key m key = key
   | Some (r, right) \<Rightarrow>
       map_key m key = modifier_code (target_of m r, right) \<and>
       role_of (map_key m key) = Some (target_of m r, right)"
  using role_of_map_key [of m key] by (cases "role_of key") (auto simp: map_key_role map_key_other)

lemma masks_bit:
  "bit CONTROL_MASK n \<longleftrightarrow> n = 2" "bit MOD1_MASK n \<longleftrightarrow> n = 3" "bit MOD4_MASK n \<longleftrightarrow> n = 6"
  by (simp_all only: CONTROL_MASK_def MOD1_MASK_def MOD4_MASK_def bit_push_bit_iff bit_1_iff) auto

lemma mask_bit: "bit (mask_of r) n \<longleftrightarrow> n = (case r of Ctrl \<Rightarrow> 2 | Alt \<Rightarrow> 3 | Meta \<Rightarrow> 6)"
  by (cases r) (simp_all add: masks_bit)

lemma mask_test: "mods AND mask_of r \<noteq> 0 \<longleftrightarrow> bit mods (case r of Ctrl \<Rightarrow> 2 | Alt \<Rightarrow> 3 | Meta \<Rightarrow> 6)"
proof -
  have "mods AND mask_of r \<noteq> 0 \<longleftrightarrow> (\<exists>n. bit (mods AND mask_of r) n)"
    by (metis bit_0_eq bot_apply bot_bool_def bit_eqI)
  then show ?thesis by (simp add: bit_and_iff mask_bit)
qed

abbreviation role_bit :: "modifier \<Rightarrow> nat" where
  "role_bit r \<equiv> (case r of Ctrl \<Rightarrow> 2 | Alt \<Rightarrow> 3 | Meta \<Rightarrow> 6)"

lemma role_bit_inj: "role_bit r = role_bit r' \<longleftrightarrow> r = r'"
  by (cases r; cases r') simp_all

lemma fold_mods:
  "bit (fold (\<lambda>role out. if mods AND mask_of role \<noteq> 0 then out OR mask_of (target_of m role) else out)
     [Ctrl, Alt, Meta] b) n \<longleftrightarrow>
   bit b n \<or> (bit mods (role_bit Ctrl) \<and> n = role_bit (target_of m Ctrl)) \<or>
   (bit mods (role_bit Alt) \<and> n = role_bit (target_of m Alt)) \<or>
   (bit mods (role_bit Meta) \<and> n = role_bit (target_of m Meta))"
  by (auto simp: mask_test bit_or_iff mask_bit simp del: mask_of.simps)

lemma map_mods_bit:
  assumes "\<not> is_identity m"
  shows "bit (map_mods m mods) n \<longleftrightarrow>
    (bit mods n \<and> (\<forall>r. n \<noteq> role_bit r)) \<or> (\<exists>r. bit mods (role_bit r) \<and> n = role_bit (target_of m r))"
proof -
  have all: "(\<forall>r. P r) \<longleftrightarrow> P Ctrl \<and> P Alt \<and> P Meta" for P by (metis modifier.exhaust)
  have ex: "(\<exists>r. P r) \<longleftrightarrow> P Ctrl \<or> P Alt \<or> P Meta" for P by (metis modifier.exhaust)
  have base: "bit (mods AND NOT (CONTROL_MASK OR MOD1_MASK OR MOD4_MASK)) n
      \<longleftrightarrow> bit mods n \<and> (\<forall>r. n \<noteq> role_bit r)"
    unfolding all using bit_imp_le_length [of mods n]
    by (auto simp: bit_and_iff bit_or_iff bit_not_iff masks_bit)
  show ?thesis
    using assms unfolding ex map_mods_def fold_mods base if_not_P [OF assms] by blast
qed

text \<open>
  The modifier mask sent along with the keys agrees with the keys: under any map
  the bit of a role is set exactly when some local role whose bit was set acts as it, and
  every bit that is not one of the three roles' is kept.
\<close>

theorem map_mods_correct:
  "(bit (map_mods m mods) (role_bit r) \<longleftrightarrow> (\<exists>l. target_of m l = r \<and> bit mods (role_bit l))) \<and>
   ((\<exists>l. n = role_bit l) \<or> bit (map_mods m mods) n = bit mods n)"
proof (cases "is_identity m")
  case True
  then show ?thesis by (auto simp: map_mods_def target_identity)
next
  case False
  show ?thesis unfolding map_mods_bit [OF False] role_bit_inj by (auto simp: role_bit_inj)
qed

section \<open>What the peer sees\<close>

text \<open>
  The specification: the peer's set of keys that are down, as a function of the key events
  it is sent (state 1 is a press or a repeat, everything else a release).
\<close>

fun peer_key :: "u32 \<Rightarrow> u8 \<Rightarrow> u32 set \<Rightarrow> u32 set" where
  "peer_key key state down = (if state = 1 then insert key down else down - {key})"

fun peer_step :: "event option \<Rightarrow> u32 set \<Rightarrow> u32 set" where
  "peer_step (Some (Keyboard (Key _ key state))) down = peer_key key state down"
| "peer_step _ down = down"

text \<open>a run of the tuning over a list of events, each with the tuning in force at that time\<close>

fun tune_run :: "(client_tuning \<times> event) list \<Rightarrow> tuning_state \<Rightarrow> event list \<times> tuning_state" where
  "tune_run [] st = ([], st)"
| "tune_run ((t, e) # es) st =
     (case tune_event t e st of
        (None, st) \<Rightarrow> tune_run es st
      | (Some e, st) \<Rightarrow> (case tune_run es st of (out, st) \<Rightarrow> (e # out, st)))"

abbreviation peer_view :: "event list \<Rightarrow> u32 set \<Rightarrow> u32 set" where
  "peer_view es down \<equiv> fold (\<lambda>e. peer_step (Some e)) es down"

definition modifiers_down :: "u32 set \<Rightarrow> u32 set" where
  "modifiers_down down = {k \<in> down. role_of k \<noteq> None}"

text \<open>\<open>held\<close> has one entry per key, raw keys and codes are modifier keys, and its values are what the peer has down\<close>

definition held_ok :: "tuning_state \<Rightarrow> bool" where
  "held_ok st \<longleftrightarrow> hm_ok (ts_held st) \<and>
     (\<forall>k v. hm_get (ts_held st) k = Some v \<longrightarrow> role_of k \<noteq> None \<and> role_of v \<noteq> None)"

definition held_rel :: "tuning_state \<Rightarrow> u32 set \<Rightarrow> bool" where
  "held_rel st down \<longleftrightarrow> held_ok st \<and> modifiers_down down = set (hm_values (ts_held st))"

lemma role_map_key_iff: "role_of (map_key m key) = None \<longleftrightarrow> role_of key = None"
  by (simp add: role_of_map_key)

lemma held_rel_default: "held_rel tuning_state_default {}"
  by (simp add: held_rel_def held_ok_def tuning_state_default_def modifiers_down_def hm_values_def)

lemma hm_values_remove:
  "hm_ok m \<Longrightarrow> w \<in> set (hm_values (hm_remove k m)) \<longleftrightarrow> (\<exists>k'. k' \<noteq> k \<and> hm_get m k' = Some w)"
  by (auto simp: hm_values_get)

lemma modifiers_down_insert:
  "role_of k \<noteq> None \<Longrightarrow> modifiers_down (insert k down) = insert k (modifiers_down down)"
  "role_of k = None \<Longrightarrow> modifiers_down (insert k down) = modifiers_down down"
  by (auto simp: modifiers_down_def)

lemma modifiers_down_remove:
  "modifiers_down (down - {k}) = modifiers_down down - {k}"
  by (auto simp: modifiers_down_def)

lemma held_rel_press:
  assumes rel: "held_rel st down" and role: "role_of key \<noteq> None"
    and mk: "modifier_key m key 1 st = (out, st')"
  shows "held_rel st' (case out of None \<Rightarrow> down | Some k \<Rightarrow> peer_key k 1 down) \<and> (\<forall>k. out = Some k \<longrightarrow> role_of k \<noteq> None)"
proof (cases "hm_get (ts_held st) key")
  case (Some sent)
  then have "sent \<in> set (hm_values (ts_held st))" "role_of sent \<noteq> None"
    using rel by (auto simp: held_rel_def held_ok_def hm_values_get)
  moreover have "out = Some sent" "st' = st" using mk Some by (simp_all add: modifier_key_def)
  ultimately show ?thesis
    using rel by (auto simp: held_rel_def modifiers_down_def)
next
  case None
  let ?t = "map_key m key"
  have ok: "hm_ok (ts_held st)" using rel by (simp add: held_rel_def held_ok_def)
  have out: "out = (if ?t \<in> set (hm_values (ts_held st)) then None else Some ?t)"
    and st': "st' = st\<lparr>ts_held := hm_insert key ?t (ts_held st)\<rparr>"
    using mk by (auto simp: modifier_key_def None Let_def)
  have t: "role_of ?t \<noteq> None" using role role_map_key_iff [of m key] by simp
  have "held_ok st'" using rel t role by (simp add: held_rel_def held_ok_def st')
  moreover have "modifiers_down (case out of None \<Rightarrow> down | Some k \<Rightarrow> peer_key k 1 down)
      = insert ?t (set (hm_values (ts_held st)))"
    using rel t by (auto simp: out held_rel_def modifiers_down_insert simp del: not_None_eq)
  ultimately show ?thesis
    using t by (simp add: out held_rel_def st' hm_values_insert [OF ok None])
qed

lemma held_rel_release:
  assumes rel: "held_rel st down" and role: "role_of key \<noteq> None" and "state \<noteq> 1"
    and mk: "modifier_key m key state st = (out, st')"
  shows "held_rel st' (case out of None \<Rightarrow> down | Some k \<Rightarrow> peer_key k state down) \<and> (\<forall>k. out = Some k \<longrightarrow> role_of k \<noteq> None)"
proof -
  let ?h = "ts_held st"
  have ok: "hm_ok ?h" and roles: "\<And>k v. hm_get ?h k = Some v \<Longrightarrow> role_of k \<noteq> None \<and> role_of v \<noteq> None"
    and vals: "modifiers_down down = set (hm_values ?h)"
    using rel by (auto simp: held_rel_def held_ok_def)
  define sent where "sent = (case hm_get ?h key of Some s \<Rightarrow> s | None \<Rightarrow> map_key m key)"
  have role_sent: "role_of sent \<noteq> None"
    using roles role role_map_key_iff [of m key] by (auto simp: sent_def split: option.splits)
  have st': "st' = st\<lparr>ts_held := hm_remove key ?h\<rparr>"
    and out: "out = (if sent \<in> set (hm_values (hm_remove key ?h)) then None else Some sent)"
    using mk \<open>state \<noteq> 1\<close> by (auto simp: modifier_key_def sent_def Let_def)
  have ok': "held_ok st'"
    using ok roles by (simp add: st' held_ok_def)
  have removed: "set (hm_values ?h) - {sent} \<subseteq> set (hm_values (hm_remove key ?h))"
  proof
    fix v
    assume "v \<in> set (hm_values ?h) - {sent}"
    then obtain k where k: "hm_get ?h k = Some v" and "v \<noteq> sent" using ok by (auto simp: hm_values_get)
    then have "k \<noteq> key" by (auto simp: sent_def)
    with k ok show "v \<in> set (hm_values (hm_remove key ?h))" by (auto simp: hm_values_remove)
  qed
  have kept: "set (hm_values (hm_remove key ?h)) \<subseteq> set (hm_values ?h)"
    using ok by (auto simp: hm_values_get split: if_splits)
  have "modifiers_down (case out of None \<Rightarrow> down | Some k \<Rightarrow> peer_key k state down)
      = set (hm_values (hm_remove key ?h))"
    using vals removed kept \<open>state \<noteq> 1\<close> by (auto simp: out modifiers_down_remove)
  then show ?thesis using ok' role_sent by (auto simp: held_rel_def st' out)
qed

lemma modifier_key_rel:
  assumes "held_rel st down" and "role_of key \<noteq> None" and "modifier_key m key state st = (out, st')"
  shows "held_rel st' (case out of None \<Rightarrow> down | Some k \<Rightarrow> peer_key k state down)"
proof (cases "state = 1")
  case True
  with assms held_rel_press show ?thesis by blast
next
  case False
  with assms held_rel_release show ?thesis by blast
qed

lemma scale_held: "scale dx dy v st = (r, st') \<Longrightarrow> ts_held st' = ts_held st"
  by (auto simp: scale_def Let_def split: if_splits)

lemma modifiers_down_other: "role_of key = None \<Longrightarrow> modifiers_down (peer_key key state down) = modifiers_down down"
  by (auto simp: modifiers_down_def)

lemma held_rel_peer_other: "held_rel st down \<Longrightarrow> role_of key = None \<Longrightarrow> held_rel st (peer_key key state down)"
  by (simp add: held_rel_def modifiers_down_other del: peer_key.simps)

lemma tune_event_rel:
  "held_rel st down \<Longrightarrow> tune_event t e st = (out, st') \<Longrightarrow> held_rel st' (peer_step out down)"
proof (induction t e st rule: tune_event.induct)
  case (1 t time dx dy st)
  then show ?case
    by (auto simp: held_rel_def held_ok_def dest: scale_held split: prod.splits)
next
  case (2 t time key key_state st)
  show ?case
  proof (cases "role_of key")
    case None
    with 2 show ?thesis using held_rel_peer_other by auto
  next
    case (Some r)
    obtain k' st2 where mk: "modifier_key (ct_modifiers t) key key_state st = (k', st2)" by fastforce
    from modifier_key_rel [OF "2.prems"(1) _ mk] Some 2 mk show ?thesis
      by (auto split: option.splits)
  qed
qed (auto simp: tune_event.simps)

lemma tune_run_rel:
  "held_rel st down \<Longrightarrow> tune_run es st = (out, st') \<Longrightarrow> held_rel st' (peer_view out down)"
proof (induction es arbitrary: st down out)
  case (Cons te es)
  obtain t e where te: "te = (t, e)" by fastforce
  obtain o1 st1 where ev: "tune_event t e st = (o1, st1)" by fastforce
  have rel: "held_rel st1 (peer_step o1 down)" by (rule tune_event_rel [OF Cons.prems(1) ev])
  from Cons.prems(2) Cons.IH [OF rel] show ?case
    by (cases o1) (auto simp: te ev split: prod.splits)
qed simp

text \<open>
  \<^bold>\<open>C25.\<close> The tuning state mirrors the peer. From a fresh session, after any sequence of
  captured events and with the modifier map and the speed changed at will in between, the
  modifier keys the peer has down are exactly the codes recorded in \<open>held\<close>: no repeat,
  map change or pair of keys with the same target makes a modifier stick or go up early.
\<close>

theorem tuning_mirrors_peer:
  "case tune_run es tuning_state_default of (out, st) \<Rightarrow>
     modifiers_down (peer_view out {}) = set (hm_values (ts_held st))"
  using tune_run_rel [OF held_rel_default] by (auto simp: held_rel_def split: prod.splits)

section \<open>Motion\<close>

lemma scale_axis_exact:
  assumes "f64_is_finite acc"
  shows "2 ^ 1074 dvd f64_units (f64_trunc acc) \<and> \<bar>f64_units (f64_sub acc (f64_trunc acc))\<bar> < 2 ^ 1074 \<and>
    f64_units (f64_trunc acc) + f64_units (f64_sub acc (f64_trunc acc)) = f64_units acc"
proof (intro conjI)
  show "2 ^ 1074 dvd f64_units (f64_trunc acc)" by (rule f64_trunc_whole)
  show "\<bar>f64_units (f64_sub acc (f64_trunc acc))\<bar> < 2 ^ 1074" by (rule f64_fraction_less_one [OF assms])
  show "f64_units (f64_trunc acc) + f64_units (f64_sub acc (f64_trunc acc)) = f64_units acc"
    unfolding f64_sub_trunc_exact(1) [OF assms] by simp
qed

lemma scale_eq:
  "\<not> f64_eq speed DEFAULT_SPEED \<Longrightarrow> scale dx dy speed st = ((sx, sy), st') \<Longrightarrow>
   sx = f64_trunc (f64_add (ts_rem_dx st) (f64_mul dx speed)) \<and>
   sy = f64_trunc (f64_add (ts_rem_dy st) (f64_mul dy speed)) \<and>
   ts_rem_dx st' = f64_sub (f64_add (ts_rem_dx st) (f64_mul dx speed)) sx \<and>
   ts_rem_dy st' = f64_sub (f64_add (ts_rem_dy st) (f64_mul dy speed)) sy"
  by (auto simp: scale_def Let_def)

text \<open>
  \<^bold>\<open>C36.\<close> Scaled motion loses nothing. As long as the accumulators stay finite, both axes
  send a whole number of pixels, keep a remainder of less than one pixel, and what is sent plus the remainder
  is the accumulated value exactly, with no rounding; at the default speed the motion passes unchanged
  and the remainders are not touched.
\<close>

theorem scale_conserves:
  assumes "scale dx dy speed st = ((sx, sy), st')"
    and "f64_is_finite (f64_add (ts_rem_dx st) (f64_mul dx speed))"
    and "f64_is_finite (f64_add (ts_rem_dy st) (f64_mul dy speed))"
  shows "if f64_eq speed DEFAULT_SPEED then sx = dx \<and> sy = dy \<and> st' = st
    else 2 ^ 1074 dvd f64_units sx \<and> 2 ^ 1074 dvd f64_units sy \<and>
      \<bar>f64_units (ts_rem_dx st')\<bar> < 2 ^ 1074 \<and> \<bar>f64_units (ts_rem_dy st')\<bar> < 2 ^ 1074 \<and>
      f64_units sx + f64_units (ts_rem_dx st') = f64_units (f64_add (ts_rem_dx st) (f64_mul dx speed)) \<and>
      f64_units sy + f64_units (ts_rem_dy st') = f64_units (f64_add (ts_rem_dy st) (f64_mul dy speed))"
proof (cases "f64_eq speed DEFAULT_SPEED")
  case True
  then show ?thesis using assms(1) by (simp add: scale_def)
next
  case False
  note eq = scale_eq [OF False assms(1)]
  show ?thesis
    unfolding if_not_P [OF False] using scale_axis_exact [OF assms(2)] scale_axis_exact [OF assms(3)] eq
    by metis
qed

text \<open>3.0 * 1.5 = 4.5: four pixels are sent, half a pixel is kept\<close>

lemma units_examples:
  "f64_units 0x4008000000000000 = 3 * 2 ^ 1074" "f64_units 0x3FF8000000000000 = 3 * 2 ^ 1073"
  "f64_units 0x4012000000000000 = 9 * 2 ^ 1073" "f64_units f64_zero = 0"
  by (simp_all add: f64_units_def f64_sig_def f64_pow_def f64_sign_def f64_mag_def f64_exp_def f64_frac_def
      f64_zero_def)

lemma finite_examples:
  "f64_mag 0x4008000000000000 = 0x4008000000000000" "f64_mag 0x3FF8000000000000 = 0x3FF8000000000000"
  "f64_mag 0x4012000000000000 = 0x4012000000000000" "f64_mag f64_zero = 0"
  "\<not> f64_sign 0x4008000000000000" "\<not> f64_sign 0x3FF8000000000000"
  "\<not> f64_sign 0x4012000000000000" "\<not> f64_sign f64_zero"
  by (simp_all add: f64_mag_def f64_sign_def f64_zero_def)

lemma mul_example: "f64_mul 0x4008000000000000 0x3FF8000000000000 = 0x4012000000000000"
proof -
  have "nat \<bar>f64_units 0x4008000000000000 * f64_units 0x3FF8000000000000\<bar> = (9 * 2 ^ 49) * 2 ^ (1024 + 1074)"
    unfolding units_examples by simp
  then have "f64_round_mag (nat \<bar>f64_units 0x4008000000000000 * f64_units 0x3FF8000000000000\<bar>) 1074 = 0x4012000000000000"
    using f64_round_mag_normal [of "9 * 2 ^ 49" 1024 1074] by (simp only:) (simp add: f64_inf_mag_def)
  then show ?thesis
    by (simp add: f64_mul_def f64_is_nan_def f64_is_inf_def finite_examples f64_inf_mag_def f64_make_def
        del: units_examples)
qed

lemma add_example: "f64_add f64_zero 0x4012000000000000 = 0x4012000000000000"
proof -
  have s: "f64_units f64_zero + f64_units 0x4012000000000000 = 9 * 2 ^ 1073"
    unfolding units_examples by simp
  have "nat \<bar>9 * 2 ^ 1073\<bar> = (9 * 2 ^ 49) * 2 ^ (1024 + 0)" by simp
  then have "f64_round_mag (nat \<bar>9 * 2 ^ 1073\<bar>) 0 = 0x4012000000000000"
    using f64_round_mag_normal [of "9 * 2 ^ 49" 1024 0] by (simp only:) (simp add: f64_inf_mag_def)
  then show ?thesis
    by (simp add: f64_add_def f64_is_nan_def f64_is_inf_def finite_examples f64_inf_mag_def f64_make_def s Let_def)
qed

lemma scale_conserves_witness:
  "case scale 0x4008000000000000 0x4008000000000000 0x3FF8000000000000 tuning_state_default of
     ((sx, sy), st') \<Rightarrow> f64_units sx + f64_units (ts_rem_dx st') = 9 * 2 ^ 1073 \<and> 2 ^ 1074 dvd f64_units sx"
proof -
  obtain sx sy st' where r: "scale 0x4008000000000000 0x4008000000000000 0x3FF8000000000000 tuning_state_default
      = ((sx, sy), st')" by (metis surj_pair)
  have acc: "f64_add (ts_rem_dx tuning_state_default) (f64_mul 0x4008000000000000 0x3FF8000000000000) = 0x4012000000000000"
    "f64_add (ts_rem_dy tuning_state_default) (f64_mul 0x4008000000000000 0x3FF8000000000000) = 0x4012000000000000"
    by (simp_all add: tuning_state_default_def mul_example add_example)
  have fin: "f64_is_finite 0x4012000000000000" by (simp add: f64_is_finite_def finite_examples f64_inf_mag_def)
  have neq: "\<not> f64_eq 0x3FF8000000000000 DEFAULT_SPEED"
    by (simp add: f64_eq_def f64_is_zero_def finite_examples DEFAULT_SPEED_def f64_one_def)
  from scale_conserves [OF r, unfolded acc, OF fin fin] show ?thesis
    unfolding r prod.case if_not_P [OF neq] units_examples by blast
qed

end
