(* ===== verification/CaptureTask.thy ===== *)
theory CaptureTask
  imports InputCapture Connect Tuning
begin

text \<open>
  The capture task (\<open>src/capture.rs\<close>): it owns the input capture and the outgoing
  connections, decides which client the input goes to, tunes it and sends it, and hands the
  pointer back. Every turn of its \<open>select!\<close> loops is one step; the answers of the platform
  backend are the argument \<open>br\<close>, the events reported to the service are logged in \<open>cp_events\<close>.
\<close>

datatype icapture_event =
    CaptureBegin capture_handle
  | CaptureDisabled
  | CaptureEnabled
  | ClientEntered u64
  | DragReleased u64
  | DragCancelled u64

datatype capture_type = CT_Default | CT_EnterOnly

datatype capture_request =
    Release
  | CreateCapture capture_handle capture_position capture_type
  | DestroyCapture capture_handle
  | Reenable
  | SetReleaseBind "linux list"
  | SetDragPending bool
  | SetTuning capture_handle client_tuning

datatype send_state = WaitingForAck | Sending

type_synonym capture_error = string

fun to_capture_pos :: "position \<Rightarrow> capture_position" where
  "to_capture_pos Left = C_Left"
| "to_capture_pos Right = C_Right"
| "to_capture_pos Top = C_Top"
| "to_capture_pos Bottom = C_Bottom"

fun to_proto_pos :: "capture_position \<Rightarrow> proto_position" where
  "to_proto_pos C_Left = P_Left"
| "to_proto_pos C_Right = P_Right"
| "to_proto_pos C_Top = P_Top"
| "to_proto_pos C_Bottom = P_Bottom"

text \<open>
  The task's fields, its connection and its input capture; \<open>cp_mode\<close> is the place in \<open>run\<close>:
  in a capture session, in the loop that waits for \<open>Reenable\<close>, or returned.
\<close>

datatype task_mode = Running | Stopped | Ended

record capture_task =
  cp_active_client :: "capture_handle option"
  cp_drag_pending :: bool
  cp_tuning :: "(capture_handle, client_tuning) hmap"
  cp_tuning_state :: "(capture_handle, tuning_state) hmap"
  cp_captures :: "(capture_handle \<times> capture_position \<times> capture_type) list"
  cp_release_bind :: "linux list"
  cp_state :: send_state
  cp_conn :: connection
  cp_capture :: input_capture
  cp_events :: "icapture_event list"
  cp_mode :: task_mode

definition capture_task_new :: "connection \<Rightarrow> linux list \<Rightarrow> capture_task" where
  "capture_task_new conn release_bind =
     \<lparr>cp_active_client = None, cp_drag_pending = False, cp_tuning = [], cp_tuning_state = [],
      cp_captures = [], cp_release_bind = release_bind, cp_state = WaitingForAck, cp_conn = conn,
      cp_capture = input_capture_new, cp_events = [], cp_mode = Stopped\<rparr>"

definition emit :: "icapture_event \<Rightarrow> capture_task \<Rightarrow> capture_task" where
  "emit e cp = cp\<lparr>cp_events := cp_events cp @ [e]\<rparr>"

type_synonym backend_answers = "backend_call \<Rightarrow> (unit, capture_error) outcome"
type_synonym task_result = "(unit, capture_error) outcome \<times> capture_task"

text \<open>an operation of the input capture inside the task, and a send\<close>

definition on_capture :: "(input_capture \<Rightarrow> (unit, capture_error) outcome \<times> input_capture) \<Rightarrow> capture_task \<Rightarrow> task_result" where
  "on_capture f cp = (case f (cp_capture cp) of (r, ic) \<Rightarrow> (r, cp\<lparr>cp_capture := ic\<rparr>))"

definition send :: "proto_event \<Rightarrow> client_handle \<Rightarrow> capture_task \<Rightarrow> (unit, connection_error) outcome \<times> capture_task" where
  "send e h cp = (case conn_send e h (cp_conn cp) of (r, co) \<Rightarrow> (r, cp\<lparr>cp_conn := co\<rparr>))"

definition and_then :: "task_result \<Rightarrow> (capture_task \<Rightarrow> task_result) \<Rightarrow> task_result" where
  "and_then rc f = (case rc of (r, cp) \<Rightarrow> if is_ok r then f cp else (r, cp))"

section \<open>Bookkeeping\<close>

definition add_capture :: "capture_handle \<Rightarrow> capture_position \<Rightarrow> capture_type \<Rightarrow> capture_task \<Rightarrow> capture_task" where
  "add_capture h pos t cp = cp\<lparr>cp_captures := cp_captures cp @ [(h, pos, t)]\<rparr>"

definition remove_capture :: "capture_handle \<Rightarrow> capture_task \<Rightarrow> capture_task" where
  "remove_capture h cp =
     (let cp = cp\<lparr>cp_captures := filter (\<lambda>(h', _). h \<noteq> h') (cp_captures cp)\<rparr>;
          cp = (if cp_active_client cp = Some h
                then cp\<lparr>cp_active_client := None, cp_drag_pending := False\<rparr> else cp)
      in cp\<lparr>cp_tuning := hm_remove h (cp_tuning cp), cp_tuning_state := hm_remove h (cp_tuning_state cp)\<rparr>)"

definition cp_set_tuning :: "capture_handle \<Rightarrow> client_tuning \<Rightarrow> capture_task \<Rightarrow> capture_task" where
  "cp_set_tuning h t cp = cp\<lparr>cp_tuning := hm_insert h t (cp_tuning cp)\<rparr>"

definition tune :: "capture_handle \<Rightarrow> event \<Rightarrow> capture_task \<Rightarrow> event option \<times> capture_task" where
  "tune h e cp =
     (let tuning = unwrap_or (hm_get (cp_tuning cp) h) client_tuning_default;
          state = unwrap_or (hm_get (cp_tuning_state cp) h) tuning_state_default
      in case tune_event tuning e state of
           (out, state) \<Rightarrow> (out, cp\<lparr>cp_tuning_state := hm_insert h state (cp_tuning_state cp)\<rparr>))"

definition is_default_capture_at :: "capture_position \<Rightarrow> capture_task \<Rightarrow> bool" where
  "is_default_capture_at pos cp = list_ex (\<lambda>(_, p, t). p = pos \<and> t = CT_Default) (cp_captures cp)"

definition lookup_capture :: "capture_handle \<Rightarrow> capture_task \<Rightarrow> (capture_position \<times> capture_type) option" where
  "lookup_capture h cp = map_option (\<lambda>(_, p, t). (p, t)) (find (\<lambda>(h', _). h' = h) (cp_captures cp))"

section \<open>Giving the pointer back\<close>

text \<open>the codes to release: those recorded for the keys the capture lists, then what is left\<close>

definition release_codes :: "modifier_map \<Rightarrow> linux set \<Rightarrow> tuning_state \<Rightarrow> u32 list" where
  "release_codes m pressed st =
     (let (codes, st) = fold (\<lambda>key (codes, st). case release_code m key st of (c, st) \<Rightarrow> (codes @ [c], st))
                          (sorted_list_of_set (linux_code ` pressed)) ([], st)
      in remdups_adj (sort (codes @ fst (drain_held st))))"

definition key_up :: "u32 \<Rightarrow> proto_event" where
  "key_up key = Input (Keyboard (Key 0 key 0))"

definition mods_zero :: proto_event where
  "mods_zero = Input (Keyboard (Modifiers 0 0 0 0))"

text \<open>the messages sent to the client that is left, failures only logged\<close>

definition leave_messages :: "modifier_map \<Rightarrow> linux set \<Rightarrow> tuning_state \<Rightarrow> proto_event list" where
  "leave_messages m pressed st = map key_up (release_codes m pressed st) @ [mods_zero, Leave 0]"

definition send_all :: "proto_event list \<Rightarrow> client_handle \<Rightarrow> capture_task \<Rightarrow> capture_task" where
  "send_all es h cp = fold (\<lambda>e cp. snd (send e h cp)) es cp"

definition cancel_drag :: "capture_handle \<Rightarrow> capture_task \<Rightarrow> capture_task" where
  "cancel_drag h cp =
     (if cp_drag_pending cp then emit (DragCancelled h) (cp\<lparr>cp_drag_pending := False\<rparr>) else cp)"

definition release_capture :: "backend_answers \<Rightarrow> capture_task \<Rightarrow> task_result" where
  "release_capture br cp =
     (let cp =
        (case cp_active_client cp of
           None \<Rightarrow> cp
         | Some h \<Rightarrow>
             let cp = cancel_drag h (cp\<lparr>cp_active_client := None\<rparr>);
                 modifiers = (case hm_get (cp_tuning cp) h of Some t \<Rightarrow> ct_modifiers t | None \<Rightarrow> modifier_map_default);
                 st = unwrap_or (hm_get (cp_tuning_state cp) h) tuning_state_default;
                 (pressed, ic) = take_pressed_keys (cp_capture cp);
                 cp = cp\<lparr>cp_tuning_state := hm_remove h (cp_tuning_state cp), cp_capture := ic\<rparr>
             in send_all (leave_messages modifiers pressed st) h cp)
      in on_capture (ic_release (br B_Release)) cp)"

section \<open>An event of the capture\<close>

definition is_drop :: "capture_event \<Rightarrow> bool" where
  "is_drop e = (case e of CInput (Pointer (Button _ button state)) \<Rightarrow> button = BTN_LEFT \<and> state = 0 | _ \<Rightarrow> False)"

definition is_input :: "capture_event \<Rightarrow> bool" where
  "is_input e = (case e of CInput _ \<Rightarrow> True | Begin \<Rightarrow> False)"

text \<open>a \<open>Begin\<close> of a client that is not the active one\<close>

definition activate :: "capture_handle \<Rightarrow> capture_event \<Rightarrow> capture_task \<Rightarrow> capture_task" where
  "activate h e cp =
     (if e = Begin \<and> Some h \<noteq> cp_active_client cp then
        emit (ClientEntered h)
          (cp\<lparr>cp_state := WaitingForAck, cp_active_client := Some h,
             cp_tuning_state := hm_modify h tuning_reset (cp_tuning_state cp)\<rparr>)
      else cp)"

definition report_drop :: "capture_handle \<Rightarrow> capture_event \<Rightarrow> capture_task \<Rightarrow> capture_task" where
  "report_drop h e cp =
     (if cp_drag_pending cp \<and> is_drop e then emit (DragReleased h) (cp\<lparr>cp_drag_pending := False\<rparr>) else cp)"

text \<open>the message an event becomes, \<open>None\<close> when the tuning swallows it\<close>

definition outgoing :: "capture_handle \<Rightarrow> capture_position \<Rightarrow> capture_event \<Rightarrow> capture_task
    \<Rightarrow> proto_event option \<times> capture_task" where
  "outgoing h pos e cp =
     (let opposite_pos = to_proto_pos (capture_opposite pos) in
      case e of
        Begin \<Rightarrow> (Some (Enter opposite_pos), cp)
      | CInput ev \<Rightarrow>
          (case cp_state cp of
             WaitingForAck \<Rightarrow> (Some (Enter opposite_pos), cp)
           | Sending \<Rightarrow> (case tune h ev cp of (out, cp) \<Rightarrow> (map_option Input out, cp))))"

text \<open>sending it; a failure gives the pointer back and ends a pending drag\<close>

definition forward :: "backend_answers \<Rightarrow> capture_handle \<Rightarrow> proto_event \<Rightarrow> capture_task \<Rightarrow> task_result" where
  "forward br h msg cp =
     (case send msg h cp of (r, cp) \<Rightarrow>
        if is_ok r then (Ok (), cp)
        else
          let cp = cancel_drag h cp;
              cp = cp\<lparr>cp_tuning_state := hm_modify h tuning_reset (cp_tuning_state cp)\<rparr>
          in on_capture (ic_release (br B_Release)) cp)"

definition handle_capture_event ::
  "backend_answers \<Rightarrow> capture_handle \<Rightarrow> capture_event \<Rightarrow> capture_task \<Rightarrow> task_result" where
  "handle_capture_event br h e cp =
     (if keys_pressed (cp_release_bind cp) (cp_capture cp) then release_capture br cp
      else
        (case lookup_capture h cp of
           None \<Rightarrow>
             if e = Begin \<and> cp_active_client cp = None then on_capture (ic_release (br B_Release)) cp
             else (Ok (), cp)
         | Some (pos, t) \<Rightarrow>
             let cp = (if e = Begin then emit (CaptureBegin h) cp else cp) in
             if t = CT_EnterOnly then
               (if \<not> is_default_capture_at pos cp then on_capture (ic_release (br B_Release)) cp else (Ok (), cp))
             else
               let cp = report_drop h e (activate h e cp) in
               if cp_active_client cp = None \<and> is_input e then (Ok (), cp)
               else (case outgoing h pos e cp of
                   (None, cp) \<Rightarrow> (Ok (), cp)
                 | (Some msg, cp) \<Rightarrow> forward br h msg cp)))"

section \<open>The loops\<close>

text \<open>a message of a peer during a session\<close>

definition handle_peer_event :: "backend_answers \<Rightarrow> client_handle \<Rightarrow> proto_event \<Rightarrow> capture_task \<Rightarrow> task_result" where
  "handle_peer_event br h e cp =
     (if (case cp_active_client cp of Some active \<Rightarrow> h \<noteq> active | None \<Rightarrow> False) then (Ok (), cp)
      else (case e of
          Ack _ \<Rightarrow> (Ok (), cp\<lparr>cp_state := Sending\<rparr>)
        | Leave _ \<Rightarrow> release_capture br cp
        | _ \<Rightarrow> (Ok (), cp)))"

definition handle_request :: "backend_answers \<Rightarrow> capture_request \<Rightarrow> capture_task \<Rightarrow> task_result" where
  "handle_request br r cp =
     (case r of
        Reenable \<Rightarrow> (Ok (), cp)
      | Release \<Rightarrow> release_capture br cp
      | CreateCapture h p t \<Rightarrow> on_capture (ic_create (br (B_Create p)) h p) (add_capture h p t cp)
      | DestroyCapture h \<Rightarrow>
          and_then (if cp_active_client cp = Some h then release_capture br cp else (Ok (), cp))
            (\<lambda>cp. let cp = remove_capture h cp in
               on_capture (\<lambda>ic. ic_destroy
                 (case hm_get (ic_id_map ic) h of Some p \<Rightarrow> br (B_Destroy p) | None \<Rightarrow> Ok ()) h ic) cp)
      | SetReleaseBind bind \<Rightarrow> (Ok (), cp\<lparr>cp_release_bind := bind\<rparr>)
      | SetDragPending p \<Rightarrow> (Ok (), cp\<lparr>cp_drag_pending := p\<rparr>)
      | SetTuning h t \<Rightarrow> (Ok (), cp_set_tuning h t cp))"

text \<open>the requests the waiting loop of \<open>run\<close> serves without a capture; \<open>True\<close> to leave it\<close>

definition handle_request_stopped :: "capture_request \<Rightarrow> capture_task \<Rightarrow> bool \<times> capture_task" where
  "handle_request_stopped r cp =
     (case r of
        Reenable \<Rightarrow> (True, cp)
      | CreateCapture h p t \<Rightarrow> (False, add_capture h p t cp)
      | DestroyCapture h \<Rightarrow> (False, remove_capture h cp)
      | Release \<Rightarrow> (False, cp)
      | SetReleaseBind bind \<Rightarrow> (False, cp\<lparr>cp_release_bind := bind\<rparr>)
      | SetDragPending p \<Rightarrow> (False, cp\<lparr>cp_drag_pending := p\<rparr>)
      | SetTuning h t \<Rightarrow> (False, cp_set_tuning h t cp))"

definition create_captures :: "backend_answers \<Rightarrow> capture_task \<Rightarrow> task_result" where
  "create_captures br cp =
     fold (\<lambda>(h, pos, _) rc. and_then rc (on_capture (ic_create (br (B_Create pos)) h pos)))
       (cp_captures cp) (Ok (), cp)"

text \<open>leaving \<open>do_capture\<close>: terminate, and the guard reports \<open>CaptureDisabled\<close>\<close>

definition end_capture :: "backend_answers \<Rightarrow> capture_task \<Rightarrow> capture_task" where
  "end_capture br cp =
     (emit CaptureDisabled (snd (on_capture (ic_terminate (br B_Terminate)) cp)))\<lparr>cp_mode := Stopped\<rparr>"

text \<open>entering it: \<open>created\<close> says whether the backend could be created\<close>

definition start_capture :: "bool \<Rightarrow> backend_answers \<Rightarrow> capture_task \<Rightarrow> capture_task" where
  "start_capture created br cp =
     (if \<not> created then cp\<lparr>cp_mode := Stopped\<rparr>
      else
        (case create_captures br (emit CaptureEnabled (cp\<lparr>cp_capture := input_capture_new\<rparr>)) of
           (r, cp) \<Rightarrow> if is_ok r then cp\<lparr>cp_mode := Running\<rparr> else end_capture br cp))"

text \<open>what can happen next: the backend has items, a peer's message, a request, cancellation\<close>

datatype task_input =
    I_Capture "capture_error backend_item list"
  | I_Peer client_handle proto_event
  | I_Request capture_request
  | I_Cancel

text \<open>a handler in the session loop: an error ends the session\<close>

definition or_end :: "backend_answers \<Rightarrow> task_result \<Rightarrow> capture_task" where
  "or_end br rc = (case rc of (r, cp) \<Rightarrow> if is_ok r then cp else end_capture br cp)"

definition session_step :: "backend_answers \<Rightarrow> task_input \<Rightarrow> capture_task \<Rightarrow> capture_task" where
  "session_step br i cp =
     (case i of
        I_Capture items \<Rightarrow>
          (case poll_next items (cp_capture cp) of
             (Pending, _, ic) \<Rightarrow> cp\<lparr>cp_capture := ic\<rparr>
           | (ReadyOk h e, _, ic) \<Rightarrow>
               or_end br (handle_capture_event br h e (cp\<lparr>cp_capture := ic\<rparr>))
           | (_, _, ic) \<Rightarrow> end_capture br (cp\<lparr>cp_capture := ic\<rparr>))
      | I_Peer h e \<Rightarrow>
          or_end br (handle_peer_event br h e cp)
      | I_Request r \<Rightarrow>
          or_end br (handle_request br r cp)
      | I_Cancel \<Rightarrow> (end_capture br cp)\<lparr>cp_mode := Ended\<rparr>)"

fun task_step :: "bool \<times> backend_answers \<times> task_input \<Rightarrow> capture_task \<Rightarrow> capture_task" where
  "task_step (created, br, i) cp =
     (case cp_mode cp of
        Running \<Rightarrow> session_step br i cp
      | Stopped \<Rightarrow>
          (case i of
             I_Request r \<Rightarrow>
               (case handle_request_stopped r cp of
                  (True, cp) \<Rightarrow> start_capture created br cp
                | (False, cp) \<Rightarrow> cp)
           | I_Cancel \<Rightarrow> cp\<lparr>cp_mode := Ended\<rparr>
           | _ \<Rightarrow> cp)
      | Ended \<Rightarrow> cp)"

section \<open>The messages of a release\<close>

lemma fold_release_codes:
  assumes "distinct keys"
  shows "fold (\<lambda>key (codes, st). case release_code m key st of (c, st) \<Rightarrow> (codes @ [c], st)) keys (acc, st)
    = (acc @ map (\<lambda>k. case hm_get (ts_held st) k of Some s \<Rightarrow> s | None \<Rightarrow> map_key m k) keys,
       st\<lparr>ts_held := fold hm_remove keys (ts_held st)\<rparr>)"
  using assms
proof (induction keys arbitrary: acc st)
  case (Cons k ks)
  then have "map (\<lambda>k'. case hm_get (hm_remove k (ts_held st)) k' of Some s \<Rightarrow> s | None \<Rightarrow> map_key m k') ks
      = map (\<lambda>k'. case hm_get (ts_held st) k' of Some s \<Rightarrow> s | None \<Rightarrow> map_key m k') ks"
    by (intro map_cong) auto
  then show ?case using Cons by (simp add: release_code_def)
qed simp

lemma hm_values_fold_remove:
  "hm_ok h \<Longrightarrow> v \<in> set (hm_values (fold hm_remove ks h)) \<longleftrightarrow> (\<exists>k. k \<notin> set ks \<and> hm_get h k = Some v)"
proof (induction ks arbitrary: h)
  case Nil
  then show ?case by (simp add: hm_values_get)
next
  case (Cons k ks)
  then show ?case by (auto split: if_splits)
qed

lemma finite_linux_codes: "finite (linux_code ` A)"
  by simp

lemma set_release_codes:
  assumes "hm_ok (ts_held st)"
  shows "set (release_codes m pressed st) =
    (\<lambda>k. case hm_get (ts_held st) k of Some s \<Rightarrow> s | None \<Rightarrow> map_key m k) ` linux_code ` pressed
    \<union> set (hm_values (ts_held st))"
proof -
  let ?ks = "sorted_list_of_set (linux_code ` pressed)"
  let ?f = "\<lambda>k. case hm_get (ts_held st) k of Some s \<Rightarrow> s | None \<Rightarrow> map_key m k"
  have ks: "set ?ks = linux_code ` pressed" "distinct ?ks" by (simp_all add: finite_linux_codes)
  have "set (release_codes m pressed st) = ?f ` set ?ks \<union> set (hm_values (fold hm_remove ?ks (ts_held st)))"
    by (simp add: release_codes_def fold_release_codes [OF ks(2)] drain_held_def)
  also have "\<dots> = ?f ` set ?ks \<union> set (hm_values (ts_held st))"
    using assms by (force simp: hm_values_fold_remove hm_values_get image_iff)
  finally show ?thesis by (simp only: ks(1))
qed

lemma sorted_distinct_release_codes:
  "sorted (release_codes m pressed st) \<and> distinct (release_codes m pressed st)"
  by (simp add: release_codes_def Let_def sorted_remdups_adj split: prod.split)

section \<open>Sending\<close>

definition connected :: "client_handle \<Rightarrow> socket_addr \<Rightarrow> capture_task \<Rightarrow> bool" where
  "connected h addr cp \<longleftrightarrow>
     active_addr h (co_mgr (cp_conn cp)) = Some addr \<and> addr \<in> co_conns (cp_conn cp) \<and>
     alive h (co_mgr (cp_conn cp)) \<and> False \<notin> set (co_dtls (cp_conn cp))"

abbreviation sent :: "capture_task \<Rightarrow> (socket_addr \<times> u8 list) list" where
  "sent cp \<equiv> co_sent (cp_conn cp)"

lemma send_connected:
  assumes "connected h addr cp"
  shows "\<exists>co. send e h cp = (Ok (), cp\<lparr>cp_conn := co\<rparr>) \<and> connected h addr (cp\<lparr>cp_conn := co\<rparr>) \<and>
    co_sent co = sent cp @ [(addr, datagram e)]"
proof -
  from assms conn_send_ok [of h "cp_conn cp" addr e] obtain co where
    co: "conn_send e h (cp_conn cp) = (Ok (), co)" "co_sent co = sent cp @ [(addr, datagram e)]"
      "co_mgr co = co_mgr (cp_conn cp)" "co_conns co = co_conns (cp_conn cp)" "False \<notin> set (co_dtls co)"
    unfolding connected_def by blast
  then show ?thesis using assms by (intro exI [of _ co]) (simp add: connected_def send_def)
qed

lemma send_all_connected:
  assumes "connected h addr cp"
  shows "\<exists>co. send_all es h cp = cp\<lparr>cp_conn := co\<rparr> \<and> connected h addr (cp\<lparr>cp_conn := co\<rparr>) \<and>
    co_sent co = sent cp @ map (\<lambda>e. (addr, datagram e)) es"
  using assms
proof (induction es arbitrary: cp)
  case Nil
  then show ?case by (auto simp: send_all_def intro!: exI [of _ "cp_conn cp"])
next
  case (Cons e es)
  obtain co where co: "send e h cp = (Ok (), cp\<lparr>cp_conn := co\<rparr>)" "connected h addr (cp\<lparr>cp_conn := co\<rparr>)"
    "co_sent co = sent cp @ [(addr, datagram e)]"
    using send_connected [OF Cons.prems] by blast
  from Cons.IH [OF co(2)] show ?case by (auto simp: send_all_def co)
qed

lemma connected_cong: "cp_conn cp = cp_conn cp' \<Longrightarrow> connected h addr cp = connected h addr cp'"
  by (simp add: connected_def)

lemma cancel_drag_frame [simp]:
  "cp_conn (cancel_drag h cp) = cp_conn cp" "cp_capture (cancel_drag h cp) = cp_capture cp"
  "cp_tuning (cancel_drag h cp) = cp_tuning cp" "cp_tuning_state (cancel_drag h cp) = cp_tuning_state cp"
  "cp_active_client (cancel_drag h cp) = cp_active_client cp" "cp_state (cancel_drag h cp) = cp_state cp"
  "cp_drag_pending (cancel_drag h cp) = False" "cp_captures (cancel_drag h cp) = cp_captures cp"
  "cp_release_bind (cancel_drag h cp) = cp_release_bind cp"
  by (simp_all add: cancel_drag_def emit_def)

definition active_modifiers :: "client_handle \<Rightarrow> capture_task \<Rightarrow> modifier_map" where
  "active_modifiers h cp =
     (case hm_get (cp_tuning cp) h of Some t \<Rightarrow> ct_modifiers t | None \<Rightarrow> modifier_map_default)"

definition client_tuning_state :: "client_handle \<Rightarrow> capture_task \<Rightarrow> tuning_state" where
  "client_tuning_state h cp = unwrap_or (hm_get (cp_tuning_state cp) h) tuning_state_default"

definition leaving :: "client_handle \<Rightarrow> capture_task \<Rightarrow> capture_task" where
  "leaving h cp = (cancel_drag h (cp\<lparr>cp_active_client := None\<rparr>))
      \<lparr>cp_tuning_state := hm_remove h (cp_tuning_state cp), cp_capture := snd (take_pressed_keys (cp_capture cp))\<rparr>"

lemma leaving_frame [simp]:
  "cp_conn (leaving h cp) = cp_conn cp" "cp_state (leaving h cp) = cp_state cp"
  "cp_active_client (leaving h cp) = None" "cp_drag_pending (leaving h cp) = False"
  by (simp_all add: leaving_def)

lemma release_capture_Some:
  "cp_active_client cp = Some h \<Longrightarrow>
   release_capture br cp = on_capture (ic_release (br B_Release))
     (send_all (leave_messages (active_modifiers h cp) (ic_pressed_keys (cp_capture cp)) (client_tuning_state h cp)) h
       (leaving h cp))"
  by (simp add: release_capture_def active_modifiers_def client_tuning_state_def take_pressed_keys_def leaving_def Let_def)

lemma release_capture_None:
  "cp_active_client cp = None \<Longrightarrow> release_capture br cp = on_capture (ic_release (br B_Release)) cp"
  by (simp add: release_capture_def)

lemma release_capture_sends:
  assumes "cp_active_client cp = Some h" and conn: "connected h addr cp"
  shows "\<exists>cp'. release_capture br cp = (br B_Release, cp') \<and>
    sent cp' = sent cp @ map (\<lambda>e. (addr, datagram e))
      (leave_messages (active_modifiers h cp) (ic_pressed_keys (cp_capture cp)) (client_tuning_state h cp)) \<and>
    cp_active_client cp' = None \<and> \<not> cp_drag_pending cp' \<and>
    cp_tuning_state cp' = hm_remove h (cp_tuning_state cp) \<and>
    ic_pressed_keys (cp_capture cp') = {} \<and> connected h addr cp' \<and>
    cp_tuning cp' = cp_tuning cp \<and> cp_captures cp' = cp_captures cp"
proof -
  let ?cp = "leaving h cp"
  let ?es = "leave_messages (active_modifiers h cp) (ic_pressed_keys (cp_capture cp)) (client_tuning_state h cp)"
  have "connected h addr ?cp" using conn by (simp add: connected_def)
  from send_all_connected [OF this, of ?es] obtain co where
    co: "send_all ?es h ?cp = ?cp\<lparr>cp_conn := co\<rparr>" "connected h addr (?cp\<lparr>cp_conn := co\<rparr>)"
    "co_sent co = sent ?cp @ map (\<lambda>e. (addr, datagram e)) ?es" by blast
  have r: "release_capture br cp = on_capture (ic_release (br B_Release)) (?cp\<lparr>cp_conn := co\<rparr>)"
    unfolding release_capture_Some [OF assms(1)] co(1) ..
  show ?thesis
    using co(2,3) by (simp add: r on_capture_def ic_release_def backend_def connected_def)
      (simp add: leaving_def take_pressed_keys_def)
qed

text \<open>
  \<^bold>\<open>C15.\<close> Handing the pointer back to this machine releases everything at the peer. With a working
  connection, \<open>release_capture\<close> sends the active client, in this order and once each: a key-up
  for every modifier code the peer still has down and for every key the capture lists as
  pressed (under the code the peer saw), a reset of the modifier mask, and \<open>Leave\<close>. Afterwards
  no client is active, no drag is pending and no key is recorded as pressed.
\<close>

theorem release_capture_complete:
  assumes "cp_active_client cp = Some h" and "connected h addr cp" and "hm_ok (ts_held (client_tuning_state h cp))"
  shows "\<exists>codes cp'. release_capture br cp = (br B_Release, cp') \<and>
    sent cp' = sent cp @ map (\<lambda>e. (addr, datagram e)) (map key_up codes @ [mods_zero, Leave 0]) \<and>
    sorted codes \<and> distinct codes \<and>
    set codes = set (hm_values (ts_held (client_tuning_state h cp))) \<union>
      {case hm_get (ts_held (client_tuning_state h cp)) (linux_code k) of
         Some s \<Rightarrow> s | None \<Rightarrow> map_key (active_modifiers h cp) (linux_code k) | k.
       k \<in> ic_pressed_keys (cp_capture cp)} \<and>
    cp_active_client cp' = None \<and> \<not> cp_drag_pending cp' \<and> ic_pressed_keys (cp_capture cp') = {}"
proof -
  let ?codes = "release_codes (active_modifiers h cp) (ic_pressed_keys (cp_capture cp)) (client_tuning_state h cp)"
  have "set ?codes = set (hm_values (ts_held (client_tuning_state h cp))) \<union>
      {case hm_get (ts_held (client_tuning_state h cp)) (linux_code k) of
         Some s \<Rightarrow> s | None \<Rightarrow> map_key (active_modifiers h cp) (linux_code k) | k.
       k \<in> ic_pressed_keys (cp_capture cp)}"
    unfolding set_release_codes [OF assms(3)] by blast
  then show ?thesis
    using release_capture_sends [OF assms(1,2), of br] sorted_distinct_release_codes
    unfolding leave_messages_def by blast
qed

definition example_task :: capture_task where
  "example_task =
     (capture_task_new
        \<lparr>co_mgr = [(1, client_config_default, client_state_default\<lparr>cs_active_addr := Some example_addr, cs_alive := True\<rparr>)],
         co_conns = {example_addr}, co_connecting = {}, co_recv = [], co_ping_response = {}, co_dtls = [],
         co_sent = [], co_spawned = []\<rparr> DEFAULT_RELEASE_KEYS)
       \<lparr>cp_active_client := Some 1, cp_captures := [(1, C_Left, CT_Default)],
        cp_capture := input_capture_new\<lparr>ic_pressed_keys := {Linux 30}\<rparr>, cp_mode := Running\<rparr>"

lemma example_connected: "connected 1 example_addr example_task"
  by (simp add: connected_def example_task_def capture_task_new_def active_addr_def alive_def hm_get_def)

lemma example_task_fields:
  "sent example_task = []" "ic_pressed_keys (cp_capture example_task) = {Linux 30}"
  by (simp_all add: example_task_def capture_task_new_def)

lemma example_tuning_state: "client_tuning_state 1 example_task = tuning_state_default"
  by (simp add: client_tuning_state_def example_task_def capture_task_new_def)

lemma release_capture_complete_witness:
  "\<exists>codes cp'. release_capture (\<lambda>_. Ok ()) example_task = (Ok (), cp') \<and> set codes = {30} \<and>
     sent cp' = map (\<lambda>e. (example_addr, datagram e)) (map key_up codes @ [mods_zero, Leave 0])"
proof -
  have "cp_active_client example_task = Some 1" by (simp add: example_task_def)
  from release_capture_complete [OF this example_connected, of "\<lambda>_. Ok ()"] obtain codes cp' where
    "release_capture (\<lambda>_. Ok ()) example_task = (Ok (), cp')"
    "sent cp' = sent example_task @ map (\<lambda>e. (example_addr, datagram e)) (map key_up codes @ [mods_zero, Leave 0])"
    "set codes = set (hm_values (ts_held (client_tuning_state 1 example_task))) \<union>
      {case hm_get (ts_held (client_tuning_state 1 example_task)) (linux_code k) of
         Some s \<Rightarrow> s | None \<Rightarrow> map_key (active_modifiers 1 example_task) (linux_code k) | k.
       k \<in> ic_pressed_keys (cp_capture example_task)}"
    by (auto simp: example_tuning_state tuning_state_default_def)
  moreover have "map_key (active_modifiers 1 example_task) 30 = 30"
    by (simp add: map_key_def role_of_eq)
  ultimately have "set codes = {30}" "release_capture (\<lambda>_. Ok ()) example_task = (Ok (), cp')"
    "sent cp' = map (\<lambda>e. (example_addr, datagram e)) (map key_up codes @ [mods_zero, Leave 0])"
    by (simp_all add: example_tuning_state example_task_fields tuning_state_default_def hm_values_def)
  then show ?thesis by blast
qed

section \<open>A session, as the peer sees it\<close>

text \<open>the peer's keys after the datagrams sent to it\<close>

definition peer_apply :: "u8 list \<Rightarrow> u32 set \<Rightarrow> u32 set" where
  "peer_apply d = (case proto_parse d of Ok (Input e, _) \<Rightarrow> peer_step (Some e) | _ \<Rightarrow> id)"

definition peer_down :: "socket_addr \<Rightarrow> (socket_addr \<times> u8 list) list \<Rightarrow> u32 set" where
  "peer_down addr log = fold (\<lambda>(a, d). if a = addr then peer_apply d else id) log {}"

lemma peer_apply_datagram:
  "proto_wf e \<Longrightarrow> peer_apply (datagram e) = (case e of Input ev \<Rightarrow> peer_step (Some ev) | _ \<Rightarrow> id)"
  using proto_parse_bytes [of e "[]"]
  by (simp add: peer_apply_def datagram_bytes split: proto_event.split)

lemma peer_down_append: "peer_down addr (log @ log') = fold (\<lambda>(a, d). if a = addr then peer_apply d else id) log' (peer_down addr log)"
  by (simp add: peer_down_def)

text \<open>
  What can happen between two entries of the edge: an event of the capture for this client,
  a change of the keys the capture has recorded as pressed, new tuning, an acknowledgement.
\<close>

datatype session_input = SE_Event capture_event | SE_Pressed "linux set" | SE_Tuning client_tuning | SE_Ack

definition session_run_step :: "backend_answers \<Rightarrow> client_handle \<Rightarrow> session_input \<Rightarrow> capture_task \<Rightarrow> capture_task" where
  "session_run_step br h s cp =
     (case s of
        SE_Event e \<Rightarrow> snd (handle_capture_event br h e cp)
      | SE_Pressed ks \<Rightarrow> cp\<lparr>cp_capture := (cp_capture cp)\<lparr>ic_pressed_keys := ks\<rparr>\<rparr>
      | SE_Tuning t \<Rightarrow> cp_set_tuning h t cp
      | SE_Ack \<Rightarrow> snd (handle_peer_event br h (Ack 0) cp))"

definition session_inv :: "nat \<Rightarrow> client_handle \<Rightarrow> socket_addr \<Rightarrow> capture_task \<Rightarrow> bool" where
  "session_inv base h addr cp \<longleftrightarrow>
     connected h addr cp \<and> (\<exists>pos. lookup_capture h cp = Some (pos, CT_Default)) \<and>
     cp_active_client cp \<in> {None, Some h} \<and> base \<le> length (sent cp) \<and>
     held_rel (client_tuning_state h cp) (peer_down addr (drop base (sent cp))) \<and>
     (cp_active_client cp = None \<longrightarrow> ts_held (client_tuning_state h cp) = [])"

lemma session_invD:
  assumes "session_inv base h addr cp"
  shows "connected h addr cp" "cp_active_client cp \<in> {None, Some h}" "base \<le> length (sent cp)"
    "held_rel (client_tuning_state h cp) (peer_down addr (drop base (sent cp)))"
    "cp_active_client cp = None \<Longrightarrow> ts_held (client_tuning_state h cp) = []"
  using assms by (auto simp: session_inv_def)

lemma session_inv_frame:
  assumes "session_inv base h addr cp" "cp_conn cp' = cp_conn cp" "cp_captures cp' = cp_captures cp"
    "cp_active_client cp' = cp_active_client cp" "cp_tuning_state cp' = cp_tuning_state cp"
  shows "session_inv base h addr cp'"
  using assms by (simp add: session_inv_def connected_def lookup_capture_def client_tuning_state_def)

lemma session_release:
  assumes inv: "session_inv base h addr cp"
  shows "session_inv base h addr (snd (release_capture br cp)) \<and>
    modifiers_down (peer_down addr (drop base (sent (snd (release_capture br cp))))) = {}"
proof (cases "cp_active_client cp")
  case None
  let ?cp' = "snd (release_capture br cp)"
  have cp': "cp_conn ?cp' = cp_conn cp" "cp_captures ?cp' = cp_captures cp"
      "cp_active_client ?cp' = cp_active_client cp" "cp_tuning_state ?cp' = cp_tuning_state cp"
    by (simp_all add: release_capture_def None on_capture_def ic_release_def backend_def)
  have "modifiers_down (peer_down addr (drop base (sent cp))) = {}"
    using session_invD(4) [OF inv] session_invD(5) [OF inv None] by (simp add: held_rel_def hm_values_def)
  then show ?thesis using session_inv_frame [OF inv cp'] cp'(1) by simp
next
  case (Some h')
  then have h: "cp_active_client cp = Some h" using session_invD(2) [OF inv] by auto
  let ?st = "client_tuning_state h cp"
  let ?codes = "release_codes (active_modifiers h cp) (ic_pressed_keys (cp_capture cp)) ?st"
  let ?es = "leave_messages (active_modifiers h cp) (ic_pressed_keys (cp_capture cp)) ?st"
  from release_capture_sends [OF h session_invD(1) [OF inv], of br] obtain cp' where
    cp': "release_capture br cp = (br B_Release, cp')" "sent cp' = sent cp @ map (\<lambda>e. (addr, datagram e)) ?es"
    "cp_active_client cp' = None" "cp_tuning_state cp' = hm_remove h (cp_tuning_state cp)"
    "connected h addr cp'" "cp_captures cp' = cp_captures cp" by blast
  let ?down = "peer_down addr (drop base (sent cp))"
  have keys: "fold (\<lambda>(a, d). if a = addr then peer_apply d else id) (map (\<lambda>e. (addr, datagram e)) (map key_up ks)) D
      = D - set ks" for ks D
    by (induction ks arbitrary: D) (auto simp: peer_apply_datagram key_up_def)
  have "peer_down addr (drop base (sent cp')) = ?down - set ?codes"
    using session_invD(3) [OF inv] keys [of ?codes ?down]
    by (simp add: cp'(2) peer_down_append leave_messages_def peer_apply_datagram mods_zero_def)
  moreover have "modifiers_down ?down \<subseteq> set ?codes"
    using session_invD(4) [OF inv] set_release_codes [of ?st] by (auto simp: held_rel_def held_ok_def)
  ultimately have down: "modifiers_down (peer_down addr (drop base (sent cp'))) = {}"
    by (auto simp: modifiers_down_def)
  have "client_tuning_state h cp' = tuning_state_default" by (simp add: client_tuning_state_def cp'(4))
  then have "session_inv base h addr cp'"
    using inv cp' down held_rel_default
    by (auto simp: session_inv_def lookup_capture_def held_rel_def tuning_state_default_def hm_values_def)
  then show ?thesis using down cp'(1) by simp
qed

lemma forward_connected:
  assumes "connected h addr cp"
  shows "\<exists>co. forward br h msg cp = (Ok (), cp\<lparr>cp_conn := co\<rparr>) \<and> connected h addr (cp\<lparr>cp_conn := co\<rparr>) \<and>
    co_sent co = sent cp @ [(addr, datagram msg)]"
proof -
  from send_connected [OF assms, of msg] obtain co where
    co: "send msg h cp = (Ok (), cp\<lparr>cp_conn := co\<rparr>)" "connected h addr (cp\<lparr>cp_conn := co\<rparr>)"
      "co_sent co = sent cp @ [(addr, datagram msg)]" by blast
  have "forward br h msg cp = (Ok (), cp\<lparr>cp_conn := co\<rparr>)" unfolding forward_def co(1) by simp
  then show ?thesis using co(2,3) by blast
qed

lemma client_tuning_state_insert:
  "client_tuning_state h (cp\<lparr>cp_tuning_state := hm_insert h st m\<rparr>) = st"
  by (simp add: client_tuning_state_def)

lemma session_forward:
  assumes conn: "connected h addr cp" and wf: "proto_wf msg" and len: "base \<le> length (sent cp)"
  shows "\<exists>cp'. forward br h msg cp = (Ok (), cp') \<and> connected h addr cp' \<and> base \<le> length (sent cp') \<and>
    peer_down addr (drop base (sent cp')) =
      (case msg of Input ev \<Rightarrow> peer_step (Some ev) | _ \<Rightarrow> id) (peer_down addr (drop base (sent cp))) \<and>
    cp_captures cp' = cp_captures cp \<and> cp_active_client cp' = cp_active_client cp \<and>
    cp_tuning_state cp' = cp_tuning_state cp"
proof -
  from forward_connected [OF conn, of br msg] obtain co where
    co: "forward br h msg cp = (Ok (), cp\<lparr>cp_conn := co\<rparr>)" "connected h addr (cp\<lparr>cp_conn := co\<rparr>)"
      "co_sent co = sent cp @ [(addr, datagram msg)]" by blast
  then show ?thesis
    using len by (simp add: peer_down_append peer_apply_datagram [OF wf])
qed

lemma session_tuned:
  assumes inv: "session_inv base h addr cp" and act: "cp_active_client cp = Some h"
    and out: "outgoing h pos e cp = (out, cp1)"
  shows "session_inv base h addr (case out of None \<Rightarrow> cp1 | Some msg \<Rightarrow> snd (forward br h msg cp1))"
proof -
  note D = session_invD [OF inv]
  have conn1: "cp_conn cp1 = cp_conn cp" "cp_captures cp1 = cp_captures cp" "cp_active_client cp1 = Some h"
    using out act by (auto simp: outgoing_def tune_def Let_def split: capture_event.splits send_state.splits prod.splits)
  then have c: "connected h addr cp1" using D(1) by (simp add: connected_def)
  have wf: "proto_wf msg" if "out = Some msg" for msg
    using out that by (auto simp: outgoing_def tune_def Let_def split: capture_event.splits send_state.splits prod.splits)
  have rel: "held_rel (client_tuning_state h cp1)
      (case out of Some (Input ev) \<Rightarrow> peer_step (Some ev) (peer_down addr (drop base (sent cp)))
       | _ \<Rightarrow> peer_down addr (drop base (sent cp)))"
  proof (cases "\<exists>ev. e = CInput ev \<and> cp_state cp = Sending")
    case True
    then obtain ev where ev: "e = CInput ev" "cp_state cp = Sending" by blast
    let ?t = "unwrap_or (hm_get (cp_tuning cp) h) client_tuning_default"
    obtain o' st where te: "tune_event ?t ev (client_tuning_state h cp) = (o', st)" by fastforce
    have "out = map_option Input o'" "client_tuning_state h cp1 = st"
      using out te by (auto simp: outgoing_def ev tune_def client_tuning_state_def Let_def)
    moreover have "held_rel st (peer_step o' (peer_down addr (drop base (sent cp))))"
      by (rule tune_event_rel [OF D(4) te])
    ultimately show ?thesis by (cases o') simp_all
  next
    case False
    then have "cp1 = cp" "\<And>ev. out \<noteq> Some (Input ev)"
      using out by (auto simp: outgoing_def Let_def split: capture_event.splits send_state.splits)
    then show ?thesis using D(4) by (auto split: option.split proto_event.split)
  qed
  have lk: "\<exists>pos. lookup_capture h cp1 = Some (pos, CT_Default)"
    using inv conn1 by (simp add: session_inv_def lookup_capture_def)
  show ?thesis
  proof (cases out)
    case None
    then show ?thesis using c conn1 rel lk D(3) by (simp add: session_inv_def)
  next
    case (Some msg)
    have "base \<le> length (sent cp1)" using D(3) conn1 by simp
    from session_forward [OF c wf [OF Some] this, of br] obtain cp' where
      cp': "forward br h msg cp1 = (Ok (), cp')" "connected h addr cp'" "base \<le> length (sent cp')"
      "peer_down addr (drop base (sent cp')) =
        (case msg of Input ev \<Rightarrow> peer_step (Some ev) | _ \<Rightarrow> id) (peer_down addr (drop base (sent cp1)))"
      "cp_captures cp' = cp_captures cp1" "cp_active_client cp' = cp_active_client cp1"
      "cp_tuning_state cp' = cp_tuning_state cp1" by blast
    have "client_tuning_state h cp' = client_tuning_state h cp1" "lookup_capture h cp' = lookup_capture h cp1"
      by (simp_all add: client_tuning_state_def lookup_capture_def cp'(5,7))
    moreover have "held_rel (client_tuning_state h cp1) (peer_down addr (drop base (sent cp')))"
      using rel Some conn1(1) cp'(4) by (cases msg) simp_all
    ultimately show ?thesis using cp' conn1 lk Some by (simp add: session_inv_def)
  qed
qed

lemma session_event:
  assumes inv: "session_inv base h addr cp"
  shows "session_inv base h addr (snd (handle_capture_event br h e cp))"
proof (cases "keys_pressed (cp_release_bind cp) (cp_capture cp)")
  case True
  then show ?thesis using session_release [OF inv] by (simp add: handle_capture_event_def)
next
  case False
  obtain pos where pos: "lookup_capture h cp = Some (pos, CT_Default)" using inv by (auto simp: session_inv_def)
  define cp1 where "cp1 = report_drop h e (activate h e (if e = Begin then emit (CaptureBegin h) cp else cp))"
  have f: "cp_conn cp1 = cp_conn cp" "cp_captures cp1 = cp_captures cp"
    "cp_active_client cp1 = (if e = Begin then Some h else cp_active_client cp)"
    "cp_tuning_state cp1 = (if e = Begin \<and> cp_active_client cp \<noteq> Some h
       then hm_modify h tuning_reset (cp_tuning_state cp) else cp_tuning_state cp)"
    by (auto simp: cp1_def report_drop_def activate_def emit_def)
  have held: "ts_held (client_tuning_state h cp1) = ts_held (client_tuning_state h cp)"
    using session_invD(2,5) [OF inv]
    by (cases "hm_get (cp_tuning_state cp) h")
      (auto simp: client_tuning_state_def f tuning_reset_def tuning_state_default_def)
  then have inv1: "session_inv base h addr cp1"
    using inv by (auto simp: session_inv_def f held_rel_def held_ok_def connected_def lookup_capture_def)
  have step: "handle_capture_event br h e cp =
      (if cp_active_client cp1 = None \<and> is_input e then (Ok (), cp1)
       else case outgoing h pos e cp1 of (None, cp) \<Rightarrow> (Ok (), cp) | (Some msg, cp) \<Rightarrow> forward br h msg cp)"
    using False pos by (simp add: handle_capture_event_def cp1_def Let_def)
  show ?thesis
  proof (cases "cp_active_client cp1")
    case None
    then have "is_input e" using f(3) by (cases e) (auto simp: is_input_def)
    then show ?thesis using None inv1 by (simp add: step)
  next
    case (Some h')
    then have act: "cp_active_client cp1 = Some h" using session_invD(2) [OF inv1] by auto
    obtain out cp2 where out: "outgoing h pos e cp1 = (out, cp2)" by fastforce
    show ?thesis using session_tuned [OF inv1 act out, of br] act by (cases out) (simp_all add: step out)
  qed
qed

lemma session_run_step_inv:
  assumes inv: "session_inv base h addr cp"
  shows "session_inv base h addr (session_run_step br h s cp)"
proof (cases s)
  case (SE_Event e)
  then show ?thesis using session_event [OF inv] by (simp add: session_run_step_def)
next
  case (SE_Pressed ks)
  then show ?thesis using inv by (auto simp: session_run_step_def intro: session_inv_frame)
next
  case (SE_Tuning t)
  then show ?thesis using inv by (auto simp: session_run_step_def cp_set_tuning_def intro: session_inv_frame)
next
  case SE_Ack
  then show ?thesis using inv by (auto simp: session_run_step_def handle_peer_event_def intro: session_inv_frame)
qed

lemma session_run_inv:
  "session_inv base h addr cp \<Longrightarrow> session_inv base h addr (fold (session_run_step br h) steps cp)"
  by (induction steps arbitrary: cp) (auto intro: session_run_step_inv)

text \<open>
  \<^bold>\<open>C1.\<close> No modifier sticks at the peer. Over a session with one client on a working
  connection, with captured events, entries at the edge, acknowledgements and changes of its speed and
  modifier map in any order, the modifier keys the datagrams leave down at the peer are exactly
  those recorded for it, and once the pointer is handed back none is down, whatever the
  capture had recorded as pressed.
\<close>

theorem session_no_stuck_modifiers:
  assumes "connected h addr cp" and "lookup_capture h cp = Some (pos, CT_Default)"
    and "cp_active_client cp = Some h" and "hm_get (cp_tuning_state cp) h = None"
    and "cp' = fold (session_run_step br h) steps cp"
  shows "modifiers_down (peer_down addr (drop (length (sent cp)) (sent cp')))
      = set (hm_values (ts_held (client_tuning_state h cp'))) \<and>
    modifiers_down (peer_down addr (drop (length (sent cp)) (sent (snd (release_capture br cp'))))) = {}"
proof -
  have "session_inv (length (sent cp)) h addr cp"
    using assms(1-4) held_rel_default by (auto simp: session_inv_def client_tuning_state_def peer_down_def)
  then have "session_inv (length (sent cp)) h addr (fold (session_run_step br h) steps cp)"
    by (rule session_run_inv)
  then show ?thesis
    using session_release [of "length (sent cp)" h addr cp' br]
      session_invD(4) [of "length (sent cp)" h addr cp'] assms(5) by (auto simp: held_rel_def)
qed

lemma session_no_stuck_modifiers_witness:
  "modifiers_down (peer_down example_addr (sent (snd (release_capture (\<lambda>_. Ok ())
     (fold (session_run_step (\<lambda>_. Ok ()) 1)
       [SE_Ack, SE_Event (CInput (Keyboard (Key 0 29 1))), SE_Tuning client_tuning_default] example_task))))) = {}"
proof -
  have "lookup_capture 1 example_task = Some (C_Left, CT_Default)" "cp_active_client example_task = Some 1"
    "hm_get (cp_tuning_state example_task) 1 = None"
    by (simp_all add: lookup_capture_def example_task_def capture_task_new_def)
  from session_no_stuck_modifiers [OF example_connected this refl] show ?thesis
    by (simp only: example_task_fields list.size drop_0)
qed

section \<open>Who gets input, and when\<close>

text \<open>the capture event a turn of the loop reads, if any\<close>

definition polled :: "task_input \<Rightarrow> capture_task \<Rightarrow> capture_event option" where
  "polled i cp =
     (case i of
        I_Capture items \<Rightarrow> (case fst (poll_next items (cp_capture cp)) of ReadyOk h e \<Rightarrow> Some e | _ \<Rightarrow> None)
      | _ \<Rightarrow> None)"

lemma on_capture_frame [simp]:
  "cp_conn (snd (on_capture f cp)) = cp_conn cp" "cp_active_client (snd (on_capture f cp)) = cp_active_client cp"
  "cp_state (snd (on_capture f cp)) = cp_state cp" "cp_drag_pending (snd (on_capture f cp)) = cp_drag_pending cp"
  "cp_events (snd (on_capture f cp)) = cp_events cp" "cp_mode (snd (on_capture f cp)) = cp_mode cp"
  by (simp_all add: on_capture_def split: prod.split)

lemma emit_frame [simp]:
  "cp_conn (emit e cp) = cp_conn cp" "cp_active_client (emit e cp) = cp_active_client cp"
  "cp_state (emit e cp) = cp_state cp" "cp_drag_pending (emit e cp) = cp_drag_pending cp"
  "cp_capture (emit e cp) = cp_capture cp" "cp_captures (emit e cp) = cp_captures cp"
  "cp_events (emit e cp) = cp_events cp @ [e]" "cp_mode (emit e cp) = cp_mode cp"
  "cp_release_bind (emit e cp) = cp_release_bind cp"
  by (simp_all add: emit_def)

text \<open>the datagrams a step adds\<close>

definition sends_only :: "(u8 list \<Rightarrow> bool) \<Rightarrow> capture_task \<Rightarrow> capture_task \<Rightarrow> bool" where
  "sends_only P cp cp' \<longleftrightarrow> (\<exists>ds. sent cp' = sent cp @ ds \<and> (\<forall>(a, d) \<in> set ds. P d))"

lemma sends_only_refl: "cp_conn cp' = cp_conn cp \<Longrightarrow> sends_only P cp cp'"
  by (auto simp: sends_only_def)

lemma sends_only_trans: "sends_only P a b \<Longrightarrow> sends_only P b c \<Longrightarrow> sends_only P a c"
  by (fastforce simp: sends_only_def)

lemma sends_only_cong: "cp_conn a = cp_conn a' \<Longrightarrow> cp_conn b = cp_conn b' \<Longrightarrow> sends_only P a b = sends_only P a' b'"
  by (simp add: sends_only_def)

lemma dtls_send_sent: "\<exists>ds. co_sent (snd (dtls_send a d co)) = co_sent co @ ds \<and> set ds \<subseteq> {(a, d)}"
  by (cases "co_dtls co") (auto simp: dtls_send_def)

lemma conn_send_sent: "\<exists>ds. co_sent (snd (conn_send e h co)) = co_sent co @ ds \<and> (\<forall>(a, d) \<in> set ds. d = datagram e)"
proof -
  have "co_sent (snd (conn_send e h co)) = co_sent co \<or>
      (\<exists>a. co_sent (snd (conn_send e h co)) = co_sent (snd (dtls_send a (datagram e) co)))"
    by (simp add: conn_send_def disconnect_def Let_def split: option.split prod.split) (metis snd_conv)
  then show ?thesis
  proof
    assume "\<exists>a. co_sent (snd (conn_send e h co)) = co_sent (snd (dtls_send a (datagram e) co))"
    then obtain a where a: "co_sent (snd (conn_send e h co)) = co_sent (snd (dtls_send a (datagram e) co))" ..
    obtain ds where "co_sent (snd (dtls_send a (datagram e) co)) = co_sent co @ ds" "set ds \<subseteq> {(a, datagram e)}"
      using dtls_send_sent by blast
    then show ?thesis by (intro exI [of _ ds]) (auto simp: a)
  qed auto
qed

lemma send_sends: "P (datagram e) \<Longrightarrow> sends_only P cp (snd (send e h cp))"
  using conn_send_sent [of e h "cp_conn cp"]
  by (fastforce simp: sends_only_def send_def split: prod.splits)

lemma send_frame [simp]:
  "cp_active_client (snd (send e h cp)) = cp_active_client cp" "cp_state (snd (send e h cp)) = cp_state cp"
  "cp_events (snd (send e h cp)) = cp_events cp" "cp_drag_pending (snd (send e h cp)) = cp_drag_pending cp"
  "cp_mode (snd (send e h cp)) = cp_mode cp"
  by (simp_all add: send_def split: prod.split)

lemma send_all_frame [simp]:
  "cp_active_client (send_all es h cp) = cp_active_client cp" "cp_state (send_all es h cp) = cp_state cp"
  "cp_events (send_all es h cp) = cp_events cp" "cp_drag_pending (send_all es h cp) = cp_drag_pending cp"
  unfolding send_all_def by (induction es arbitrary: cp) simp_all

lemma send_all_sends: "(\<And>e. e \<in> set es \<Longrightarrow> P (datagram e)) \<Longrightarrow> sends_only P cp (send_all es h cp)"
proof (induction es arbitrary: cp)
  case Nil
  then show ?case by (simp add: send_all_def sends_only_refl)
next
  case (Cons e es)
  then have "sends_only P cp (snd (send e h cp))" "sends_only P (snd (send e h cp)) (send_all es h (snd (send e h cp)))"
    by (auto intro: send_sends)
  then show ?case by (auto simp: send_all_def intro: sends_only_trans)
qed

text \<open>what is not a captured event: entering, the messages of a release\<close>

definition control_datagram :: "u8 list \<Rightarrow> bool" where
  "control_datagram d \<longleftrightarrow>
     (\<exists>p. d = datagram (Enter p)) \<or> (\<exists>k. d = datagram (key_up k)) \<or> d = datagram mods_zero \<or> (\<exists>s. d = datagram (Leave s))"

lemma release_capture_frame:
  "cp_active_client (snd (release_capture br cp)) = None"
  "cp_state (snd (release_capture br cp)) = cp_state cp"
  "sends_only control_datagram cp (snd (release_capture br cp))"
proof -
  have sends: "sends_only control_datagram cp' (send_all (leave_messages m ks st) h cp')" for m ks st h cp'
    by (rule send_all_sends) (auto simp: leave_messages_def control_datagram_def)
  show "cp_active_client (snd (release_capture br cp)) = None" "cp_state (snd (release_capture br cp)) = cp_state cp"
    by (cases "cp_active_client cp"; simp add: release_capture_None release_capture_Some)+
  show "sends_only control_datagram cp (snd (release_capture br cp))"
  proof (cases "cp_active_client cp")
    case None
    then show ?thesis by (simp add: release_capture_None sends_only_refl)
  next
    case (Some h)
    have "sends_only control_datagram cp (leaving h cp)" by (simp add: sends_only_refl)
    from sends_only_trans [OF this sends] show ?thesis
      unfolding release_capture_Some [OF Some] by (simp add: sends_only_def)
  qed
qed

lemma forward_frame:
  "cp_active_client (snd (forward br h msg cp)) = cp_active_client cp"
  "cp_state (snd (forward br h msg cp)) = cp_state cp"
  "P (datagram msg) \<Longrightarrow> sends_only P cp (snd (forward br h msg cp))"
proof -
  have conn: "cp_conn (snd (forward br h msg cp)) = cp_conn (snd (send msg h cp))"
    by (simp add: forward_def Let_def split: prod.split)
  obtain r cp' where s: "send msg h cp = (r, cp')" by fastforce
  then have "cp_active_client cp' = cp_active_client cp" "cp_state cp' = cp_state cp"
    using send_frame(1,2) [of msg h cp] by simp_all
  then show "cp_active_client (snd (forward br h msg cp)) = cp_active_client cp"
    "cp_state (snd (forward br h msg cp)) = cp_state cp"
    by (simp_all add: forward_def Let_def s)
  show "P (datagram msg) \<Longrightarrow> sends_only P cp (snd (forward br h msg cp))"
    using send_sends [of P msg cp h] conn by (simp add: sends_only_def)
qed

lemma outgoing_waiting:
  "cp_state cp = WaitingForAck \<or> e = Begin \<Longrightarrow>
   outgoing h pos e cp = (Some (Enter (to_proto_pos (capture_opposite pos))), cp)"
  by (auto simp: outgoing_def Let_def split: capture_event.split)

lemma report_activate_frame:
  "cp_conn (report_drop h e (activate h e cp)) = cp_conn cp"
  "cp_state cp = WaitingForAck \<Longrightarrow> cp_state (report_drop h e (activate h e cp)) = WaitingForAck"
  "e \<noteq> Begin \<Longrightarrow> cp_active_client (report_drop h e (activate h e cp)) = cp_active_client cp"
  by (auto simp: report_drop_def activate_def emit_def)

text \<open>the branches of \<open>handle_capture_event\<close>\<close>

definition entered :: "client_handle \<Rightarrow> capture_event \<Rightarrow> capture_task \<Rightarrow> capture_task" where
  "entered h e cp = (if e = Begin then emit (CaptureBegin h) cp else cp)"

lemma entered_frame [simp]:
  "cp_conn (entered h e cp) = cp_conn cp" "cp_active_client (entered h e cp) = cp_active_client cp"
  "cp_state (entered h e cp) = cp_state cp" "cp_drag_pending (entered h e cp) = cp_drag_pending cp"
  by (simp_all add: entered_def)

lemma handle_bind:
  "keys_pressed (cp_release_bind cp) (cp_capture cp) \<Longrightarrow> handle_capture_event br h e cp = release_capture br cp"
  by (simp add: handle_capture_event_def)

lemma handle_removed:
  "\<not> keys_pressed (cp_release_bind cp) (cp_capture cp) \<Longrightarrow> lookup_capture h cp = None \<Longrightarrow>
   handle_capture_event br h e cp =
     (if e = Begin \<and> cp_active_client cp = None then on_capture (ic_release (br B_Release)) cp else (Ok (), cp))"
  by (simp add: handle_capture_event_def)

lemma handle_enter_only:
  "\<not> keys_pressed (cp_release_bind cp) (cp_capture cp) \<Longrightarrow> lookup_capture h cp = Some (pos, CT_EnterOnly) \<Longrightarrow>
   handle_capture_event br h e cp =
     (if \<not> is_default_capture_at pos (entered h e cp)
      then on_capture (ic_release (br B_Release)) (entered h e cp) else (Ok (), entered h e cp))"
  by (simp add: handle_capture_event_def entered_def Let_def)

lemma handle_default:
  "\<not> keys_pressed (cp_release_bind cp) (cp_capture cp) \<Longrightarrow> lookup_capture h cp = Some (pos, CT_Default) \<Longrightarrow>
   cp1 = report_drop h e (activate h e (entered h e cp)) \<Longrightarrow>
   handle_capture_event br h e cp =
     (if cp_active_client cp1 = None \<and> is_input e then (Ok (), cp1)
      else case outgoing h pos e cp1 of (None, cp) \<Rightarrow> (Ok (), cp) | (Some msg, cp) \<Rightarrow> forward br h msg cp)"
  by (simp add: handle_capture_event_def entered_def Let_def)

lemma handle_cases:
  obtains "keys_pressed (cp_release_bind cp) (cp_capture cp)"
  | "\<not> keys_pressed (cp_release_bind cp) (cp_capture cp)" "lookup_capture h cp = None"
  | pos where "\<not> keys_pressed (cp_release_bind cp) (cp_capture cp)" "lookup_capture h cp = Some (pos, CT_EnterOnly)"
  | pos where "\<not> keys_pressed (cp_release_bind cp) (cp_capture cp)" "lookup_capture h cp = Some (pos, CT_Default)"
proof (cases "lookup_capture h cp")
  case (Some pt)
  then show ?thesis using that by (cases pt; cases "snd pt") auto
qed (use that in blast)

lemma handle_waiting:
  assumes "cp_state cp = WaitingForAck"
  shows "cp_state (snd (handle_capture_event br h e cp)) = WaitingForAck \<and>
    sends_only control_datagram cp (snd (handle_capture_event br h e cp))"
proof (cases rule: handle_cases [where cp = cp and h = h])
  case 1
  then show ?thesis using release_capture_frame(2,3) [where br = br and cp = cp] assms by (simp add: handle_bind)
next
  case 2
  then show ?thesis using assms by (simp add: handle_removed sends_only_refl)
next
  case (3 pos)
  then show ?thesis using assms by (simp add: handle_enter_only sends_only_refl)
next
  case (4 pos)
  define cp1 where "cp1 = report_drop h e (activate h e (entered h e cp))"
  have cp1: "cp_conn cp1 = cp_conn cp" "cp_state cp1 = WaitingForAck"
    using report_activate_frame(1,2) [where h = h and e = e and cp = "entered h e cp"] assms by (simp_all add: cp1_def)
  let ?msg = "Enter (to_proto_pos (capture_opposite pos))"
  have "control_datagram (datagram ?msg)" by (auto simp: control_datagram_def)
  then have "sends_only control_datagram cp1 (snd (forward br h ?msg cp1))" by (rule forward_frame(3))
  then have fwd: "sends_only control_datagram cp (snd (forward br h ?msg cp1))"
    using cp1(1) by (simp add: sends_only_def)
  have "handle_capture_event br h e cp =
      (if cp_active_client cp1 = None \<and> is_input e then (Ok (), cp1) else forward br h ?msg cp1)"
    using handle_default [OF 4 cp1_def] by (simp add: outgoing_waiting cp1(2))
  then show ?thesis
    using fwd cp1 forward_frame(2) [where br = br and h = h and cp = cp1 and msg = ?msg]
    by (simp add: sends_only_refl)
qed

lemma handle_idle:
  assumes "cp_active_client cp = None" and "e \<noteq> Begin"
  shows "cp_active_client (snd (handle_capture_event br h e cp)) = None \<and>
    cp_conn (snd (handle_capture_event br h e cp)) = cp_conn cp"
proof -
  have inp: "is_input e" using assms(2) by (cases e) (auto simp: is_input_def)
  define cp1 where "cp1 = report_drop h e (activate h e (entered h e cp))"
  have cp1: "cp_active_client cp1 = None" "cp_conn cp1 = cp_conn cp"
    using report_activate_frame(1,3) [where h = h and e = e and cp = "entered h e cp"] assms by (simp_all add: cp1_def)
  show ?thesis
    by (cases rule: handle_cases [where cp = cp and h = h])
      (simp_all add: handle_bind handle_removed handle_enter_only handle_default [OF _ _ cp1_def] release_capture_None
        cp1 inp assms)
qed

lemma end_capture_frame [simp]:
  "cp_conn (end_capture br cp) = cp_conn cp" "cp_active_client (end_capture br cp) = cp_active_client cp"
  "cp_state (end_capture br cp) = cp_state cp"
  by (simp_all add: end_capture_def emit_def)

lemma create_captures_frame:
  "cp_conn (snd (create_captures br cp)) = cp_conn cp \<and>
   cp_active_client (snd (create_captures br cp)) = cp_active_client cp \<and>
   cp_state (snd (create_captures br cp)) = cp_state cp"
proof -
  define f where "f = (\<lambda>(h, pos, _ :: capture_type) rc. and_then rc (on_capture (ic_create (br (B_Create pos)) h pos)))"
  have one: "cp_conn (snd (and_then rc (on_capture g))) = cp_conn (snd rc)"
    "cp_active_client (snd (and_then rc (on_capture g))) = cp_active_client (snd rc)"
    "cp_state (snd (and_then rc (on_capture g))) = cp_state (snd rc)" for rc g
    by (simp_all add: and_then_def split: prod.split)
  have "cp_conn (snd (fold f cs rc)) = cp_conn (snd rc) \<and>
    cp_active_client (snd (fold f cs rc)) = cp_active_client (snd rc) \<and> cp_state (snd (fold f cs rc)) = cp_state (snd rc)"
    for cs rc
    by (induction cs arbitrary: rc) (simp_all add: f_def one split_beta)
  from this [of "cp_captures cp" "(Ok (), cp)"] show ?thesis by (simp add: create_captures_def f_def)
qed

lemma or_end_frame [simp]:
  "cp_conn (or_end br rc) = cp_conn (snd rc)" "cp_active_client (or_end br rc) = cp_active_client (snd rc)"
  "cp_state (or_end br rc) = cp_state (snd rc)"
  by (simp_all add: or_end_def split_beta)

lemma start_capture_frame [simp]:
  "cp_conn (start_capture created br cp) = cp_conn cp"
  "cp_active_client (start_capture created br cp) = cp_active_client cp"
  "cp_state (start_capture created br cp) = cp_state cp"
proof -
  define cp0 where "cp0 = emit CaptureEnabled (cp\<lparr>cp_capture := input_capture_new\<rparr>)"
  have cp0: "cp_conn cp0 = cp_conn cp" "cp_active_client cp0 = cp_active_client cp" "cp_state cp0 = cp_state cp"
    by (simp_all add: cp0_def)
  have "start_capture created br cp = (if \<not> created then cp\<lparr>cp_mode := Stopped\<rparr>
      else if is_ok (fst (create_captures br cp0)) then (snd (create_captures br cp0))\<lparr>cp_mode := Running\<rparr>
      else end_capture br (snd (create_captures br cp0)))"
    by (simp add: start_capture_def cp0_def split_beta)
  then show "cp_conn (start_capture created br cp) = cp_conn cp"
    "cp_active_client (start_capture created br cp) = cp_active_client cp"
    "cp_state (start_capture created br cp) = cp_state cp"
    using create_captures_frame [of br cp0] cp0 by simp_all
qed

lemma remove_capture_frame [simp]:
  "cp_conn (remove_capture h cp) = cp_conn cp" "cp_state (remove_capture h cp) = cp_state cp"
  "cp_active_client cp = None \<Longrightarrow> cp_active_client (remove_capture h cp) = None"
  by (simp_all add: remove_capture_def Let_def)

lemma bookkeeping_frame [simp]:
  "cp_conn (add_capture h p t cp) = cp_conn cp" "cp_state (add_capture h p t cp) = cp_state cp"
  "cp_active_client (add_capture h p t cp) = cp_active_client cp"
  "cp_conn (cp_set_tuning h u cp) = cp_conn cp" "cp_state (cp_set_tuning h u cp) = cp_state cp"
  "cp_active_client (cp_set_tuning h u cp) = cp_active_client cp"
  by (simp_all add: add_capture_def cp_set_tuning_def)

lemma stopped_frame:
  "handle_request_stopped r cp = (b, cp') \<Longrightarrow>
   cp_conn cp' = cp_conn cp \<and> cp_state cp' = cp_state cp \<and>
   (cp_active_client cp = None \<longrightarrow> cp_active_client cp' = None)"
  by (auto simp: handle_request_stopped_def split: capture_request.splits)

lemma request_idle:
  "cp_active_client cp = None \<Longrightarrow>
   cp_conn (snd (handle_request br r cp)) = cp_conn cp \<and> cp_active_client (snd (handle_request br r cp)) = None"
  by (cases r) (simp_all add: handle_request_def release_capture_None and_then_def Let_def)

lemma peer_idle:
  "cp_active_client cp = None \<Longrightarrow>
   cp_conn (snd (handle_peer_event br h e cp)) = cp_conn cp \<and> cp_active_client (snd (handle_peer_event br h e cp)) = None"
  by (cases e) (simp_all add: handle_peer_event_def release_capture_None)

text \<open>a turn that reads a capture event\<close>

lemma session_step_capture:
  obtains h e ic where "session_step br (I_Capture items) cp = or_end br (handle_capture_event br h e (cp\<lparr>cp_capture := ic\<rparr>))"
      "polled (I_Capture items) cp = Some e"
  | ic where "session_step br (I_Capture items) cp = cp\<lparr>cp_capture := ic\<rparr>
      \<or> session_step br (I_Capture items) cp = end_capture br (cp\<lparr>cp_capture := ic\<rparr>)"
proof -
  obtain p items' ic where p: "poll_next items (cp_capture cp) = (p, items', ic)" by (metis surj_pair)
  show ?thesis using that p by (cases p) (auto simp: session_step_def polled_def)
qed

lemma session_step_idle:
  assumes none: "cp_active_client cp = None" and "polled i cp \<noteq> Some Begin"
  shows "cp_conn (session_step br i cp) = cp_conn cp \<and> cp_active_client (session_step br i cp) = None"
proof (cases i)
  case (I_Capture items)
  show ?thesis
  proof (cases rule: session_step_capture [where br = br and items = items and cp = cp])
    case (1 h e ic)
    then have "e \<noteq> Begin" using assms(2) I_Capture by simp
    with handle_idle [of "cp\<lparr>cp_capture := ic\<rparr>" e br h] show ?thesis using none by (simp add: 1(1) I_Capture)
  next
    case (2 ic)
    then show ?thesis using none by (auto simp: I_Capture)
  qed
qed (use none request_idle peer_idle in \<open>simp_all add: session_step_def\<close>)

text \<open>
  \<^bold>\<open>C31.\<close> No input leaves this machine unless a client was entered. While no client is active, no turn of the
  task, whatever it reads except an entry at an edge (captured keys and motion still
  in flight after a release, peers' messages, requests, errors of the backend, restarts),
  puts anything on the wire or makes a client active.
\<close>

theorem nothing_sent_while_idle:
  assumes "cp_active_client cp = None" and "polled i cp \<noteq> Some Begin"
  shows "sent (task_step (created, br, i) cp) = sent cp \<and> cp_active_client (task_step (created, br, i) cp) = None"
proof (cases "cp_mode cp")
  case Running
  then show ?thesis using session_step_idle [OF assms] by simp
next
  case Stopped
  show ?thesis
  proof (cases i)
    case (I_Request r)
    obtain b cp' where r: "handle_request_stopped r cp = (b, cp')" by fastforce
    then show ?thesis using stopped_frame [OF r] assms(1) Stopped by (cases b) (simp_all add: I_Request)
  qed (use assms(1) Stopped in simp_all)
qed (use assms in simp)

lemma nothing_sent_while_idle_witness:
  "sent (task_step (True, \<lambda>_. Ok (), I_Peer 1 (Leave 0)) (example_task\<lparr>cp_active_client := None\<rparr>)) = []"
  using nothing_sent_while_idle [of "example_task\<lparr>cp_active_client := None\<rparr>" "I_Peer 1 (Leave 0)" True "\<lambda>_. Ok ()"]
  by (simp add: polled_def example_task_fields)

lemma request_state:
  "cp_state (snd (handle_request br r cp)) = cp_state cp \<and> sends_only control_datagram cp (snd (handle_request br r cp))"
proof (cases r)
  case (DestroyCapture h)
  have "sends_only control_datagram cp cp" by (rule sends_only_refl) simp
  then show ?thesis
    using release_capture_frame(2,3) [where br = br and cp = cp]
    by (simp add: DestroyCapture handle_request_def and_then_def Let_def split_beta sends_only_def)
qed (simp_all add: handle_request_def release_capture_frame sends_only_refl)

text \<open>
  \<^bold>\<open>C32.\<close> Nothing captured is forwarded before the peer has acknowledged. While the task waits for the
  acknowledgement, every turn sends only \<open>Enter\<close> or the messages of a release, never a key,
  a button or motion of the user, and keeps waiting unless the turn is an \<open>Ack\<close>.
\<close>

theorem forwards_only_after_ack:
  assumes "cp_state cp = WaitingForAck"
  shows "sends_only control_datagram cp (task_step (created, br, i) cp) \<and>
    ((\<exists>h s. i = I_Peer h (Ack s) \<and> cp_active_client cp \<in> {None, Some h}) \<or>
     cp_state (task_step (created, br, i) cp) = WaitingForAck)"
proof (cases "cp_mode cp")
  case Running
  show ?thesis
  proof (cases i)
    case (I_Capture items)
    show ?thesis
    proof (cases rule: session_step_capture [where br = br and items = items and cp = cp])
      case (1 h e ic)
      with handle_waiting [of "cp\<lparr>cp_capture := ic\<rparr>" br h e] show ?thesis
        using assms Running by (simp add: I_Capture sends_only_def)
    next
      case (2 ic)
      then show ?thesis using assms Running by (auto simp: I_Capture sends_only_refl)
    qed
  next
    case (I_Peer h e)
    then show ?thesis
      using assms Running release_capture_frame(2,3) [where br = br and cp = cp]
      by (cases e; cases "cp_active_client cp")
        (auto simp: session_step_def handle_peer_event_def sends_only_def)
  next
    case (I_Request r)
    then show ?thesis using assms Running request_state [of br r cp] by (simp add: session_step_def sends_only_def)
  next
    case I_Cancel
    then show ?thesis using assms Running by (simp add: session_step_def sends_only_refl)
  qed
next
  case Stopped
  show ?thesis
  proof (cases i)
    case (I_Request r)
    obtain b cp' where r: "handle_request_stopped r cp = (b, cp')" by fastforce
    then show ?thesis
      using stopped_frame [OF r] assms Stopped by (cases b) (simp_all add: I_Request sends_only_refl)
  qed (use assms Stopped in \<open>simp_all add: sends_only_refl\<close>)
qed (use assms in \<open>simp add: sends_only_refl\<close>)

lemma forwards_only_after_ack_witness:
  "sends_only control_datagram example_task (task_step (True, \<lambda>_. Ok (), I_Request Release) example_task)"
  using forwards_only_after_ack [of example_task True "\<lambda>_. Ok ()" "I_Request Release"]
  by (simp add: example_task_def capture_task_new_def)

section \<open>File drags\<close>

fun is_drag_end :: "icapture_event \<Rightarrow> bool" where
  "is_drag_end (DragReleased _) = True"
| "is_drag_end (DragCancelled _) = True"
| "is_drag_end _ = False"

text \<open>drags reported as over, and the one that still can be\<close>

definition drags :: "capture_task \<Rightarrow> nat" where
  "drags cp = length (filter is_drag_end (cp_events cp)) + (if cp_drag_pending cp then 1 else 0)"

lemma drags_cong: "cp_events cp' = cp_events cp \<Longrightarrow> cp_drag_pending cp' = cp_drag_pending cp \<Longrightarrow> drags cp' = drags cp"
  by (simp add: drags_def)

lemma drags_emit [simp]: "\<not> is_drag_end e \<Longrightarrow> drags (emit e cp) = drags cp"
  by (simp add: drags_def)

lemma drags_update [simp]:
  "drags (cp\<lparr>cp_capture := x1\<rparr>) = drags cp" "drags (cp\<lparr>cp_active_client := x2\<rparr>) = drags cp"
  "drags (cp\<lparr>cp_tuning_state := x3\<rparr>) = drags cp" "drags (cp\<lparr>cp_state := x4\<rparr>) = drags cp"
  "drags (cp\<lparr>cp_mode := x5\<rparr>) = drags cp" "drags (cp\<lparr>cp_release_bind := x6\<rparr>) = drags cp"
  "drags (cp\<lparr>cp_captures := x7\<rparr>) = drags cp" "drags (cp\<lparr>cp_tuning := x8\<rparr>) = drags cp"
  by (simp_all add: drags_def)

lemma drags_cancel [simp]: "drags (cancel_drag h cp) = drags cp"
  by (simp add: drags_def cancel_drag_def)

lemma drags_on_capture [simp]: "drags (snd (on_capture f cp)) = drags cp"
  by (simp add: drags_def)

lemma drags_send_all [simp]: "drags (send_all es h cp) = drags cp"
  by (simp add: drags_def)

lemma drags_release [simp]: "drags (snd (release_capture br cp)) = drags cp"
  by (cases "cp_active_client cp") (simp_all add: release_capture_None release_capture_Some leaving_def)

lemma drags_forward [simp]: "drags (snd (forward br h msg cp)) = drags cp"
proof -
  have "drags (snd (send msg h cp)) = drags cp" by (simp add: drags_def)
  then show ?thesis by (simp add: forward_def split_beta Let_def)
qed

lemma drags_report_activate [simp]: "drags (report_drop h e (activate h e cp)) = drags cp"
  by (auto simp: drags_def report_drop_def activate_def emit_def)

lemma drags_outgoing: "outgoing h pos e cp = (out, cp') \<Longrightarrow> drags cp' = drags cp"
  by (auto simp: outgoing_def tune_def Let_def split: capture_event.splits send_state.splits prod.splits)

lemma drags_handle [simp]: "drags (snd (handle_capture_event br h e cp)) = drags cp"
proof (cases rule: handle_cases [where cp = cp and h = h])
  case (4 pos)
  define cp1 where "cp1 = report_drop h e (activate h e (entered h e cp))"
  have cp1: "drags cp1 = drags cp" by (simp add: cp1_def entered_def)
  obtain out cp2 where out: "outgoing h pos e cp1 = (out, cp2)" by fastforce
  then show ?thesis
    using drags_outgoing [OF out] cp1 by (cases out) (simp_all add: handle_default [OF 4 cp1_def])
qed (simp_all add: handle_bind handle_removed handle_enter_only entered_def)

lemma drags_peer [simp]: "drags (snd (handle_peer_event br h e cp)) = drags cp"
  by (cases e) (simp_all add: handle_peer_event_def)

lemma drags_remove: "drags (remove_capture h cp) \<le> drags cp"
  by (simp add: remove_capture_def Let_def) (simp add: drags_def)

lemma drags_end [simp]: "drags (end_capture br cp) = drags cp"
  by (simp add: end_capture_def)

lemma drags_or_end [simp]: "drags (or_end br rc) = drags (snd rc)"
  by (simp add: or_end_def split_beta)

lemma drags_create_captures [simp]: "drags (snd (create_captures br cp)) = drags cp"
proof -
  define f where "f = (\<lambda>(h, pos, _ :: capture_type) rc. and_then rc (on_capture (ic_create (br (B_Create pos)) h pos)))"
  have "drags (snd (fold f cs rc)) = drags (snd rc)" for cs rc
    by (induction cs arbitrary: rc) (simp_all add: f_def and_then_def split_beta)
  from this [of "cp_captures cp" "(Ok (), cp)"] show ?thesis by (simp add: create_captures_def f_def)
qed

lemma drags_start [simp]: "drags (start_capture created br cp) = drags cp"
  by (simp add: start_capture_def split_beta)

definition arms :: "task_input \<Rightarrow> nat" where
  "arms i = (if i = I_Request (SetDragPending True) then 1 else 0)"

lemma drags_request: "drags (snd (handle_request br r cp)) \<le> drags cp + arms (I_Request r)"
proof (cases r)
  case (DestroyCapture h)
  have "drags (remove_capture h cp') \<le> drags cp" if "drags cp' = drags cp" for cp'
    using drags_remove [of h cp'] that by simp
  then show ?thesis by (simp add: DestroyCapture handle_request_def and_then_def split_beta Let_def arms_def)
next
  case (SetDragPending p)
  then show ?thesis by (simp add: handle_request_def arms_def drags_def)
qed (simp_all add: handle_request_def add_capture_def cp_set_tuning_def)

lemma drags_stopped: "drags (snd (handle_request_stopped r cp)) \<le> drags cp + arms (I_Request r)"
proof (cases r)
  case (SetDragPending p)
  then show ?thesis by (simp add: handle_request_stopped_def arms_def drags_def)
next
  case (DestroyCapture h)
  then show ?thesis using drags_remove [of h cp] by (simp add: handle_request_stopped_def)
qed (simp_all add: handle_request_stopped_def add_capture_def cp_set_tuning_def)

lemma drags_step: "drags (task_step (created, br, i) cp) \<le> drags cp + arms i"
proof (cases "cp_mode cp")
  case Running
  show ?thesis
  proof (cases i)
    case (I_Capture items)
    show ?thesis
      by (cases rule: session_step_capture [where br = br and items = items and cp = cp])
        (auto simp: Running I_Capture)
  next
    case (I_Request r)
    then show ?thesis using drags_request [of br r cp] by (simp add: Running session_step_def)
  qed (simp_all add: Running session_step_def)
next
  case Stopped
  show ?thesis
  proof (cases i)
    case (I_Request r)
    then show ?thesis
      using drags_stopped [of r cp] by (cases "fst (handle_request_stopped r cp)") (simp_all add: Stopped split_beta)
  qed (simp_all add: Stopped)
qed simp

text \<open>
  A file drag ends once. Over any run of the task, the service is told of at most as many
  drops and cancellations together as it armed drags: a drop is never followed by a cancel of
  the same drag, and no release, error or removed client reports one that was not armed.
\<close>

theorem drag_ends_once:
  "length (filter is_drag_end (cp_events (fold task_step ins (capture_task_new conn bind))))
   \<le> length (filter (\<lambda>(created, br, i). i = I_Request (SetDragPending True)) ins)"
proof -
  have "drags (fold task_step ins cp) \<le> drags cp + length (filter (\<lambda>(created, br, i). i = I_Request (SetDragPending True)) ins)"
    for cp
  proof (induction ins arbitrary: cp)
    case (Cons x ins)
    obtain created br i where x: "x = (created, br, i)" by (metis surj_pair)
    show ?case using Cons.IH [of "task_step x cp"] drags_step [of created br i cp] by (simp add: x arms_def split: if_splits)
  qed simp
  from this [of "capture_task_new conn bind"] show ?thesis
    by (simp add: drags_def capture_task_new_def split: if_splits)
qed

section \<open>Observations\<close>

text \<open>
  An empty release bind counts as pressed (\<open>keys_pressed\<close> of no keys is true), so with
  \<open>release_bind = []\<close> in the configuration every event of the capture hands the pointer
  back and none is ever forwarded.
\<close>

lemma empty_release_bind: "cp_release_bind cp = [] \<Longrightarrow> handle_capture_event br h e cp = release_capture br cp"
  by (simp add: handle_capture_event_def keys_pressed_def)

text \<open>
  A send that fails gives the pointer back but keeps the client active: the next \<open>Begin\<close> of
  the same client neither waits for an acknowledgement again nor reports \<open>ClientEntered\<close>.
\<close>

lemma failed_send_keeps_client: "cp_active_client (snd (forward br h msg cp)) = cp_active_client cp"
  by (rule forward_frame(1))

end
