(* ===== verification/InputEmulation.thy ===== *)
theory InputEmulation
  imports InputEvent
begin

text \<open>
  The platform independent part of input emulation (\<open>input-emulation/src/lib.rs\<close>): the
  virtual devices by handle and the keys each has down. The platform backend is outside: the
  calls made to it are logged in \<open>em_calls\<close>; whether its \<open>consume\<close> succeeds is read off
  \<open>em_answers\<close> (beyond its end it succeeds).
\<close>

type_synonym emulation_handle = u64

datatype emulation_call =
    E_Consume event emulation_handle
  | E_Create emulation_handle
  | E_Destroy emulation_handle
  | E_Terminate

record input_emulation =
  em_handles :: "emulation_handle set"
  em_pressed_keys :: "(emulation_handle, u32 set) hmap"
  em_calls :: "emulation_call list"
  em_answers :: "bool list"

definition input_emulation_new :: "bool list \<Rightarrow> input_emulation" where
  "input_emulation_new answers = \<lparr>em_handles = {}, em_pressed_keys = [], em_calls = [], em_answers = answers\<rparr>"

text \<open>\<open>InputEmulation::new\<close> without a backend given: the first that can be created, unless the user cancelled\<close>

datatype creation = Created | CancelledByUser | Failed

fun first_backend :: "'b list \<Rightarrow> ('b \<Rightarrow> creation) \<Rightarrow> 'b option" where
  "first_backend [] create = None"
| "first_backend (b # bs) create =
     (case create b of Created \<Rightarrow> Some b | CancelledByUser \<Rightarrow> None | Failed \<Rightarrow> first_backend bs create)"

definition em_call :: "emulation_call \<Rightarrow> input_emulation \<Rightarrow> input_emulation" where
  "em_call c em = em\<lparr>em_calls := em_calls em @ [c]\<rparr>"

definition backend_consume :: "event \<Rightarrow> emulation_handle \<Rightarrow> input_emulation \<Rightarrow> bool \<times> input_emulation" where
  "backend_consume e h em =
     (case em_answers em of
        [] \<Rightarrow> (True, em_call (E_Consume e h) em)
      | ok # oks \<Rightarrow> (ok, em_call (E_Consume e h) (em\<lparr>em_answers := oks\<rparr>)))"

definition em_update_pressed_keys :: "emulation_handle \<Rightarrow> u32 \<Rightarrow> u8 \<Rightarrow> input_emulation \<Rightarrow> bool \<times> input_emulation" where
  "em_update_pressed_keys h key state em =
     (case hm_get (em_pressed_keys em) h of
        None \<Rightarrow> (False, em)
      | Some pressed \<Rightarrow>
          if state = 0
          then (key \<in> pressed, em\<lparr>em_pressed_keys := hm_insert h (pressed - {key}) (em_pressed_keys em)\<rparr>)
          else (key \<notin> pressed, em\<lparr>em_pressed_keys := hm_insert h (insert key pressed) (em_pressed_keys em)\<rparr>))"

text \<open>\<open>True\<close> is \<open>Ok(())\<close>\<close>

definition em_consume :: "event \<Rightarrow> emulation_handle \<Rightarrow> input_emulation \<Rightarrow> bool \<times> input_emulation" where
  "em_consume e h em =
     (case e of
        Keyboard (Key time key state) \<Rightarrow>
          (case em_update_pressed_keys h key state em of (process, em) \<Rightarrow>
             if process then backend_consume e h em else (True, em))
      | _ \<Rightarrow> backend_consume e h em)"

definition em_create :: "emulation_handle \<Rightarrow> input_emulation \<Rightarrow> bool \<times> input_emulation" where
  "em_create h em =
     (if h \<notin> em_handles em then
        (True, em_call (E_Create h)
           (em\<lparr>em_handles := insert h (em_handles em), em_pressed_keys := hm_insert h {} (em_pressed_keys em)\<rparr>))
      else (False, em))"

text \<open>the loop over the drained keys, left at the first failure\<close>

fun release_each :: "u32 list \<Rightarrow> emulation_handle \<Rightarrow> input_emulation \<Rightarrow> bool \<times> input_emulation" where
  "release_each [] h em = (True, em)"
| "release_each (key # keys) h em =
     (case backend_consume (Keyboard (Key 0 key 0)) h em of (ok, em) \<Rightarrow>
        if ok then release_each keys h em else (False, em))"

definition release_keys :: "emulation_handle \<Rightarrow> input_emulation \<Rightarrow> bool \<times> input_emulation" where
  "release_keys h em =
     (case (case hm_get (em_pressed_keys em) h of
              Some keys \<Rightarrow>
                release_each (sorted_list_of_set keys) h (em\<lparr>em_pressed_keys := hm_insert h {} (em_pressed_keys em)\<rparr>)
            | None \<Rightarrow> (True, em)) of (ok, em) \<Rightarrow>
        if ok then backend_consume (Keyboard (Modifiers 0 0 0 0)) h em else (False, em))"

definition em_destroy :: "emulation_handle \<Rightarrow> input_emulation \<Rightarrow> input_emulation" where
  "em_destroy h em =
     (let em = snd (release_keys h em) in
      if h \<in> em_handles em then
        em_call (E_Destroy h)
          (em\<lparr>em_handles := em_handles em - {h}, em_pressed_keys := hm_remove h (em_pressed_keys em)\<rparr>)
      else em)"

definition em_terminate :: "input_emulation \<Rightarrow> input_emulation" where
  "em_terminate em = em_call E_Terminate (fold em_destroy (sorted_list_of_set (em_handles em)) em)"

definition em_has_pressed_keys :: "emulation_handle \<Rightarrow> input_emulation \<Rightarrow> bool" where
  "em_has_pressed_keys h em =
     (case hm_get (em_pressed_keys em) h of Some p \<Rightarrow> p \<noteq> {} | None \<Rightarrow> False)"

section \<open>What the devices see\<close>

text \<open>
  The keys down on each virtual device, from the calls made to the backend; destroying a device
  forgets its keys. \<open>clean\<close> says that no key is pressed twice or released when it is up.
\<close>

type_synonym device_view = "(emulation_handle \<times> u32) set"

fun view_call :: "emulation_call \<Rightarrow> device_view \<Rightarrow> device_view" where
  "view_call (E_Consume (Keyboard (Key _ key state)) h) v =
     (if state = 0 then v - {(h, key)} else insert (h, key) v)"
| "view_call (E_Destroy h) v = {(h', k). (h', k) \<in> v \<and> h' \<noteq> h}"
| "view_call _ v = v"

fun clean_call :: "emulation_call \<Rightarrow> device_view \<Rightarrow> bool" where
  "clean_call (E_Consume (Keyboard (Key _ key state)) h) v =
     (if state = 0 then (h, key) \<in> v else (h, key) \<notin> v)"
| "clean_call _ v = True"

fun clean :: "emulation_call list \<Rightarrow> device_view \<Rightarrow> bool" where
  "clean [] v = True"
| "clean (c # cs) v = (clean_call c v \<and> clean cs (view_call c v))"

abbreviation devices :: "emulation_call list \<Rightarrow> device_view" where
  "devices cs \<equiv> fold view_call cs {}"

lemma clean_append: "clean (cs @ ds) v \<longleftrightarrow> clean cs v \<and> clean ds (fold view_call cs v)"
  by (induction cs arbitrary: v) simp_all

text \<open>
  Every device has an entry and only devices have; the calls are clean; what a device has
  down is what is recorded for it.
\<close>

definition em_inv :: "input_emulation \<Rightarrow> bool" where
  "em_inv em \<longleftrightarrow>
     (\<forall>h. h \<in> em_handles em \<longleftrightarrow> hm_get (em_pressed_keys em) h \<noteq> None) \<and>
     clean (em_calls em) {} \<and>
     (\<forall>h k. (h, k) \<in> devices (em_calls em) \<longleftrightarrow> (\<exists>ks. hm_get (em_pressed_keys em) h = Some ks \<and> k \<in> ks))"

datatype em_op = EO_Create emulation_handle | EO_Consume event emulation_handle | EO_Destroy emulation_handle
  | EO_Terminate

fun em_step :: "em_op \<Rightarrow> input_emulation \<Rightarrow> input_emulation" where
  "em_step (EO_Create h) em = snd (em_create h em)"
| "em_step (EO_Consume e h) em = snd (em_consume e h em)"
| "em_step (EO_Destroy h) em = em_destroy h em"
| "em_step EO_Terminate em = em_terminate em"

lemma em_invD:
  assumes "em_inv em"
  shows "h \<in> em_handles em \<longleftrightarrow> hm_get (em_pressed_keys em) h \<noteq> None"
    and "clean (em_calls em) {}"
    and "(h, k) \<in> devices (em_calls em) \<longleftrightarrow> (\<exists>ks. hm_get (em_pressed_keys em) h = Some ks \<and> k \<in> ks)"
  using assms by (auto simp: em_inv_def)

lemma backend_consume_frame [simp]:
  "em_handles (snd (backend_consume e h em)) = em_handles em"
  "em_pressed_keys (snd (backend_consume e h em)) = em_pressed_keys em"
  "em_calls (snd (backend_consume e h em)) = em_calls em @ [E_Consume e h]"
  by (simp_all add: backend_consume_def em_call_def split: list.split)

definition is_key :: "event \<Rightarrow> bool" where
  "is_key e = (case e of Keyboard (Key _ _ _) \<Rightarrow> True | _ \<Rightarrow> False)"

lemma other_call: "\<not> is_key e \<Longrightarrow> clean_call (E_Consume e h) v \<and> view_call (E_Consume e h) v = v"
  by (cases "(E_Consume e h, v)" rule: view_call.cases) (auto simp: is_key_def)

lemma em_inv_other:
  "em_inv em \<Longrightarrow> \<not> is_key e \<Longrightarrow> em_inv (snd (backend_consume e h em))"
  using other_call [of e h] by (auto simp: em_inv_def clean_append)

lemma em_consume_inv:
  assumes inv: "em_inv em"
  shows "em_inv (snd (em_consume e h em))"
proof (cases "is_key e")
  case False
  then have "em_consume e h em = backend_consume e h em"
    by (simp add: em_consume_def is_key_def split: event.splits keyboard_event.splits)
  then show ?thesis using em_inv_other [OF inv False] by simp
next
  case True
  then obtain time key state where e: "e = Keyboard (Key time key state)"
    by (auto simp: is_key_def split: event.splits keyboard_event.splits)
  show ?thesis
  proof (cases "hm_get (em_pressed_keys em) h")
    case None
    then show ?thesis using inv by (simp add: em_consume_def e em_update_pressed_keys_def)
  next
    case (Some pressed)
    have down: "(h, key) \<in> devices (em_calls em) \<longleftrightarrow> key \<in> pressed" using em_invD(3) [OF inv] Some by simp
    show ?thesis
      using inv Some down
      by (auto simp: em_consume_def e em_update_pressed_keys_def em_inv_def clean_append split: if_splits)
  qed
qed

lemma em_create_inv:
  assumes inv: "em_inv em"
  shows "em_inv (snd (em_create h em))"
  using em_invD [OF inv] by (auto simp: em_create_def em_call_def em_inv_def clean_append)

abbreviation key_up_call :: "emulation_handle \<Rightarrow> u32 \<Rightarrow> emulation_call" where
  "key_up_call h k \<equiv> E_Consume (Keyboard (Key 0 k 0)) h"

abbreviation mods_reset_call :: "emulation_handle \<Rightarrow> emulation_call" where
  "mods_reset_call h \<equiv> E_Consume (Keyboard (Modifiers 0 0 0 0)) h"

lemma backend_consume_working:
  "False \<notin> set (em_answers em) \<Longrightarrow>
   fst (backend_consume e h em) \<and> False \<notin> set (em_answers (snd (backend_consume e h em)))"
  by (cases "em_answers em") (auto simp: backend_consume_def em_call_def)

lemma release_each_calls:
  "\<exists>n. em_calls (snd (release_each ks h em)) = em_calls em @ map (key_up_call h) (take n ks) \<and>
     em_handles (snd (release_each ks h em)) = em_handles em \<and>
     em_pressed_keys (snd (release_each ks h em)) = em_pressed_keys em \<and>
     (False \<notin> set (em_answers em) \<longrightarrow> fst (release_each ks h em) \<and> n = length ks \<and>
        False \<notin> set (em_answers (snd (release_each ks h em))))"
proof (induction ks arbitrary: em)
  case Nil
  then show ?case by simp
next
  case (Cons k ks)
  obtain ok em' where c: "backend_consume (Keyboard (Key 0 k 0)) h em = (ok, em')" by fastforce
  have em': "em_calls em' = em_calls em @ [key_up_call h k]" "em_handles em' = em_handles em"
    "em_pressed_keys em' = em_pressed_keys em" "False \<notin> set (em_answers em) \<Longrightarrow> ok \<and> False \<notin> set (em_answers em')"
    using backend_consume_frame [of "Keyboard (Key 0 k 0)" h em] backend_consume_working [of em "Keyboard (Key 0 k 0)" h]
    by (simp_all add: c)
  show ?case
  proof (cases ok)
    case True
    from Cons.IH [of em'] obtain n where n: "em_calls (snd (release_each ks h em')) = em_calls em' @ map (key_up_call h) (take n ks)"
      "em_handles (snd (release_each ks h em')) = em_handles em'"
      "em_pressed_keys (snd (release_each ks h em')) = em_pressed_keys em'"
      "False \<notin> set (em_answers em') \<longrightarrow> fst (release_each ks h em') \<and> n = length ks \<and>
        False \<notin> set (em_answers (snd (release_each ks h em')))" by blast
    then show ?thesis using em' True by (intro exI [of _ "Suc n"]) (simp add: c)
  next
    case False
    then show ?thesis using em' by (intro exI [of _ 1]) (auto simp: c)
  qed
qed

lemma release_keys_calls:
  "\<exists>n m. em_calls (snd (release_keys h em)) = em_calls em @ map (key_up_call h)
       (take n (sorted_list_of_set (case hm_get (em_pressed_keys em) h of Some ks \<Rightarrow> ks | None \<Rightarrow> {})))
       @ take m [mods_reset_call h] \<and>
     em_handles (snd (release_keys h em)) = em_handles em \<and>
     (\<forall>h'. hm_get (em_pressed_keys (snd (release_keys h em))) h' =
        (if h' = h then map_option (\<lambda>_. {}) (hm_get (em_pressed_keys em) h) else hm_get (em_pressed_keys em) h')) \<and>
     (False \<notin> set (em_answers em) \<longrightarrow> m = 1 \<and>
        n = card (case hm_get (em_pressed_keys em) h of Some ks \<Rightarrow> ks | None \<Rightarrow> {}) \<and>
        False \<notin> set (em_answers (snd (release_keys h em))))"
proof (cases "hm_get (em_pressed_keys em) h")
  case None
  then show ?thesis
    using backend_consume_working [of em "Keyboard (Modifiers 0 0 0 0)" h]
    by (intro exI [of _ 0] exI [of _ 1]) (auto simp: release_keys_def)
next
  case (Some ks)
  let ?em = "em\<lparr>em_pressed_keys := hm_insert h {} (em_pressed_keys em)\<rparr>" and ?l = "sorted_list_of_set ks"
  from release_each_calls [of ?l h ?em] obtain n where
    n: "em_calls (snd (release_each ?l h ?em)) = em_calls ?em @ map (key_up_call h) (take n ?l)"
    "em_handles (snd (release_each ?l h ?em)) = em_handles ?em"
    "em_pressed_keys (snd (release_each ?l h ?em)) = em_pressed_keys ?em"
    "False \<notin> set (em_answers ?em) \<longrightarrow> fst (release_each ?l h ?em) \<and> n = length ?l \<and>
        False \<notin> set (em_answers (snd (release_each ?l h ?em)))" by blast
  obtain ok em' where r: "release_each ?l h ?em = (ok, em')" by fastforce
  show ?thesis
    using n backend_consume_working [of em' "Keyboard (Modifiers 0 0 0 0)" h]
    by (intro exI [of _ n] exI [of _ "if ok then 1 else 0"]) (auto simp: release_keys_def Some r)
qed

lemma em_destroy_eq:
  "em_destroy h em =
     (if h \<in> em_handles em then
        em_call (E_Destroy h) ((snd (release_keys h em))\<lparr>em_handles := em_handles em - {h},
          em_pressed_keys := hm_remove h (em_pressed_keys (snd (release_keys h em)))\<rparr>)
      else snd (release_keys h em))"
  using release_keys_calls [of h em] by (auto simp: em_destroy_def Let_def)

lemma fold_key_ups:
  "fold view_call (map (key_up_call h) ks) v = v - {h} \<times> set ks"
  by (induction ks arbitrary: v) auto

lemma clean_key_ups: "distinct ks \<Longrightarrow> \<forall>k \<in> set ks. (h, k) \<in> v \<Longrightarrow> clean (map (key_up_call h) ks) v"
proof (induction ks arbitrary: v)
  case (Cons k ks)
  then have "\<forall>k' \<in> set ks. (h, k') \<in> v - {(h, k)}" by auto
  with Cons show ?case by simp
qed simp

lemma mods_reset_neutral:
  "clean (take m [mods_reset_call h]) v" "fold view_call (take m [mods_reset_call h]) v = v"
  by (cases m; simp)+

lemma em_destroy_inv:
  assumes inv: "em_inv em"
  shows "em_inv (em_destroy h em)"
proof -
  let ?ks = "case hm_get (em_pressed_keys em) h of Some ks \<Rightarrow> ks | None \<Rightarrow> {}"
  let ?em = "snd (release_keys h em)"
  from release_keys_calls [of h em] obtain n m where
    c: "em_calls ?em = em_calls em @ map (key_up_call h) (take n (sorted_list_of_set ?ks)) @ take m [mods_reset_call h]"
    "em_handles ?em = em_handles em"
    "\<forall>h'. hm_get (em_pressed_keys ?em) h' =
        (if h' = h then map_option (\<lambda>_. {}) (hm_get (em_pressed_keys em) h) else hm_get (em_pressed_keys em) h')"
    by blast
  let ?up = "take n (sorted_list_of_set ?ks)"
  have up: "distinct ?up" "set ?up \<subseteq> ?ks"
    using set_take_subset [of n "sorted_list_of_set ?ks"] by (simp_all add: distinct_take)
  have down: "\<forall>k \<in> set ?up. (h, k) \<in> devices (em_calls em)"
    using up(2) em_invD(3) [OF inv, of h] by (auto split: option.splits)
  have clean: "clean (em_calls ?em) {}"
    using em_invD(2) [OF inv] clean_key_ups [OF up(1) down]
    by (simp add: c(1) clean_append mods_reset_neutral)
  have view: "devices (em_calls ?em) = devices (em_calls em) - {h} \<times> set ?up"
    by (simp add: c(1) fold_key_ups mods_reset_neutral)
  show ?thesis
  proof (cases "h \<in> em_handles em")
    case True
    then show ?thesis
      using clean view c(2,3) em_invD [OF inv]
      by (auto simp: em_destroy_eq em_call_def em_inv_def clean_append)
  next
    case False
    then have "hm_get (em_pressed_keys em) h = None" using em_invD(1) [OF inv, of h] by simp
    then have "set ?up = {}" using up(2) by auto
    then show ?thesis
      using False clean view c(2,3) em_invD [OF inv] by (auto simp: em_destroy_eq em_inv_def)
  qed
qed

lemma em_terminate_inv: "em_inv em \<Longrightarrow> em_inv (em_terminate em)"
proof -
  have "em_inv em \<Longrightarrow> em_inv (fold em_destroy hs em)" for hs em
    by (induction hs arbitrary: em) (auto intro: em_destroy_inv)
  then show "em_inv em \<Longrightarrow> em_inv (em_terminate em)"
    by (simp add: em_terminate_def em_call_def em_inv_def clean_append)
qed

lemma em_step_inv: "em_inv em \<Longrightarrow> em_inv (em_step op em)"
  by (cases op) (auto intro: em_create_inv em_consume_inv em_destroy_inv em_terminate_inv)

interpretation emulation: machine em_step em_inv
  by unfold_locales (rule em_step_inv)

lemma em_inv_new: "em_inv (input_emulation_new answers)"
  by (simp add: em_inv_def input_emulation_new_def)

section \<open>Properties\<close>

text \<open>
  \<^bold>\<open>C33.\<close> Whatever the peers send, and even when the backend's calls fail, no virtual device is
  ever told to press a key that is down on it or to release one that is up, and the keys
  recorded for a device are exactly those that are down on it.
\<close>

theorem emulated_keys_alternate:
  "let em = fold em_step ops (input_emulation_new answers) in
   clean (em_calls em) {} \<and>
   (\<forall>h. hm_get (em_pressed_keys em) h =
      (if h \<in> em_handles em then Some {k. (h, k) \<in> devices (em_calls em)} else None))"
proof -
  have inv: "em_inv (fold em_step ops (input_emulation_new answers))"
    by (rule emulation.run_inv [OF em_inv_new])
  show ?thesis
    unfolding Let_def using em_invD [OF inv] by (auto simp: em_invD(2) [OF inv])
qed

text \<open>
  \<^bold>\<open>C34.\<close> Taking a device away never leaves a key down: when the backend works, destroying a
  device first releases each key it has down, once, then resets its modifiers, then destroys
  it; and after \<open>terminate\<close> there is no device left.
\<close>

theorem destroy_releases_keys:
  assumes "em_inv em" and "h \<in> em_handles em" and "False \<notin> set (em_answers em)"
  shows "\<exists>ks. sorted ks \<and> distinct ks \<and> set ks = {k. (h, k) \<in> devices (em_calls em)} \<and>
    em_calls (em_destroy h em) = em_calls em @ map (key_up_call h) ks @ [mods_reset_call h, E_Destroy h] \<and>
    h \<notin> em_handles (em_destroy h em) \<and> em_handles (em_terminate em) = {}"
proof -
  obtain ks where ks: "hm_get (em_pressed_keys em) h = Some ks" using em_invD(1) [OF assms(1), of h] assms(2) by auto
  let ?l = "sorted_list_of_set ks"
  from release_keys_calls [of h em] assms(3) obtain n m where
    c: "em_calls (snd (release_keys h em)) = em_calls em @ map (key_up_call h) (take n ?l) @ take m [mods_reset_call h]"
    "m = 1" "n = card ks" unfolding ks by auto
  have "em_calls (em_destroy h em) = em_calls em @ map (key_up_call h) ?l @ [mods_reset_call h, E_Destroy h]"
    using assms(2) c by (simp add: em_destroy_eq em_call_def)
  moreover have "set ?l = {k. (h, k) \<in> devices (em_calls em)}"
    using em_invD(3) [OF assms(1), of h] ks by auto
  moreover have "h \<notin> em_handles (em_destroy h em)" using assms(2) by (simp add: em_destroy_eq em_call_def)
  moreover have "em_handles (em_terminate em) = {}"
  proof -
    have "em_handles (fold em_destroy hs em) = em_handles em - set hs" for hs em
    proof (induction hs arbitrary: em)
      case (Cons h hs)
      have "em_handles (em_destroy h em) = em_handles em - {h}"
        using release_keys_calls [of h em] by (auto simp: em_destroy_eq em_call_def)
      then show ?case using Cons.IH [of "em_destroy h em"] by auto
    qed simp
    then show ?thesis by (simp add: em_terminate_def em_call_def)
  qed
  ultimately show ?thesis by (intro exI [of _ ?l]) simp
qed

definition example_emulation :: input_emulation where
  "example_emulation = fold em_step [EO_Create 7, EO_Consume (Keyboard (Key 0 30 1)) 7] (input_emulation_new [])"

lemma destroy_releases_keys_witness:
  "em_calls (em_destroy 7 example_emulation) = em_calls example_emulation @ [key_up_call 7 30, mods_reset_call 7, E_Destroy 7]"
proof -
  have "em_inv example_emulation" unfolding example_emulation_def by (rule emulation.run_inv [OF em_inv_new])
  moreover have "7 \<in> em_handles example_emulation" "em_answers example_emulation = []"
    "{k. (7, k) \<in> devices (em_calls example_emulation)} = {30}"
    by (simp_all add: example_emulation_def input_emulation_new_def em_create_def em_call_def em_consume_def
        em_update_pressed_keys_def backend_consume_def)
  ultimately obtain ks where "set ks = {30}" "distinct ks"
      "em_calls (em_destroy 7 example_emulation) = em_calls example_emulation @ map (key_up_call 7) ks @ [mods_reset_call 7, E_Destroy 7]"
    using destroy_releases_keys [of example_emulation 7] by auto
  moreover have "ks = [30]" using calculation(1,2) by (cases ks; cases "List.tl ks") auto
  ultimately show ?thesis by simp
qed

end
