(* ===== verification/EmulationTask.thy ===== *)
theory EmulationTask
  imports InputEmulation Connect CaptureTask
begin

text \<open>
  Incoming connections (\<open>src/listen.rs\<close>) and the emulation of what they send
  (\<open>src/emulation.rs\<close>): the listener with its allowlist, the task that answers the peers and
  drops silent ones, the proxy that discards input while emulation is off, and the task
  that owns the virtual devices. Time is in milliseconds and an argument.
\<close>

section \<open>The listener\<close>

datatype listen_event =
    LE_Msg proto_event socket_addr
  | LE_Accept socket_addr string
  | LE_Rejected string

text \<open>
  The connections with the fingerprint of their certificate, the fingerprints the callback
  refused, the events for the task, what was sent to the peers.
\<close>

record listener =
  li_port :: u16
  li_conns :: "(socket_addr \<times> string) list"
  li_attempts :: "string list"
  li_queue :: "listen_event list"
  li_sent :: "(socket_addr \<times> u8 list) list"

text \<open>
  The callback on a peer's certificates. It asserts that there is exactly one; a panic ends
  the process.
\<close>

definition listener_verify ::
  "(u8 list \<Rightarrow> u8 list) \<Rightarrow> (string, string) hmap \<Rightarrow> u8 list list \<Rightarrow> listener
     \<Rightarrow> (unit, connection_error) outcome \<times> listener" where
  "listener_verify sha256 authorized certs li =
     (case certs of
        [c] \<Rightarrow>
          let fingerprint = generate_fingerprint sha256 c in
          if hm_get authorized fingerprint \<noteq> None then (Ok (), li)
          else (Err CErr_Dtls, li\<lparr>li_attempts := li_attempts li @ [fingerprint]\<rparr>)
      | _ \<Rightarrow> (Panic, li))"

definition listener_accept :: "socket_addr \<Rightarrow> string \<Rightarrow> listener \<Rightarrow> listener" where
  "listener_accept addr fingerprint li =
     li\<lparr>li_conns := li_conns li @ [(addr, fingerprint)], li_queue := li_queue li @ [LE_Accept addr fingerprint]\<rparr>"

text \<open>an accept that failed because the callback refused the certificate\<close>

definition listener_refused :: "listener \<Rightarrow> listener" where
  "listener_refused li =
     (case li_attempts li of
        [] \<Rightarrow> li
      | fp # fps \<Rightarrow> li\<lparr>li_attempts := fps, li_queue := li_queue li @ [LE_Rejected fp]\<rparr>)"

definition listener_change_port :: "u16 \<Rightarrow> bool \<Rightarrow> listener \<Rightarrow> u16 option \<times> listener" where
  "listener_change_port port ok li = (if ok then (Some port, li\<lparr>li_port := port\<rparr>) else (None, li))"

definition listener_reply :: "socket_addr \<Rightarrow> proto_event \<Rightarrow> listener \<Rightarrow> listener" where
  "listener_reply addr e li =
     li\<lparr>li_sent := li_sent li @ map (\<lambda>_. (addr, datagram e)) (filter (\<lambda>(a, _). a = addr) (li_conns li))\<rparr>"

definition get_certificate_fingerprint :: "socket_addr \<Rightarrow> listener \<Rightarrow> string option" where
  "get_certificate_fingerprint addr li = map_option snd (find (\<lambda>(a, _). a = addr) (li_conns li))"

text \<open>\<open>read_loop\<close>: a datagram, decoded out of the reused buffer, or the end of the connection\<close>

definition listener_read :: "socket_addr \<Rightarrow> u8 list \<Rightarrow> u8 list \<times> listener \<Rightarrow> u8 list \<times> listener" where
  "listener_read addr d s =
     (case s of (b, li) \<Rightarrow>
        let b = d @ drop (length d) b in
        (b, case proto_decode b of Ok e \<Rightarrow> li\<lparr>li_queue := li_queue li @ [LE_Msg e addr]\<rparr> | _ \<Rightarrow> li))"

fun remove_first :: "('a \<Rightarrow> bool) \<Rightarrow> 'a list \<Rightarrow> 'a list" where
  "remove_first P [] = []"
| "remove_first P (x # xs) = (if P x then xs else x # remove_first P xs)"

definition listener_read_end :: "socket_addr \<Rightarrow> listener \<Rightarrow> (unit, connection_error) outcome \<times> listener" where
  "listener_read_end addr li =
     (if list_ex (\<lambda>(a, _). a = addr) (li_conns li)
      then (Ok (), li\<lparr>li_conns := remove_first (\<lambda>(a, _). a = addr) (li_conns li)\<rparr>)
      else (Panic, li))"

section \<open>The proxy\<close>

datatype emulation_event =
    EV_Connected socket_addr string
  | EV_ConnectionAttempt string
  | EV_Entered socket_addr position string
  | EV_Disconnected socket_addr
  | EV_PortChanged "u16 option"
  | EV_EmulationDisabled
  | EV_EmulationEnabled
  | EV_ReleaseNotify
  | EV_PeerHello socket_addr "u8 list"

datatype emulation_request = ER_Reenable | ER_Release socket_addr | ER_ChangePort u16 | ER_Terminate

datatype proxy_request = PR_Input event socket_addr | PR_Remove socket_addr | PR_Terminate | PR_Reenable

record emulation_proxy =
  pr_active :: bool
  pr_exit_requested :: bool
  pr_requests :: "proxy_request list"

definition proxy_new :: emulation_proxy where
  "proxy_new = \<lparr>pr_active = False, pr_exit_requested = False, pr_requests = []\<rparr>"

definition proxy_send :: "proxy_request \<Rightarrow> emulation_proxy \<Rightarrow> emulation_proxy" where
  "proxy_send r pr = pr\<lparr>pr_requests := pr_requests pr @ [r]\<rparr>"

definition proxy_event :: "emulation_event \<Rightarrow> emulation_proxy \<Rightarrow> emulation_proxy" where
  "proxy_event e pr =
     (case e of
        EV_EmulationEnabled \<Rightarrow> pr\<lparr>pr_active := True\<rparr>
      | EV_EmulationDisabled \<Rightarrow> pr\<lparr>pr_active := False\<rparr>
      | _ \<Rightarrow> pr)"

definition proxy_consume :: "event \<Rightarrow> socket_addr \<Rightarrow> emulation_proxy \<Rightarrow> emulation_proxy" where
  "proxy_consume e addr pr = (if pr_active pr then proxy_send (PR_Input e addr) pr else pr)"

definition proxy_terminate :: "emulation_proxy \<Rightarrow> emulation_proxy" where
  "proxy_terminate pr = proxy_send PR_Terminate (pr\<lparr>pr_exit_requested := True\<rparr>)"

section \<open>The task that answers the peers\<close>

fun to_ipc_pos :: "proto_position \<Rightarrow> position" where
  "to_ipc_pos P_Left = Left"
| "to_ipc_pos P_Right = Right"
| "to_ipc_pos P_Top = Top"
| "to_ipc_pos P_Bottom = Bottom"

record listen_task =
  lt_listener :: listener
  lt_proxy :: emulation_proxy
  lt_last_response :: "(socket_addr, nat) hmap"
  lt_rejected :: "(string, nat) hmap"
  lt_events :: "(nat \<times> emulation_event) list"
  lt_ended :: bool

definition listen_task_new :: "listener \<Rightarrow> listen_task" where
  "listen_task_new li =
     \<lparr>lt_listener = li, lt_proxy = proxy_new, lt_last_response = [], lt_rejected = [], lt_events = [],
      lt_ended = False\<rparr>"

definition lt_emit :: "nat \<Rightarrow> emulation_event \<Rightarrow> listen_task \<Rightarrow> listen_task" where
  "lt_emit now e lt = lt\<lparr>lt_events := lt_events lt @ [(now, e)]\<rparr>"

definition lt_reply :: "socket_addr \<Rightarrow> proto_event \<Rightarrow> listen_task \<Rightarrow> listen_task" where
  "lt_reply addr e lt = lt\<lparr>lt_listener := listener_reply addr e (lt_listener lt)\<rparr>"

definition on_proxy :: "(emulation_proxy \<Rightarrow> emulation_proxy) \<Rightarrow> listen_task \<Rightarrow> listen_task" where
  "on_proxy f lt = lt\<lparr>lt_proxy := f (lt_proxy lt)\<rparr>"

text \<open>a message of a peer; \<open>commit\<close> is the local build\<close>

definition handle_msg :: "u8 list \<Rightarrow> nat \<Rightarrow> proto_event \<Rightarrow> socket_addr \<Rightarrow> listen_task \<Rightarrow> listen_task" where
  "handle_msg commit now event addr lt =
     (let lt = lt\<lparr>lt_last_response := hm_insert addr now (lt_last_response lt)\<rparr> in
      case event of
        Enter pos \<Rightarrow>
          (case get_certificate_fingerprint addr (lt_listener lt) of
             None \<Rightarrow> lt
           | Some fp \<Rightarrow>
               lt_emit now (EV_Entered addr (to_ipc_pos pos) fp)
                 (lt_reply addr (Ack 0) (lt_emit now EV_ReleaseNotify lt)))
      | Leave _ \<Rightarrow> lt_reply addr (Ack 0) (on_proxy (proxy_send (PR_Remove addr)) lt)
      | Input e \<Rightarrow> on_proxy (proxy_consume e addr) lt
      | Ping \<Rightarrow> lt_reply addr (Pong (pr_active (lt_proxy lt))) lt
      | Hello c \<Rightarrow> lt_emit now (EV_PeerHello addr c) (lt_reply addr (Hello commit) lt)
      | _ \<Rightarrow> lt)"

text \<open>a refused connection is reported at most every two seconds per certificate\<close>

definition handle_rejected :: "nat \<Rightarrow> string \<Rightarrow> listen_task \<Rightarrow> listen_task" where
  "handle_rejected now fp lt =
     (let old = hm_get (lt_rejected lt) fp;
          lt = lt\<lparr>lt_rejected := hm_insert fp now (lt_rejected lt)\<rparr>
      in if (case old of None \<Rightarrow> True | Some i \<Rightarrow> now - i \<ge> 2000)
         then lt_emit now (EV_ConnectionAttempt fp) lt else lt)"

text \<open>the tick: peers silent for more than a second are dropped\<close>

definition silent :: "nat \<Rightarrow> (socket_addr, nat) hmap \<Rightarrow> socket_addr list" where
  "silent now m = map fst (filter (\<lambda>(addr, i). now - i > 1000) m)"

definition handle_tick :: "nat \<Rightarrow> listen_task \<Rightarrow> listen_task" where
  "handle_tick now lt =
     (let lt' = fold (\<lambda>addr lt. lt_emit now (EV_Disconnected addr) (on_proxy (proxy_send (PR_Remove addr)) lt))
                  (silent now (lt_last_response lt)) lt
      in lt'\<lparr>lt_last_response := filter (\<lambda>(addr, i). \<not> now - i > 1000) (lt_last_response lt)\<rparr>)"

definition handle_emulation_request :: "nat \<Rightarrow> bool \<Rightarrow> emulation_request \<Rightarrow> listen_task \<Rightarrow> listen_task" where
  "handle_emulation_request now port_ok r lt =
     (case r of
        ER_Reenable \<Rightarrow> on_proxy (proxy_send PR_Reenable) lt
      | ER_Release addr \<Rightarrow> lt_reply addr (Leave 0) lt
      | ER_ChangePort port \<Rightarrow>
          (case listener_change_port port port_ok (lt_listener lt) of (r, li) \<Rightarrow>
             lt_emit now (EV_PortChanged r) (lt\<lparr>lt_listener := li\<rparr>))
      | ER_Terminate \<Rightarrow> on_proxy proxy_terminate (lt\<lparr>lt_ended := True\<rparr>))"

datatype listen_input =
    LI_Listen listen_event
  | LI_Proxy bool
  | LI_Request bool emulation_request
  | LI_Tick

fun listen_step :: "u8 list \<Rightarrow> nat \<times> listen_input \<Rightarrow> listen_task \<Rightarrow> listen_task" where
  "listen_step commit (now, i) lt =
     (if lt_ended lt then lt
      else case i of
        LI_Listen (LE_Msg e addr) \<Rightarrow> handle_msg commit now e addr lt
      | LI_Listen (LE_Accept addr fp) \<Rightarrow> lt_emit now (EV_Connected addr fp) lt
      | LI_Listen (LE_Rejected fp) \<Rightarrow> handle_rejected now fp lt
      | LI_Proxy enabled \<Rightarrow>
          (let e = (if enabled then EV_EmulationEnabled else EV_EmulationDisabled)
           in lt_emit now e (on_proxy (proxy_event e) lt))
      | LI_Request ok r \<Rightarrow> handle_emulation_request now ok r lt
      | LI_Tick \<Rightarrow> handle_tick now lt)"

section \<open>The task that owns the devices\<close>

text \<open>
  \<open>et_emulation\<close> is the input emulation of the running session, \<open>None\<close> while the task
  waits to be re-enabled; \<open>et_past\<close> keeps those of the sessions that are over.
\<close>

record emulation_task =
  et_handles :: "(socket_addr, emulation_handle) hmap"
  et_next_id :: emulation_handle
  et_emulation :: "input_emulation option"
  et_exit_requested :: bool
  et_ended :: bool
  et_events :: "emulation_event list"
  et_past :: "input_emulation list"

definition emulation_task_new :: emulation_task where
  "emulation_task_new =
     \<lparr>et_handles = [], et_next_id = 0, et_emulation = None, et_exit_requested = False, et_ended = False,
      et_events = [], et_past = []\<rparr>"

text \<open>\<open>do_emulation\<close> up to the session: \<open>created\<close> holds the backend's answers if it could be created\<close>

definition start_emulation :: "bool list option \<Rightarrow> emulation_task \<Rightarrow> emulation_task" where
  "start_emulation created et =
     (case created of
        None \<Rightarrow> et
      | Some answers \<Rightarrow>
          et\<lparr>et_events := et_events et @ [EV_EmulationEnabled],
             et_emulation := Some (fold (\<lambda>h em. snd (em_create h em)) (hm_values (et_handles et))
               (input_emulation_new answers))\<rparr>)"

text \<open>the end of a session: terminate, the guard reports \<open>EmulationDisabled\<close>, and perhaps leave \<open>run\<close>\<close>

definition end_emulation :: "input_emulation \<Rightarrow> emulation_task \<Rightarrow> emulation_task" where
  "end_emulation em et =
     et\<lparr>et_emulation := None, et_past := et_past et @ [em_terminate em], et_events := et_events et @ [EV_EmulationDisabled],
        et_ended := et_exit_requested et\<rparr>"

definition emulation_handle_for :: "socket_addr \<Rightarrow> input_emulation \<Rightarrow> emulation_task
    \<Rightarrow> emulation_handle \<times> input_emulation \<times> emulation_task" where
  "emulation_handle_for addr em et =
     (case hm_get (et_handles et) addr of
        Some h \<Rightarrow> (h, em, et)
      | None \<Rightarrow>
          let h = et_next_id et in
          (h, snd (em_create h em),
           et\<lparr>et_next_id := et_next_id et + 1, et_handles := hm_insert addr h (et_handles et)\<rparr>))"

definition emulation_request_step :: "bool list option \<Rightarrow> proxy_request \<Rightarrow> emulation_task \<Rightarrow> emulation_task" where
  "emulation_request_step created r et =
     (if et_ended et then et
      else case et_emulation et of
        None \<Rightarrow>
          (case r of
             PR_Reenable \<Rightarrow> start_emulation created et
           | PR_Terminate \<Rightarrow> et\<lparr>et_ended := True\<rparr>
           | _ \<Rightarrow> et)
      | Some em \<Rightarrow>
          (case r of
             PR_Input e addr \<Rightarrow>
               (let (h, em, et) = emulation_handle_for addr em et;
                    (ok, em) = em_consume e h em
                in if ok then et\<lparr>et_emulation := Some em\<rparr> else end_emulation em et)
           | PR_Remove addr \<Rightarrow>
               (case hm_get (et_handles et) addr of
                  None \<Rightarrow> et
                | Some h \<Rightarrow> et\<lparr>et_handles := hm_remove addr (et_handles et), et_emulation := Some (em_destroy h em)\<rparr>)
           | PR_Terminate \<Rightarrow> end_emulation em et
           | PR_Reenable \<Rightarrow> et))"

section \<open>Refused connections\<close>

lemma hm_get_filter:
  "hm_ok m \<Longrightarrow> hm_get (filter (\<lambda>(k, v). P k v) m) k =
     (case hm_get m k of Some v \<Rightarrow> if P k v then Some v else None | None \<Rightarrow> None)"
  unfolding hm_ok_def hm_get_def by (induction m) (auto split: option.splits simp: map_of_eq_None_iff image_iff)


definition attempts_spaced :: "(nat \<times> emulation_event) list \<Rightarrow> bool" where
  "attempts_spaced evs \<longleftrightarrow>
     sorted_wrt (\<lambda>(t, e) (t', e'). \<forall>fp. e = EV_ConnectionAttempt fp \<and> e' = EV_ConnectionAttempt fp \<longrightarrow> t + 2000 \<le> t') evs"

definition reject_inv :: "nat \<Rightarrow> listen_task \<Rightarrow> bool" where
  "reject_inv now lt \<longleftrightarrow>
     attempts_spaced (lt_events lt) \<and>
     (\<forall>t fp. (t, EV_ConnectionAttempt fp) \<in> set (lt_events lt) \<longrightarrow>
        (\<exists>u. hm_get (lt_rejected lt) fp = Some u \<and> t \<le> u \<and> u \<le> now))"

lemma lt_frame [simp]:
  "lt_events (on_proxy f lt) = lt_events lt" "lt_rejected (on_proxy f lt) = lt_rejected lt"
  "lt_events (lt_reply a e lt) = lt_events lt" "lt_rejected (lt_reply a e lt) = lt_rejected lt"
  "lt_rejected (lt_emit n ev lt) = lt_rejected lt" "lt_events (lt_emit n ev lt) = lt_events lt @ [(n, ev)]"
  "lt_last_response (lt_emit n ev lt) = lt_last_response lt" "lt_proxy (lt_emit n ev lt) = lt_proxy lt"
  "lt_last_response (on_proxy f lt) = lt_last_response lt" "lt_proxy (on_proxy f lt) = f (lt_proxy lt)"
  by (simp_all add: on_proxy_def lt_reply_def lt_emit_def)

lemma attempts_spaced_quiet: "(\<And>t fp. (t, EV_ConnectionAttempt fp) \<notin> set evs) \<Longrightarrow> attempts_spaced evs"
proof (unfold attempts_spaced_def, induction evs)
  case (Cons e evs)
  then have "sorted_wrt (\<lambda>(t, e) (t', e'). \<forall>fp. e = EV_ConnectionAttempt fp \<and> e' = EV_ConnectionAttempt fp \<longrightarrow> t + 2000 \<le> t') evs"
    by simp
  moreover have "snd e \<noteq> EV_ConnectionAttempt fp" for fp using Cons.prems [of "fst e" fp] by (cases e) auto
  ultimately show ?case by (cases e) auto
qed simp

text \<open>a step that reports no refused connection\<close>

lemma reject_inv_quiet:
  assumes "reject_inv now lt" "now \<le> now'" "lt_rejected lt' = lt_rejected lt"
    and "lt_events lt' = lt_events lt @ evs" "\<And>t fp. (t, EV_ConnectionAttempt fp) \<notin> set evs"
  shows "reject_inv now' lt'"
proof -
  have "attempts_spaced evs" using assms(5) by (rule attempts_spaced_quiet)
  then have "attempts_spaced (lt_events lt @ evs)"
    using assms(1,5) unfolding reject_inv_def attempts_spaced_def sorted_wrt_append by blast
  moreover have "\<exists>u. hm_get (lt_rejected lt') fp = Some u \<and> t \<le> u \<and> u \<le> now'"
    if mem: "(t, EV_ConnectionAttempt fp) \<in> set (lt_events lt')" for t fp
  proof -
    have "(t, EV_ConnectionAttempt fp) \<in> set (lt_events lt)" using mem assms(4,5) by auto
    then obtain u where "hm_get (lt_rejected lt) fp = Some u" "t \<le> u" "u \<le> now"
      using assms(1) unfolding reject_inv_def by blast
    then show ?thesis using assms(2,3) by auto
  qed
  ultimately show ?thesis using assms(4) by (simp add: reject_inv_def)
qed

lemma reject_inv_rejected:
  assumes inv: "reject_inv now lt" and le: "now \<le> now'"
  shows "reject_inv now' (handle_rejected now' fp lt)"
proof (cases "case hm_get (lt_rejected lt) fp of None \<Rightarrow> True | Some i \<Rightarrow> now' - i \<ge> 2000")
  case True
  have old: "t + 2000 \<le> now'" if t: "(t, EV_ConnectionAttempt fp) \<in> set (lt_events lt)" for t
  proof -
    obtain u where "hm_get (lt_rejected lt) fp = Some u" "t \<le> u" using inv t unfolding reject_inv_def by blast
    then show ?thesis using True by simp
  qed
  then have "attempts_spaced (lt_events lt @ [(now', EV_ConnectionAttempt fp)])"
    using inv by (auto simp: reject_inv_def attempts_spaced_def sorted_wrt_append)
  moreover have "\<exists>u. (if fp' = fp then Some now' else hm_get (lt_rejected lt) fp') = Some u \<and> t \<le> u \<and> u \<le> now'"
    if mem: "(t, EV_ConnectionAttempt fp') \<in> set (lt_events lt)" for t fp'
  proof -
    obtain u where "hm_get (lt_rejected lt) fp' = Some u" "t \<le> u" "u \<le> now" using inv mem unfolding reject_inv_def by blast
    then show ?thesis using le by auto
  qed
  ultimately show ?thesis using True by (auto simp: handle_rejected_def reject_inv_def Let_def)
next
  case False
  have "\<exists>u. (if fp' = fp then Some now' else hm_get (lt_rejected lt) fp') = Some u \<and> t \<le> u \<and> u \<le> now'"
    if mem: "(t, EV_ConnectionAttempt fp') \<in> set (lt_events lt)" for t fp'
  proof -
    obtain u where "hm_get (lt_rejected lt) fp' = Some u" "t \<le> u" "u \<le> now" using inv mem unfolding reject_inv_def by blast
    then show ?thesis using le by auto
  qed
  then show ?thesis using inv False by (auto simp: handle_rejected_def reject_inv_def Let_def)
qed

lemma tick_events:
  "lt_events (fold (\<lambda>addr lt. lt_emit now (EV_Disconnected addr) (on_proxy (proxy_send (PR_Remove addr)) lt)) as lt)
     = lt_events lt @ map (\<lambda>addr. (now, EV_Disconnected addr)) as"
  "lt_rejected (fold (\<lambda>addr lt. lt_emit now (EV_Disconnected addr) (on_proxy (proxy_send (PR_Remove addr)) lt)) as lt)
     = lt_rejected lt"
  "pr_requests (lt_proxy (fold (\<lambda>addr lt. lt_emit now (EV_Disconnected addr) (on_proxy (proxy_send (PR_Remove addr)) lt)) as lt))
     = pr_requests (lt_proxy lt) @ map PR_Remove as"
  by (induction as arbitrary: lt) (simp_all add: proxy_send_def)

lemma handle_msg_quiet:
  "lt_rejected (handle_msg c now e a lt) = lt_rejected lt \<and>
   (\<exists>evs. lt_events (handle_msg c now e a lt) = lt_events lt @ evs \<and> (\<forall>t fp. (t, EV_ConnectionAttempt fp) \<notin> set evs))"
  by (cases e) (auto simp: handle_msg_def Let_def split: option.split)

lemma request_quiet:
  "lt_rejected (handle_emulation_request now ok r lt) = lt_rejected lt \<and>
   (\<exists>evs. lt_events (handle_emulation_request now ok r lt) = lt_events lt @ evs \<and> (\<forall>t fp. (t, EV_ConnectionAttempt fp) \<notin> set evs))"
  by (cases r) (auto simp: handle_emulation_request_def split: prod.split)

lemma reject_inv_step:
  assumes inv: "reject_inv now lt" and le: "now \<le> now'"
  shows "reject_inv now' (listen_step commit (now', i) lt)"
proof (cases "lt_ended lt")
  case True
  then show ?thesis using reject_inv_quiet [OF inv le, of lt "[]"] by simp
next
  case False
  note quiet = reject_inv_quiet [OF inv le]
  show ?thesis
  proof (cases i)
    case (LI_Listen le)
    show ?thesis
    proof (cases le)
      case (LE_Msg e addr)
      then show ?thesis using False LI_Listen handle_msg_quiet [of commit now' e addr lt] quiet by auto
    next
      case (LE_Accept addr fp)
      then show ?thesis using False LI_Listen quiet by auto
    next
      case (LE_Rejected fp)
      then show ?thesis using False LI_Listen reject_inv_rejected [OF inv \<open>now \<le> now'\<close>] by simp
    qed
  next
    case (LI_Proxy b)
    then show ?thesis using False quiet by auto
  next
    case (LI_Request ok r)
    then show ?thesis using False request_quiet [of now' ok r lt] quiet by auto
  next
    case LI_Tick
    then show ?thesis using False by (auto intro!: quiet simp: handle_tick_def tick_events Let_def)
  qed
qed

text \<open>
  A peer that is not authorized cannot flood the user. Whatever else happens, two
  notifications about refused connections with the same certificate are at least two
  seconds apart (for a clock that does not run backwards).
\<close>

theorem rejections_rate_limited:
  assumes "sorted (map fst ins)"
    and "i < j" and "j < length (lt_events (fold (listen_step commit) ins (listen_task_new li)))"
    and "lt_events (fold (listen_step commit) ins (listen_task_new li)) ! i = (t, EV_ConnectionAttempt fp)"
    and "lt_events (fold (listen_step commit) ins (listen_task_new li)) ! j = (t', EV_ConnectionAttempt fp)"
  shows "t + 2000 \<le> t'"
proof -
  have run: "\<exists>now'. reject_inv now' (fold (listen_step commit) ins lt)"
    if "reject_inv now lt" "sorted (map fst ins)" "\<forall>n \<in> set (map fst ins). now \<le> n" for now lt
    using that
  proof (induction ins arbitrary: now lt)
    case (Cons x ins)
    obtain n inp where x: "x = (n, inp)" by fastforce
    have "reject_inv n (listen_step commit x lt)"
      unfolding x by (rule reject_inv_step [OF Cons.prems(1)]) (use Cons.prems(3) x in simp)
    then show ?case using Cons.IH [of n "listen_step commit x lt"] Cons.prems(2) by (auto simp: x)
  qed auto
  have "reject_inv 0 (listen_task_new li)" by (simp add: reject_inv_def attempts_spaced_def listen_task_new_def)
  from run [OF this assms(1)] have "attempts_spaced (lt_events (fold (listen_step commit) ins (listen_task_new li)))"
    by (auto simp: reject_inv_def)
  from sorted_wrt_nth_less [OF this [unfolded attempts_spaced_def] assms(2,3)] show ?thesis
    unfolding assms(4,5) by simp
qed

definition example_listener :: listener where
  "example_listener = \<lparr>li_port = 4242, li_conns = [], li_attempts = [], li_queue = [], li_sent = []\<rparr>"

lemma rejections_rate_limited_witness: "(0::nat) + 2000 \<le> 2500"
proof (rule rejections_rate_limited [of "[(0, LI_Listen (LE_Rejected ''a'')), (1000, LI_Tick), (2500, LI_Listen (LE_Rejected ''a''))]"
      0 1 "[]" example_listener _ "''a''"])
qed (simp_all add: listen_task_new_def handle_rejected_def handle_tick_def silent_def lt_emit_def hm_insert_def Let_def
  hm_get_def)

section \<open>Silent peers\<close>

text \<open>
  A peer that stopped answering does not keep keys down. A tick takes exactly the peers
  not heard of for more than a second, asks for each of them, once, that its device be
  removed and reports it as disconnected, and remembers exactly the others.
\<close>

theorem tick_drops_silent:
  assumes "hm_ok (lt_last_response lt)"
  shows "\<exists>gone. distinct gone \<and>
    (\<forall>addr. addr \<in> set gone \<longleftrightarrow> (\<exists>i. hm_get (lt_last_response lt) addr = Some i \<and> now - i > 1000)) \<and>
    pr_requests (lt_proxy (handle_tick now lt)) = pr_requests (lt_proxy lt) @ map PR_Remove gone \<and>
    lt_events (handle_tick now lt) = lt_events lt @ map (\<lambda>addr. (now, EV_Disconnected addr)) gone \<and>
    (\<forall>addr. hm_get (lt_last_response (handle_tick now lt)) addr =
       (if addr \<in> set gone then None else hm_get (lt_last_response lt) addr))"
proof (intro exI conjI allI)
  let ?m = "lt_last_response lt" and ?gone = "silent now (lt_last_response lt)"
  show "distinct ?gone" using assms by (simp add: silent_def hm_ok_def distinct_map_filter)
  show gone: "addr \<in> set ?gone \<longleftrightarrow> (\<exists>i. hm_get ?m addr = Some i \<and> now - i > 1000)" for addr
    using assms by (force simp: silent_def hm_mem_get)
  show "pr_requests (lt_proxy (handle_tick now lt)) = pr_requests (lt_proxy lt) @ map PR_Remove ?gone"
    "lt_events (handle_tick now lt) = lt_events lt @ map (\<lambda>addr. (now, EV_Disconnected addr)) ?gone"
    by (simp_all add: handle_tick_def tick_events Let_def)
  show "hm_get (lt_last_response (handle_tick now lt)) addr = (if addr \<in> set ?gone then None else hm_get ?m addr)" for addr
  proof -
    have "hm_get (filter (\<lambda>(addr, i). \<not> now - i > 1000) ?m) addr
        = (if addr \<in> set ?gone then None else hm_get ?m addr)"
      unfolding gone hm_get_filter [OF assms] by (auto split: option.split)
    then show ?thesis by (simp add: handle_tick_def Let_def)
  qed
qed

definition example_peers :: listen_task where
  "example_peers = (listen_task_new example_listener)
     \<lparr>lt_last_response := [(\<lparr>sa_ip = V4 1, sa_port = 1\<rparr>, 0), (\<lparr>sa_ip = V4 2, sa_port = 1\<rparr>, 2000)]\<rparr>"

lemma tick_drops_silent_witness:
  "hm_get (lt_last_response (handle_tick 2500 example_peers)) \<lparr>sa_ip = V4 1, sa_port = 1\<rparr> = None \<and>
   hm_get (lt_last_response (handle_tick 2500 example_peers)) \<lparr>sa_ip = V4 2, sa_port = 1\<rparr> = Some 2000"
proof -
  have "hm_ok (lt_last_response example_peers)" by (simp add: example_peers_def hm_ok_def)
  from tick_drops_silent [OF this, of 2500] show ?thesis
    by (elim exE conjE) (auto simp: example_peers_def hm_get_def)
qed

section \<open>Devices and peers\<close>

text \<open>
  Every connected peer has a handle of its own below \<open>next_id\<close>; in a session the virtual devices
  are those of the connected peers. \<open>n\<close> bounds the handles given out.
\<close>

definition et_inv :: "nat \<Rightarrow> emulation_task \<Rightarrow> bool" where
  "et_inv n et \<longleftrightarrow>
     hm_ok (et_handles et) \<and> unat (et_next_id et) \<le> n \<and>
     (\<forall>a b h. hm_get (et_handles et) a = Some h \<and> hm_get (et_handles et) b = Some h \<longrightarrow> a = b) \<and>
     (\<forall>a h. hm_get (et_handles et) a = Some h \<longrightarrow> h < et_next_id et) \<and>
     (\<forall>em. et_emulation et = Some em \<longrightarrow>
        em_inv em \<and> em_handles em = {h. \<exists>a. hm_get (et_handles et) a = Some h})"

lemma et_invD:
  assumes "et_inv n et"
  shows "hm_ok (et_handles et)" "unat (et_next_id et) \<le> n"
    "hm_get (et_handles et) a = Some h \<Longrightarrow> hm_get (et_handles et) b = Some h \<Longrightarrow> a = b"
    "hm_get (et_handles et) a = Some h \<Longrightarrow> h < et_next_id et"
    "et_emulation et = Some em \<Longrightarrow> em_inv em"
    "et_emulation et = Some em \<Longrightarrow> em_handles em = {h. \<exists>a. hm_get (et_handles et) a = Some h}"
  using assms by (auto simp: et_inv_def)

lemma em_frames:
  "em_handles (snd (em_create h em)) = insert h (em_handles em)"
  "em_handles (snd (em_consume e h em)) = em_handles em"
  "em_handles (em_destroy h em) = em_handles em - {h}"
proof -
  show "em_handles (snd (em_create h em)) = insert h (em_handles em)"
    by (auto simp: em_create_def em_call_def)
  show "em_handles (snd (em_consume e h em)) = em_handles em"
    by (auto simp: em_consume_def em_update_pressed_keys_def split: event.split keyboard_event.split option.split)
  show "em_handles (em_destroy h em) = em_handles em - {h}"
    using release_keys_calls [of h em] by (auto simp: em_destroy_eq em_call_def)
qed

lemma start_emulation_inv: "et_inv n et \<Longrightarrow> et_inv n (start_emulation created et)"
proof (cases created)
  case (Some answers)
  assume inv: "et_inv n et"
  have "em_inv (fold (\<lambda>h em. snd (em_create h em)) hs em) \<and>
      em_handles (fold (\<lambda>h em. snd (em_create h em)) hs em) = em_handles em \<union> set hs" if "em_inv em" for hs em
    using that by (induction hs arbitrary: em) (auto simp: em_create_inv em_frames)
  from this [OF em_inv_new] show ?thesis
    using inv hm_values_get [OF et_invD(1) [OF inv]]
    by (auto simp: start_emulation_def Some et_inv_def input_emulation_new_def)
qed (simp add: start_emulation_def)

lemma end_emulation_inv: "et_inv n et \<Longrightarrow> et_inv n (end_emulation em et)"
  by (simp add: end_emulation_def et_inv_def)

lemma handle_for_inv:
  assumes inv: "et_inv n et" and em: "et_emulation et = Some em" and n: "n < 2 ^ 64 - 1"
    and r: "emulation_handle_for addr em et = (h, em', et')"
  shows "et_inv (Suc n) (et'\<lparr>et_emulation := Some em'\<rparr>)"
proof (cases "hm_get (et_handles et) addr")
  case (Some h')
  then show ?thesis using r inv em by (auto simp: emulation_handle_for_def et_inv_def)
next
  case None
  have step: "unat (et_next_id et + 1) = Suc (unat (et_next_id et))"
    using et_invD(2) [OF inv] n by (simp add: unat_word_ariths)
  have "h < et_next_id et \<Longrightarrow> h < et_next_id et + 1" for h
    using step by (simp add: word_less_nat_alt)
  moreover have "et_next_id et < et_next_id et + 1" using step by (simp add: word_less_nat_alt)
  moreover have fresh: "hm_get (et_handles et) a \<noteq> Some (et_next_id et)" for a
    using et_invD(4) [OF inv, of a "et_next_id et"] by auto
  moreover have "em_inv (snd (em_create (et_next_id et) em))"
    by (rule em_create_inv [OF et_invD(5) [OF inv em]])
  moreover have "insert (et_next_id et) {h. \<exists>a. hm_get (et_handles et) a = Some h} =
      {h. \<exists>a. (if a = addr then Some (et_next_id et) else hm_get (et_handles et) a) = Some h}"
    using None by (auto split: if_splits) (metis option.distinct(1))
  ultimately show ?thesis
    using r inv em None et_invD(2) [OF inv]
    by (auto simp: emulation_handle_for_def et_inv_def em_frames step Let_def split: if_splits)
qed

lemma emulation_request_inv:
  assumes inv: "et_inv n et" and n: "n < 2 ^ 64 - 1"
  shows "et_inv (Suc n) (emulation_request_step created r et)"
proof -
  have weak: "et_inv (Suc n) et'" if "et_inv n et'" for et' using that by (auto simp: et_inv_def)
  show ?thesis
  proof (cases "et_ended et \<or> et_emulation et = None")
    case True
    then show ?thesis
    proof -
      have "et_inv (Suc n) (et\<lparr>et_ended := True\<rparr>)" using weak [OF inv] by (simp add: et_inv_def)
      then show ?thesis
        using True weak [OF inv] weak [OF start_emulation_inv [OF inv]]
        by (cases r) (auto simp: emulation_request_step_def)
    qed
  next
    case False
    then obtain em where em: "\<not> et_ended et" "et_emulation et = Some em" by auto
    show ?thesis
    proof (cases r)
      case (PR_Input e addr)
      obtain h em' et' where hf: "emulation_handle_for addr em et = (h, em', et')" by (metis surj_pair)
      note inv' = handle_for_inv [OF inv em(2) n hf]
      obtain ok em'' where c: "em_consume e h em' = (ok, em'')" by fastforce
      have "em_inv em''" "em_handles em'' = em_handles em'"
        using em_consume_inv [of em' e h] em_frames(2) [of e h em'] et_invD(5) [OF inv', of em'] by (simp_all add: c)
      then have "et_inv (Suc n) (et'\<lparr>et_emulation := Some em''\<rparr>)"
        using inv' by (auto simp: et_inv_def)
      moreover have "et_inv (Suc n) (end_emulation em'' et')"
        using inv' by (auto simp: et_inv_def end_emulation_def)
      ultimately show ?thesis by (simp add: emulation_request_step_def em PR_Input hf c)
    next
      case (PR_Remove addr)
      show ?thesis
      proof (cases "hm_get (et_handles et) addr")
        case None
        then show ?thesis using weak [OF inv] by (simp add: emulation_request_step_def em PR_Remove)
      next
        case (Some h)
        have "em_inv (em_destroy h em)" by (rule em_destroy_inv [OF et_invD(5) [OF inv em(2)]])
        moreover have "em_handles (em_destroy h em) = {h'. \<exists>a. a \<noteq> addr \<and> hm_get (et_handles et) a = Some h'}"
        proof -
          have "em_handles (em_destroy h em) = {h'. \<exists>a. hm_get (et_handles et) a = Some h'} - {h}"
            unfolding em_frames et_invD(6) [OF inv em(2)] ..
          moreover have "h' \<noteq> h \<longleftrightarrow> a \<noteq> addr" if "hm_get (et_handles et) a = Some h'" for a h'
            using et_invD(3) [OF inv Some, of a] Some that by auto
          ultimately show ?thesis by blast
        qed
        ultimately show ?thesis
          using inv Some by (auto simp: emulation_request_step_def em PR_Remove et_inv_def)
      qed
    next
      case PR_Terminate
      then show ?thesis using weak [OF end_emulation_inv [OF inv]] by (simp add: emulation_request_step_def em)
    next
      case PR_Reenable
      then show ?thesis using weak [OF inv] by (simp add: emulation_request_step_def em)
    qed
  qed
qed



section \<open>Observations\<close>

text \<open>
  The callback of the listener asserts that the peer sent one certificate. A peer that is not
  authorized but sends a chain of two makes it panic, and the program is built to abort.
\<close>

lemma certificate_chain_panics: "length certs \<noteq> 1 \<Longrightarrow> fst (listener_verify sha256 keys certs li) = Panic"
  by (auto simp: listener_verify_def split: list.split)

end
