(* ===== verification/FileNames.thy ===== *)
theory FileNames
  imports Strings
begin

text \<open>
  The names a peer offers, reduced to something safe (\<open>src/sync/files.rs\<close>: \<open>sanitize_name\<close>,
  \<open>sanitize_rel_path\<close>, the staging names). A path is the list of its components.
\<close>

section \<open>Splitting and trimming\<close>

text \<open>\<open>str::split\<close> at every character with a property\<close>

fun split_on :: "(char \<Rightarrow> bool) \<Rightarrow> string \<Rightarrow> string list" where
  "split_on P [] = [[]]"
| "split_on P (c # s) =
     (if P c then [] # split_on P s
      else case split_on P s of [] \<Rightarrow> [[c]] | x # xs \<Rightarrow> (c # x) # xs)"

text \<open>\<open>rsplit_once\<close>\<close>

definition rsplit_once :: "char \<Rightarrow> string \<Rightarrow> (string \<times> string) option" where
  "rsplit_once c s =
     (if c \<in> set s
      then Some (rev (tl (dropWhile (\<lambda>d. d \<noteq> c) (rev s))), rev (takeWhile (\<lambda>d. d \<noteq> c) (rev s)))
      else None)"

definition trim_matches :: "(char \<Rightarrow> bool) \<Rightarrow> string \<Rightarrow> string" where
  "trim_matches P s = rev (dropWhile P (rev (dropWhile P s)))"

definition to_ascii_uppercase :: "string \<Rightarrow> string" where
  "to_ascii_uppercase =
     map (\<lambda>c. let n = (of_char c :: nat) in if 97 \<le> n \<and> n \<le> 122 then char_of (n - 32) else c)"

lemma split_on_not_Nil [simp]: "split_on P s \<noteq> []"
  by (induction s) (auto split: list.splits)

lemma split_on_parts: "x \<in> set (split_on P s) \<Longrightarrow> c \<in> set x \<Longrightarrow> c \<in> set s \<and> \<not> P c"
  by (induction s arbitrary: x) (force split: if_splits list.splits)+

lemma split_on_free: "\<forall>c \<in> set s. \<not> P c \<Longrightarrow> split_on P s = [s]"
  by (induction s) auto

lemma split_on_append_sep: "P c \<Longrightarrow> split_on P (s @ c # t) = split_on P s @ split_on P t"
  by (induction s) (auto split: list.splits simp: Cons_eq_append_conv)

lemma set_trim_matches: "set (trim_matches P s) \<subseteq> set s"
  by (auto simp: trim_matches_def dest!: set_dropWhileD)

lemma trim_matches_ends:
  assumes "trim_matches P s \<noteq> []"
  shows "\<not> P (hd (trim_matches P s))" "\<not> P (last (trim_matches P s))"
proof -
  let ?a = "dropWhile P s" let ?b = "dropWhile P (rev ?a)"
  have b: "?b \<noteq> []" using assms by (simp add: trim_matches_def)
  show "\<not> P (last (trim_matches P s))"
    using hd_dropWhile [OF b] b by (simp add: trim_matches_def last_rev)
  have "suffix ?b (rev ?a)" by (rule suffix_dropWhile)
  then have "prefix (rev ?b) ?a" by (simp add: suffix_to_prefix)
  then have "hd (rev ?b) = hd ?a" using b by (metis hd_append2 prefix_def rev_is_Nil_conv)
  moreover have "?a \<noteq> []" using b by (metis dropWhile.simps(1) rev.simps(1))
  ultimately show "\<not> P (hd (trim_matches P s))"
    using hd_dropWhile [of P s] by (simp add: trim_matches_def)
qed

lemma trim_matches_fixed:
  assumes "s = [] \<or> \<not> P (hd s) \<and> \<not> P (last s)"
  shows "trim_matches P s = s"
proof (cases s)
  case (Cons c s')
  then have "dropWhile P s = s" using assms by simp
  moreover have "dropWhile P (rev s) = rev s"
  proof (cases s rule: rev_cases)
    case (snoc ys y)
    then show ?thesis using assms by simp
  qed simp
  ultimately show ?thesis by (simp add: trim_matches_def)
qed (simp add: trim_matches_def)

lemma trim_matches_Nil: "trim_matches P s = [] \<longleftrightarrow> (\<forall>c \<in> set s. P c)"
proof
  assume nil: "trim_matches P s = []"
  show "\<forall>c \<in> set s. P c"
  proof (rule ccontr)
    assume "\<not> (\<forall>c \<in> set s. P c)"
    then have "dropWhile P s \<noteq> []" by (simp add: dropWhile_eq_Nil_conv)
    then have "\<not> P (hd (dropWhile P s))" and "hd (dropWhile P s) \<in> set (dropWhile P s)"
      by (simp_all add: hd_dropWhile)
    then have "dropWhile P (rev (dropWhile P s)) \<noteq> []" by (auto simp: dropWhile_eq_Nil_conv)
    then show False using nil by (simp add: trim_matches_def)
  qed
next
  assume "\<forall>c \<in> set s. P c"
  then have "dropWhile P s = []" by simp
  then show "trim_matches P s = []" unfolding trim_matches_def by (simp only: rev.simps dropWhile.simps)
qed

section \<open>File names\<close>

definition is_separator :: "char \<Rightarrow> bool" where
  "is_separator c \<longleftrightarrow> c = CHR ''/'' \<or> c = CHR 0x5C"

definition invalid_char :: "char \<Rightarrow> bool" where
  "invalid_char c \<longleftrightarrow> c \<in> set (''<>:/|?*'' @ [CHR 0x22, CHR 0x5C]) \<or> (of_char c :: nat) < 0x20"

definition is_edge :: "char \<Rightarrow> bool" where
  "is_edge c \<longleftrightarrow> c = CHR '' '' \<or> c = CHR ''.''"

definition stem_of :: "string \<Rightarrow> string" where
  "stem_of name = to_ascii_uppercase (takeWhile (\<lambda>c. c \<noteq> CHR ''.'') name)"

definition reserved_stem :: "string \<Rightarrow> bool" where
  "reserved_stem stem \<longleftrightarrow>
     stem \<in> {''CON'', ''PRN'', ''AUX'', ''NUL''} \<or>
     ((prefix ''COM'' stem \<or> prefix ''LPT'' stem) \<and> length stem = 4 \<and>
      (of_char (stem ! 3) :: nat) \<in> {48..57} \<and> stem ! 3 \<noteq> CHR ''0'')"

definition basename :: "string \<Rightarrow> string" where
  "basename offered = last (split_on is_separator offered)"

definition sanitize_name :: "string \<Rightarrow> string option" where
  "sanitize_name offered =
     (let name = trim_matches is_edge (map (\<lambda>c. if invalid_char c then CHR ''_'' else c) (basename offered)) in
      if name = [] then None
      else if reserved_stem (stem_of name) then Some (CHR ''_'' # name) else Some name)"

definition MAX_TREE_DEPTH :: nat where "MAX_TREE_DEPTH = 64"

text \<open>
  The loop over the components; \<open>Component::Normal\<close> holds of what is neither empty nor a dot
  name and has no separator.
\<close>

fun sanitize_components :: "nat \<Rightarrow> string list \<Rightarrow> string list option" where
  "sanitize_components depth [] = Some []"
| "sanitize_components depth (c # cs) =
     (if c = [] then None
      else if depth + 1 > MAX_TREE_DEPTH then None
      else case sanitize_name c of
        None \<Rightarrow> None
      | Some n \<Rightarrow> map_option ((#) n) (sanitize_components (depth + 1) cs))"

definition normal_component :: "string \<Rightarrow> bool" where
  "normal_component c \<longleftrightarrow> c \<noteq> [] \<and> c \<noteq> ''.'' \<and> c \<noteq> ''..'' \<and> CHR ''/'' \<notin> set c"

definition sanitize_rel_path :: "string \<Rightarrow> string list option" where
  "sanitize_rel_path rel =
     (if rel = [] \<or> length rel > 4096 then None
      else case sanitize_components 0 (split_on is_separator rel) of
        None \<Rightarrow> None
      | Some out \<Rightarrow> if list_all normal_component out then Some out else None)"

definition tree_staging_name :: "u64 \<Rightarrow> string" where
  "tree_staging_name tree = ''.vylo-tree-'' @ show_word tree"

definition drag_staging_name :: "u64 \<Rightarrow> string" where
  "drag_staging_name drag = ''.vylo-drag-'' @ show_word drag"

section \<open>What a sanitized name is\<close>

text \<open>
  The names a receiver may use: not empty, no separator, no character a platform refuses, no
  space or dot at either end (so neither a dot name nor a hidden one), no device name.
\<close>

definition safe_name :: "string \<Rightarrow> bool" where
  "safe_name n \<longleftrightarrow>
     n \<noteq> [] \<and> list_all (\<lambda>c. \<not> invalid_char c) n \<and> \<not> is_edge (hd n) \<and> \<not> is_edge (last n) \<and>
     \<not> reserved_stem (stem_of n)"

lemma separator_invalid: "is_separator c \<Longrightarrow> invalid_char c"
  by (auto simp: is_separator_def invalid_char_def)

lemma underscore_fine: "\<not> invalid_char CHR ''_''" "\<not> is_edge CHR ''_''"
  by (simp_all add: invalid_char_def is_edge_def)

lemma edge_fine: "is_edge c \<Longrightarrow> \<not> invalid_char c"
  by (auto simp: is_edge_def invalid_char_def)

lemma to_ascii_uppercase_underscore: "to_ascii_uppercase (CHR ''_'' # s) = CHR ''_'' # to_ascii_uppercase s"
  by (simp add: to_ascii_uppercase_def)

lemma underscore_not_reserved: "\<not> reserved_stem (stem_of (CHR ''_'' # s))"
  by (simp add: reserved_stem_def stem_of_def to_ascii_uppercase_underscore)

lemma safe_name_no_separator: "safe_name n \<Longrightarrow> \<forall>c \<in> set n. \<not> is_separator c"
  using separator_invalid by (auto simp: safe_name_def list_all_iff)

lemma basename_safe: "safe_name n \<Longrightarrow> basename n = n"
  by (simp add: basename_def split_on_free [OF safe_name_no_separator])

lemma sanitize_safe: "safe_name n \<Longrightarrow> sanitize_name n = Some n"
proof -
  assume safe: "safe_name n"
  then have m: "map (\<lambda>c. if invalid_char c then CHR ''_'' else c) n = n"
    by (intro map_idI) (auto simp: safe_name_def list_all_iff)
  have "trim_matches is_edge n = n"
    using safe by (intro trim_matches_fixed) (auto simp: safe_name_def)
  then show ?thesis using safe m by (simp add: sanitize_name_def basename_safe Let_def safe_name_def)
qed

lemma sanitize_name_safe_name:
  assumes "sanitize_name s = Some n"
  shows "safe_name n"
proof -
  let ?m = "map (\<lambda>c. if invalid_char c then CHR ''_'' else c) (basename s)"
  let ?n = "trim_matches is_edge ?m"
  have ne: "?n \<noteq> []" using assms by (auto simp: sanitize_name_def Let_def split: if_splits)
  have fine: "list_all (\<lambda>c. \<not> invalid_char c) ?n"
    using set_trim_matches [of is_edge ?m] underscore_fine by (auto simp: list_all_iff split: if_splits)
  note ends = trim_matches_ends [OF ne]
  show ?thesis
  proof (cases "reserved_stem (stem_of ?n)")
    case True
    then have "n = CHR ''_'' # ?n" using assms ne by (simp add: sanitize_name_def Let_def)
    then show ?thesis using fine ends ne underscore_fine underscore_not_reserved by (simp add: safe_name_def)
  next
    case False
    then have "n = ?n" using assms ne by (simp add: sanitize_name_def Let_def)
    then show ?thesis using False fine ends ne by (simp add: safe_name_def)
  qed
qed

lemma sanitize_name_None_iff: "sanitize_name s = None \<longleftrightarrow> set (basename s) \<subseteq> {CHR '' '', CHR ''.''}"
proof -
  have "is_edge (if invalid_char c then CHR ''_'' else c) \<longleftrightarrow> is_edge c" for c
    using underscore_fine edge_fine [of c] by auto
  then have "(\<forall>c \<in> set (map (\<lambda>c. if invalid_char c then CHR ''_'' else c) (basename s)). is_edge c)
      \<longleftrightarrow> (\<forall>c \<in> set (basename s). is_edge c)"
    by (simp only: set_map ball_simps)
  then have "sanitize_name s = None \<longleftrightarrow> (\<forall>c \<in> set (basename s). is_edge c)"
    by (simp only: sanitize_name_def Let_def trim_matches_Nil split: if_split) simp
  then show ?thesis unfolding is_edge_def by blast
qed


section \<open>Paths inside a folder\<close>

lemma sanitize_components_safe:
  assumes "sanitize_components d cs = Some out" and "d \<le> MAX_TREE_DEPTH"
  shows "length out = length cs \<and> list_all safe_name out \<and> d + length out \<le> MAX_TREE_DEPTH"
  using assms
proof (induction d cs arbitrary: out rule: sanitize_components.induct)
  case (2 depth c cs)
  then obtain n rest where "sanitize_name c = Some n" "sanitize_components (depth + 1) cs = Some rest"
    "out = n # rest" "c \<noteq> []" "depth + 1 \<le> MAX_TREE_DEPTH"
    by (auto split: if_splits option.splits)
  note parts = this
  have "length rest = length cs \<and> list_all safe_name rest \<and> depth + 1 + length rest \<le> MAX_TREE_DEPTH"
    using "2.IH" [OF _ _ parts(1,2)] parts(4,5) by simp
  then show ?case using parts sanitize_name_safe_name [OF parts(1)] by simp
qed simp

lemma safe_name_normal: "safe_name n \<Longrightarrow> normal_component n"
proof -
  assume safe: "safe_name n"
  then have "n \<noteq> []" "hd n \<noteq> CHR ''.''" by (simp_all add: safe_name_def is_edge_def)
  then have "n \<noteq> ''.''" "n \<noteq> ''..''" by auto
  moreover have "CHR ''/'' \<notin> set n" using safe_name_no_separator [OF safe] by (auto simp: is_separator_def)
  ultimately show "normal_component n" using \<open>n \<noteq> []\<close> by (simp add: normal_component_def)
qed

lemma sanitize_components_safe_id:
  "list_all safe_name cs \<Longrightarrow> d + length cs \<le> MAX_TREE_DEPTH \<Longrightarrow> sanitize_components d cs = Some cs"
proof (induction cs arbitrary: d)
  case (Cons c cs)
  then show ?case using sanitize_safe by (auto simp: safe_name_def)
qed simp

lemma sanitize_rel_path_safe:
  assumes "sanitize_rel_path rel = Some out"
  shows "out \<noteq> []" "list_all safe_name out" "length out \<le> MAX_TREE_DEPTH"
    "length out = length (split_on is_separator rel)"
proof -
  have "sanitize_components 0 (split_on is_separator rel) = Some out"
    using assms by (auto simp: sanitize_rel_path_def split: if_splits option.splits)
  from sanitize_components_safe [OF this]
  have *: "length out = length (split_on is_separator rel)" "list_all safe_name out" "length out \<le> MAX_TREE_DEPTH"
    by auto
  then show "list_all safe_name out" "length out \<le> MAX_TREE_DEPTH"
    "length out = length (split_on is_separator rel)" by auto
  show "out \<noteq> []" using * split_on_not_Nil [of is_separator rel] by fastforce
qed

end
