(* ===== verification/Fs.thy ===== *)
theory Fs
  imports Strings
begin

text \<open>
  What the code uses of \<open>std::fs\<close> and \<open>tokio::fs\<close>: a tree of directories and regular files on
  one case sensitive volume, with open files as inodes, so that a file that is removed or renamed
  while it is open is written where it is. A path is the list of its components below the root.
  \<open>fs_faults\<close> says which of the next operations fail, with how many bytes of a write done and
  which message; once it is used up they succeed when the tree allows it.
\<close>

type_synonym path = "string list"

datatype node = Dir | Reg nat

record fs =
  fs_tree :: "(path, node) hmap"
  fs_data :: "(nat, u8 list) hmap"
  fs_next :: nat
  fs_faults :: "(nat \<times> string) option list"

type_synonym 'a io = "fs \<Rightarrow> ('a, string) outcome \<times> fs"

definition fs_get :: "path \<Rightarrow> fs \<Rightarrow> node option" where
  "fs_get p fs = (if p = [] then Some Dir else hm_get (fs_tree fs) p)"

definition path_exists :: "path \<Rightarrow> fs \<Rightarrow> bool" where
  "path_exists p fs \<longleftrightarrow> fs_get p fs \<noteq> None"

definition is_dir :: "path \<Rightarrow> fs \<Rightarrow> bool" where
  "is_dir p fs \<longleftrightarrow> fs_get p fs = Some Dir"

definition fs_content :: "nat \<Rightarrow> fs \<Rightarrow> u8 list" where
  "fs_content i fs = (case hm_get (fs_data fs) i of Some d \<Rightarrow> d | None \<Rightarrow> [])"

definition read_file :: "path \<Rightarrow> fs \<Rightarrow> u8 list option" where
  "read_file p fs = (case fs_get p fs of Some (Reg i) \<Rightarrow> Some (fs_content i fs) | _ \<Rightarrow> None)"

definition show_path :: "path \<Rightarrow> string" where
  "show_path p = concat (map ((#) CHR ''/'') p)"

section \<open>Operations\<close>

definition io_fault :: "(nat \<Rightarrow> string \<Rightarrow> 'a io) \<Rightarrow> 'a io \<Rightarrow> 'a io" where
  "io_fault fail run fs =
     (case fs_faults fs of
        [] \<Rightarrow> run fs
      | None # faults \<Rightarrow> run (fs\<lparr>fs_faults := faults\<rparr>)
      | Some (n, e) # faults \<Rightarrow> fail n e (fs\<lparr>fs_faults := faults\<rparr>))"

abbreviation io :: "'a io \<Rightarrow> 'a io" where
  "io \<equiv> io_fault (\<lambda>n e fs. (Err e, fs))"

definition ENOENT :: string where "ENOENT = ''No such file or directory (os error 2)''"
definition EEXIST :: string where "EEXIST = ''File exists (os error 17)''"
definition ENOTDIR :: string where "ENOTDIR = ''Not a directory (os error 20)''"
definition EISDIR :: string where "EISDIR = ''Is a directory (os error 21)''"
definition EINVAL :: string where "EINVAL = ''Invalid argument (os error 22)''"
definition ENOTEMPTY :: string where "ENOTEMPTY = ''Directory not empty (os error 39)''"

definition put_node :: "path \<Rightarrow> node \<Rightarrow> fs \<Rightarrow> fs" where
  "put_node p n fs = fs\<lparr>fs_tree := hm_insert p n (fs_tree fs)\<rparr>"

definition put_data :: "nat \<Rightarrow> u8 list \<Rightarrow> fs \<Rightarrow> fs" where
  "put_data i d fs = fs\<lparr>fs_data := hm_insert i d (fs_data fs)\<rparr>"

definition make_dir :: "path \<Rightarrow> fs \<Rightarrow> fs" where
  "make_dir p fs = (if path_exists p fs then fs else put_node p Dir fs)"

definition create_dir_all :: "path \<Rightarrow> unit io" where
  "create_dir_all p = io (\<lambda>fs.
     if list_ex (\<lambda>q. path_exists q fs \<and> \<not> is_dir q fs) (prefixes p) then (Err EEXIST, fs)
     else (Ok (), fold make_dir (prefixes p) fs))"

text \<open>\<open>File::create\<close>: the inode of the open file, truncated if it was there\<close>

definition new_file :: "path \<Rightarrow> fs \<Rightarrow> nat \<times> fs" where
  "new_file p fs =
     (fs_next fs, put_data (fs_next fs) [] (put_node p (Reg (fs_next fs)) (fs\<lparr>fs_next := fs_next fs + 1\<rparr>)))"

definition create_file :: "path \<Rightarrow> nat io" where
  "create_file p = io (\<lambda>fs.
     if is_dir p fs then (Err EISDIR, fs)
     else if \<not> is_dir (butlast p) fs then (Err ENOENT, fs)
     else case fs_get p fs of
       Some (Reg i) \<Rightarrow> (Ok i, put_data i [] fs)
     | _ \<Rightarrow> (case new_file p fs of (i, fs) \<Rightarrow> (Ok i, fs)))"

definition append_data :: "nat \<Rightarrow> u8 list \<Rightarrow> fs \<Rightarrow> fs" where
  "append_data i d fs = put_data i (fs_content i fs @ d) fs"

definition write_all :: "nat \<Rightarrow> u8 list \<Rightarrow> unit io" where
  "write_all i d =
     io_fault (\<lambda>n e fs. (Err e, append_data i (take n d) fs)) (\<lambda>fs. (Ok (), append_data i d fs))"

definition drop_nodes :: "(path \<Rightarrow> bool) \<Rightarrow> fs \<Rightarrow> fs" where
  "drop_nodes P fs = fs\<lparr>fs_tree := filter (\<lambda>(p, _). \<not> P p) (fs_tree fs)\<rparr>"

definition remove_file :: "path \<Rightarrow> unit io" where
  "remove_file p = io (\<lambda>fs. case fs_get p fs of
       Some (Reg _) \<Rightarrow> (Ok (), drop_nodes ((=) p) fs)
     | Some Dir \<Rightarrow> (Err EISDIR, fs)
     | None \<Rightarrow> (Err ENOENT, fs))"

definition remove_dir_all :: "path \<Rightarrow> unit io" where
  "remove_dir_all p = io (\<lambda>fs. case fs_get p fs of
       Some Dir \<Rightarrow> if p = [] then (Err EINVAL, fs) else (Ok (), drop_nodes (prefix p) fs)
     | Some (Reg _) \<Rightarrow> (Err ENOTDIR, fs)
     | None \<Rightarrow> (Err ENOENT, fs))"

definition move_nodes :: "path \<Rightarrow> path \<Rightarrow> fs \<Rightarrow> fs" where
  "move_nodes p q fs =
     fs\<lparr>fs_tree := map (\<lambda>(r, n). (if prefix p r then q @ drop (length p) r else r, n))
                    (filter (\<lambda>(r, _). r \<noteq> q) (fs_tree fs))\<rparr>"

definition rename :: "path \<Rightarrow> path \<Rightarrow> unit io" where
  "rename p q = io (\<lambda>fs.
     if p = q \<and> path_exists p fs then (Ok (), fs)
     else case fs_get p fs of
       None \<Rightarrow> (Err ENOENT, fs)
     | Some (Reg i) \<Rightarrow>
         if is_dir q fs then (Err EISDIR, fs)
         else if \<not> is_dir (butlast q) fs then (Err ENOENT, fs)
         else (Ok (), put_node q (Reg i) (drop_nodes ((=) p) fs))
     | Some Dir \<Rightarrow>
         if prefix p q then (Err EINVAL, fs)
         else if path_exists q fs \<and> \<not> is_dir q fs then (Err ENOTDIR, fs)
         else if list_ex (\<lambda>r. strict_prefix q r) (hm_keys (fs_tree fs)) then (Err ENOTEMPTY, fs)
         else if \<not> is_dir (butlast q) fs then (Err ENOENT, fs)
         else (Ok (), move_nodes p q fs))"

text \<open>\<open>std::fs::copy\<close>\<close>

definition copy_file :: "path \<Rightarrow> path \<Rightarrow> unit io" where
  "copy_file p q fs =
     (case read_file p fs of
        None \<Rightarrow> (Err ENOENT, fs)
      | Some d \<Rightarrow> (case create_file q fs of
            (Ok i, fs) \<Rightarrow> write_all i d fs
          | (Err e, fs) \<Rightarrow> (Err e, fs)
          | (Panic, fs) \<Rightarrow> (Panic, fs)))"

section \<open>What an operation leaves alone\<close>

text \<open>
  \<open>R\<close> are the directories an operation may work in. \<open>kept\<close>: what is outside of them is as it
  was, except that missing directories on the way to them may have been made. \<open>fs_safe\<close>: the open files
  \<open>H\<close> and the files inside share no inode with those outside.
\<close>

definition under :: "path set \<Rightarrow> path \<Rightarrow> bool" where
  "under R p \<longleftrightarrow> (\<exists>r \<in> R. prefix r p)"

definition above :: "path set \<Rightarrow> path \<Rightarrow> bool" where
  "above R p \<longleftrightarrow> (\<exists>r \<in> R. prefix p r)"

definition fs_safe :: "path set \<Rightarrow> nat set \<Rightarrow> fs \<Rightarrow> bool" where
  "fs_safe R H fs \<longleftrightarrow> hm_ok (fs_tree fs) \<and>
     (\<forall>p i. fs_get p fs = Some (Reg i) \<longrightarrow> i < fs_next fs) \<and> (\<forall>i \<in> H. i < fs_next fs) \<and>
     (\<forall>q i. \<not> under R q \<and> fs_get q fs = Some (Reg i) \<longrightarrow>
        i \<notin> H \<and> (\<forall>p. under R p \<longrightarrow> fs_get p fs \<noteq> Some (Reg i)))"

definition kept :: "path set \<Rightarrow> fs \<Rightarrow> fs \<Rightarrow> bool" where
  "kept R fs fs' \<longleftrightarrow>
     (\<forall>p. \<not> under R p \<longrightarrow>
        (fs_get p fs' = fs_get p fs \<or> above R p \<and> fs_get p fs = None \<and> fs_get p fs' = Some Dir) \<and>
        (\<forall>i. fs_get p fs = Some (Reg i) \<longrightarrow> fs_content i fs' = fs_content i fs))"

lemma kept_refl [simp]: "kept R fs fs"
  by (simp add: kept_def)

lemma kept_trans: "kept R fs fs' \<Longrightarrow> kept R fs' fs'' \<Longrightarrow> kept R fs fs''"
  unfolding kept_def by (metis option.distinct(1) option.inject node.distinct(1))

lemma kept_read: "kept R fs fs' \<Longrightarrow> \<not> under R p \<Longrightarrow> read_file p fs = Some d \<Longrightarrow> read_file p fs' = Some d"
  unfolding kept_def read_file_def by (auto split: option.splits node.splits)

lemma fs_safe_subset: "fs_safe R H fs \<Longrightarrow> H' \<subseteq> H \<Longrightarrow> fs_safe R H' fs"
  unfolding fs_safe_def by blast

text \<open>the two together: a step inside \<open>R\<close> that ends with the open files \<open>H'\<close>\<close>

definition inside :: "path set \<Rightarrow> nat set \<Rightarrow> fs \<Rightarrow> nat set \<Rightarrow> fs \<Rightarrow> bool" where
  "inside R H fs H' fs' \<longleftrightarrow> (fs_safe R H fs \<longrightarrow> fs_safe R H' fs' \<and> kept R fs fs')"

lemma inside_refl [simp]: "inside R H fs H fs"
  by (simp add: inside_def)

lemma inside_trans: "inside R H fs H' fs' \<Longrightarrow> inside R H' fs' H'' fs'' \<Longrightarrow> inside R H fs H'' fs''"
  unfolding inside_def using kept_trans by blast

lemma inside_subset: "inside R H fs H' fs' \<Longrightarrow> H'' \<subseteq> H' \<Longrightarrow> inside R H fs H'' fs'"
  unfolding inside_def using fs_safe_subset by blast


lemma fs_get_put_node [simp]:
  "fs_get q (put_node p n fs) = (if q = [] then Some Dir else if q = p then Some n else fs_get q fs)"
  by (simp add: fs_get_def put_node_def)

lemma fs_get_put_data [simp]: "fs_get q (put_data i d fs) = fs_get q fs"
  by (simp add: fs_get_def put_data_def)

lemma fs_get_next [simp]: "fs_get q (fs\<lparr>fs_next := n\<rparr>) = fs_get q fs"
  "fs_get q (fs\<lparr>fs_faults := l\<rparr>) = fs_get q fs"
  by (simp_all add: fs_get_def)

lemma fs_content_simps [simp]:
  "fs_content j (put_data i d fs) = (if j = i then d else fs_content j fs)"
  "fs_content j (put_node p n fs) = fs_content j fs"
  "fs_content j (drop_nodes P fs) = fs_content j fs"
  "fs_content j (move_nodes p q fs) = fs_content j fs"
  "fs_content j (fs\<lparr>fs_next := m\<rparr>) = fs_content j fs"
  "fs_content j (fs\<lparr>fs_faults := l\<rparr>) = fs_content j fs"
  by (simp_all add: fs_content_def put_data_def put_node_def drop_nodes_def move_nodes_def)

lemma fs_next_simps [simp]:
  "fs_next (put_data i d fs) = fs_next fs" "fs_next (put_node p n fs) = fs_next fs"
  "fs_next (drop_nodes P fs) = fs_next fs" "fs_next (move_nodes p q fs) = fs_next fs"
  by (simp_all add: put_data_def put_node_def drop_nodes_def move_nodes_def)

lemma hm_get_filter_keys: "hm_get (filter (\<lambda>(k, _). P k) m) k = (if P k then hm_get m k else None)"
  unfolding hm_get_def by (induction m) auto

lemma fs_get_drop_nodes [simp]:
  "fs_get q (drop_nodes P fs) = (if q = [] then Some Dir else if P q then None else fs_get q fs)"
  by (simp add: fs_get_def drop_nodes_def hm_get_filter_keys [where P = "\<lambda>k. \<not> P k"])

lemma fs_get_Nil [simp]: "fs_get [] fs = Some Dir"
  by (simp add: fs_get_def)

lemma hm_get_map_keys_other:
  assumes "\<And>k'. f k' = k \<Longrightarrow> k' = k" and "f k = k"
  shows "hm_get (map (\<lambda>(k, v). (f k, v)) m) k = hm_get m k"
proof -
  have other: "k' \<noteq> k \<Longrightarrow> f k' \<noteq> k" for k' using assms(1) by blast
  show ?thesis
  proof (induction m)
    case (Cons a m)
    obtain b c where "a = (b, c)" by fastforce
    then show ?case using Cons other [of b] assms(2) by (cases "b = k") (auto simp: hm_get_def)
  qed simp
qed

lemma hm_ok_map_keys:
  assumes "hm_ok m" and "inj_on f (set (map fst m))"
  shows "hm_ok (map (\<lambda>(k, v). (f k, v)) m)"
proof -
  have "map fst (map (\<lambda>(k, v). (f k, v)) m) = map f (map fst m)" by auto
  then show ?thesis using assms unfolding hm_ok_def by (simp only: distinct_map)
qed

text \<open>what \<open>move_nodes\<close> leaves alone, and where the files it moves come from\<close>

lemma move_nodes_other:
  assumes "\<not> prefix p r" "\<not> prefix q r"
  shows "fs_get r (move_nodes p q fs) = fs_get r fs"
proof -
  let ?f = "\<lambda>s. if prefix p s then q @ drop (length p) s else s"
  have "hm_get (map (\<lambda>(k, v). (?f k, v)) (filter (\<lambda>(k, _). k \<noteq> q) (fs_tree fs))) r
      = hm_get (filter (\<lambda>(k, _). k \<noteq> q) (fs_tree fs)) r"
    by (rule hm_get_map_keys_other) (use assms in \<open>auto simp: prefix_def split: if_splits\<close>)
  also have "\<dots> = hm_get (fs_tree fs) r"
    using assms by (auto simp: hm_get_filter_keys)
  finally show ?thesis by (simp add: fs_get_def move_nodes_def)
qed

lemma move_nodes_from:
  assumes "fs_get r (move_nodes p q fs) = Some n" "r \<noteq> []" "p \<noteq> []" "hm_ok (fs_tree fs)"
  shows "\<exists>s. fs_get s fs = Some n \<and> (s = r \<or> prefix p s \<and> prefix q r)"
proof -
  let ?f = "\<lambda>s. if prefix p s then q @ drop (length p) s else s"
  have "(r, n) \<in> set (map (\<lambda>(k, v). (?f k, v)) (filter (\<lambda>(k, _). k \<noteq> q) (fs_tree fs)))"
    using assms(1,2) by (auto simp: fs_get_def move_nodes_def dest!: hm_get_mem)
  then obtain s where "(s, n) \<in> set (fs_tree fs)" and r: "r = ?f s" by auto
  then have "hm_get (fs_tree fs) s = Some n" using assms(4) by (simp add: hm_mem_get)
  moreover have "s \<noteq> []" using r assms(2,3) by (auto split: if_splits)
  ultimately have "fs_get s fs = Some n" by (simp add: fs_get_def)
  moreover have "s = r \<or> prefix p s \<and> prefix q r" using r by (auto split: if_splits)
  ultimately show ?thesis by blast
qed

lemma hm_ok_drop_nodes: "hm_ok (fs_tree fs) \<Longrightarrow> hm_ok (fs_tree (drop_nodes P fs))"
  unfolding drop_nodes_def hm_ok_def by (simp add: distinct_map_filter)

lemma hm_ok_move_nodes:
  assumes "hm_ok (fs_tree fs)" and "\<forall>r \<in> set (hm_keys (fs_tree fs)). \<not> strict_prefix q r"
  shows "hm_ok (fs_tree (move_nodes p q fs))"
proof -
  let ?f = "\<lambda>s. if prefix p s then q @ drop (length p) s else s"
  let ?m = "filter (\<lambda>(k, _). k \<noteq> q) (fs_tree fs)"
  have d: "hm_ok ?m" using assms(1) by (simp add: hm_ok_def distinct_map_filter)
  have other: "\<not> prefix q r" if "r \<in> set (map fst ?m)" for r
  proof -
    have "r \<in> set (hm_keys (fs_tree fs))" "r \<noteq> q" using that by (auto simp: hm_keys_def)
    then show ?thesis using assms(2) by (auto simp: strict_prefix_def)
  qed
  have "inj_on ?f (set (map fst ?m))"
  proof (rule inj_onI)
    fix r s assume rs: "r \<in> set (map fst ?m)" "s \<in> set (map fst ?m)" "?f r = ?f s"
    show "r = s"
    proof (cases "prefix p r"; cases "prefix p s")
      assume "prefix p r" "prefix p s"
      then show ?thesis using rs(3) by (auto simp: prefix_def)
    next
      assume "prefix p r" "\<not> prefix p s"
      then show ?thesis using rs(3) other [OF rs(2)] by (auto simp: prefix_def)
    next
      assume "\<not> prefix p r" "prefix p s"
      then show ?thesis using rs(3) other [OF rs(1)] by (auto simp: prefix_def)
    next
      assume "\<not> prefix p r" "\<not> prefix p s"
      then show ?thesis using rs(3) by simp
    qed
  qed
  with d have "hm_ok (map (\<lambda>(k, v). (?f k, v)) ?m)" by (rule hm_ok_map_keys)
  then show ?thesis by (simp add: move_nodes_def)
qed

section \<open>Working inside\<close>

lemma under_prefix: "under R p \<Longrightarrow> prefix p q \<Longrightarrow> under R q"
  unfolding under_def using prefix_order.trans by blast

lemma insideI:
  assumes "fs_safe R H fs \<Longrightarrow> hm_ok (fs_tree fs')" and "fs_next fs \<le> fs_next fs'"
    and inner: "\<And>p i. fs_safe R H fs \<Longrightarrow> under R p \<Longrightarrow> fs_get p fs' = Some (Reg i) \<Longrightarrow>
      i \<in> H \<or> fs_next fs \<le> i \<and> i < fs_next fs' \<or> (\<exists>q. under R q \<and> fs_get q fs = Some (Reg i))"
    and outer: "\<And>p. \<not> under R p \<Longrightarrow> fs_get p fs' = fs_get p fs \<or> above R p \<and> fs_get p fs = None \<and> fs_get p fs' = Some Dir"
    and data: "\<And>p i. \<not> under R p \<Longrightarrow> fs_get p fs = Some (Reg i) \<Longrightarrow> i < fs_next fs \<Longrightarrow> i \<notin> H \<Longrightarrow>
      (\<And>q. under R q \<Longrightarrow> fs_get q fs \<noteq> Some (Reg i)) \<Longrightarrow> fs_content i fs' = fs_content i fs"
    and open_files: "\<And>i. i \<in> H' \<Longrightarrow> i \<in> H \<or> fs_next fs \<le> i \<and> i < fs_next fs' \<or> (\<exists>q. under R q \<and> fs_get q fs = Some (Reg i))"
  shows "inside R H fs H' fs'"
  unfolding inside_def
proof
  assume safe: "fs_safe R H fs"
  then have lt: "\<And>p i. fs_get p fs = Some (Reg i) \<Longrightarrow> i < fs_next fs" "\<And>i. i \<in> H \<Longrightarrow> i < fs_next fs"
    and sep: "\<And>p q i. \<not> under R q \<Longrightarrow> fs_get q fs = Some (Reg i) \<Longrightarrow> i \<notin> H"
      "\<And>p q i. \<not> under R q \<Longrightarrow> fs_get q fs = Some (Reg i) \<Longrightarrow> under R p \<Longrightarrow> fs_get p fs \<noteq> Some (Reg i)"
    by (auto simp: fs_safe_def)
  have outer': "fs_get q fs = Some (Reg i)" if "\<not> under R q" "fs_get q fs' = Some (Reg i)" for q i
    using outer [OF that(1)] that(2) by auto
  have "i < fs_next fs'" if reg: "fs_get p fs' = Some (Reg i)" for p i
  proof (cases "under R p")
    case True
    from inner [OF safe this reg] show ?thesis using lt assms(2) by (metis order_less_le_trans)
  next
    case False
    then show ?thesis using outer' [OF _ reg] lt(1) assms(2) by (metis order_less_le_trans)
  qed
  moreover have "i < fs_next fs'" if "i \<in> H'" for i
    using open_files [OF that] lt assms(2) by (metis order_less_le_trans)
  moreover have "i \<notin> H' \<and> (\<forall>p. under R p \<longrightarrow> fs_get p fs' \<noteq> Some (Reg i))"
    if q: "\<not> under R q" "fs_get q fs' = Some (Reg i)" for q i
  proof -
    note old = outer' [OF q]
    have "i \<notin> H" "i < fs_next fs" "\<And>p. under R p \<Longrightarrow> fs_get p fs \<noteq> Some (Reg i)"
      using old sep q(1) lt(1) by blast+
    then show ?thesis using inner [OF safe] open_files [of i] by (metis leD)
  qed
  ultimately have "fs_safe R H' fs'" using assms(1) [OF safe] unfolding fs_safe_def by blast
  moreover have "kept R fs fs'"
    unfolding kept_def using outer data lt(1) sep by blast
  ultimately show "fs_safe R H' fs' \<and> kept R fs fs'" ..
qed

lemma hm_ok_fs_tree [simp]:
  "hm_ok (fs_tree fs) \<Longrightarrow> hm_ok (fs_tree (put_node p n fs))" "fs_tree (put_data i d fs) = fs_tree fs"
  "hm_ok (fs_tree fs) \<Longrightarrow> hm_ok (fs_tree (drop_nodes P fs))"
  by (simp_all add: put_node_def put_data_def hm_ok_drop_nodes)

lemma fs_safe_hm_ok [simp]: "fs_safe R H fs \<Longrightarrow> hm_ok (fs_tree fs)"
  by (simp add: fs_safe_def)

text \<open>the changes the operations are made of\<close>

lemma inside_faults: "inside R H fs H (fs\<lparr>fs_faults := l\<rparr>)"
  by (rule insideI) auto

lemma inside_put_dir:
  "under R p \<or> above R p \<Longrightarrow> fs_get p fs = None \<Longrightarrow> inside R H fs H (put_node p Dir fs)"
  by (rule insideI) (auto split: if_splits)

lemma inside_drop_nodes: "(\<And>p. P p \<Longrightarrow> under R p) \<Longrightarrow> inside R H fs H (drop_nodes P fs)"
  by (rule insideI) (auto split: if_splits)

lemma inside_put_data:
  "i \<in> H \<or> (\<exists>p. under R p \<and> fs_get p fs = Some (Reg i)) \<Longrightarrow> inside R H fs H (put_data i d fs)"
  by (rule insideI) auto

lemma inside_new_file: "under R p \<Longrightarrow> inside R H fs (insert (fst (new_file p fs)) H) (snd (new_file p fs))"
  by (rule insideI) (auto simp: new_file_def split: if_splits)


text \<open>the operations\<close>

lemma inside_io:
  assumes "\<And>fs. inside R H fs (H' (fst (run fs))) (snd (run fs))" and "\<And>e. H' (Err e) = H"
  shows "inside R H fs (H' (fst (io run fs))) (snd (io run fs))"
proof (cases "fs_faults fs")
  case Nil
  then show ?thesis using assms(1) by (simp add: io_fault_def)
next
  case (Cons f faults)
  from assms(1) [of "fs\<lparr>fs_faults := faults\<rparr>"] inside_faults [of R H fs faults]
  show ?thesis using assms(2) by (cases f) (auto simp: io_fault_def Cons intro: inside_trans)
qed

lemma inside_io_unit:
  assumes "\<And>fs. inside R H fs H (snd (run fs))"
  shows "inside R H fs H (snd (io run fs))"
  using inside_io [of R H "\<lambda>_. H" run] assms by simp

lemma prefix_under_above: "under R p \<Longrightarrow> prefix q p \<Longrightarrow> under R q \<or> above R q"
  unfolding under_def above_def by (metis prefix_same_cases)

lemma inside_make_dir: "under R p \<or> above R p \<Longrightarrow> inside R H fs H (make_dir p fs)"
  by (simp add: make_dir_def path_exists_def inside_put_dir)

lemma inside_fold:
  "(\<And>x fs. x \<in> set xs \<Longrightarrow> inside R H fs H (f x fs)) \<Longrightarrow> inside R H fs H (fold f xs fs)"
proof (induction xs arbitrary: fs)
  case (Cons x xs)
  have "inside R H fs H (f x fs)" by (rule Cons.prems) simp
  moreover have "inside R H (f x fs) H (fold f xs (f x fs))" by (rule Cons.IH) (simp add: Cons.prems)
  ultimately show ?case by (simp add: inside_trans)
qed simp

lemma inside_create_dir_all:
  assumes "under R p"
  shows "inside R H fs H (snd (create_dir_all p fs))"
  unfolding create_dir_all_def
  by (rule inside_io_unit) (auto intro!: inside_fold inside_make_dir dest: prefix_under_above [OF assms])

lemma inside_create_file:
  assumes "under R p"
  shows "inside R H fs (case fst (create_file p fs) of Ok i \<Rightarrow> insert i H | _ \<Rightarrow> H) (snd (create_file p fs))"
  unfolding create_file_def
proof (rule inside_io, goal_cases)
  case (1 fs)
  show ?case
  proof (cases "is_dir p fs \<or> \<not> is_dir (butlast p) fs")
    case False
    show ?thesis
    proof (cases "fs_get p fs")
      case None
      then show ?thesis using False inside_new_file [OF assms, of H fs] by (simp add: split_def)
    next
      case (Some n)
      then obtain i where i: "fs_get p fs = Some (Reg i)" using False by (cases n) (auto simp: is_dir_def)
      have "inside R H fs (insert i H) (put_data i [] fs)"
        by (rule insideI) (use i assms in auto)
      then show ?thesis using False i by simp
    qed
  qed auto
qed simp

lemma inside_append_data: "i \<in> H \<Longrightarrow> inside R H fs H (append_data i d fs)"
  by (simp add: append_data_def inside_put_data)

lemma inside_write_all:
  assumes "i \<in> H"
  shows "inside R H fs H (snd (write_all i d fs))"
proof (cases "fs_faults fs")
  case Nil
  then show ?thesis by (simp add: write_all_def io_fault_def inside_append_data assms)
next
  case (Cons f faults)
  have "inside R H fs H (append_data i d' (fs\<lparr>fs_faults := faults\<rparr>))" for d'
    by (rule inside_trans [OF inside_faults inside_append_data [OF assms]])
  then show ?thesis by (cases f) (auto simp: write_all_def io_fault_def Cons)
qed

lemma inside_remove_file: "under R p \<Longrightarrow> inside R H fs H (snd (remove_file p fs))"
  unfolding remove_file_def
  by (rule inside_io_unit) (auto split: option.split node.split intro!: inside_drop_nodes)

lemma inside_remove_dir_all:
  assumes "under R p"
  shows "inside R H fs H (snd (remove_dir_all p fs))"
  unfolding remove_dir_all_def
proof (rule inside_io_unit)
  fix fs
  have "inside R H fs H (drop_nodes (prefix p) fs)"
    by (rule inside_drop_nodes) (rule under_prefix [OF assms])
  then show "inside R H fs H (snd (case fs_get p fs of
       Some Dir \<Rightarrow> if p = [] then (Err EINVAL, fs) else (Ok (), drop_nodes (prefix p) fs)
     | Some (Reg _) \<Rightarrow> (Err ENOTDIR, fs)
     | None \<Rightarrow> (Err ENOENT, fs)))"
    by (simp split: option.split node.split)
qed

lemma inside_move_nodes:
  assumes "under R p" "under R q" "p \<noteq> []" "\<forall>r \<in> set (hm_keys (fs_tree fs)). \<not> strict_prefix q r"
  shows "inside R H fs H (move_nodes p q fs)"
proof (rule insideI)
  fix r i assume r: "fs_safe R H fs" "under R r" "fs_get r (move_nodes p q fs) = Some (Reg i)"
  have "r \<noteq> []" using r(3) by auto
  from move_nodes_from [OF r(3) this assms(3)] r(1) obtain s where "fs_get s fs = Some (Reg i)" "s = r \<or> prefix p s"
    by auto
  then show "i \<in> H \<or> fs_next fs \<le> i \<and> i < fs_next (move_nodes p q fs) \<or> (\<exists>q. under R q \<and> fs_get q fs = Some (Reg i))"
    using r(2) under_prefix [OF assms(1)] by blast
next
  fix r assume "\<not> under R r"
  then have "\<not> prefix p r" "\<not> prefix q r" using assms(1,2) under_prefix by blast+
  then show "fs_get r (move_nodes p q fs) = fs_get r fs \<or> above R r \<and> fs_get r fs = None \<and> fs_get r (move_nodes p q fs) = Some Dir"
    by (simp add: move_nodes_other)
qed (use assms(4) hm_ok_move_nodes in auto)

lemma inside_rename:
  assumes "under R p" "under R q"
  shows "inside R H fs H (snd (rename p q fs))"
  unfolding rename_def
proof (rule inside_io_unit)
  fix fs
  have regular: "inside R H fs H (put_node q (Reg i) (drop_nodes ((=) p) fs))"
    if "fs_get p fs = Some (Reg i)" for i
    by (rule insideI) (use assms that in \<open>auto split: if_splits\<close>)
  have dir: "inside R H fs H (move_nodes p q fs)"
    if "\<not> prefix p q" "\<not> list_ex (\<lambda>r. strict_prefix q r) (hm_keys (fs_tree fs))"
    by (rule inside_move_nodes) (use assms that in \<open>auto simp: list_ex_iff\<close>)
  show "inside R H fs H (snd (if p = q \<and> path_exists p fs then (Ok (), fs)
     else case fs_get p fs of
       None \<Rightarrow> (Err ENOENT, fs)
     | Some (Reg i) \<Rightarrow>
         if is_dir q fs then (Err EISDIR, fs)
         else if \<not> is_dir (butlast q) fs then (Err ENOENT, fs)
         else (Ok (), put_node q (Reg i) (drop_nodes ((=) p) fs))
     | Some Dir \<Rightarrow>
         if prefix p q then (Err EINVAL, fs)
         else if path_exists q fs \<and> \<not> is_dir q fs then (Err ENOTDIR, fs)
         else if list_ex (\<lambda>r. strict_prefix q r) (hm_keys (fs_tree fs)) then (Err ENOTEMPTY, fs)
         else if \<not> is_dir (butlast q) fs then (Err ENOENT, fs)
         else (Ok (), move_nodes p q fs)))"
    using regular dir by (auto split: option.split node.split)
qed


text \<open>a file opened for the duration of the operation only\<close>

lemma inside_copy_file:
  assumes "under R q"
  shows "inside R H fs H (snd (copy_file p q fs))"
proof (cases "read_file p fs")
  case (Some d)
  obtain r fs' where c: "create_file q fs = (r, fs')" by fastforce
  note created = inside_create_file [OF assms, of H fs, unfolded c]
  show ?thesis
  proof (cases r)
    case (Ok i)
    have "inside R (insert i H) fs' (insert i H) (snd (write_all i d fs'))" by (rule inside_write_all) simp
    with created Ok have "inside R H fs (insert i H) (snd (write_all i d fs'))" by (simp add: inside_trans)
    then have "inside R H fs H (snd (write_all i d fs'))" by (rule inside_subset) auto
    then show ?thesis by (simp add: copy_file_def Some c Ok)
  qed (use created in \<open>simp_all add: copy_file_def Some c\<close>)
qed (simp add: copy_file_def)

end
