(* ===== verification/SyncProto.thy ===== *)
theory SyncProto
  imports Ipc Fs
begin

text \<open>
  The side channel's messages and frames (\<open>src/sync/proto.rs\<close>) and the events it reports
  (\<open>src/sync/mod.rs\<close>, \<open>SyncEvent\<close>). A frame is a big-endian length and a body; the encoding of
  the body is \<open>bincode\<close>'s, a parameter. A stream is the bytes that arrive until it ends.
\<close>

definition PROTO_VERSION :: u16 where "PROTO_VERSION = 3"
definition PROTO_TREES :: u16 where "PROTO_TREES = 3"
definition CHUNK_SIZE :: nat where "CHUNK_SIZE = 256 * 1024"
definition MAX_FRAME_SIZE :: u32 where "MAX_FRAME_SIZE = 8 * 1024 * 1024"

datatype proto_error = PE_Io | PE_FrameTooLarge u32 | PE_Encoding

datatype sync_message =
    SM_Hello u16 string
  | SM_KeyboardLayout string
  | SM_ClipText string
  | SM_ClipImage u32 u32 "u8 list"
  | SM_FileOffer u64 string u64
  | SM_FileAccept u64
  | SM_FileReject u64 string
  | SM_FileChunk u64 u64 "u8 list"
  | SM_FileDone u64 "u8 list"
  | SM_FileCancel u64 string
  | SM_PairStart "u8 list" string
  | SM_PairResponse "u8 list" string
  | SM_PairConfirmA "u8 list"
  | SM_PairConfirmB "u8 list"
  | SM_Ping
  | SM_Pong
  | SM_DragBegin u64 u32
  | SM_DragOffer u64 u64 string u64
  | SM_DragDrop u64
  | SM_DragCancel u64
  | SM_TreeOffer u64 string u32 u64 "u64 option"
  | SM_TreeDir u64 string
  | SM_TreeFile u64 u64 string u64
  | SM_TreeEnd u64 "string option"

datatype sync_event =
    SY_Status bool "string option"
  | SY_PairingStarted string u16
  | SY_PairingComplete string string ip_addr bool
  | SY_PairingFailed string
  | SY_PeersDiscovered "discovered_peer list"
  | SY_Clipboard direction clipboard_kind
  | SY_Transfer file_transfer_status
  | SY_DragDropped "path list"

section \<open>Frames\<close>

definition read_msg ::
  "(u8 list \<Rightarrow> sync_message option) \<Rightarrow> u8 list \<Rightarrow> (sync_message, proto_error) outcome \<times> u8 list" where
  "read_msg deserialize r =
     (if length r < 4 then (Err PE_Io, [])
      else
        let len = (of_be_bytes (take 4 r) :: u32); r = drop 4 r in
        if len > MAX_FRAME_SIZE then (Err (PE_FrameTooLarge len), r)
        else if length r < unat len then (Err PE_Io, [])
        else (case deserialize (take (unat len) r) of
            None \<Rightarrow> Err PE_Encoding
          | Some m \<Rightarrow> Ok m, drop (unat len) r))"

text \<open>the bytes written; \<open>as u32\<close> truncates the length\<close>

definition write_msg :: "(sync_message \<Rightarrow> u8 list) \<Rightarrow> sync_message \<Rightarrow> u8 list" where
  "write_msg serialize msg = be_bytes 4 (of_nat (length (serialize msg)) :: u32) @ serialize msg"

text \<open>the messages of a stream up to its first error\<close>

function read_msgs :: "(u8 list \<Rightarrow> sync_message option) \<Rightarrow> u8 list \<Rightarrow> sync_message list \<times> proto_error" where
  "read_msgs deserialize r =
     (case read_msg deserialize r of
        (Ok m, r') \<Rightarrow> apfst ((#) m) (read_msgs deserialize r')
      | (Err e, r') \<Rightarrow> ([], e)
      | (Panic, r') \<Rightarrow> ([], PE_Io))"
  by auto
termination
  by (relation "measure (\<lambda>(d, r). length r)") (auto simp: read_msg_def Let_def split: if_splits option.splits)

declare read_msgs.simps [simp del]

lemma read_write_msg:
  assumes "deserialize (serialize m) = Some m" and "length (serialize m) \<le> unat MAX_FRAME_SIZE"
  shows "read_msg deserialize (write_msg serialize m @ r) = (Ok m, r)"
proof -
  let ?b = "serialize m"
  have "length ?b < 2 ^ 32" using assms(2) by (simp add: MAX_FRAME_SIZE_def)
  then have len: "unat (of_nat (length ?b) :: u32) = length ?b" by (simp add: unat_of_nat take_bit_nat_eq_self)
  have hdr: "of_be_bytes (be_bytes 4 (of_nat (length ?b) :: u32)) = (of_nat (length ?b) :: u32)"
    by (rule of_be_bytes_be_bytes) simp
  have "\<not> (of_nat (length ?b) :: u32) > MAX_FRAME_SIZE"
    using assms(2) by (simp add: word_less_nat_alt len)
  then show ?thesis
    using assms(1) by (simp add: read_msg_def write_msg_def hdr len Let_def)
qed

lemma read_msgs_written:
  assumes "\<forall>m \<in> set ms. deserialize (serialize m) = Some m \<and> length (serialize m) \<le> unat MAX_FRAME_SIZE"
  shows "read_msgs deserialize (concat (map (write_msg serialize) ms) @ tail) = apfst ((@) ms) (read_msgs deserialize tail)"
  using assms
proof (induction ms)
  case (Cons m ms)
  then have "read_msg deserialize (write_msg serialize m @ concat (map (write_msg serialize) ms) @ tail)
      = (Ok m, concat (map (write_msg serialize) ms) @ tail)"
    by (intro read_write_msg) auto
  then show ?case using Cons by (subst read_msgs.simps) (simp add: apfst_def map_prod_def split: prod.split)
qed (simp add: apfst_def map_prod_def split: prod.split)

text \<open>
  \<^bold>\<open>C12.\<close> What one side writes is what the other reads: for every sequence of messages whose
  encodings the peer decodes and which fit in a frame, the reader gets exactly those messages,
  in order, and then the error of a stream that ended. A body over the limit ends the stream
  with \<open>FrameTooLarge\<close>, since the writer does not check it.
\<close>

theorem sync_framing:
  assumes "\<forall>m \<in> set ms. deserialize (serialize m) = Some m \<and> length (serialize m) \<le> unat MAX_FRAME_SIZE"
  shows "read_msgs deserialize (concat (map (write_msg serialize) ms)) = (ms, PE_Io) \<and>
    (length (serialize big) < 2 ^ 32 \<and> unat MAX_FRAME_SIZE < length (serialize big) \<longrightarrow>
      read_msgs deserialize (concat (map (write_msg serialize) ms) @ write_msg serialize big @ r) =
        (ms, PE_FrameTooLarge (of_nat (length (serialize big)))))"
proof (intro conjI impI; (elim conjE)?)
  have "read_msgs deserialize [] = ([], PE_Io)" by (subst read_msgs.simps) (simp add: read_msg_def)
  then show "read_msgs deserialize (concat (map (write_msg serialize) ms)) = (ms, PE_Io)"
    using read_msgs_written [OF assms, of "[]"] by simp
  assume big: "length (serialize big) < 2 ^ 32" "unat MAX_FRAME_SIZE < length (serialize big)"
  let ?n = "of_nat (length (serialize big)) :: u32"
  have "unat ?n = length (serialize big)" using big(1) by (simp add: unat_of_nat take_bit_nat_eq_self)
  then have "?n > MAX_FRAME_SIZE" using big(2) by (simp add: word_less_nat_alt)
  moreover have "of_be_bytes (be_bytes 4 ?n) = ?n" by (rule of_be_bytes_be_bytes) simp
  ultimately have "read_msgs deserialize (write_msg serialize big @ r) = ([], PE_FrameTooLarge ?n)"
    by (subst read_msgs.simps) (simp add: read_msg_def write_msg_def Let_def)
  then show "read_msgs deserialize (concat (map (write_msg serialize) ms) @ write_msg serialize big @ r) =
      (ms, PE_FrameTooLarge ?n)"
    using read_msgs_written [OF assms, of "write_msg serialize big @ r"] by simp
qed

definition example_serialize :: "sync_message \<Rightarrow> u8 list" where
  "example_serialize m =
     (case m of SM_Ping \<Rightarrow> [14, 0, 0, 0] | SM_Pong \<Rightarrow> [15, 0, 0, 0] | _ \<Rightarrow> replicate (8 * 1024 * 1024 + 1) 0)"

definition example_deserialize :: "u8 list \<Rightarrow> sync_message option" where
  "example_deserialize b =
     (if b = [14, 0, 0, 0] then Some SM_Ping else if b = [15, 0, 0, 0] then Some SM_Pong else None)"

lemma sync_framing_witness:
  "read_msgs example_deserialize (concat (map (write_msg example_serialize) [SM_Ping, SM_Pong, SM_Ping])) =
     ([SM_Ping, SM_Pong, SM_Ping], PE_Io) \<and>
   read_msgs example_deserialize (concat (map (write_msg example_serialize) [SM_Ping, SM_Pong, SM_Ping]) @
       write_msg example_serialize (SM_ClipText ''a'') @ []) = ([SM_Ping, SM_Pong, SM_Ping], PE_FrameTooLarge 8388609)"
proof -
  have ok: "\<forall>m \<in> set [SM_Ping, SM_Pong, SM_Ping].
      example_deserialize (example_serialize m) = Some m \<and> length (example_serialize m) \<le> unat MAX_FRAME_SIZE"
    by (simp add: example_serialize_def example_deserialize_def MAX_FRAME_SIZE_def)
  have "length (example_serialize (SM_ClipText ''a'')) = 8388609" by (simp add: example_serialize_def)
  then show ?thesis
    using sync_framing [OF ok, of "SM_ClipText ''a''" "[]"] by (simp only:) (simp add: MAX_FRAME_SIZE_def)
qed

text \<open>
  \<open>reader_loop\<close> drops a \<open>read_msg\<close> that has not finished whenever a command arrives; what it had
  consumed is lost. After the header of a frame is gone the body is read as a header: that of a
  \<open>FileChunk\<close> begins with the variant's number, little-endian, and ends the connection.
\<close>

definition read_cancelled :: "nat \<Rightarrow> u8 list \<Rightarrow> u8 list" where
  "read_cancelled consumed r = drop consumed r"

lemma cancelled_read_desynchronizes:
  assumes "take 4 (serialize m) = [7, 0, 0, 0]"
  shows "fst (read_msg deserialize (read_cancelled 4 (write_msg serialize m @ r))) = Err (PE_FrameTooLarge 0x07000000)"
proof -
  have "4 \<le> length (serialize m)" using arg_cong [OF assms, of length] by simp
  then have t: "take 4 (serialize m @ r) = [7, 0, 0, 0]" using assms by simp
  have "(of_be_bytes [7, 0, 0, 0] :: u32) = 0x07000000" by (simp add: of_be_bytes_def)
  then show ?thesis using t \<open>4 \<le> length (serialize m)\<close>
    by (simp add: read_msg_def read_cancelled_def write_msg_def Let_def MAX_FRAME_SIZE_def)
qed

end
