(* ===== verification/Files.thy ===== *)
theory Files
  imports FileNames SyncProto
begin

text \<open>
  Files on the receiving side (\<open>src/sync/files.rs\<close>): a name not in use, the move into place, the
  removal of stale staging directories, the start and end of one incoming file and the records of
  what is being received. SHA-256 is an argument; a hasher is the bytes it was fed. Times are
  milliseconds.
\<close>

definition PROGRESS_INTERVAL :: nat where "PROGRESS_INTERVAL = 250"
definition MAX_TREE_ENTRIES :: u64 where "MAX_TREE_ENTRIES = 1000000"

section \<open>Rows for the frontends\<close>

definition file_status ::
  "u64 \<Rightarrow> string \<Rightarrow> direction \<Rightarrow> u64 \<Rightarrow> u64 \<Rightarrow> transfer_state \<Rightarrow> string option \<Rightarrow> file_transfer_status" where
  "file_status fid name direction transferred whole state detail =
     \<lparr>ft_id = fid, ft_name = name, ft_direction = direction, ft_transferred = transferred,
      ft_total = whole, ft_state = state, ft_detail = detail, ft_kind = TK_File, ft_files = 0\<rparr>"

definition tree_status ::
  "u64 \<Rightarrow> string \<Rightarrow> u32 \<Rightarrow> direction \<Rightarrow> u64 \<Rightarrow> u64 \<Rightarrow> transfer_state \<Rightarrow> string option \<Rightarrow> file_transfer_status" where
  "tree_status fid name files direction transferred whole state detail =
     \<lparr>ft_id = fid, ft_name = name, ft_direction = direction, ft_transferred = transferred,
      ft_total = whole, ft_state = state, ft_detail = detail, ft_kind = TK_Folder, ft_files = files\<rparr>"

section \<open>A name that is not in use\<close>

text \<open>
  The first of the numbered candidates that does not exist. The loop tries the numbers from 1 on;
  one more than there are entries is always enough.
\<close>

definition first_unused :: "path \<Rightarrow> (nat \<Rightarrow> string) \<Rightarrow> fs \<Rightarrow> path" where
  "first_unused dir candidate fs =
     (case find (\<lambda>i. \<not> path_exists (dir @ [candidate i]) fs) [1..<length (fs_tree fs) + 2] of
        Some i \<Rightarrow> dir @ [candidate i]
      | None \<Rightarrow> dir @ [candidate 0])"

definition stem_ext :: "string \<Rightarrow> string \<times> string" where
  "stem_ext name =
     (case rsplit_once CHR ''.'' name of
        Some (s, e) \<Rightarrow> if s \<noteq> [] then (s, CHR ''.'' # e) else (name, [])
      | None \<Rightarrow> (name, []))"

definition unique_path :: "path \<Rightarrow> string \<Rightarrow> fs \<Rightarrow> path" where
  "unique_path dir name fs =
     (if \<not> path_exists (dir @ [name]) fs then dir @ [name]
      else case stem_ext name of (stem, ext) \<Rightarrow>
        first_unused dir (\<lambda>i. stem @ '' ('' @ show_nat i @ '')'' @ ext) fs)"

definition unique_dir_path :: "path \<Rightarrow> string \<Rightarrow> fs \<Rightarrow> path" where
  "unique_dir_path dir name fs =
     (if \<not> path_exists (dir @ [name]) fs then dir @ [name]
      else first_unused dir (\<lambda>i. name @ '' ('' @ show_nat i @ '')'') fs)"

lemma path_exists_key: "path_exists p fs \<Longrightarrow> p \<noteq> [] \<Longrightarrow> p \<in> set (hm_keys (fs_tree fs))"
  using hm_get_None_iff [of "fs_tree fs" p] by (auto simp: path_exists_def fs_get_def)

lemma first_unused_fresh:
  assumes "inj candidate"
  shows "\<exists>i \<ge> 1. first_unused dir candidate fs = dir @ [candidate i] \<and>
    \<not> path_exists (dir @ [candidate i]) fs \<and> (\<forall>j. 1 \<le> j \<and> j < i \<longrightarrow> path_exists (dir @ [candidate j]) fs)"
proof -
  let ?P = "\<lambda>i. \<not> path_exists (dir @ [candidate i]) fs" let ?n = "length (fs_tree fs)"
  have "\<exists>i \<in> {1..<?n + 2}. ?P i"
  proof (rule ccontr)
    assume "\<not> (\<exists>i \<in> {1..<?n + 2}. ?P i)"
    then have "(\<lambda>i. dir @ [candidate i]) ` {1..<?n + 2} \<subseteq> set (hm_keys (fs_tree fs))"
      using path_exists_key by blast
    then have "card ((\<lambda>i. dir @ [candidate i]) ` {1..<?n + 2}) \<le> card (set (hm_keys (fs_tree fs)))"
      by (rule card_mono [rotated]) simp
    also have "\<dots> \<le> ?n" using card_length [of "hm_keys (fs_tree fs)"] by simp
    finally have "card ((\<lambda>i. dir @ [candidate i]) ` {1..<?n + 2}) \<le> ?n" .
    moreover have "inj_on (\<lambda>i. dir @ [candidate i]) {1..<?n + 2}"
      using assms by (auto simp: inj_on_def inj_def)
    ultimately show False by (simp add: card_image)
  qed
  then have "find ?P [1..<?n + 2] \<noteq> None" by (auto simp: find_None_iff simp del: upt_Suc)
  then obtain i where f: "find ?P [1..<?n + 2] = Some i" by blast
  then obtain k where k: "k < length [1..<?n + 2]" "?P ([1..<?n + 2] ! k)" "i = [1..<?n + 2] ! k"
    "\<forall>j < k. \<not> ?P ([1..<?n + 2] ! j)"
    by (auto simp: find_Some_iff)
  then have i: "i = k + 1" by (simp del: upt_Suc)
  have "path_exists (dir @ [candidate j]) fs" if j: "1 \<le> j" "j < i" for j
  proof -
    have "[1..<?n + 2] ! (j - 1) = j" using j i k(1) by (simp del: upt_Suc)
    then show ?thesis using k(4) [rule_format, of "j - 1"] j i by simp
  qed
  then show ?thesis using f k(2,3) i by (auto simp: first_unused_def intro!: exI [of _ i])
qed

lemma numbered_inj: "inj (\<lambda>i. stem @ '' ('' @ show_nat i @ '')'' @ ext)"
  by (rule injI) (simp add: show_nat_inj)

lemma unique_path_cases:
  "(unique_path dir name fs = dir @ [name] \<or>
    (\<exists>i. unique_path dir name fs = dir @ [fst (stem_ext name) @ '' ('' @ show_nat i @ '')'' @ snd (stem_ext name)])) \<and>
   \<not> path_exists (unique_path dir name fs) fs"
proof (cases "path_exists (dir @ [name]) fs")
  case True
  from first_unused_fresh [OF numbered_inj, of dir "fst (stem_ext name)" "snd (stem_ext name)" fs] True
  show ?thesis by (auto simp: unique_path_def split: prod.split)
qed (simp add: unique_path_def)

lemma unique_path_fresh: "\<not> path_exists (unique_path dir name fs) fs"
  using unique_path_cases [of dir name fs] by blast

lemma unique_path_under: "\<exists>n. unique_path dir name fs = dir @ [n]"
  using unique_path_cases [of dir name fs] by blast

lemma unique_path_prefix [simp]: "prefix dir (unique_path dir name fs)"
  using unique_path_under [of dir name fs] by auto

lemma unique_dir_path_fresh:
  "\<not> path_exists (unique_dir_path dir name fs) fs \<and> (\<exists>n. unique_dir_path dir name fs = dir @ [n])"
proof (cases "path_exists (dir @ [name]) fs")
  case True
  from first_unused_fresh [OF numbered_inj [of name "[]"], of dir fs] True
  show ?thesis by (auto simp: unique_dir_path_def)
qed (simp add: unique_dir_path_def)

lemma unique_dir_path_prefix [simp]: "prefix dir (unique_dir_path dir name fs)"
  using unique_dir_path_fresh [of dir name fs] by auto

text \<open>
  The name chosen for a file does not exist: it is the offered one if that is free, else
  the one with the least number between the stem and the extension that is.
\<close>

theorem unique_path_correct:
  "\<not> path_exists (unique_path dir name fs) fs \<and>
   (if path_exists (dir @ [name]) fs
    then \<exists>i. 1 \<le> i \<and>
      unique_path dir name fs = dir @ [fst (stem_ext name) @ '' ('' @ show_nat i @ '')'' @ snd (stem_ext name)] \<and>
      {1..<i} \<subseteq> {j. path_exists (dir @ [fst (stem_ext name) @ '' ('' @ show_nat j @ '')'' @ snd (stem_ext name)]) fs}
    else unique_path dir name fs = dir @ [name])"
proof (cases "path_exists (dir @ [name]) fs")
  case True
  let ?c = "\<lambda>i. fst (stem_ext name) @ '' ('' @ show_nat i @ '')'' @ snd (stem_ext name)"
  have eq: "unique_path dir name fs = first_unused dir ?c fs"
    using True by (simp add: unique_path_def split: prod.split)
  from first_unused_fresh [OF numbered_inj, of dir "fst (stem_ext name)" "snd (stem_ext name)" fs]
  obtain i where "1 \<le> i" "first_unused dir ?c fs = dir @ [?c i]" "\<not> path_exists (dir @ [?c i]) fs"
    "\<forall>j. 1 \<le> j \<and> j < i \<longrightarrow> path_exists (dir @ [?c j]) fs"
    by blast
  then show ?thesis using True eq by (intro conjI) (simp_all, intro exI [of _ i], auto)
qed (simp add: unique_path_def)

section \<open>Moving into place\<close>

text \<open>\<open>copy_dir_all\<close>: the entries below the source, parents before children\<close>

fun copy_entries :: "path \<Rightarrow> path \<Rightarrow> (path \<times> node) list \<Rightarrow> unit io" where
  "copy_entries src dst [] fs = (Ok (), fs)"
| "copy_entries src dst ((p, n) # es) fs =
     (let target = dst @ drop (length src) p;
          (r, fs) = (if n = Dir then create_dir_all target fs else copy_file p target fs)
      in if is_ok r then copy_entries src dst es fs else (r, fs))"

definition copy_dir_all :: "path \<Rightarrow> path \<Rightarrow> unit io" where
  "copy_dir_all src dst fs =
     (case create_dir_all dst fs of (r, fs) \<Rightarrow>
        if is_ok r
        then copy_entries src dst (sort_key (\<lambda>(p, _). length p) (filter (\<lambda>(p, _). strict_prefix src p) (fs_tree fs))) fs
        else (r, fs))"

definition move_path :: "path \<Rightarrow> path \<Rightarrow> unit io" where
  "move_path src dst fs =
     (case rename src dst fs of (r, fs) \<Rightarrow>
        if is_ok r then (Ok (), fs)
        else (case fs_get src fs of
            None \<Rightarrow> (Err ENOENT, fs)
          | Some Dir \<Rightarrow>
              (case copy_dir_all src dst fs of (r, fs) \<Rightarrow>
                 if is_ok r then remove_dir_all src fs else (r, snd (remove_dir_all dst fs)))
          | Some (Reg _) \<Rightarrow>
              (case copy_file src dst fs of (r, fs) \<Rightarrow>
                 if is_ok r then remove_file src fs else (r, snd (remove_file dst fs)))))"

text \<open>at start, the staging directories of a previous run\<close>

definition stale_staging :: "path \<Rightarrow> fs \<Rightarrow> path list" where
  "stale_staging dir fs =
     filter (\<lambda>p. length p = length dir + 1 \<and> prefix dir p \<and>
               (prefix ''.vylo-drag-'' (last p) \<or> prefix ''.vylo-tree-'' (last p)))
       (hm_keys (fs_tree fs))"

definition purge_stale_staging :: "path \<Rightarrow> fs \<Rightarrow> fs" where
  "purge_stale_staging dir fs =
     (if is_dir dir fs then fold (\<lambda>p fs. snd (remove_dir_all p fs)) (stale_staging dir fs) fs else fs)"

lemma inside_copy_entries:
  assumes "under R dst"
  shows "inside R H fs H (snd (copy_entries src dst es fs))"
  using assms
proof (induction src dst es fs rule: copy_entries.induct)
  case (2 src dst p n es fs)
  let ?t = "dst @ drop (length src) p"
  have u: "under R ?t" using "2.prems" by (rule under_prefix) simp
  let ?r = "if n = Dir then create_dir_all ?t fs else copy_file p ?t fs"
  have step: "inside R H fs H (snd ?r)" using inside_create_dir_all [OF u] inside_copy_file [OF u] by simp
  have eq: "copy_entries src dst ((p, n) # es) fs = (if is_ok (fst ?r) then copy_entries src dst es (snd ?r) else ?r)"
    by (simp add: Let_def split_def)
  show ?case
  proof (cases "is_ok (fst ?r)")
    case True
    have "inside R H (snd ?r) H (snd (copy_entries src dst es (snd ?r)))"
      using "2.IH" [OF refl refl prod.collapse True "2.prems"] .
    with step have "inside R H fs H (snd (copy_entries src dst es (snd ?r)))" by (rule inside_trans)
    then show ?thesis using True by (simp only: eq if_True)
  qed (use step in \<open>simp only: eq if_False\<close>)
qed simp


lemma inside_copy_dir_all: "under R dst \<Longrightarrow> inside R H fs H (snd (copy_dir_all src dst fs))"
  using inside_create_dir_all [of R dst H fs] inside_copy_entries [of R dst H]
  by (auto simp: copy_dir_all_def split: prod.split intro: inside_trans)

lemma inside_move_path:
  assumes "under R src" "under R dst"
  shows "inside R H fs H (snd (move_path src dst fs))"
proof -
  obtain r fs1 where ren: "rename src dst fs = (r, fs1)" by fastforce
  have r: "inside R H fs H fs1" using inside_rename [OF assms, of H fs] ren by simp
  have "inside R H fs1 H (snd (move_path src dst fs))" if bad: "\<not> is_ok r"
  proof (cases "fs_get src fs1")
    case (Some n)
    show ?thesis
    proof (cases n)
      case Dir
      obtain r2 fs2 where c: "copy_dir_all src dst fs1 = (r2, fs2)" by fastforce
      have "inside R H fs1 H fs2" using inside_copy_dir_all [OF assms(2), where H = H and fs = fs1 and src = src] c by simp
      then show ?thesis
        using inside_remove_dir_all [OF assms(1), of H fs2] inside_remove_dir_all [OF assms(2), of H fs2]
        by (auto simp: move_path_def ren bad Some Dir c intro: inside_trans)
    next
      case (Reg i)
      obtain r2 fs2 where c: "copy_file src dst fs1 = (r2, fs2)" by fastforce
      have "inside R H fs1 H fs2" using inside_copy_file [OF assms(2), where H = H and fs = fs1 and p = src] c by simp
      then show ?thesis
        using inside_remove_file [OF assms(1), of H fs2] inside_remove_file [OF assms(2), of H fs2]
        by (auto simp: move_path_def ren bad Some Reg c intro: inside_trans)
    qed
  qed (simp add: move_path_def ren bad)
  then show ?thesis using r by (cases "is_ok r") (auto simp: move_path_def ren intro: inside_trans)
qed

lemma inside_purge: "under R dir \<Longrightarrow> inside R H fs H (purge_stale_staging dir fs)"
  by (auto simp: purge_stale_staging_def stale_staging_def
      intro!: inside_fold inside_remove_dir_all elim: under_prefix)

section \<open>One incoming file\<close>

record recv_transfer =
  rt_name :: string
  rt_size :: u64
  rt_received :: u64
  rt_file :: nat
  rt_part_path :: path
  rt_final_path :: path
  rt_hashed :: "u8 list"
  rt_last_progress :: nat
  rt_drag :: "u64 option"
  rt_tree :: "u64 option"

text \<open>\<open>progress_due\<close>, with the time of the last report\<close>

definition progress_due :: "nat \<Rightarrow> nat \<Rightarrow> bool \<times> nat" where
  "progress_due now last_progress =
     (if now - last_progress \<ge> PROGRESS_INTERVAL then (True, now) else (False, last_progress))"

definition cannot :: "string \<Rightarrow> path \<Rightarrow> string \<Rightarrow> string" where
  "cannot what p e = ''cannot '' @ what @ '' '' @ show_path p @ '': '' @ e"

definition begin_recv ::
  "nat \<Rightarrow> path \<Rightarrow> string \<Rightarrow> u64 \<Rightarrow> u64 option \<Rightarrow> u64 option \<Rightarrow> fs \<Rightarrow> (recv_transfer, string) outcome \<times> fs" where
  "begin_recv now dir offered_name whole drag tree fs =
     (case sanitize_name offered_name of
        None \<Rightarrow> (Err ''invalid file name'', fs)
      | Some name \<Rightarrow>
          (case create_dir_all dir fs of
             (Err e, fs) \<Rightarrow> (Err (cannot ''create'' dir e), fs)
           | (Panic, fs) \<Rightarrow> (Panic, fs)
           | (Ok u, fs) \<Rightarrow>
               let final_path = unique_path dir name fs;
                   part_name = last final_path @ ''.vylopart'';
                   part_path = unique_path dir part_name fs in
               (case create_file part_path fs of
                  (Err e, fs) \<Rightarrow> (Err (cannot ''create'' part_path e), fs)
                | (Panic, fs) \<Rightarrow> (Panic, fs)
                | (Ok file, fs) \<Rightarrow>
                    (Ok \<lparr>rt_name = name, rt_size = whole, rt_received = 0, rt_file = file,
                         rt_part_path = part_path, rt_final_path = final_path, rt_hashed = [],
                         rt_last_progress = now, rt_drag = drag, rt_tree = tree\<rparr>, fs))))"

definition finish_recv ::
  "(u8 list \<Rightarrow> u8 list) \<Rightarrow> recv_transfer \<Rightarrow> u8 list \<Rightarrow> fs \<Rightarrow> (path, string) outcome \<times> fs" where
  "finish_recv sha256 t h fs =
     (if sha256 (rt_hashed t) \<noteq> h then
        (Err ''integrity check failed (sha256 mismatch)'', snd (remove_file (rt_part_path t) fs))
      else if rt_received t \<noteq> rt_size t then
        (Err (''incomplete transfer ('' @ show_word (rt_received t) @ '' of '' @ show_word (rt_size t) @ '' bytes)''),
         snd (remove_file (rt_part_path t) fs))
      else (case rename (rt_part_path t) (rt_final_path t) fs of
          (Ok u, fs) \<Rightarrow> (Ok (rt_final_path t), fs)
        | (Err e, fs) \<Rightarrow> (Err (cannot ''rename to'' (rt_final_path t) e), fs)
        | (Panic, fs) \<Rightarrow> (Panic, fs)))"

section \<open>Drags and folders being received\<close>

record staged_item =
  si_id :: u64
  si_name :: string
  si_kind :: transfer_kind
  si_files :: u32
  si_size :: u64
  si_path :: path

record incoming_drag =
  id_drag :: u64
  id_dir :: path
  id_expected :: u32
  id_offered :: u32
  id_outstanding :: "u64 set"
  id_done :: "staged_item list"
  id_drop_requested :: bool

definition drag_settled :: "incoming_drag \<Rightarrow> bool" where
  "drag_settled d \<longleftrightarrow> id_offered d \<ge> id_expected d \<and> id_outstanding d = {}"

text \<open>\<open>it_root\<close> is \<open>None\<close> for the empty path of a refused folder\<close>

record incoming_tree =
  it_tree :: u64
  it_name :: string
  it_root :: "path option"
  it_staging :: "path option"
  it_drag :: "u64 option"
  it_files :: u32
  it_total :: u64
  it_done_bytes :: u64
  it_outstanding :: "u64 set"
  it_entries :: u64
  it_ended :: bool
  it_failed :: "string option"
  it_last_progress :: nat

definition tree_settled :: "incoming_tree \<Rightarrow> bool" where
  "tree_settled t \<longleftrightarrow> it_ended t \<and> it_outstanding t = {}"

definition tree_fail :: "string \<Rightarrow> incoming_tree \<Rightarrow> incoming_tree" where
  "tree_fail reason t = (if it_failed t = None then t\<lparr>it_failed := Some reason\<rparr> else t)"

definition it_status :: "u64 \<Rightarrow> transfer_state \<Rightarrow> string option \<Rightarrow> incoming_tree \<Rightarrow> file_transfer_status" where
  "it_status transferred state detail t =
     tree_status (it_tree t) (it_name t) (it_files t) Received transferred (it_total t) state detail"

end
