(* ===== verification/Inbox.thy ===== *)
theory Inbox
  imports Files
begin

text \<open>
  The receiving side of file, folder and drag transfers on one connection
  (\<open>src/sync/inbox.rs\<close>). \<open>ib_events\<close> are the events sent to the service, \<open>ib_out\<close> the replies to
  the peer, in order. \<open>ib_desktop\<close> is what \<open>dirs::desktop_dir\<close> returns.
\<close>

record inbox =
  ib_file_dir :: path
  ib_drop_dir :: "path option"
  ib_desktop :: "path option"
  ib_recv :: "(u64, recv_transfer) hmap"
  ib_drag :: "incoming_drag option"
  ib_trees :: "(u64, incoming_tree) hmap"
  ib_events :: "sync_event list"
  ib_out :: "sync_message list"
  ib_fs :: fs

definition inbox_new :: "path \<Rightarrow> path option \<Rightarrow> fs \<Rightarrow> inbox" where
  "inbox_new dir desktop fs =
     \<lparr>ib_file_dir = dir, ib_drop_dir = None, ib_desktop = desktop, ib_recv = [], ib_drag = None,
      ib_trees = [], ib_events = [], ib_out = [], ib_fs = fs\<rparr>"

fun is_inbound_transfer :: "sync_message \<Rightarrow> bool" where
  "is_inbound_transfer (SM_FileOffer _ _ _) = True"
| "is_inbound_transfer (SM_DragBegin _ _) = True"
| "is_inbound_transfer (SM_DragOffer _ _ _ _) = True"
| "is_inbound_transfer (SM_DragDrop _) = True"
| "is_inbound_transfer (SM_DragCancel _) = True"
| "is_inbound_transfer (SM_FileChunk _ _ _) = True"
| "is_inbound_transfer (SM_FileDone _ _) = True"
| "is_inbound_transfer (SM_FileCancel _ _) = True"
| "is_inbound_transfer (SM_TreeOffer _ _ _ _ _) = True"
| "is_inbound_transfer (SM_TreeDir _ _) = True"
| "is_inbound_transfer (SM_TreeFile _ _ _ _) = True"
| "is_inbound_transfer (SM_TreeEnd _ _) = True"
| "is_inbound_transfer _ = False"

definition has_transfer :: "u64 \<Rightarrow> inbox \<Rightarrow> bool" where
  "has_transfer i ib \<longleftrightarrow> hm_get (ib_recv ib) i \<noteq> None"

definition ib_emit :: "sync_event \<Rightarrow> inbox \<Rightarrow> inbox" where
  "ib_emit e ib = ib\<lparr>ib_events := ib_events ib @ [e]\<rparr>"

definition ib_reply :: "sync_message \<Rightarrow> inbox \<Rightarrow> inbox" where
  "ib_reply m ib = ib\<lparr>ib_out := ib_out ib @ [m]\<rparr>"

definition on_fs :: "'a io \<Rightarrow> inbox \<Rightarrow> ('a, string) outcome \<times> inbox" where
  "on_fs f ib = (case f (ib_fs ib) of (r, fs) \<Rightarrow> (r, ib\<lparr>ib_fs := fs\<rparr>))"

text \<open>an operation whose result is not looked at\<close>

definition do_fs :: "'a io \<Rightarrow> inbox \<Rightarrow> inbox" where
  "do_fs f ib = snd (on_fs f ib)"

definition err_text :: "('a, string) outcome \<Rightarrow> string" where
  "err_text r = (case r of Err e \<Rightarrow> e | _ \<Rightarrow> [])"

definition put_recv :: "u64 \<Rightarrow> recv_transfer \<Rightarrow> inbox \<Rightarrow> inbox" where
  "put_recv i t ib = ib\<lparr>ib_recv := hm_insert i t (ib_recv ib)\<rparr>"

definition del_recv :: "u64 \<Rightarrow> inbox \<Rightarrow> inbox" where
  "del_recv i ib = ib\<lparr>ib_recv := hm_remove i (ib_recv ib)\<rparr>"

definition put_tree :: "u64 \<Rightarrow> incoming_tree \<Rightarrow> inbox \<Rightarrow> inbox" where
  "put_tree i t ib = ib\<lparr>ib_trees := hm_insert i t (ib_trees ib)\<rparr>"

definition del_tree :: "u64 \<Rightarrow> inbox \<Rightarrow> inbox" where
  "del_tree i ib = ib\<lparr>ib_trees := hm_remove i (ib_trees ib)\<rparr>"

definition on_tree :: "u64 \<Rightarrow> (incoming_tree \<Rightarrow> incoming_tree) \<Rightarrow> inbox \<Rightarrow> inbox" where
  "on_tree i f ib = (case hm_get (ib_trees ib) i of None \<Rightarrow> ib | Some t \<Rightarrow> put_tree i (f t) ib)"

section \<open>Finishing a drag\<close>

definition drop_dir :: "path option \<Rightarrow> path \<Rightarrow> path" where
  "drop_dir desktop fallback = (case desktop of Some d \<Rightarrow> d | None \<Rightarrow> fallback)"

definition drop_dest :: "inbox \<Rightarrow> path" where
  "drop_dest ib =
     (case ib_drop_dir ib of Some d \<Rightarrow> d | None \<Rightarrow> drop_dir (ib_desktop ib) (ib_file_dir ib))"

definition item_status :: "transfer_state \<Rightarrow> string \<Rightarrow> staged_item \<Rightarrow> file_transfer_status" where
  "item_status state detail it =
     \<lparr>ft_id = si_id it, ft_name = si_name it, ft_direction = Received, ft_transferred = si_size it,
      ft_total = si_size it, ft_state = state, ft_detail = Some detail, ft_kind = si_kind it,
      ft_files = si_files it\<rparr>"

definition place_item :: "path \<Rightarrow> staged_item \<Rightarrow> path list \<times> inbox \<Rightarrow> path list \<times> inbox" where
  "place_item dest it s =
     (case s of (placed, ib) \<Rightarrow>
        let target = (case si_kind it of
              TK_Folder \<Rightarrow> unique_dir_path dest (si_name it) (ib_fs ib)
            | TK_File \<Rightarrow> unique_path dest (si_name it) (ib_fs ib));
            (r, ib) = on_fs (move_path (si_path it) target) ib
        in if is_ok r
           then (placed @ [target], ib_emit (SY_Transfer (item_status TS_Done (show_path target) it)) ib)
           else (placed, ib))"

definition try_finalize_drag :: "inbox \<Rightarrow> inbox" where
  "try_finalize_drag ib =
     (case ib_drag ib of
        None \<Rightarrow> ib
      | Some d \<Rightarrow>
          if id_drop_requested d \<and> drag_settled d then
            let ib = ib\<lparr>ib_drag := None\<rparr>;
                dest = drop_dest ib;
                ib = do_fs (create_dir_all dest) ib;
                (placed, ib) = fold (place_item dest) (id_done d) ([], ib);
                ib = do_fs (remove_dir_all (id_dir d)) ib
            in if placed \<noteq> [] then ib_emit (SY_DragDropped placed) ib else ib
          else ib)"

text \<open>an item of a drag settled: if that drag is still the current one\<close>

definition for_drag :: "u64 option \<Rightarrow> (incoming_drag \<Rightarrow> incoming_drag) \<Rightarrow> inbox \<Rightarrow> inbox" where
  "for_drag drag f ib =
     (case (drag, ib_drag ib) of
        (Some d, Some inc) \<Rightarrow>
          if id_drag inc = d then try_finalize_drag (ib\<lparr>ib_drag := Some (f inc)\<rparr>) else ib
      | _ \<Rightarrow> ib)"

definition settle_item :: "u64 \<Rightarrow> incoming_drag \<Rightarrow> incoming_drag" where
  "settle_item i inc = inc\<lparr>id_outstanding := id_outstanding inc - {i}\<rparr>"

definition stage_item :: "staged_item \<Rightarrow> incoming_drag \<Rightarrow> incoming_drag" where
  "stage_item it inc = (settle_item (si_id it) inc)\<lparr>id_done := id_done inc @ [it]\<rparr>"

section \<open>Finishing a folder\<close>

definition remove_opt :: "path option \<Rightarrow> inbox \<Rightarrow> inbox" where
  "remove_opt p ib = (case p of None \<Rightarrow> ib | Some p \<Rightarrow> do_fs (remove_dir_all p) ib)"

definition tree_failed :: "u64 \<Rightarrow> incoming_tree \<Rightarrow> string \<Rightarrow> inbox \<Rightarrow> inbox" where
  "tree_failed tree t reason ib =
     (let ib = remove_opt (it_staging t) (remove_opt (it_root t) ib);
          ib = ib_emit (SY_Transfer (it_status (it_done_bytes t) TS_Failed (Some reason) t)) ib
      in for_drag (it_drag t) (settle_item tree) ib)"

definition tree_staged :: "u64 \<Rightarrow> incoming_tree \<Rightarrow> u64 \<Rightarrow> path \<Rightarrow> inbox \<Rightarrow> inbox" where
  "tree_staged tree t drag root ib =
     (let ib = ib_emit (SY_Transfer (it_status (it_total t) TS_Done (Some (show_path root)) t)) ib;
          it = \<lparr>si_id = tree, si_name = it_name t, si_kind = TK_Folder, si_files = it_files t,
                si_size = it_total t, si_path = root\<rparr>
      in case ib_drag ib of
           Some inc \<Rightarrow>
             if id_drag inc = drag then for_drag (Some drag) (stage_item it) ib
             else do_fs (remove_dir_all root) ib
         | None \<Rightarrow> do_fs (remove_dir_all root) ib)"

definition tree_placed :: "incoming_tree \<Rightarrow> path \<Rightarrow> inbox \<Rightarrow> inbox" where
  "tree_placed t root ib =
     (let ib = do_fs (create_dir_all (ib_file_dir ib)) ib;
          dest = unique_dir_path (ib_file_dir ib) (it_name t) (ib_fs ib);
          (r, ib) = on_fs (move_path root dest) ib;
          ib = remove_opt (it_staging t) ib
      in if is_ok r then ib_emit (SY_Transfer (it_status (it_total t) TS_Done (Some (show_path dest)) t)) ib
         else ib_emit (SY_Transfer (it_status (it_done_bytes t) TS_Failed
                (Some (cannot ''place folder at'' dest (err_text r))) t)) (do_fs (remove_dir_all root) ib))"

definition try_finalize_tree :: "u64 \<Rightarrow> inbox \<Rightarrow> inbox" where
  "try_finalize_tree tree ib =
     (case hm_get (ib_trees ib) tree of
        None \<Rightarrow> ib
      | Some t \<Rightarrow>
          if \<not> tree_settled t then ib
          else
            let ib = del_tree tree ib in
            (case (it_failed t, it_root t) of
               (Some reason, _) \<Rightarrow> tree_failed tree t reason ib
             | (None, None) \<Rightarrow> ib
             | (None, Some root) \<Rightarrow>
                 (case it_drag t of
                    Some drag \<Rightarrow> tree_staged tree t drag root ib
                  | None \<Rightarrow> tree_placed t root ib)))"

section \<open>Offers\<close>

definition accept_offer ::
  "nat \<Rightarrow> path \<Rightarrow> u64 \<Rightarrow> string \<Rightarrow> u64 \<Rightarrow> u64 option \<Rightarrow> u64 option \<Rightarrow> inbox \<Rightarrow> bool \<times> inbox" where
  "accept_offer now dir i name whole drag tree ib =
     (if hm_get (ib_recv ib) i \<noteq> None then
        (False, ib_reply (SM_FileReject i ''transfer id already in use'') ib)
      else case on_fs (begin_recv now dir name whole drag tree) ib of
        (Ok t, ib) \<Rightarrow>
          let ib = (if tree = None
                    then ib_emit (SY_Transfer (file_status i (rt_name t) Received 0 whole TS_Active None)) ib else ib)
          in (True, ib_reply (SM_FileAccept i) (put_recv i t ib))
      | (r, ib) \<Rightarrow>
          let reason = err_text r;
              ib = (if tree = None
                    then ib_emit (SY_Transfer (file_status i name Received 0 whole TS_Failed (Some reason))) ib else ib)
          in (False, ib_reply (SM_FileReject i reason) ib))"

definition refused_tree :: "nat \<Rightarrow> u64 \<Rightarrow> string \<Rightarrow> u32 \<Rightarrow> u64 \<Rightarrow> u64 option \<Rightarrow> string \<Rightarrow> incoming_tree" where
  "refused_tree now tree name files bytes drag reason =
     \<lparr>it_tree = tree, it_name = name, it_root = None, it_staging = None, it_drag = drag, it_files = files,
      it_total = bytes, it_done_bytes = 0, it_outstanding = {}, it_entries = 0, it_ended = False,
      it_failed = Some reason, it_last_progress = now\<rparr>"

text \<open>where a folder is staged: \<open>None\<close> when it belongs to a drag that is not in progress\<close>

definition tree_parent :: "u64 \<Rightarrow> u64 option \<Rightarrow> inbox \<Rightarrow> (path \<times> path option) option \<times> inbox" where
  "tree_parent tree drag ib =
     (case drag of
        None \<Rightarrow> let dir = ib_file_dir ib @ [tree_staging_name tree] in (Some (dir, Some dir), ib)
      | Some d \<Rightarrow>
          (case ib_drag ib of
             Some inc \<Rightarrow>
               if id_drag inc = d then
                 (Some (id_dir inc, None),
                  ib\<lparr>ib_drag := Some (inc\<lparr>id_offered := id_offered inc + 1,
                                         id_outstanding := insert tree (id_outstanding inc)\<rparr>)\<rparr>)
               else (None, ib)
           | None \<Rightarrow> (None, ib)))"

definition tree_begin ::
  "nat \<Rightarrow> u64 \<Rightarrow> string \<Rightarrow> u32 \<Rightarrow> u64 \<Rightarrow> u64 option \<Rightarrow> path \<Rightarrow> path option \<Rightarrow> inbox \<Rightarrow> inbox" where
  "tree_begin now tree name files bytes drag parent staging ib =
     (case sanitize_name name of
        None \<Rightarrow>
          ib_emit (SY_Transfer (tree_status tree name files Received 0 bytes TS_Failed (Some ''invalid folder name'')))
            (put_tree tree (refused_tree now tree name files bytes drag ''invalid folder name'') ib)
      | Some clean \<Rightarrow>
          (case on_fs (create_dir_all parent) ib of (r, ib) \<Rightarrow>
             if \<not> is_ok r then
               let reason = cannot ''create'' parent (err_text r) in
               ib_emit (SY_Transfer (tree_status tree clean files Received 0 bytes TS_Failed (Some reason)))
                 (put_tree tree (refused_tree now tree clean files bytes drag reason) ib)
             else
               let root = unique_dir_path parent clean (ib_fs ib);
                   t = \<lparr>it_tree = tree, it_name = clean, it_root = Some root, it_staging = staging,
                        it_drag = drag, it_files = files, it_total = bytes, it_done_bytes = 0,
                        it_outstanding = {}, it_entries = 0, it_ended = False, it_failed = None,
                        it_last_progress = now\<rparr>;
                   (r, ib) = on_fs (create_dir_all root) ib;
                   t = (if is_ok r then t else tree_fail (cannot ''create'' root (err_text r)) t)
               in put_tree tree t (ib_emit (SY_Transfer (it_status 0 TS_Active None t)) ib)))"

definition tree_offer ::
  "nat \<Rightarrow> u64 \<Rightarrow> string \<Rightarrow> u32 \<Rightarrow> u64 \<Rightarrow> u64 option \<Rightarrow> inbox \<Rightarrow> inbox" where
  "tree_offer now tree name files bytes drag ib =
     (if hm_get (ib_trees ib) tree \<noteq> None then ib
      else case tree_parent tree drag ib of
        (None, ib) \<Rightarrow> put_tree tree (refused_tree now tree name files bytes drag ''no drag in progress'') ib
      | (Some (parent, staging), ib) \<Rightarrow> tree_begin now tree name files bytes drag parent staging ib)"

definition too_many_entries :: string where "too_many_entries = ''folder has too many entries''"

definition tree_dir :: "u64 \<Rightarrow> string \<Rightarrow> inbox \<Rightarrow> inbox" where
  "tree_dir tree rel ib =
     (case hm_get (ib_trees ib) tree of
        None \<Rightarrow> ib
      | Some t \<Rightarrow>
          if it_failed t \<noteq> None then ib
          else
            let t = t\<lparr>it_entries := it_entries t + 1\<rparr> in
            if it_entries t > MAX_TREE_ENTRIES then put_tree tree (tree_fail too_many_entries t) ib
            else (case (sanitize_rel_path rel, it_root t) of
                (Some path, Some root) \<Rightarrow>
                  (case on_fs (create_dir_all (root @ path)) ib of (r, ib) \<Rightarrow>
                     put_tree tree
                       (if is_ok r then t else tree_fail (cannot ''create'' (root @ path) (err_text r)) t) ib)
              | _ \<Rightarrow> put_tree tree (tree_fail (''invalid path inside folder: '' @ rel) t) ib))"

definition tree_file :: "nat \<Rightarrow> u64 \<Rightarrow> u64 \<Rightarrow> string \<Rightarrow> u64 \<Rightarrow> inbox \<Rightarrow> inbox" where
  "tree_file now tree i rel whole ib =
     (case hm_get (ib_trees ib) tree of
        None \<Rightarrow> ib_reply (SM_FileReject i ''no such folder transfer'') ib
      | Some t \<Rightarrow>
          (case it_failed t of
             Some reason \<Rightarrow> ib_reply (SM_FileReject i (''folder transfer failed: '' @ reason)) ib
           | None \<Rightarrow>
               let t = t\<lparr>it_entries := it_entries t + 1\<rparr> in
               if it_entries t > MAX_TREE_ENTRIES then
                 ib_reply (SM_FileReject i too_many_entries) (put_tree tree (tree_fail too_many_entries t) ib)
               else (case (sanitize_rel_path rel, it_root t) of
                   (Some path, Some root) \<Rightarrow>
                     (case accept_offer now (root @ butlast path) i (last path) whole (it_drag t) (Some tree)
                             (put_tree tree t ib) of
                        (True, ib) \<Rightarrow> on_tree tree (\<lambda>t. t\<lparr>it_outstanding := insert i (it_outstanding t)\<rparr>) ib
                      | (False, ib) \<Rightarrow> on_tree tree (tree_fail (''could not receive '' @ rel)) ib)
                 | _ \<Rightarrow>
                     let reason = ''invalid path inside folder: '' @ rel in
                     ib_reply (SM_FileReject i reason) (put_tree tree (tree_fail reason t) ib))))"

section \<open>The bytes of a file\<close>

definition settle_failure :: "recv_transfer \<Rightarrow> u64 \<Rightarrow> string \<Rightarrow> inbox \<Rightarrow> inbox" where
  "settle_failure t i reason ib =
     (case rt_tree t of
        Some tree \<Rightarrow>
          (case hm_get (ib_trees ib) tree of
             None \<Rightarrow> ib
           | Some tr \<Rightarrow>
               try_finalize_tree tree
                 (put_tree tree (tree_fail (rt_name t @ '': '' @ reason)
                    (tr\<lparr>it_outstanding := it_outstanding tr - {i}\<rparr>)) ib))
      | None \<Rightarrow> for_drag (rt_drag t) (settle_item i) ib)"

text \<open>a transfer that is over before it was complete: reported unless it is part of a folder, its part file removed\<close>

definition report_failed :: "u64 \<Rightarrow> recv_transfer \<Rightarrow> string \<Rightarrow> inbox \<Rightarrow> inbox" where
  "report_failed i t reason ib =
     (if rt_tree t = None
      then ib_emit (SY_Transfer (file_status i (rt_name t) Received (rt_received t) (rt_size t) TS_Failed (Some reason))) ib
      else ib)"

definition write_chunk :: "u64 \<Rightarrow> u8 list \<Rightarrow> recv_transfer \<Rightarrow> inbox \<Rightarrow> string option \<times> recv_transfer \<times> inbox" where
  "write_chunk offset data t ib =
     (if CHUNK_SIZE < length data \<or> rt_received t + of_nat (length data) > rt_size t then
        (Some ''transfer exceeds offered size'', t, ib)
      else if offset \<noteq> rt_received t then (Some ''chunks out of order'', t, ib)
      else
        let t = t\<lparr>rt_hashed := rt_hashed t @ data\<rparr>;
            (r, ib) = on_fs (write_all (rt_file t) data) ib
        in if is_ok r then (None, t\<lparr>rt_received := rt_received t + of_nat (length data)\<rparr>, ib)
           else (Some (''write failed: '' @ err_text r), t, ib))"

definition inflight :: "inbox \<Rightarrow> u64 set \<Rightarrow> u64" where
  "inflight ib ids =
     sum_list (map (\<lambda>i. case hm_get (ib_recv ib) i of Some r \<Rightarrow> rt_received r | None \<Rightarrow> 0) (sorted_list_of_set ids))"

definition report_progress :: "nat \<Rightarrow> u64 \<Rightarrow> recv_transfer \<Rightarrow> inbox \<Rightarrow> inbox" where
  "report_progress now i t ib =
     (case rt_tree t of
        None \<Rightarrow>
          (case progress_due now (rt_last_progress t) of (due, last_progress) \<Rightarrow>
             let ib = put_recv i (t\<lparr>rt_last_progress := last_progress\<rparr>) ib in
             if due
             then ib_emit (SY_Transfer (file_status i (rt_name t) Received (rt_received t) (rt_size t) TS_Active None)) ib
             else ib)
      | Some tree \<Rightarrow>
          (case hm_get (ib_trees ib) tree of
             None \<Rightarrow> ib
           | Some tr \<Rightarrow>
               (case progress_due now (it_last_progress tr) of (due, last_progress) \<Rightarrow>
                  let tr = tr\<lparr>it_last_progress := last_progress\<rparr>; ib = put_tree tree tr ib in
                  if due
                  then ib_emit (SY_Transfer (it_status (it_done_bytes tr + inflight ib (it_outstanding tr)) TS_Active None tr)) ib
                  else ib)))"

definition chunk :: "nat \<Rightarrow> u64 \<Rightarrow> u64 \<Rightarrow> u8 list \<Rightarrow> inbox \<Rightarrow> inbox" where
  "chunk now i offset data ib =
     (case hm_get (ib_recv ib) i of
        None \<Rightarrow> ib
      | Some t \<Rightarrow>
          (case write_chunk offset data t ib of
             (Some reason, t, ib) \<Rightarrow>
               settle_failure t i reason
                 (do_fs (remove_file (rt_part_path t))
                   (ib_reply (SM_FileCancel i reason) (report_failed i t reason (del_recv i ib))))
           | (None, t, ib) \<Rightarrow> report_progress now i t (put_recv i t ib)))"

definition file_done :: "(u8 list \<Rightarrow> u8 list) \<Rightarrow> u64 \<Rightarrow> u8 list \<Rightarrow> inbox \<Rightarrow> inbox" where
  "file_done sha256 i h ib =
     (case hm_get (ib_recv ib) i of
        None \<Rightarrow> ib
      | Some t \<Rightarrow>
          (case on_fs (finish_recv sha256 t h) (del_recv i ib) of (r, ib) \<Rightarrow>
             (case rt_tree t of
                Some tree \<Rightarrow>
                  (case hm_get (ib_trees ib) tree of
                     None \<Rightarrow> ib
                   | Some tr \<Rightarrow>
                       let tr = tr\<lparr>it_outstanding := it_outstanding tr - {i}\<rparr>;
                           tr = (if is_ok r then tr\<lparr>it_done_bytes := it_done_bytes tr + rt_size t\<rparr>
                                 else tree_fail (rt_name t @ '': '' @ err_text r) tr)
                       in try_finalize_tree tree (put_tree tree tr ib))
              | None \<Rightarrow>
                  let ib = ib_emit (SY_Transfer (file_status i (rt_name t) Received (rt_size t) (rt_size t)
                        (if is_ok r then TS_Done else TS_Failed)
                        (Some (case r of Ok p \<Rightarrow> show_path p | _ \<Rightarrow> err_text r)))) ib
                  in for_drag (rt_drag t)
                       (case r of
                          Ok p \<Rightarrow> stage_item \<lparr>si_id = i, si_name = rt_name t, si_kind = TK_File, si_files = 0,
                                       si_size = rt_size t, si_path = p\<rparr>
                        | _ \<Rightarrow> settle_item i) ib)))"

definition file_cancel :: "u64 \<Rightarrow> string \<Rightarrow> inbox \<Rightarrow> inbox" where
  "file_cancel i reason ib =
     (case hm_get (ib_recv ib) i of
        None \<Rightarrow> ib
      | Some t \<Rightarrow>
          settle_failure t i reason
            (do_fs (remove_file (rt_part_path t)) (report_failed i t reason (del_recv i ib))))"

section \<open>Drags\<close>

definition drop_recv :: "u64 \<Rightarrow> inbox \<Rightarrow> inbox" where
  "drop_recv i ib =
     (case hm_get (ib_recv ib) i of
        None \<Rightarrow> ib
      | Some t \<Rightarrow> do_fs (remove_file (rt_part_path t)) (del_recv i ib))"

definition discard_tree :: "u64 \<Rightarrow> inbox \<Rightarrow> inbox" where
  "discard_tree tree ib =
     (case hm_get (ib_trees ib) tree of
        None \<Rightarrow> ib
      | Some t \<Rightarrow>
          ib_emit (SY_Transfer (it_status (it_done_bytes t) TS_Failed (Some ''drag cancelled'') t))
            (fold drop_recv (sorted_list_of_set (it_outstanding t)) (del_tree tree ib)))"

definition discard_drag :: "incoming_drag \<Rightarrow> inbox \<Rightarrow> inbox" where
  "discard_drag d ib =
     (let ib = fold (\<lambda>it. ib_emit (SY_Transfer (item_status TS_Failed ''drag cancelled'' it))) (id_done d) ib;
          ib = fold drop_recv (sorted_list_of_set (id_outstanding d)) ib;
          trees = map fst (filter (\<lambda>(_, t). it_drag t = Some (id_drag d)) (ib_trees ib));
          ib = fold discard_tree trees ib
      in do_fs (remove_dir_all (id_dir d)) ib)"

definition drag_begin :: "u64 \<Rightarrow> u32 \<Rightarrow> inbox \<Rightarrow> inbox" where
  "drag_begin drag count ib =
     (let ib = (case ib_drag ib of None \<Rightarrow> ib | Some old \<Rightarrow> discard_drag old (ib\<lparr>ib_drag := None\<rparr>));
          dir = ib_file_dir ib @ [drag_staging_name drag];
          (r, ib) = on_fs (create_dir_all dir) ib
      in if is_ok r
         then ib\<lparr>ib_drag := Some \<lparr>id_drag = drag, id_dir = dir, id_expected = count, id_offered = 0,
                                 id_outstanding = {}, id_done = [], id_drop_requested = False\<rparr>\<rparr>
         else ib)"

definition drag_offer :: "nat \<Rightarrow> u64 \<Rightarrow> u64 \<Rightarrow> string \<Rightarrow> u64 \<Rightarrow> inbox \<Rightarrow> inbox" where
  "drag_offer now drag i name whole ib =
     (case (case ib_drag ib of Some inc \<Rightarrow> if id_drag inc = drag then Some inc else None | None \<Rightarrow> None) of
        None \<Rightarrow> ib_reply (SM_FileReject i ''no drag in progress'') ib
      | Some inc \<Rightarrow>
          (case accept_offer now (id_dir inc) i name whole (Some drag) None
                  (ib\<lparr>ib_drag := Some (inc\<lparr>id_offered := id_offered inc + 1\<rparr>)\<rparr>) of
             (True, ib) \<Rightarrow>
               ib\<lparr>ib_drag := map_option (\<lambda>inc. inc\<lparr>id_outstanding := insert i (id_outstanding inc)\<rparr>) (ib_drag ib)\<rparr>
           | (False, ib) \<Rightarrow> try_finalize_drag ib))"

definition drag_cancel :: "u64 \<Rightarrow> inbox \<Rightarrow> inbox" where
  "drag_cancel drag ib =
     (case ib_drag ib of
        Some d \<Rightarrow> if id_drag d = drag then discard_drag d (ib\<lparr>ib_drag := None\<rparr>) else ib
      | None \<Rightarrow> ib)"

definition tree_end :: "u64 \<Rightarrow> string option \<Rightarrow> inbox \<Rightarrow> inbox" where
  "tree_end tree err ib =
     (case hm_get (ib_trees ib) tree of
        None \<Rightarrow> ib
      | Some t \<Rightarrow>
          let t = t\<lparr>it_ended := True\<rparr>;
              t = (case err of Some reason \<Rightarrow> tree_fail (''sender: '' @ reason) t | None \<Rightarrow> t)
          in try_finalize_tree tree (put_tree tree t ib))"

section \<open>The messages\<close>

fun ib_handle :: "(u8 list \<Rightarrow> u8 list) \<Rightarrow> nat \<Rightarrow> sync_message \<Rightarrow> inbox \<Rightarrow> inbox" where
  "ib_handle sha256 now (SM_FileOffer i name whole) ib =
     snd (accept_offer now (ib_file_dir ib) i name whole None None ib)"
| "ib_handle sha256 now (SM_DragBegin drag count) ib = drag_begin drag count ib"
| "ib_handle sha256 now (SM_DragOffer drag i name whole) ib = drag_offer now drag i name whole ib"
| "ib_handle sha256 now (SM_DragDrop drag) ib = for_drag (Some drag) (\<lambda>inc. inc\<lparr>id_drop_requested := True\<rparr>) ib"
| "ib_handle sha256 now (SM_DragCancel drag) ib = drag_cancel drag ib"
| "ib_handle sha256 now (SM_TreeOffer tree name files bytes drag) ib = tree_offer now tree name files bytes drag ib"
| "ib_handle sha256 now (SM_TreeDir tree rel) ib = tree_dir tree rel ib"
| "ib_handle sha256 now (SM_TreeFile tree i rel whole) ib = tree_file now tree i rel whole ib"
| "ib_handle sha256 now (SM_TreeEnd tree err) ib = tree_end tree err ib"
| "ib_handle sha256 now (SM_FileChunk i offset data) ib = chunk now i offset data ib"
| "ib_handle sha256 now (SM_FileDone i h) ib = file_done sha256 i h ib"
| "ib_handle sha256 now (SM_FileCancel i reason) ib = file_cancel i reason ib"
| "ib_handle sha256 now _ ib = ib"

text \<open>the end of the connection\<close>

definition close_recv :: "u64 \<times> recv_transfer \<Rightarrow> inbox \<Rightarrow> inbox" where
  "close_recv it ib =
     (case it of (i, t) \<Rightarrow> do_fs (remove_file (rt_part_path t)) (report_failed i t ''connection closed'' ib))"

definition close_tree :: "u64 \<times> incoming_tree \<Rightarrow> inbox \<Rightarrow> inbox" where
  "close_tree it ib =
     (case it of (i, t) \<Rightarrow>
        ib_emit (SY_Transfer (it_status (it_done_bytes t) TS_Failed (Some ''connection closed'') t))
          (remove_opt (it_staging t) (remove_opt (it_root t) ib)))"

definition ib_close :: "inbox \<Rightarrow> inbox" where
  "ib_close ib =
     (let ib = (fold close_recv (ib_recv ib) ib)\<lparr>ib_recv := []\<rparr>;
          ib = (fold close_tree (ib_trees ib) ib)\<lparr>ib_trees := []\<rparr>
      in case ib_drag ib of
           None \<Rightarrow> ib
         | Some d \<Rightarrow> do_fs (remove_dir_all (id_dir d)) (ib\<lparr>ib_drag := None\<rparr>))"

end
