(* ===== verification/InboxSafety.thy ===== *)
theory InboxSafety
  imports Inbox
begin

text \<open>
  A peer cannot reach outside the receive directory and the drop directory. \<open>conf\<close> says that
  every path and every open file the inbox holds is inside \<open>R\<close> and that the file system outside
  is as it was in \<open>fs0\<close>; every operation of the inbox keeps it.
\<close>

section \<open>Confinement\<close>

definition recv_conf :: "path set \<Rightarrow> recv_transfer \<Rightarrow> bool" where
  "recv_conf R t \<longleftrightarrow> under R (rt_part_path t) \<and> under R (rt_final_path t)"

definition tree_conf :: "path set \<Rightarrow> incoming_tree \<Rightarrow> bool" where
  "tree_conf R t \<longleftrightarrow> pred_option (under R) (it_root t) \<and> pred_option (under R) (it_staging t)"

definition drag_conf :: "path set \<Rightarrow> incoming_drag \<Rightarrow> bool" where
  "drag_conf R d \<longleftrightarrow> under R (id_dir d) \<and> (\<forall>it \<in> set (id_done d). under R (si_path it))"

definition handles :: "(u64, recv_transfer) hmap \<Rightarrow> nat set" where
  "handles m = {rt_file t | i t. hm_get m i = Some t}"

definition conf :: "path set \<Rightarrow> fs \<Rightarrow> inbox \<Rightarrow> bool" where
  "conf R fs0 ib \<longleftrightarrow>
     under R (ib_file_dir ib) \<and> under R (drop_dest ib) \<and> hm_ok (ib_recv ib) \<and> hm_ok (ib_trees ib) \<and>
     (\<forall>i t. hm_get (ib_recv ib) i = Some t \<longrightarrow> recv_conf R t) \<and>
     (\<forall>i t. hm_get (ib_trees ib) i = Some t \<longrightarrow> tree_conf R t) \<and>
     pred_option (drag_conf R) (ib_drag ib) \<and>
     fs_safe R (handles (ib_recv ib)) (ib_fs ib) \<and> kept R fs0 (ib_fs ib)"

lemma confD:
  assumes "conf R fs0 ib"
  shows "under R (ib_file_dir ib)" "under R (drop_dest ib)"
    "hm_get (ib_recv ib) i = Some t \<Longrightarrow> recv_conf R t"
    "hm_get (ib_trees ib) i = Some tr \<Longrightarrow> tree_conf R tr"
    "ib_drag ib = Some d \<Longrightarrow> drag_conf R d" "kept R fs0 (ib_fs ib)"
  using assms by (auto simp: conf_def)

lemma handles_get: "hm_get m i = Some t \<Longrightarrow> rt_file t \<in> handles m"
  by (auto simp: handles_def)

lemma handles_remove: "handles (hm_remove i m) \<subseteq> handles m"
  by (auto simp: handles_def split: if_splits)

lemma drop_dest_simps [simp]:
  "drop_dest (ib\<lparr>ib_recv := x\<rparr>) = drop_dest ib" "drop_dest (ib\<lparr>ib_trees := y\<rparr>) = drop_dest ib"
  "drop_dest (ib\<lparr>ib_drag := z\<rparr>) = drop_dest ib" "drop_dest (ib\<lparr>ib_events := e\<rparr>) = drop_dest ib"
  "drop_dest (ib\<lparr>ib_out := m\<rparr>) = drop_dest ib" "drop_dest (ib\<lparr>ib_fs := f\<rparr>) = drop_dest ib"
  by (simp_all add: drop_dest_def split: option.split)

lemma conf_emit [simp]: "conf R fs0 (ib_emit e ib) \<longleftrightarrow> conf R fs0 ib"
  by (simp add: conf_def ib_emit_def)

lemma conf_reply [simp]: "conf R fs0 (ib_reply m ib) \<longleftrightarrow> conf R fs0 ib"
  by (simp add: conf_def ib_reply_def)

lemma conf_fs:
  assumes "conf R fs0 ib" and "\<And>fs H. inside R H fs H (snd (f fs))"
  shows "conf R fs0 (snd (on_fs f ib))"
  using assms(1) assms(2) [of "handles (ib_recv ib)" "ib_fs ib"] kept_trans
  by (auto simp: conf_def on_fs_def inside_def split: prod.split)

lemma conf_fs_update:
  "conf R fs0 ib \<Longrightarrow> inside R (handles (ib_recv ib)) (ib_fs ib) (handles (ib_recv ib)) fs' \<Longrightarrow> conf R fs0 (ib\<lparr>ib_fs := fs'\<rparr>)"
  using kept_trans by (auto simp: conf_def inside_def)

lemma conf_do_fs:
  "conf R fs0 ib \<Longrightarrow> (\<And>fs H. inside R H fs H (snd (f fs))) \<Longrightarrow> conf R fs0 (do_fs f ib)"
  unfolding do_fs_def by (rule conf_fs)

lemma conf_del_recv [intro]: "conf R fs0 ib \<Longrightarrow> conf R fs0 (del_recv i ib)"
  using fs_safe_subset [OF _ handles_remove] by (auto simp: conf_def del_recv_def)

text \<open>a transfer that is kept up to date in place\<close>

lemma conf_put_recv:
  assumes "conf R fs0 ib" and "hm_get (ib_recv ib) i = Some t"
    and "rt_file t' = rt_file t" "rt_part_path t' = rt_part_path t" "rt_final_path t' = rt_final_path t"
  shows "conf R fs0 (put_recv i t' ib)"
proof -
  have "handles (hm_insert i t' (ib_recv ib)) \<subseteq> handles (ib_recv ib)"
    using assms(2,3) by (auto simp: handles_def)
  then show ?thesis
    using assms fs_safe_subset by (auto simp: conf_def put_recv_def recv_conf_def)
qed

lemma conf_put_tree [intro]: "conf R fs0 ib \<Longrightarrow> tree_conf R t \<Longrightarrow> conf R fs0 (put_tree i t ib)"
  by (auto simp: conf_def put_tree_def)

lemma conf_del_tree [intro]: "conf R fs0 ib \<Longrightarrow> conf R fs0 (del_tree i ib)"
  by (auto simp: conf_def del_tree_def)

lemma conf_put_drag [intro]: "conf R fs0 ib \<Longrightarrow> pred_option (drag_conf R) d \<Longrightarrow> conf R fs0 (ib\<lparr>ib_drag := d\<rparr>)"
  by (auto simp: conf_def)

lemma conf_no_drag [intro]: "conf R fs0 ib \<Longrightarrow> conf R fs0 (ib\<lparr>ib_drag := None\<rparr>)"
  by (rule conf_put_drag) auto

lemma tree_conf_update [simp]:
  "tree_conf R (tree_fail r t) \<longleftrightarrow> tree_conf R t"
  "tree_conf R (t\<lparr>it_entries := n\<rparr>) \<longleftrightarrow> tree_conf R t"
  "tree_conf R (t\<lparr>it_outstanding := o'\<rparr>) \<longleftrightarrow> tree_conf R t"
  "tree_conf R (t\<lparr>it_done_bytes := b\<rparr>) \<longleftrightarrow> tree_conf R t"
  "tree_conf R (t\<lparr>it_ended := e\<rparr>) \<longleftrightarrow> tree_conf R t"
  "tree_conf R (t\<lparr>it_last_progress := l\<rparr>) \<longleftrightarrow> tree_conf R t"
  by (auto simp: tree_conf_def tree_fail_def)

lemma drag_conf_update [simp]:
  "drag_conf R (settle_item i d) \<longleftrightarrow> drag_conf R d"
  "drag_conf R (d\<lparr>id_offered := n\<rparr>) \<longleftrightarrow> drag_conf R d"
  "drag_conf R (d\<lparr>id_outstanding := o'\<rparr>) \<longleftrightarrow> drag_conf R d"
  "drag_conf R (d\<lparr>id_drop_requested := b\<rparr>) \<longleftrightarrow> drag_conf R d"
  "drag_conf R (stage_item it d) \<longleftrightarrow> drag_conf R d \<and> under R (si_path it)"
  by (auto simp: drag_conf_def settle_item_def stage_item_def)

lemma conf_on_tree: "conf R fs0 ib \<Longrightarrow> (\<And>t. tree_conf R t \<Longrightarrow> tree_conf R (f t)) \<Longrightarrow> conf R fs0 (on_tree i f ib)"
  by (auto simp: on_tree_def split: option.split dest: confD(4))

lemma conf_fold: "conf R fs0 ib \<Longrightarrow> (\<And>x ib. x \<in> set xs \<Longrightarrow> conf R fs0 ib \<Longrightarrow> conf R fs0 (f x ib)) \<Longrightarrow> conf R fs0 (fold f xs ib)"
  by (induction xs arbitrary: ib) auto

section \<open>Every operation keeps it\<close>

lemma conf_place_item:
  assumes "conf R fs0 ib" "under R dest" "under R (si_path it)"
  shows "conf R fs0 (snd (place_item dest it (placed, ib)))"
proof -
  let ?target = "case si_kind it of TK_Folder \<Rightarrow> unique_dir_path dest (si_name it) (ib_fs ib)
    | TK_File \<Rightarrow> unique_path dest (si_name it) (ib_fs ib)"
  have "under R ?target"
    using under_prefix [OF assms(2)] by (cases "si_kind it") simp_all
  then have "conf R fs0 (snd (on_fs (move_path (si_path it) ?target) ib))"
    using assms by (intro conf_fs inside_move_path)
  then show ?thesis by (cases "si_kind it") (simp_all add: place_item_def Let_def split_def)
qed

lemma conf_place_items:
  assumes "conf R fs0 ib" "under R dest" "\<forall>it \<in> set items. under R (si_path it)"
  shows "conf R fs0 (snd (fold (place_item dest) items (placed, ib)))"
  using assms
proof (induction items arbitrary: placed ib)
  case (Cons it items)
  have "conf R fs0 (snd (place_item dest it (placed, ib)))" using Cons.prems by (intro conf_place_item) auto
  then show ?case using Cons by (metis fold_simps(2) list.set_intros(2) prod.collapse)
qed simp

lemma conf_try_finalize_drag [intro]:
  assumes "conf R fs0 ib"
  shows "conf R fs0 (try_finalize_drag ib)"
proof (cases "ib_drag ib")
  case (Some d)
  let ?ib1 = "ib\<lparr>ib_drag := None\<rparr>"
  let ?dest = "drop_dest ?ib1"
  let ?ib2 = "do_fs (create_dir_all ?dest) ?ib1"
  let ?s = "fold (place_item ?dest) (id_done d) ([], ?ib2)"
  have d: "drag_conf R d" using confD(5) [OF assms Some] .
  have dest: "under R ?dest" using confD(2) [OF assms] by simp
  have "conf R fs0 ?ib2"
    using assms dest by (intro conf_do_fs conf_no_drag inside_create_dir_all)
  then have "conf R fs0 (snd ?s)" using dest d by (intro conf_place_items) (auto simp: drag_conf_def)
  then have "conf R fs0 (do_fs (remove_dir_all (id_dir d)) (snd ?s))"
    using d by (intro conf_do_fs inside_remove_dir_all) (auto simp: drag_conf_def)
  then show ?thesis using assms by (simp add: try_finalize_drag_def Some Let_def split_def)
qed (simp add: try_finalize_drag_def assms)

lemma conf_for_drag:
  assumes "conf R fs0 ib" and "\<And>d. drag_conf R d \<Longrightarrow> drag_conf R (f d)"
  shows "conf R fs0 (for_drag drag f ib)"
  using assms confD(5) [OF assms(1)]
  by (auto simp: for_drag_def split: option.split intro!: conf_try_finalize_drag conf_put_drag)

lemma conf_remove_opt: "conf R fs0 ib \<Longrightarrow> pred_option (under R) p \<Longrightarrow> conf R fs0 (remove_opt p ib)"
  by (cases p) (auto simp: remove_opt_def intro!: conf_do_fs inside_remove_dir_all)

lemma conf_tree_failed:
  assumes "conf R fs0 ib" "tree_conf R t"
  shows "conf R fs0 (tree_failed tree t reason ib)"
  using assms unfolding tree_failed_def Let_def
  by (intro conf_for_drag) (auto simp: tree_conf_def intro!: conf_remove_opt)

lemma conf_tree_staged:
  assumes "conf R fs0 ib" "under R root"
  shows "conf R fs0 (tree_staged tree t drag root ib)"
  using assms unfolding tree_staged_def Let_def
  by (auto split: option.split intro!: conf_for_drag conf_do_fs inside_remove_dir_all)

lemma conf_tree_placed:
  assumes "conf R fs0 ib" "tree_conf R t" "under R root"
  shows "conf R fs0 (tree_placed t root ib)"
proof -
  let ?ib1 = "do_fs (create_dir_all (ib_file_dir ib)) ib"
  let ?dest = "unique_dir_path (ib_file_dir ?ib1) (it_name t) (ib_fs ?ib1)"
  have dir: "ib_file_dir ?ib1 = ib_file_dir ib" by (simp add: do_fs_def on_fs_def split: prod.split)
  have file_dir: "under R (ib_file_dir ib)" using confD(1) [OF assms(1)] .
  have "conf R fs0 ?ib1" using assms(1) file_dir by (intro conf_do_fs inside_create_dir_all)
  moreover have "under R ?dest" unfolding dir by (rule under_prefix [OF file_dir]) simp
  ultimately have "conf R fs0 (snd (on_fs (move_path root ?dest) ?ib1))"
    using assms(3) by (intro conf_fs inside_move_path)
  then have "conf R fs0 (remove_opt (it_staging t) (snd (on_fs (move_path root ?dest) ?ib1)))"
    using assms(2) by (intro conf_remove_opt) (simp_all add: tree_conf_def)
  then show ?thesis using assms(3)
    by (auto simp: tree_placed_def Let_def split_def intro!: conf_do_fs inside_remove_dir_all)
qed

lemma conf_try_finalize_tree:
  assumes "conf R fs0 ib"
  shows "conf R fs0 (try_finalize_tree tree ib)"
proof (cases "hm_get (ib_trees ib) tree")
  case (Some t)
  have t: "tree_conf R t" using confD(4) [OF assms Some] .
  then have "under R root" if "it_root t = Some root" for root using that by (simp add: tree_conf_def)
  then show ?thesis
    using assms t unfolding try_finalize_tree_def Some
    by (auto simp: Let_def split: option.split
        intro!: conf_tree_failed conf_tree_staged conf_tree_placed conf_del_tree)
qed (simp add: try_finalize_tree_def assms)


lemma begin_recv_conf:
  assumes "under R dir"
  shows "inside R H fs (case fst (begin_recv now dir name whole drag tree fs) of Ok t \<Rightarrow> insert (rt_file t) H | _ \<Rightarrow> H)
      (snd (begin_recv now dir name whole drag tree fs)) \<and>
    (case fst (begin_recv now dir name whole drag tree fs) of Ok t \<Rightarrow> recv_conf R t | _ \<Rightarrow> True)"
proof (cases "sanitize_name name")
  case (Some n)
  obtain r1 fs1 where c1: "create_dir_all dir fs = (r1, fs1)" by fastforce
  have i1: "inside R H fs H fs1" using inside_create_dir_all [OF assms, of H fs] c1 by simp
  show ?thesis
  proof (cases r1)
    case (Ok u)
    let ?final = "unique_path dir n fs1"
    let ?part = "unique_path dir (last ?final @ ''.vylopart'') fs1"
    have up: "under R ?part" "under R ?final" by (rule under_prefix [OF assms], simp)+
    obtain r2 fs2 where c2: "create_file ?part fs1 = (r2, fs2)" by fastforce
    note i2 = inside_create_file [OF up(1), of H fs1, unfolded c2 fst_conv snd_conv]
    show ?thesis
      using inside_trans [OF i1 i2] up
      by (cases r2) (simp_all add: begin_recv_def Some c1 Ok c2 Let_def recv_conf_def)
  qed (use i1 in \<open>simp_all add: begin_recv_def Some c1\<close>)
qed (simp add: begin_recv_def)

lemma conf_accept_offer:
  assumes "conf R fs0 ib" "under R dir"
  shows "conf R fs0 (snd (accept_offer now dir i name whole drag tree ib))"
proof (cases "hm_get (ib_recv ib) i")
  case None
  obtain r fs' where b: "begin_recv now dir name whole drag tree (ib_fs ib) = (r, fs')" by fastforce
  note inside = begin_recv_conf [OF assms(2), of "handles (ib_recv ib)" "ib_fs ib" now name whole drag tree,
      unfolded b fst_conv snd_conv]
  have safe: "fs_safe R (handles (ib_recv ib)) (ib_fs ib)" "kept R fs0 (ib_fs ib)"
    using assms(1) by (auto simp: conf_def)
  show ?thesis
  proof (cases r)
    case (Ok t)
    have "fs_safe R (insert (rt_file t) (handles (ib_recv ib))) fs'" "kept R fs0 fs'" "recv_conf R t"
      using inside safe kept_trans unfolding Ok inside_def by auto
    moreover have "handles (hm_insert i t (ib_recv ib)) \<subseteq> insert (rt_file t) (handles (ib_recv ib))"
      by (auto simp: handles_def split: if_splits)
    ultimately have "conf R fs0 (put_recv i t (ib\<lparr>ib_fs := fs'\<rparr>))"
      using assms(1) fs_safe_subset by (auto simp: conf_def put_recv_def)
    moreover have "put_recv i t (ib_emit e ib') = ib_emit e (put_recv i t ib')" for e ib'
      by (simp add: put_recv_def ib_emit_def)
    ultimately show ?thesis using None by (simp add: accept_offer_def on_fs_def b Ok Let_def)
  qed (use conf_fs_update [OF assms(1), of fs'] inside None in
      \<open>auto simp: accept_offer_def on_fs_def b Let_def\<close>)
qed (simp add: accept_offer_def assms(1))

lemma conf_tree_offer:
  assumes "conf R fs0 ib"
  shows "conf R fs0 (tree_offer now tree name files bytes drag ib)"
proof (cases "hm_get (ib_trees ib) tree = None")
  case True
  have refused: "tree_conf R (refused_tree now tree n files bytes drag reason)" for n reason
    by (simp add: tree_conf_def refused_tree_def)
  obtain p ib1 where p: "tree_parent tree drag ib = (p, ib1)" by fastforce
  have ib1: "conf R fs0 ib1 \<and> (case p of None \<Rightarrow> True | Some (parent, staging) \<Rightarrow> under R parent \<and> pred_option (under R) staging)"
  proof (cases drag)
    case None
    have "under R (ib_file_dir ib @ [tree_staging_name tree])"
      using confD(1) [OF assms] by (rule under_prefix) simp
    then show ?thesis using p assms by (auto simp: tree_parent_def None Let_def)
  next
    case (Some d)
    show ?thesis
    proof (cases "\<exists>inc. ib_drag ib = Some inc \<and> id_drag inc = d")
      case True
      then obtain inc where inc: "ib_drag ib = Some inc" "id_drag inc = d" by blast
      then show ?thesis using p assms confD(5) [OF assms inc(1)]
        by (auto simp: tree_parent_def Some drag_conf_def intro!: conf_put_drag)
    next
      case False
      then have "p = None" "ib1 = ib" using p by (auto simp: tree_parent_def Some split: option.splits if_splits)
      then show ?thesis using assms by simp
    qed
  qed
  show ?thesis
  proof (cases p)
    case None
    then show ?thesis using True ib1 refused by (auto simp: tree_offer_def p)
  next
    case (Some ps)
    obtain parent staging where ps: "ps = (parent, staging)" by fastforce
    have up: "under R parent" "pred_option (under R) staging" "conf R fs0 ib1" using ib1 Some ps by auto
    have "conf R fs0 (tree_begin now tree name files bytes drag parent staging ib1)"
    proof (cases "sanitize_name name")
      case None
      then show ?thesis using refused up(3) by (auto simp: tree_begin_def)
    next
      case (Some n)
      obtain r2 ib2 where c2: "on_fs (create_dir_all parent) ib1 = (r2, ib2)" by fastforce
      have ib2: "conf R fs0 ib2" using conf_fs [OF up(3) inside_create_dir_all [OF up(1)]] c2 by simp
      let ?root = "unique_dir_path parent n (ib_fs ib2)"
      have root: "under R ?root" using up(1) by (rule under_prefix) simp
      obtain r3 ib3 where c3: "on_fs (create_dir_all ?root) ib2 = (r3, ib3)" by fastforce
      have ib3: "conf R fs0 ib3" using conf_fs [OF ib2 inside_create_dir_all [OF root]] c3 by simp
      show ?thesis
        using ib2 ib3 root refused up(2)
        by (auto simp: tree_begin_def Some c2 c3 Let_def tree_conf_def tree_fail_def intro!: conf_put_tree)
    qed
    then show ?thesis using True by (simp add: tree_offer_def p Some ps)
  qed
qed (auto simp: tree_offer_def assms)


lemma conf_tree_dir:
  assumes "conf R fs0 ib"
  shows "conf R fs0 (tree_dir tree rel ib)"
proof (cases "hm_get (ib_trees ib) tree")
  case (Some t)
  have t: "tree_conf R t" using confD(4) [OF assms Some] .
  show ?thesis
  proof (cases "\<exists>path root. sanitize_rel_path rel = Some path \<and> it_root t = Some root")
    case True
    then obtain path root where pr: "sanitize_rel_path rel = Some path" "it_root t = Some root" by blast
    have "under R root" using t pr(2) by (simp add: tree_conf_def)
    then have "under R (root @ path)" by (rule under_prefix) simp
    then have "conf R fs0 (snd (on_fs (create_dir_all (root @ path)) ib))"
      using assms by (intro conf_fs inside_create_dir_all)
    then show ?thesis using t assms pr
      by (auto simp: tree_dir_def Some Let_def split: prod.split intro!: conf_put_tree)
  next
    case False
    then have "(case (sanitize_rel_path rel, it_root t) of (Some path, Some root) \<Rightarrow> f path root | _ \<Rightarrow> x) = x"
      for f :: "path \<Rightarrow> path \<Rightarrow> inbox" and x by (auto split: option.split)
    then show ?thesis using t assms by (auto simp: tree_dir_def Some Let_def intro!: conf_put_tree)
  qed
qed (simp add: tree_dir_def assms)

lemma conf_tree_file:
  assumes "conf R fs0 ib"
  shows "conf R fs0 (tree_file now tree i rel whole ib)"
proof (cases "hm_get (ib_trees ib) tree")
  case (Some t)
  have t: "tree_conf R t" using confD(4) [OF assms Some] .
  let ?t = "t\<lparr>it_entries := it_entries t + 1\<rparr>"
  show ?thesis
  proof (cases "\<exists>path root. sanitize_rel_path rel = Some path \<and> it_root t = Some root")
    case True
    then obtain path root where pr: "sanitize_rel_path rel = Some path" "it_root t = Some root" by blast
    have "under R root" using t pr(2) by (simp add: tree_conf_def)
    then have "under R (root @ butlast path)" by (rule under_prefix) simp
    moreover have "conf R fs0 (put_tree tree ?t ib)" using assms t by auto
    ultimately have "conf R fs0 (snd (accept_offer now (root @ butlast path) i (last path) whole (it_drag t) (Some tree)
        (put_tree tree ?t ib)))"
      by (intro conf_accept_offer)
    then show ?thesis using t assms pr
      by (auto simp: tree_file_def Some Let_def split: option.split prod.split bool.split
          intro!: conf_put_tree conf_on_tree)
  next
    case False
    then have "(case (sanitize_rel_path rel, it_root t) of (Some path, Some root) \<Rightarrow> f path root | _ \<Rightarrow> x) = x"
      for f :: "path \<Rightarrow> path \<Rightarrow> inbox" and x by (auto split: option.split)
    then show ?thesis using t assms by (auto simp: tree_file_def Some Let_def split: option.split intro!: conf_put_tree)
  qed
qed (simp add: tree_file_def assms)

lemma conf_settle_failure:
  assumes "conf R fs0 ib"
  shows "conf R fs0 (settle_failure t i reason ib)"
  using assms confD(4) [OF assms]
  by (auto simp: settle_failure_def split: option.split
      intro!: conf_try_finalize_tree conf_put_tree conf_for_drag)

lemma conf_report_failed [simp]: "conf R fs0 (report_failed i t reason ib) \<longleftrightarrow> conf R fs0 ib"
  by (simp add: report_failed_def)

lemma conf_report_progress:
  assumes "conf R fs0 ib" "hm_get (ib_recv ib) i = Some t"
  shows "conf R fs0 (report_progress now i t ib)"
  using assms confD(4) [OF assms(1)]
  by (auto simp: report_progress_def Let_def split: option.split prod.split
      intro!: conf_put_recv [OF assms(1)] conf_put_tree)

lemma conf_chunk:
  assumes "conf R fs0 ib"
  shows "conf R fs0 (chunk now i offset data ib)"
proof (cases "hm_get (ib_recv ib) i")
  case (Some t)
  obtain err t' ib' where w: "write_chunk offset data t ib = (err, t', ib')" by (metis prod_cases3)
  let ?written = "snd (on_fs (write_all (rt_file t) data) ib)"
  have cases: "(ib' = ib \<or> ib' = ?written) \<and> rt_file t' = rt_file t \<and> rt_part_path t' = rt_part_path t \<and>
      rt_final_path t' = rt_final_path t"
    using w by (auto simp: write_chunk_def Let_def split: if_splits prod.splits)
  have "inside R (handles (ib_recv ib)) (ib_fs ib) (handles (ib_recv ib)) (snd (write_all (rt_file t) data (ib_fs ib)))"
    by (rule inside_write_all) (rule handles_get [OF Some])
  then have "conf R fs0 ?written" using conf_fs_update [OF assms] by (simp add: on_fs_def split_def)
  then have ib': "conf R fs0 ib'" using cases assms by auto
  have "ib_recv ?written = ib_recv ib" by (simp add: on_fs_def split_def)
  then have get: "hm_get (ib_recv ib') i = Some t" using cases Some by auto
  have part: "under R (rt_part_path t')" using confD(3) [OF assms Some] cases by (simp add: recv_conf_def)
  show ?thesis
  proof (cases err)
    case None
    have "conf R fs0 (put_recv i t' ib')" using cases by (intro conf_put_recv [OF ib' get]) auto
    moreover have "hm_get (ib_recv (put_recv i t' ib')) i = Some t'" by (simp add: put_recv_def)
    ultimately show ?thesis using Some by (simp add: chunk_def w None conf_report_progress)
  next
    case (Some reason)
    have "conf R fs0 (do_fs (remove_file (rt_part_path t'))
        (ib_reply (SM_FileCancel i reason) (report_failed i t' reason (del_recv i ib'))))"
      using ib' part by (intro conf_do_fs inside_remove_file) auto
    then show ?thesis using \<open>hm_get (ib_recv ib) i = Some t\<close> by (simp add: chunk_def w Some conf_settle_failure)
  qed
qed (simp add: chunk_def assms)

lemma conf_file_done:
  assumes "conf R fs0 ib"
  shows "conf R fs0 (file_done sha256 i h ib)"
proof (cases "hm_get (ib_recv ib) i")
  case (Some t)
  have t: "under R (rt_part_path t)" "under R (rt_final_path t)"
    using confD(3) [OF assms Some] by (simp_all add: recv_conf_def)
  have "inside R H fs H (snd (finish_recv sha256 t h fs))" for H fs
    using inside_remove_file [OF t(1)] inside_rename [OF t, of H fs]
    by (auto simp: finish_recv_def split: prod.split outcome.split)
  then have fin: "conf R fs0 (snd (on_fs (finish_recv sha256 t h) (del_recv i ib)))"
    using assms by (intro conf_fs conf_del_recv)
  have path: "p = rt_final_path t" if "fst (on_fs (finish_recv sha256 t h) (del_recv i ib)) = Ok p" for p
    using that by (auto simp: on_fs_def finish_recv_def split: if_splits prod.splits outcome.splits)
  obtain r ib' where f: "on_fs (finish_recv sha256 t h) (del_recv i ib) = (r, ib')" by fastforce
  have "conf R fs0 ib'" using fin by (simp add: f)
  moreover have "r = Ok p \<Longrightarrow> under R p" for p using path f t(2) by auto
  ultimately show ?thesis
    using confD(4) [of R fs0 ib']
    by (cases r) (auto simp: file_done_def Some f Let_def split: option.split
        intro!: conf_try_finalize_tree conf_put_tree conf_for_drag)
qed (simp add: file_done_def assms)

lemma conf_drop_recv:
  assumes "conf R fs0 ib"
  shows "conf R fs0 (drop_recv i ib)"
  using assms confD(3) [OF assms]
  by (auto simp: drop_recv_def recv_conf_def split: option.split intro!: conf_do_fs inside_remove_file)

lemma conf_file_cancel:
  assumes "conf R fs0 ib"
  shows "conf R fs0 (file_cancel i reason ib)"
  using assms confD(3) [OF assms]
  by (auto simp: file_cancel_def recv_conf_def split: option.split
      intro!: conf_settle_failure conf_do_fs inside_remove_file)

lemma conf_discard_drag:
  assumes "conf R fs0 ib" "drag_conf R d"
  shows "conf R fs0 (discard_drag d ib)"
proof -
  have tree: "conf R fs0 ib \<Longrightarrow> conf R fs0 (discard_tree k ib)" for k ib
    by (auto simp: discard_tree_def split: option.split intro!: conf_fold conf_drop_recv conf_del_tree)
  show ?thesis
    unfolding discard_drag_def Let_def
    by (intro conf_do_fs inside_remove_dir_all conf_fold)
      (use assms tree conf_drop_recv in \<open>auto simp: drag_conf_def\<close>)
qed

lemma conf_drag_begin:
  assumes "conf R fs0 ib"
  shows "conf R fs0 (drag_begin drag count ib)"
proof -
  let ?ib1 = "case ib_drag ib of None \<Rightarrow> ib | Some old \<Rightarrow> discard_drag old (ib\<lparr>ib_drag := None\<rparr>)"
  have ib1: "conf R fs0 ?ib1"
    using assms confD(5) [OF assms] by (auto split: option.split intro!: conf_discard_drag)
  have dir: "under R (ib_file_dir ?ib1 @ [drag_staging_name drag])"
    using confD(1) [OF ib1] by (rule under_prefix) simp
  then have "conf R fs0 (snd (on_fs (create_dir_all (ib_file_dir ?ib1 @ [drag_staging_name drag])) ?ib1))"
    using ib1 by (intro conf_fs inside_create_dir_all)
  then show ?thesis using dir
    by (auto simp: drag_begin_def Let_def split_def drag_conf_def intro!: conf_put_drag)
qed

lemma conf_handle:
  assumes "conf R fs0 ib"
  shows "conf R fs0 (ib_handle sha256 now m ib)"
proof (cases m)
  case (SM_DragOffer drag i name whole)
  show ?thesis
  proof (cases "\<exists>inc. ib_drag ib = Some inc \<and> id_drag inc = drag")
    case True
    then obtain inc where inc: "ib_drag ib = Some inc" "id_drag inc = drag" by blast
    let ?ib1 = "ib\<lparr>ib_drag := Some (inc\<lparr>id_offered := id_offered inc + 1\<rparr>)\<rparr>"
    have "drag_conf R inc" using confD(5) [OF assms inc(1)] .
    then have "conf R fs0 ?ib1" "under R (id_dir inc)" using assms by (auto simp: drag_conf_def)
    then have "conf R fs0 (snd (accept_offer now (id_dir inc) i name whole (Some drag) None ?ib1))"
      by (intro conf_accept_offer)
    then show ?thesis using inc confD(5)
      by (auto simp: SM_DragOffer drag_offer_def option.pred_map comp_def split: prod.split bool.split
          intro!: conf_put_drag conf_try_finalize_drag) (force simp: option.pred_set)
  next
    case False
    then show ?thesis using assms by (auto simp: SM_DragOffer drag_offer_def split: option.split)
  qed
next
  case (SM_DragCancel drag)
  then show ?thesis using assms confD(5) [OF assms]
    by (auto simp: drag_cancel_def split: option.split intro!: conf_discard_drag)
next
  case (SM_TreeEnd tree err)
  then show ?thesis using assms confD(4) [OF assms]
    by (auto simp: tree_end_def Let_def split: option.split intro!: conf_try_finalize_tree conf_put_tree)
qed (use assms conf_accept_offer [OF assms confD(1) [OF assms]] in
  \<open>auto intro: conf_drag_begin conf_tree_offer conf_tree_dir conf_tree_file conf_chunk conf_file_done conf_file_cancel
     conf_for_drag\<close>)

lemma conf_close:
  assumes "conf R fs0 ib"
  shows "conf R fs0 (ib_close ib)"
proof -
  have recvs: "conf R fs0 (fold close_recv (ib_recv ib) ib)"
  proof (rule conf_fold [OF assms])
    fix it ib' assume it: "it \<in> set (ib_recv ib)" and ib': "conf R fs0 ib'"
    obtain i t where "it = (i, t)" by fastforce
    moreover from it this have "under R (rt_part_path t)"
      using assms by (auto simp: conf_def hm_mem_get recv_conf_def)
    ultimately show "conf R fs0 (close_recv it ib')"
      using ib' by (auto simp: close_recv_def intro!: conf_do_fs inside_remove_file)
  qed
  let ?ib1 = "(fold close_recv (ib_recv ib) ib)\<lparr>ib_recv := []\<rparr>"
  have ib1: "conf R fs0 ?ib1"
    using recvs fs_safe_subset [of R "handles (ib_recv (fold close_recv (ib_recv ib) ib))" _ "{}"]
    by (simp add: conf_def handles_def)
  have trees: "conf R fs0 (fold close_tree (ib_trees ?ib1) ?ib1)"
  proof (rule conf_fold [OF ib1])
    fix it ib' assume it: "it \<in> set (ib_trees ?ib1)" and ib': "conf R fs0 ib'"
    obtain i t where "it = (i, t)" by fastforce
    moreover from it this have "tree_conf R t" using ib1 by (auto simp: conf_def hm_mem_get)
    ultimately show "conf R fs0 (close_tree it ib')"
      using ib' by (auto simp: close_tree_def tree_conf_def intro!: conf_remove_opt)
  qed
  let ?ib2 = "(fold close_tree (ib_trees ?ib1) ?ib1)\<lparr>ib_trees := []\<rparr>"
  have ib2: "conf R fs0 ?ib2" using trees by (simp add: conf_def)
  show ?thesis
    unfolding ib_close_def Let_def
    using ib2 confD(5) [OF ib2]
    by (auto split: option.split simp: drag_conf_def intro!: conf_do_fs inside_remove_dir_all conf_no_drag)
qed

interpretation confined: machine "\<lambda>(now, m). ib_handle sha256 now m" "conf R fs0" for sha256 R fs0
  by unfold_locales (auto simp: conf_handle)

definition inbox_run :: "(u8 list \<Rightarrow> u8 list) \<Rightarrow> (nat \<times> sync_message) list \<Rightarrow> inbox \<Rightarrow> inbox" where
  "inbox_run sha256 ms ib = fold (\<lambda>(now, m). ib_handle sha256 now m) ms ib"


definition example_fs :: fs where
  "example_fs = \<lparr>fs_tree = [([''etc''], Dir), ([''etc'', ''passwd''], Reg 0), ([''in''], Dir)],
     fs_data = [(0, [1, 2, 3])], fs_next = 1, fs_faults = []\<rparr>"


end
