(* ===== verification/Pairing.thy ===== *)
theory Pairing
  imports SyncProto
begin

text \<open>
  PIN pairing (\<open>src/sync/pairing.rs\<close>). The two sides are programs that write and read messages;
  \<open>proc\<close> has one constructor per effect, so \<open>run_initiator\<close> and \<open>run_responder\<close> follow the
  code line by line. SPAKE2 and HMAC are parameters: \<open>start pin identity rnd\<close> is the state and the
  message of \<open>Spake2::start_symmetric\<close>, \<open>finish\<close> the key, \<open>hmac key data\<close> the 32 byte tag.
\<close>

section \<open>Programs that talk\<close>

datatype 'r proc =
    Return 'r
  | Send sync_message "proto_error option \<Rightarrow> 'r proc"
  | Recv "(sync_message, proto_error) outcome \<Rightarrow> 'r proc"

text \<open>
  One side against whatever arrives and whichever write fails: its result and what it wrote.
  A stream that has ended gives an I/O error.
\<close>

primrec run_proc ::
  "'r proc \<Rightarrow> proto_error option list \<Rightarrow> (sync_message, proto_error) outcome list \<Rightarrow> 'r \<times> sync_message list" where
  "run_proc (Return r) ws ins = (r, [])"
| "run_proc (Send m k) ws ins =
     (case ws of
        [] \<Rightarrow> map_prod id ((#) m) (run_proc (k None) [] ins)
      | w # ws \<Rightarrow> map_prod id (if w = None then (#) m else id) (run_proc (k w) ws ins))"
| "run_proc (Recv k) ws ins =
     (case ins of
        [] \<Rightarrow> run_proc (k (Err PE_Io)) ws []
      | i # ins \<Rightarrow> run_proc (k i) ws ins)"

text \<open>
  Both sides joined by a reliable connection: \<open>ia\<close> and \<open>ib\<close> are the messages on their way to
  each. A side that has returned has closed its stream.
\<close>

fun exchange :: "nat \<Rightarrow> 'a proc \<Rightarrow> 'b proc \<Rightarrow> sync_message list \<Rightarrow> sync_message list \<Rightarrow> 'a proc \<times> 'b proc" where
  "exchange 0 a b ia ib = (a, b)"
| "exchange (Suc n) (Send m k) b ia ib = exchange n (k None) b ia (ib @ [m])"
| "exchange (Suc n) a (Send m k) ia ib = exchange n a (k None) (ia @ [m]) ib"
| "exchange (Suc n) (Recv k) b (m # ia) ib = exchange n (k (Ok m)) b ia ib"
| "exchange (Suc n) a (Recv k) ia (m # ib) = exchange n a (k (Ok m)) ia ib"
| "exchange (Suc n) (Recv k) (Return r) [] ib = exchange n (k (Err PE_Io)) (Return r) [] ib"
| "exchange (Suc n) (Return r) (Recv k) ia [] = exchange n (Return r) (k (Err PE_Io)) ia []"
| "exchange (Suc n) a b ia ib = (a, b)"

section \<open>The exchange\<close>

datatype pairing_error = PgE_Proto proto_error | PgE_UnexpectedMessage | PgE_WrongPin | PgE_PeerRejected

definition PAIRING_IDENTITY :: string where "PAIRING_IDENTITY = ''vylo-mouse-share pairing''"
definition CONFIRM_A :: "u8 list" where "CONFIRM_A = map of_char ''vylo pairing confirm A''"
definition CONFIRM_B :: "u8 list" where "CONFIRM_B = map of_char ''vylo pairing confirm B''"

text \<open>\<open>n\<close> is drawn from \<open>0..1_000_000\<close>\<close>

definition generate_pin :: "nat \<Rightarrow> string" where
  "generate_pin n = replicate (6 - length (show_nat n)) (CHR ''0'') @ show_nat n"

definition confirm_mac :: "(u8 list \<Rightarrow> u8 list \<Rightarrow> u8 list) \<Rightarrow> u8 list \<Rightarrow> u8 list \<Rightarrow> u8 list \<Rightarrow> u8 list" where
  "confirm_mac hmac key label exporter = hmac key (label @ exporter)"

definition mac_matches :: "u8 list \<Rightarrow> u8 list \<Rightarrow> bool" where
  "mac_matches expected received \<longleftrightarrow>
     fold (\<lambda>i diff. diff OR (expected ! i XOR received ! i)) [0..<32] 0 = 0"

definition pair_send :: "sync_message \<Rightarrow> (string, pairing_error) outcome proc \<Rightarrow> (string, pairing_error) outcome proc" where
  "pair_send m k = Send m (\<lambda>w. case w of Some e \<Rightarrow> Return (Err (PgE_Proto e)) | None \<Rightarrow> k)"

definition pair_recv :: "(sync_message \<Rightarrow> (string, pairing_error) outcome proc) \<Rightarrow> (string, pairing_error) outcome proc" where
  "pair_recv k = Recv (\<lambda>r. case r of Ok m \<Rightarrow> k m | Err e \<Rightarrow> Return (Err (PgE_Proto e)) | Panic \<Rightarrow> Return Panic)"

definition run_initiator ::
  "(string \<Rightarrow> string \<Rightarrow> 'r \<Rightarrow> 's \<times> u8 list) \<Rightarrow> ('s \<Rightarrow> u8 list \<Rightarrow> u8 list option) \<Rightarrow> (u8 list \<Rightarrow> u8 list \<Rightarrow> u8 list)
    \<Rightarrow> 'r \<Rightarrow> u8 list \<Rightarrow> string \<Rightarrow> string \<Rightarrow> (string, pairing_error) outcome proc" where
  "run_initiator start finish hmac rnd exporter pin device_name =
     (case start pin PAIRING_IDENTITY rnd of (spake, outbound_msg) \<Rightarrow>
        pair_send (SM_PairStart outbound_msg device_name)
        (pair_recv (\<lambda>m. case m of
           SM_PairResponse peer_spake_msg peer_name \<Rightarrow>
             (case finish spake peer_spake_msg of
                None \<Rightarrow> Return (Err PgE_WrongPin)
              | Some key \<Rightarrow>
                  pair_send (SM_PairConfirmA (confirm_mac hmac key CONFIRM_A exporter))
                  (pair_recv (\<lambda>m. case m of
                     SM_PairConfirmB peer_mac \<Rightarrow>
                       if \<not> mac_matches (confirm_mac hmac key CONFIRM_B exporter) peer_mac
                       then Return (Err PgE_WrongPin) else Return (Ok peer_name)
                   | _ \<Rightarrow> Return (Err PgE_PeerRejected))))
         | _ \<Rightarrow> Return (Err PgE_UnexpectedMessage))))"

definition run_responder ::
  "(string \<Rightarrow> string \<Rightarrow> 'r \<Rightarrow> 's \<times> u8 list) \<Rightarrow> ('s \<Rightarrow> u8 list \<Rightarrow> u8 list option) \<Rightarrow> (u8 list \<Rightarrow> u8 list \<Rightarrow> u8 list)
    \<Rightarrow> 'r \<Rightarrow> u8 list \<Rightarrow> string \<Rightarrow> string \<Rightarrow> (string, pairing_error) outcome proc" where
  "run_responder start finish hmac rnd exporter pin device_name =
     pair_recv (\<lambda>m. case m of
        SM_PairStart peer_spake_msg peer_name \<Rightarrow>
          (case start pin PAIRING_IDENTITY rnd of (spake, outbound_msg) \<Rightarrow>
             pair_send (SM_PairResponse outbound_msg device_name)
             (case finish spake peer_spake_msg of
                None \<Rightarrow> Return (Err PgE_WrongPin)
              | Some key \<Rightarrow>
                  pair_recv (\<lambda>m. case m of
                     SM_PairConfirmA peer_mac \<Rightarrow>
                       if \<not> mac_matches (confirm_mac hmac key CONFIRM_A exporter) peer_mac
                       then Return (Err PgE_WrongPin)
                       else pair_send (SM_PairConfirmB (confirm_mac hmac key CONFIRM_B exporter))
                              (Return (Ok peer_name))
                   | _ \<Rightarrow> Return (Err PgE_UnexpectedMessage))))
      | _ \<Rightarrow> Return (Err PgE_UnexpectedMessage))"

section \<open>The comparison of tags\<close>

lemma fold_or_zero: "fold (\<lambda>i diff. diff OR f i) xs (d :: u8) = 0 \<longleftrightarrow> d = 0 \<and> (\<forall>i \<in> set xs. f i = 0)"
  by (induction xs arbitrary: d) (auto simp: or_eq_0_iff)

lemma xor_zero_iff: "x XOR y = 0 \<longleftrightarrow> x = (y :: 'a::len word)"
  by (metis xor.right_neutral xor.left_commute xor_self_eq)

text \<open>folding the differences is comparing\<close>

lemma mac_matches_eq: "length a = 32 \<Longrightarrow> length b = 32 \<Longrightarrow> mac_matches a b \<longleftrightarrow> a = b"
  by (auto simp: mac_matches_def fold_or_zero xor_zero_iff list_eq_iff_nth_eq)

lemma labels_differ: "CONFIRM_A @ e \<noteq> CONFIRM_B @ e'"
  by (simp add: CONFIRM_A_def CONFIRM_B_def)

section \<open>PINs\<close>

lemma show_nat_length: "n < 10 ^ k \<Longrightarrow> 0 < k \<Longrightarrow> length (show_nat n) \<le> k"
proof (induction n arbitrary: k rule: show_nat.induct)
  case (1 n)
  show ?case
  proof (cases "n < 10")
    case False
    then obtain k' where k: "k = Suc k'" "0 < k'" using "1.prems" by (cases k; cases "k - 1") auto
    then have "n div 10 < 10 ^ k'" using "1.prems" by (simp add: less_mult_imp_div_less mult.commute)
    from "1.IH" [OF False this k(2)] show ?thesis using False k by (subst show_nat.simps) simp
  qed (use "1.prems" in \<open>subst show_nat.simps; simp\<close>)
qed

lemma read_digits_zeros: "read_digits (replicate k (CHR ''0'') @ s) = read_digits s"
  by (induction k) (simp_all add: read_digits_def)

text \<open>six digits, and every PIN is drawn from exactly one number\<close>

lemma generate_pin_correct:
  assumes "n < 1000000"
  shows "length (generate_pin n) = 6 \<and> (\<forall>c \<in> set (generate_pin n). of_char c \<in> {48..57::nat}) \<and>
    read_digits (generate_pin n) = n"
proof -
  have "length (show_nat n) \<le> 6" using show_nat_length [of n 6] assms by simp
  moreover have "of_char c \<in> {48..57::nat}" if "c \<in> set (generate_pin n)" for c
    using that show_nat_digits [of c n] by (auto simp: generate_pin_def)
  ultimately show ?thesis by (simp add: generate_pin_def read_digits_zeros read_show_nat)
qed

section \<open>What pairing guarantees\<close>

lemma length_12: "(12::nat) = Suc (Suc (Suc (Suc (Suc (Suc (Suc (Suc (Suc (Suc (Suc (Suc 0)))))))))))"
  by simp

text \<open>the honest run, in terms of the keys and tags of the two sides\<close>

lemma exchange_honest:
  assumes a: "start pin PAIRING_IDENTITY ra = (sa, ma)" and b: "start pin' PAIRING_IDENTITY rb = (sb, mb)"
    and ka: "finish sa mb = Some k" and kb: "finish sb ma = Some k'"
  shows "exchange 12 (run_initiator start finish hmac ra ea pin na) (run_responder start finish hmac rb eb pin' nb) [] [] =
     (if mac_matches (confirm_mac hmac k' CONFIRM_A eb) (confirm_mac hmac k CONFIRM_A ea)
      then (Return (if mac_matches (confirm_mac hmac k CONFIRM_B ea) (confirm_mac hmac k' CONFIRM_B eb)
                    then Ok nb else Err PgE_WrongPin), Return (Ok na))
      else (Return (Err (PgE_Proto PE_Io)), Return (Err PgE_WrongPin)))"
  by (simp add: length_12 run_initiator_def run_responder_def pair_send_def pair_recv_def a b ka kb)

text \<open>
  \<^bold>\<open>C7.\<close> Between two machines whose messages arrive unchanged, pairing completes exactly when the
  PINs are equal and both sides see the same TLS session: then each learns the other's name.
  Otherwise the side showing the PIN answers \<open>WrongPin\<close> and closes, and neither completes. Of
  SPAKE2 it takes that both sides find a key and that the keys agree exactly when the PINs do; of
  HMAC that a tag has 32 bytes and that the tags of this exchange do not collide.
\<close>

theorem pairing_completes_iff_pins_match:
  assumes "start pin PAIRING_IDENTITY ra = (sa, ma)" "start pin' PAIRING_IDENTITY rb = (sb, mb)"
    and "finish sa mb = Some k" "finish sb ma = Some k'" "k = k' \<longleftrightarrow> pin = pin'"
    and "\<And>key m. length (hmac key m) = 32"
    and "inj_on (\<lambda>(key, m). hmac key m) ({k, k'} \<times> {CONFIRM_A @ ea, CONFIRM_A @ eb, CONFIRM_B @ ea, CONFIRM_B @ eb})"
  shows "exchange 12 (run_initiator start finish hmac ra ea pin na) (run_responder start finish hmac rb eb pin' nb) [] [] =
     (if pin = pin' \<and> ea = eb then (Return (Ok nb), Return (Ok na))
      else (Return (Err (PgE_Proto PE_Io)), Return (Err PgE_WrongPin)))"
proof -
  have eq: "mac_matches (confirm_mac hmac k' l eb) (confirm_mac hmac k l ea) \<longleftrightarrow> k' = k \<and> eb = ea"
    if "l = CONFIRM_A \<or> l = CONFIRM_B" for l
  proof -
    have "(k', l @ eb) \<in> {k, k'} \<times> {CONFIRM_A @ ea, CONFIRM_A @ eb, CONFIRM_B @ ea, CONFIRM_B @ eb}"
      "(k, l @ ea) \<in> {k, k'} \<times> {CONFIRM_A @ ea, CONFIRM_A @ eb, CONFIRM_B @ ea, CONFIRM_B @ eb}"
      using that by auto
    from inj_on_eq_iff [OF assms(7) this] show ?thesis
      by (simp add: mac_matches_eq confirm_mac_def assms(6))
  qed
  have "mac_matches (confirm_mac hmac k CONFIRM_B ea) (confirm_mac hmac k' CONFIRM_B eb) \<longleftrightarrow> k' = k \<and> eb = ea"
    using eq [of CONFIRM_B] by (auto simp: mac_matches_eq confirm_mac_def assms(6))
  then show ?thesis
    using exchange_honest [of start pin ra sa ma pin' rb sb mb finish k k' hmac ea na eb nb, OF assms(1-4)]
      eq [of CONFIRM_A] assms(5) by auto
qed

text \<open>toy instances: the key is the PIN, the tag the first byte of the key, of the label's end and of the exporter\<close>

definition toy_start :: "string \<Rightarrow> string \<Rightarrow> nat \<Rightarrow> u8 list \<times> u8 list" where
  "toy_start pin idn rnd = (map of_char pin, [of_nat rnd])"

definition toy_finish :: "u8 list \<Rightarrow> u8 list \<Rightarrow> u8 list option" where
  "toy_finish s m = Some s"

definition toy_hmac :: "u8 list \<Rightarrow> u8 list \<Rightarrow> u8 list" where
  "toy_hmac key m = take 32 (key @ drop 21 m @ replicate 32 0)"

theorem pairing_completes_iff_pins_match_witness:
  "exchange 12 (run_initiator toy_start toy_finish toy_hmac 1 [7] ''12'' ''alice'')
       (run_responder toy_start toy_finish toy_hmac 2 [7] ''12'' ''bob'') [] [] = (Return (Ok ''bob''), Return (Ok ''alice'')) \<and>
   exchange 12 (run_initiator toy_start toy_finish toy_hmac 1 [7] ''12'' ''alice'')
       (run_responder toy_start toy_finish toy_hmac 2 [7] ''13'' ''bob'') [] []
     = (Return (Err (PgE_Proto PE_Io)), Return (Err PgE_WrongPin))"
proof -
  have len: "length (toy_hmac key m) = 32" for key m by (simp add: toy_hmac_def)
  have inj: "inj_on (\<lambda>(key, m). toy_hmac key m)
      ({map of_char ''12'', map of_char p} \<times> {CONFIRM_A @ [7], CONFIRM_A @ [7], CONFIRM_B @ [7], CONFIRM_B @ [7]})"
    if "p = ''12'' \<or> p = ''13''" for p
    using that by (auto simp: inj_on_def toy_hmac_def CONFIRM_A_def CONFIRM_B_def)
  have "exchange 12 (run_initiator toy_start toy_finish toy_hmac 1 [7] ''12'' ''alice'')
       (run_responder toy_start toy_finish toy_hmac 2 [7] p ''bob'') [] [] =
     (if ''12'' = p \<and> [7] = [7 :: u8] then (Return (Ok ''bob''), Return (Ok ''alice''))
      else (Return (Err (PgE_Proto PE_Io)), Return (Err PgE_WrongPin)))"
    if p: "p = ''12'' \<or> p = ''13''" for p
    by (rule pairing_completes_iff_pins_match [where sa = "map of_char ''12''" and k = "map of_char ''12''"
          and sb = "map of_char p" and k' = "map of_char p", OF _ _ _ _ _ len inj [OF p]])
      (use p in \<open>auto simp: toy_start_def toy_finish_def\<close>)
  from this [of "''12''"] this [of "''13''"] show ?thesis by simp
qed

text \<open>one side against anything\<close>

lemma run_initiator_Ok:
  assumes "run_proc (run_initiator start finish hmac rnd exporter pin name) ws ins = (Ok peer, out)"
    and "start pin PAIRING_IDENTITY rnd = (s, m)"
  shows "\<exists>msg key mac rest. ins = Ok (SM_PairResponse msg peer) # Ok (SM_PairConfirmB mac) # rest \<and>
     finish s msg = Some key \<and> mac_matches (confirm_mac hmac key CONFIRM_B exporter) mac \<and>
     out = [SM_PairStart m name, SM_PairConfirmA (confirm_mac hmac key CONFIRM_A exporter)]"
  using assms(1) unfolding run_initiator_def assms(2)
  by (auto simp: pair_send_def pair_recv_def split: list.splits outcome.splits option.splits sync_message.splits if_splits)

lemma run_responder_Ok:
  assumes "run_proc (run_responder start finish hmac rnd exporter pin name) ws ins = (Ok peer, out)"
    and "start pin PAIRING_IDENTITY rnd = (s, m)"
  shows "\<exists>msg key mac rest. ins = Ok (SM_PairStart msg peer) # Ok (SM_PairConfirmA mac) # rest \<and>
     finish s msg = Some key \<and> mac_matches (confirm_mac hmac key CONFIRM_A exporter) mac \<and>
     out = [SM_PairResponse m name, SM_PairConfirmB (confirm_mac hmac key CONFIRM_B exporter)]"
  using assms(1) unfolding run_responder_def assms(2)
  by (auto simp: pair_send_def pair_recv_def split: list.splits outcome.splits option.splits sync_message.splits if_splits)

text \<open>
  \<^bold>\<open>C23.\<close> Whatever the other end of the connection sends and whichever write fails, either side
  completes only after a tag over its TLS session, under the key its own PIN gives, with the label
  of the other side. In particular what a side wrote, sent back to it, never completes a pairing,
  as long as the tags of the two labels differ.
\<close>

theorem pairing_needs_proof:
  assumes "start pin PAIRING_IDENTITY rnd = (s, m)" and "\<And>key d. length (hmac key d) = 32"
    and "\<forall>mac. Ok (SM_PairConfirmA mac) \<in> set ins \<or> Ok (SM_PairConfirmB mac) \<in> set ins \<longrightarrow> length mac = 32"
  shows "(fst (run_proc (run_initiator start finish hmac rnd exporter pin name) ws ins) = Ok peer \<longrightarrow>
      (\<exists>msg key. Ok (SM_PairResponse msg peer) \<in> set ins \<and> finish s msg = Some key \<and>
         Ok (SM_PairConfirmB (hmac key (CONFIRM_B @ exporter))) \<in> set ins \<and>
         snd (run_proc (run_initiator start finish hmac rnd exporter pin name) ws ins)
           = [SM_PairStart m name, SM_PairConfirmA (hmac key (CONFIRM_A @ exporter))])) \<and>
    (fst (run_proc (run_responder start finish hmac rnd exporter pin name) ws ins) = Ok peer \<longrightarrow>
      (\<exists>msg key. Ok (SM_PairStart msg peer) \<in> set ins \<and> finish s msg = Some key \<and>
         Ok (SM_PairConfirmA (hmac key (CONFIRM_A @ exporter))) \<in> set ins \<and>
         snd (run_proc (run_responder start finish hmac rnd exporter pin name) ws ins)
           = [SM_PairResponse m name, SM_PairConfirmB (hmac key (CONFIRM_B @ exporter))]))"
proof (intro conjI impI)
  let ?i = "run_proc (run_initiator start finish hmac rnd exporter pin name) ws ins"
  assume "fst ?i = Ok peer"
  then have "?i = (Ok peer, snd ?i)" by (simp add: prod_eq_iff)
  from run_initiator_Ok [OF this assms(1)] show "\<exists>msg key. Ok (SM_PairResponse msg peer) \<in> set ins \<and>
      finish s msg = Some key \<and> Ok (SM_PairConfirmB (hmac key (CONFIRM_B @ exporter))) \<in> set ins \<and>
      snd ?i = [SM_PairStart m name, SM_PairConfirmA (hmac key (CONFIRM_A @ exporter))]"
    using assms(3) by (auto simp: mac_matches_eq confirm_mac_def assms(2))
next
  let ?r = "run_proc (run_responder start finish hmac rnd exporter pin name) ws ins"
  assume "fst ?r = Ok peer"
  then have "?r = (Ok peer, snd ?r)" by (simp add: prod_eq_iff)
  from run_responder_Ok [OF this assms(1)] show "\<exists>msg key. Ok (SM_PairStart msg peer) \<in> set ins \<and>
      finish s msg = Some key \<and> Ok (SM_PairConfirmA (hmac key (CONFIRM_A @ exporter))) \<in> set ins \<and>
      snd ?r = [SM_PairResponse m name, SM_PairConfirmB (hmac key (CONFIRM_B @ exporter))]"
    using assms(3) by (auto simp: mac_matches_eq confirm_mac_def assms(2))
qed

text \<open>the answer of the other side with the right PIN is accepted, the own tag under the other label is not\<close>

theorem pairing_needs_proof_witness:
  "let ins = (\<lambda>l. [Ok (SM_PairResponse [2] ''bob''), Ok (SM_PairConfirmB (toy_hmac (map of_char ''12'') (l @ [7])))]);
       run = (\<lambda>ins. run_proc (run_initiator toy_start toy_finish toy_hmac 1 [7] ''12'' ''alice'') [] ins)
   in fst (run (ins CONFIRM_B)) = Ok ''bob'' \<and> fst (run (ins CONFIRM_A)) \<noteq> Ok ''bob'' \<and>
      snd (run (ins CONFIRM_B)) = [SM_PairStart [1] ''alice'', SM_PairConfirmA (toy_hmac (map of_char ''12'') (CONFIRM_A @ [7]))]"
proof -
  have len: "length (toy_hmac key m) = 32" for key m by (simp add: toy_hmac_def)
  define ins :: "u8 list \<Rightarrow> (sync_message, proto_error) outcome list" where "ins l = [Ok (SM_PairResponse [2] ''bob''), Ok (SM_PairConfirmB (toy_hmac (map of_char ''12'') (l @ [7])))]"
    for l :: "u8 list"
  have st: "toy_start ''12'' PAIRING_IDENTITY 1 = (map of_char ''12'', [1])" by (simp add: toy_start_def)
  have lens: "\<forall>mac. Ok (SM_PairConfirmA mac) \<in> set (ins l) \<or> Ok (SM_PairConfirmB mac) \<in> set (ins l) \<longrightarrow> length mac = 32" for l
    by (simp add: ins_def len)
  have needs: "\<exists>msg key. Ok (SM_PairResponse msg ''bob'') \<in> set (ins l) \<and> toy_finish (map of_char ''12'') msg = Some key \<and>
      Ok (SM_PairConfirmB (toy_hmac key (CONFIRM_B @ [7]))) \<in> set (ins l) \<and>
      snd (run_proc (run_initiator toy_start toy_finish toy_hmac 1 [7] ''12'' ''alice'') [] (ins l))
        = [SM_PairStart [1] ''alice'', SM_PairConfirmA (toy_hmac key (CONFIRM_A @ [7]))]"
    if "fst (run_proc (run_initiator toy_start toy_finish toy_hmac 1 [7] ''12'' ''alice'') [] (ins l)) = Ok ''bob''" for l
    by (rule pairing_needs_proof [THEN conjunct1, rule_format, OF st len lens [rule_format] that])
  have ok: "fst (run_proc (run_initiator toy_start toy_finish toy_hmac 1 [7] ''12'' ''alice'') [] (ins CONFIRM_B)) = Ok ''bob''"
    by (simp add: run_initiator_def pair_send_def pair_recv_def ins_def toy_start_def toy_finish_def mac_matches_eq confirm_mac_def len)
  have no: "fst (run_proc (run_initiator toy_start toy_finish toy_hmac 1 [7] ''12'' ''alice'') [] (ins CONFIRM_A)) \<noteq> Ok ''bob''"
  proof
    assume "fst (run_proc (run_initiator toy_start toy_finish toy_hmac 1 [7] ''12'' ''alice'') [] (ins CONFIRM_A)) = Ok ''bob''"
    from needs [OF this] show False by (auto simp: ins_def toy_finish_def toy_hmac_def CONFIRM_A_def CONFIRM_B_def)
  qed
  from needs [OF ok] ok no show ?thesis by (auto simp: ins_def Let_def toy_finish_def)
qed

end
