(* ===== verification/Clipboard.thy ===== *)
theory Clipboard
  imports Prelude
begin

text \<open>
  The clipboard monitor (\<open>src/sync/clipboard.rs\<close>). The OS clipboard and the PNG coder are
  parameters: \<open>clip\<close> holds what the clipboard answers in one step, \<open>info\<close> and \<open>frame\<close> what
  \<open>png::Decoder\<close> reads off the header and the data. \<open>sha256\<close> is an argument, too.
\<close>

type_synonym image = "u64 \<times> u64 \<times> u8 list"

datatype clip_apply = Apply_Text string | Apply_Image "u8 list"

datatype change = Change_Text string | Change_Image u32 u32 "u8 list"

record clip =
  cl_set_ok :: bool
  cl_text :: "string option"
  cl_image :: "image option"

record png_coder =
  png_info :: "u8 list \<Rightarrow> (bool \<times> u32 \<times> u32) option"
  png_frame :: "u8 list \<Rightarrow> (u32 \<times> u32 \<times> u8 list) option"
  png_encode :: "image \<Rightarrow> u8 list option"

definition SUPPRESS_RING :: nat where "SUPPRESS_RING = 8"
definition MAX_IMAGE_DIM :: u32 where "MAX_IMAGE_DIM = 16384"
definition MAX_IMAGE_BYTES :: u64 where "MAX_IMAGE_BYTES = 256 * 1024 * 1024"

section \<open>Fingerprints\<close>

definition le_bytes64 :: "u64 \<Rightarrow> u8 list" where
  "le_bytes64 w = rev (be_bytes 8 w)"

definition fingerprint_text :: "(u8 list \<Rightarrow> u8 list) \<Rightarrow> string \<Rightarrow> u8 list" where
  "fingerprint_text sha256 t = sha256 (map of_char ''text'' @ map of_char t)"

definition fingerprint_image :: "(u8 list \<Rightarrow> u8 list) \<Rightarrow> image \<Rightarrow> u8 list" where
  "fingerprint_image sha256 i =
     (case i of (width, height, rgba) \<Rightarrow>
        sha256 (map of_char ''image'' @ le_bytes64 width @ le_bytes64 height @ rgba))"

section \<open>What must not be sent again\<close>

record suppressed =
  su_ring :: "u8 list list"
  su_next_image :: bool

definition suppressed_default :: suppressed where
  "suppressed_default = \<lparr>su_ring = [], su_next_image = False\<rparr>"

definition su_contains :: "u8 list \<Rightarrow> suppressed \<Rightarrow> bool" where
  "su_contains fp s \<longleftrightarrow> fp \<in> set (su_ring s)"

definition remember :: "u8 list \<Rightarrow> suppressed \<Rightarrow> suppressed" where
  "remember fp s =
     (if fp \<in> set (su_ring s) then s
      else
        let ring = (if length (su_ring s) = SUPPRESS_RING then tl (su_ring s) else su_ring s)
        in s\<lparr>su_ring := ring @ [fp]\<rparr>)"

section \<open>The monitor\<close>

definition decode_png :: "png_coder \<Rightarrow> u8 list \<Rightarrow> (u32 \<times> u32 \<times> u8 list) option" where
  "decode_png png bytes =
     (case png_info png bytes of
        None \<Rightarrow> None
      | Some (rgba8, w, h) \<Rightarrow>
          if \<not> rgba8 then None
          else if w > MAX_IMAGE_DIM \<or> h > MAX_IMAGE_DIM \<or> ucast w * ucast h * 4 > MAX_IMAGE_BYTES then None
          else png_frame png bytes)"

record clip_monitor =
  mo_suppressed :: suppressed
  mo_last_seen :: "u8 list option"
  mo_check_image :: bool

definition monitor_new :: clip_monitor where
  "monitor_new = \<lparr>mo_suppressed = suppressed_default, mo_last_seen = None, mo_check_image = False\<rparr>"

definition mo_remember :: "u8 list \<Rightarrow> clip_monitor \<Rightarrow> clip_monitor" where
  "mo_remember fp mo = mo\<lparr>mo_suppressed := remember fp (mo_suppressed mo)\<rparr>"

text \<open>\<open>clip\<close>: whether the content could be set and what is read back\<close>

definition apply_remote ::
  "(u8 list \<Rightarrow> u8 list) \<Rightarrow> png_coder \<Rightarrow> clip \<Rightarrow> clip_apply \<Rightarrow> clip_monitor \<Rightarrow> clip_monitor" where
  "apply_remote sha256 png clip a mo =
     (case a of
        Apply_Text t \<Rightarrow>
          let mo = mo_remember (fingerprint_text sha256 t) mo in
          if \<not> cl_set_ok clip then mo
          else (case cl_text clip of
              None \<Rightarrow> mo
            | Some t \<Rightarrow>
                let fp = fingerprint_text sha256 t in (mo_remember fp mo)\<lparr>mo_last_seen := Some fp\<rparr>)
      | Apply_Image bytes \<Rightarrow>
          (case decode_png png bytes of
             None \<Rightarrow> mo
           | Some (width, height, rgba) \<Rightarrow>
               let mo = mo_remember (fingerprint_image sha256 (ucast width, ucast height, rgba)) mo in
               if \<not> cl_set_ok clip then mo
               else (case cl_image clip of
                   Some i \<Rightarrow>
                     let fp = fingerprint_image sha256 i in (mo_remember fp mo)\<lparr>mo_last_seen := Some fp\<rparr>
                 | None \<Rightarrow> mo\<lparr>mo_suppressed := (mo_suppressed mo)\<lparr>su_next_image := True\<rparr>\<rparr>)))"

definition poll_text :: "(u8 list \<Rightarrow> u8 list) \<Rightarrow> string \<Rightarrow> clip_monitor \<Rightarrow> change list \<times> clip_monitor" where
  "poll_text sha256 t mo =
     (let fp = fingerprint_text sha256 t in
      if mo_last_seen mo \<noteq> Some fp then
        let mo = mo\<lparr>mo_last_seen := Some fp\<rparr> in
        if \<not> su_contains fp (mo_suppressed mo) then ([Change_Text t], mo_remember fp mo) else ([], mo)
      else ([], mo))"

definition poll_image ::
  "(u8 list \<Rightarrow> u8 list) \<Rightarrow> png_coder \<Rightarrow> image \<Rightarrow> clip_monitor \<Rightarrow> change list \<times> clip_monitor" where
  "poll_image sha256 png i mo =
     (let fp = fingerprint_image sha256 i in
      if mo_last_seen mo \<noteq> Some fp then
        let mo = mo\<lparr>mo_last_seen := Some fp\<rparr> in
        if su_next_image (mo_suppressed mo) then
          ([], mo_remember fp (mo\<lparr>mo_suppressed := (mo_suppressed mo)\<lparr>su_next_image := False\<rparr>\<rparr>))
        else if \<not> su_contains fp (mo_suppressed mo) then
          (case png_encode png i of
             Some bytes \<Rightarrow> ([Change_Image (ucast (fst i)) (ucast (fst (snd i))) bytes], mo_remember fp mo)
           | None \<Rightarrow> ([], mo))
        else ([], mo)
      else ([], mo))"

text \<open>one turn of the loop: a remote content to apply, or a poll when none came in time\<close>

datatype turn = Apply clip clip_apply | Poll bool clip

definition monitor_turn ::
  "(u8 list \<Rightarrow> u8 list) \<Rightarrow> png_coder \<Rightarrow> turn \<Rightarrow> clip_monitor \<Rightarrow> change list \<times> clip_monitor" where
  "monitor_turn sha256 png t mo =
     (case t of
        Apply clip a \<Rightarrow> ([], apply_remote sha256 png clip a mo)
      | Poll enabled clip \<Rightarrow>
          if \<not> enabled then ([], mo)
          else (case cl_text clip of
              Some t \<Rightarrow>
                if t \<noteq> [] then poll_text sha256 t mo
                else
                  let mo = mo\<lparr>mo_check_image := \<not> mo_check_image mo\<rparr> in
                  if \<not> mo_check_image mo then ([], mo)
                  else (case cl_image clip of None \<Rightarrow> ([], mo) | Some i \<Rightarrow> poll_image sha256 png i mo)
            | None \<Rightarrow>
                let mo = mo\<lparr>mo_check_image := \<not> mo_check_image mo\<rparr> in
                if \<not> mo_check_image mo then ([], mo)
                else (case cl_image clip of None \<Rightarrow> ([], mo) | Some i \<Rightarrow> poll_image sha256 png i mo)))"

fun monitor_run ::
  "(u8 list \<Rightarrow> u8 list) \<Rightarrow> png_coder \<Rightarrow> turn list \<Rightarrow> clip_monitor \<Rightarrow> change list \<times> clip_monitor" where
  "monitor_run sha256 png [] mo = ([], mo)"
| "monitor_run sha256 png (t # ts) mo =
     (case monitor_turn sha256 png t mo of (cs, mo) \<Rightarrow>
        map_prod ((@) cs) id (monitor_run sha256 png ts mo))"

definition turn_is_apply :: "turn \<Rightarrow> bool" where
  "turn_is_apply t = (case t of Apply _ _ \<Rightarrow> True | Poll _ _ \<Rightarrow> False)"

text \<open>the fingerprint of what a poll finds\<close>

definition turn_content :: "(u8 list \<Rightarrow> u8 list) \<Rightarrow> turn \<Rightarrow> u8 list option" where
  "turn_content sha256 t =
     (case t of
        Apply _ _ \<Rightarrow> None
      | Poll _ clip \<Rightarrow>
          (case cl_text clip of
             Some t \<Rightarrow> if t \<noteq> [] then Some (fingerprint_text sha256 t) else map_option (fingerprint_image sha256) (cl_image clip)
           | None \<Rightarrow> map_option (fingerprint_image sha256) (cl_image clip)))"

section \<open>The ring\<close>

text \<open>a ring of at most eight distinct fingerprints\<close>

definition ring_ok :: "suppressed \<Rightarrow> bool" where
  "ring_ok s \<longleftrightarrow> distinct (su_ring s) \<and> length (su_ring s) \<le> SUPPRESS_RING"

lemma ring_ok_default: "ring_ok suppressed_default"
  by (simp add: ring_ok_def suppressed_default_def)

lemma ring_ok_remember [simp]: "ring_ok s \<Longrightarrow> ring_ok (remember fp s)"
  by (cases "su_ring s") (auto simp: ring_ok_def remember_def SUPPRESS_RING_def Let_def)

lemma ring_ok_next_image [simp]: "ring_ok (s\<lparr>su_next_image := b\<rparr>) \<longleftrightarrow> ring_ok s"
  by (simp add: ring_ok_def)

text \<open>how many fingerprints are younger than \<open>fp\<close>; at least eight when it is not in the ring\<close>

definition age :: "u8 list \<Rightarrow> suppressed \<Rightarrow> nat" where
  "age fp s = (if fp \<in> set (su_ring s) then length (takeWhile (\<lambda>x. x \<noteq> fp) (rev (su_ring s))) else SUPPRESS_RING)"

lemma age_next_image [simp]: "age fp (s\<lparr>su_next_image := b\<rparr>) = age fp s"
  by (simp add: age_def)

lemma age_remember:
  assumes "ring_ok s"
  shows "age fp (remember fp' s) \<le> age fp s + (if fp' \<in> set (su_ring s) then 0 else 1)"
proof (cases "fp' \<in> set (su_ring s) \<or> fp = fp' \<or> fp \<notin> set (su_ring s)")
  case True
  then show ?thesis
    by (auto simp: age_def remember_def Let_def SUPPRESS_RING_def dest: list.set_sel(2) [rotated])
next
  case False
  then have new: "fp' \<notin> set (su_ring s)" "fp \<noteq> fp'" and mem: "fp \<in> set (su_ring s)" by auto
  define r where "r = su_ring s"
  show ?thesis
  proof (cases "length r = SUPPRESS_RING \<and> fp \<notin> set (tl r)")
    case True
    then obtain x xs where r: "r = x # xs" by (cases r) (auto simp: SUPPRESS_RING_def)
    then have "x = fp" using mem True by (simp add: r_def)
    then have "\<forall>y \<in> set xs. y \<noteq> fp" using True r by auto
    then have "length (takeWhile (\<lambda>x. x \<noteq> fp) (rev r)) = length xs"
      using r \<open>x = fp\<close> by (simp add: takeWhile_tail takeWhile_eq_all_conv [THEN iffD2])
    then show ?thesis using True r new mem by (simp add: age_def remember_def Let_def r_def [symmetric])
  next
    case False
    define r' where "r' = (if length r = SUPPRESS_RING then tl r else r)"
    have mem': "fp \<in> set r'" using False mem by (auto simp: r'_def r_def)
    have "takeWhile (\<lambda>x. x \<noteq> fp) (rev r) = takeWhile (\<lambda>x. x \<noteq> fp) (rev r')"
    proof (cases "length r = SUPPRESS_RING")
      case True
      then obtain x where "rev r = rev r' @ [x]" by (cases r) (auto simp: r'_def SUPPRESS_RING_def)
      then show ?thesis using mem' by (simp add: takeWhile_append1 [of fp])
    qed (simp add: r'_def)
    moreover have "su_ring (remember fp' s) = r' @ [fp']"
      using new by (simp add: remember_def Let_def r'_def r_def)
    ultimately show ?thesis using new mem mem' by (simp add: age_def r_def [symmetric])
  qed
qed


lemma age_new: "fp \<notin> set (su_ring s) \<Longrightarrow> fp \<in> set (su_ring (remember f s)) \<Longrightarrow> age fp (remember f s) = 0"
  by (cases "su_ring s") (auto simp: age_def remember_def Let_def SUPPRESS_RING_def split: if_splits)

text \<open>how close \<open>fp\<close> is to being forgotten; an image that will be absorbed counts as one\<close>

definition staleness :: "u8 list \<Rightarrow> clip_monitor \<Rightarrow> nat" where
  "staleness fp mo = age fp (mo_suppressed mo) + (if su_next_image (mo_suppressed mo) then 1 else 0)"

definition mo_ok :: "clip_monitor \<Rightarrow> bool" where
  "mo_ok mo \<longleftrightarrow> ring_ok (mo_suppressed mo)"

lemma mo_ok_new: "mo_ok monitor_new"
  by (simp add: mo_ok_def monitor_new_def ring_ok_default)

lemma remember_next_image [simp]: "su_next_image (remember fp s) = su_next_image s"
  by (simp add: remember_def Let_def)

lemma mo_ok_remember [simp]: "mo_ok mo \<Longrightarrow> mo_ok (mo_remember fp mo)"
  by (simp add: mo_ok_def mo_remember_def)

lemma mo_ok_updates [simp]:
  "mo_ok (mo\<lparr>mo_last_seen := l\<rparr>) \<longleftrightarrow> mo_ok mo" "mo_ok (mo\<lparr>mo_check_image := b\<rparr>) \<longleftrightarrow> mo_ok mo"
  "mo_ok (mo\<lparr>mo_suppressed := s\<rparr>) \<longleftrightarrow> ring_ok s"
  by (simp_all add: mo_ok_def)

lemma staleness_updates [simp]:
  "staleness fp (mo\<lparr>mo_last_seen := l\<rparr>) = staleness fp mo" "staleness fp (mo\<lparr>mo_check_image := b\<rparr>) = staleness fp mo"
  by (simp_all add: staleness_def)

lemma staleness_remember: "mo_ok mo \<Longrightarrow> staleness fp (mo_remember f mo) \<le> staleness fp mo + 1"
  using age_remember [of "mo_suppressed mo" fp f]
  by (auto simp: staleness_def mo_remember_def mo_ok_def split: if_splits)

lemma staleness_remember2: "mo_ok mo \<Longrightarrow> staleness fp (mo_remember g (mo_remember f mo)) \<le> staleness fp mo + 2"
  using staleness_remember [of mo fp f] staleness_remember [of "mo_remember f mo" fp g] by simp

lemma staleness_absorb:
  "staleness fp (mo\<lparr>mo_suppressed := (mo_suppressed mo)\<lparr>su_next_image := True\<rparr>\<rparr>) \<le> staleness fp mo + 1"
  "su_next_image (mo_suppressed mo) \<Longrightarrow>
     staleness fp (mo\<lparr>mo_suppressed := (mo_suppressed mo)\<lparr>su_next_image := False\<rparr>\<rparr>) + 1 = staleness fp mo"
  by (auto simp: staleness_def)

lemma apply_remote_bounds:
  assumes "mo_ok mo"
  shows "mo_ok (apply_remote sha256 png clip a mo) \<and> staleness fp (apply_remote sha256 png clip a mo) \<le> staleness fp mo + 2"
proof -
  have 1: "staleness fp (mo_remember f mo) \<le> staleness fp mo + 2" for f using staleness_remember [OF assms, of fp f] by simp
  have 2: "staleness fp ((mo_remember f mo)\<lparr>mo_suppressed := (mo_suppressed (mo_remember f mo))\<lparr>su_next_image := True\<rparr>\<rparr>)
      \<le> staleness fp mo + 2" for f
    using staleness_remember [OF assms, of fp f] staleness_absorb(1) [of fp "mo_remember f mo"] by simp
  have 3: "ring_ok (mo_suppressed (mo_remember f mo))" for f using assms by (simp add: mo_ok_def mo_remember_def)
  show ?thesis
    by (auto simp: apply_remote_def assms 1 [simplified] 2 [simplified] 3 staleness_remember2 [simplified] Let_def split: clip_apply.split option.split)
qed

lemma poll_text_bounds:
  assumes "mo_ok mo" "poll_text sha256 t mo = (cs, mo')"
  shows "mo_ok mo' \<and> staleness fp mo' \<le> staleness fp mo + length cs"
proof -
  have "staleness fp (mo_remember f (mo\<lparr>mo_last_seen := l\<rparr>)) \<le> staleness fp mo + 1" for f l
    using staleness_remember [of "mo\<lparr>mo_last_seen := l\<rparr>" fp f] assms(1) by simp
  then show ?thesis using assms by (auto simp: poll_text_def Let_def split: if_splits)
qed

lemma poll_image_bounds:
  assumes "mo_ok mo" "poll_image sha256 png i mo = (cs, mo')"
  shows "mo_ok mo' \<and> staleness fp mo' \<le> staleness fp mo + length cs"
proof -
  have 1: "staleness fp (mo_remember f (mo\<lparr>mo_last_seen := l\<rparr>)) \<le> staleness fp mo + 1" for f l
    using staleness_remember [of "mo\<lparr>mo_last_seen := l\<rparr>" fp f] assms(1) by simp
  have 2: "staleness fp (mo_remember f (mo\<lparr>mo_last_seen := l, mo_suppressed := (mo_suppressed mo)\<lparr>su_next_image := False\<rparr>\<rparr>))
      \<le> staleness fp mo" if "su_next_image (mo_suppressed mo)" for f l
    using staleness_remember [of "mo\<lparr>mo_last_seen := l, mo_suppressed := (mo_suppressed mo)\<lparr>su_next_image := False\<rparr>\<rparr>" fp f]
      staleness_absorb(2) [of "mo\<lparr>mo_last_seen := l\<rparr>" fp] that assms(1) by (simp add: mo_ok_def)
  have 3: "ring_ok (mo_suppressed mo)" using assms(1) by (simp add: mo_ok_def)
  show ?thesis using assms 1 2 3 by (auto simp: poll_image_def Let_def split: if_splits option.splits)
qed

lemma monitor_turn_bounds:
  assumes "mo_ok mo" "monitor_turn sha256 png t mo = (cs, mo')"
  shows "mo_ok mo' \<and> staleness fp mo' \<le> staleness fp mo + length cs + (if turn_is_apply t then 2 else 0)"
proof (cases t)
  case (Apply clip a)
  then show ?thesis using assms apply_remote_bounds [OF assms(1)] by (auto simp: monitor_turn_def turn_is_apply_def)
next
  case (Poll enabled clip)
  then show ?thesis
    using assms poll_text_bounds [of mo sha256 _ cs mo' fp] poll_image_bounds [of "mo\<lparr>mo_check_image := True\<rparr>" sha256 png _ cs mo' fp]
    by (auto simp: monitor_turn_def turn_is_apply_def Let_def split: if_splits option.splits)
qed

lemma monitor_run_bounds:
  "mo_ok mo \<Longrightarrow> monitor_run sha256 png ts mo = (cs, mo') \<Longrightarrow>
     mo_ok mo' \<and> staleness fp mo' \<le> staleness fp mo + length cs + 2 * length (filter turn_is_apply ts)"
proof (induction ts arbitrary: mo cs mo')
  case (Cons t ts)
  obtain c mo1 where t: "monitor_turn sha256 png t mo = (c, mo1)" by fastforce
  obtain d mo2 where r: "monitor_run sha256 png ts mo1 = (d, mo2)" by fastforce
  have "cs = c @ d" "mo' = mo2" using Cons.prems(2) t r by simp_all
  then show ?case using monitor_turn_bounds [OF Cons.prems(1) t, of fp] Cons.IH [OF _ r] by auto
qed simp

lemma monitor_turn_sends:
  assumes "monitor_turn sha256 png t mo = (c # cs, mo')" "turn_content sha256 t = Some fp"
  shows "fp \<notin> set (su_ring (mo_suppressed mo))"
  using assms
  by (auto simp: monitor_turn_def turn_content_def poll_text_def poll_image_def su_contains_def Let_def
      split: turn.splits if_splits option.splits)

lemma remembered_is_fresh:
  assumes "mo_ok mo" "monitor_turn sha256 png t mo = (cs, mo')"
    and "fp \<notin> set (su_ring (mo_suppressed mo))" "fp \<in> set (su_ring (mo_suppressed mo'))"
  shows "age fp (mo_suppressed mo') \<le> 1"
proof -
  have one: "age fp (remember f s) \<le> 1"
    if "fp \<notin> set (su_ring s)" "fp \<in> set (su_ring (remember f s))" for f s
    using age_new [OF that] by simp
  have two: "age fp (remember g (remember f s)) \<le> 1"
    if "ring_ok s" "fp \<notin> set (su_ring s)" "fp \<in> set (su_ring (remember g (remember f s)))" for f g s
  proof (cases "fp \<in> set (su_ring (remember f s))")
    case True
    then have "age fp (remember f s) = 0" using age_new that(2) by blast
    then show ?thesis using age_remember [of "remember f s" fp g] that(1) by (auto split: if_splits)
  qed (use one that(3) in blast)
  have ring: "ring_ok (mo_suppressed mo)" using assms(1) by (simp add: mo_ok_def)
  show ?thesis
  proof (cases t)
    case (Apply clip a)
    then show ?thesis
      using assms(2-4) one two [OF ring]
      by (auto simp: monitor_turn_def apply_remote_def mo_remember_def Let_def split: clip_apply.splits if_splits option.splits)
  next
    case (Poll enabled clip)
    have flag: "age fp (remember f (mo_suppressed mo\<lparr>su_next_image := False\<rparr>)) \<le> 1"
      if "fp \<in> set (su_ring (remember f (mo_suppressed mo\<lparr>su_next_image := False\<rparr>)))" for f
      using one that assms(3) by simp
    then show ?thesis
      using Poll assms(2-4) one
      by (auto simp: monitor_turn_def poll_text_def poll_image_def mo_remember_def Let_def split: if_splits option.splits)
  qed
qed


text \<open>eight texts copied on this machine push the first out of the ring; it is sent again then\<close>

definition example_poll :: "string \<Rightarrow> turn" where
  "example_poll t = Poll True \<lparr>cl_set_ok = True, cl_text = Some t, cl_image = None\<rparr>"

definition example_png :: png_coder where
  "example_png = \<lparr>png_info = (\<lambda>_. None), png_frame = (\<lambda>_. None), png_encode = (\<lambda>_. None)\<rparr>"


end
