(* ===== verification/Keyboard.thy ===== *)
theory Keyboard
  imports FileNames
begin

text \<open>
  The keyboard language monitor (\<open>src/sync/keyboard.rs\<close>) and the two tables of its Windows
  backend. What the system answers is an argument: \<open>cur\<close> is what \<open>current_language\<close> returns,
  \<open>selected\<close> what \<open>select_language\<close> does.
\<close>

section \<open>Language codes\<close>

definition to_ascii_lowercase :: "string \<Rightarrow> string" where
  "to_ascii_lowercase = map (\<lambda>c. let n = of_char c :: nat in if 65 \<le> n \<and> n \<le> 90 then char_of (n + 32) else c)"

definition primary_code :: "string \<Rightarrow> string" where
  "primary_code tag = to_ascii_lowercase (hd (split_on (\<lambda>c. c = CHR ''-'' \<or> c = CHR ''_'') tag))"

definition langids :: "(u16 \<times> string) list" where
  "langids =
     [(0x09, ''en''), (0x01, ''ar''), (0x0c, ''fr''), (0x07, ''de''), (0x0a, ''es''), (0x19, ''ru''),
      (0x10, ''it''), (0x16, ''pt''), (0x1f, ''tr''), (0x0d, ''he''), (0x15, ''pl''), (0x13, ''nl''),
      (0x1d, ''sv''), (0x08, ''el''), (0x04, ''zh''), (0x11, ''ja''), (0x12, ''ko'')]"

definition langid_to_iso :: "u16 \<Rightarrow> string option" where
  "langid_to_iso langid = map_of langids (langid AND 0x3ff)"

definition klids :: "(string \<times> string) list" where
  "klids =
     [(''en'', ''00000409''), (''ar'', ''00000401''), (''fr'', ''0000040c''), (''de'', ''00000407''),
      (''es'', ''0000040a''), (''ru'', ''00000419''), (''it'', ''00000410''), (''pt'', ''00000816''),
      (''tr'', ''0000041f''), (''he'', ''0000040d''), (''pl'', ''00000415''), (''nl'', ''00000413''),
      (''sv'', ''0000041d''), (''el'', ''00000408''), (''zh'', ''00000804''), (''ja'', ''00000411''),
      (''ko'', ''00000412'')]"

definition iso_to_klid :: "string \<Rightarrow> string option" where
  "iso_to_klid lang = map_of klids lang"

text \<open>the language id in a KLID: its last four hexadecimal digits\<close>

definition hex_value :: "char \<Rightarrow> u16" where
  "hex_value c = (let n = of_char c :: nat in of_nat (if n < 58 then n - 48 else n - 87))"

definition klid_langid :: "string \<Rightarrow> u16" where
  "klid_langid k = fold (\<lambda>c n. push_bit 4 n OR hex_value c) k 0"

section \<open>The monitor\<close>

record kb_monitor =
  kb_last_seen :: "string option"
  kb_last_applied :: "string option"

definition kb_new :: "string option \<Rightarrow> kb_monitor" where
  "kb_new cur = \<lparr>kb_last_seen = cur, kb_last_applied = None\<rparr>"

text \<open>\<open>cur\<close> before and \<open>cur'\<close> after the switch\<close>

definition kb_apply_remote :: "string option \<Rightarrow> bool \<Rightarrow> string option \<Rightarrow> string \<Rightarrow> kb_monitor \<Rightarrow> kb_monitor" where
  "kb_apply_remote cur selected cur' lang kb =
     (if cur = Some lang then kb
      else if selected then
        kb\<lparr>kb_last_applied := Some lang, kb_last_seen := (case cur' of Some l \<Rightarrow> Some l | None \<Rightarrow> Some lang)\<rparr>
      else kb)"

definition kb_poll :: "bool \<Rightarrow> string option \<Rightarrow> kb_monitor \<Rightarrow> string list \<times> kb_monitor" where
  "kb_poll enabled cur kb =
     (if \<not> enabled then ([], kb)
      else case cur of
        None \<Rightarrow> ([], kb)
      | Some lang \<Rightarrow>
          if kb_last_seen kb \<noteq> Some lang then
            let kb = kb\<lparr>kb_last_seen := Some lang\<rparr> in
            if kb_last_applied kb = Some lang then ([], kb\<lparr>kb_last_applied := None\<rparr>) else ([lang], kb)
          else ([], kb))"

text \<open>a run of polls\<close>

fun kb_polls :: "(bool \<times> string option) list \<Rightarrow> kb_monitor \<Rightarrow> string list \<times> kb_monitor" where
  "kb_polls [] kb = ([], kb)"
| "kb_polls ((enabled, cur) # ps) kb =
     (case kb_poll enabled cur kb of (ls, kb) \<Rightarrow> map_prod ((@) ls) id (kb_polls ps kb))"

section \<open>What holds\<close>

lemma klids_checked:
  "list_all (\<lambda>(l, k). length k = 8 \<and> langid_to_iso (klid_langid k) = Some l) klids"
  by code_simp

lemma langids_covered: "list_all (\<lambda>(i, l). iso_to_klid l \<noteq> None) langids"
  by code_simp

text \<open>
  Switching to a language by its KLID and reading the language id back gives that language: the two
  tables agree and list the same languages.
\<close>

theorem klid_tables_agree:
  "(case iso_to_klid l of
      Some k \<Rightarrow> length k = 8 \<and> langid_to_iso (klid_langid k) = Some l
    | None \<Rightarrow> \<forall>i. langid_to_iso i \<noteq> Some l)"
  using klids_checked langids_covered
  by (fastforce simp: iso_to_klid_def [of l] langid_to_iso_def [of i for i] list_all_iff split: option.split dest: map_of_SomeD)

lemma primary_code_examples:
  "primary_code ''en-US'' = ''en'' \<and> primary_code ''zh-Hans'' = ''zh'' \<and> primary_code ''AR'' = ''ar'' \<and> primary_code ''fr'' = ''fr''"
  by code_simp

lemma kb_polls_silent:
  "kb_last_seen kb = Some lang \<Longrightarrow> \<forall>p \<in> set ps. snd p \<in> {None, Some lang} \<Longrightarrow> kb_polls ps kb = ([], kb)"
  by (induction ps) (auto simp: kb_poll_def split: option.splits)

text \<open>
  No ping-pong: after a switch the peer asked for, polls that see the old language for a while and
  then the new one, as long as the user does not switch, send nothing.
\<close>

lemma kb_applied_not_sent:
  assumes "cur \<noteq> Some lang" "cur' \<in> {cur, Some lang, None}"
    and "\<forall>p \<in> set before. snd p \<in> {None, cur'}" "\<forall>p \<in> set after. snd p \<in> {None, Some lang}"
  shows "fst (kb_polls (before @ after) (kb_apply_remote cur True cur' lang kb)) = []"
proof -
  let ?kb = "kb_apply_remote cur True cur' lang kb"
  have applied: "kb_last_applied ?kb = Some lang" using assms(1) by (simp add: kb_apply_remote_def)
  obtain l where l: "kb_last_seen ?kb = Some l" "cur' = None \<or> cur' = Some l"
    using assms(1) by (cases cur') (auto simp: kb_apply_remote_def)
  have before: "kb_polls before ?kb = ([], ?kb)"
    by (rule kb_polls_silent [OF l(1)]) (use l(2) assms(3) in auto)
  have append: "kb_polls (xs @ ys) k = (case kb_polls xs k of (ls, k) \<Rightarrow> map_prod ((@) ls) id (kb_polls ys k))"
    for xs ys and k :: kb_monitor
    by (induction xs arbitrary: k) (auto simp: map_prod_def split: prod.splits)
  have "fst (kb_polls ps k) = []"
    if "\<forall>p \<in> set ps. snd p \<in> {None, Some lang}" "kb_last_applied k = Some lang" for ps and k :: kb_monitor
    using that
  proof (induction ps arbitrary: k)
    case (Cons p ps)
    obtain e c where p: "p = (e, c)" by fastforce
    show ?case
    proof (cases "kb_last_seen k = Some lang")
      case True
      from kb_polls_silent [OF this Cons.prems(1)] show ?thesis by simp
    next
      case False
      show ?thesis
      proof (cases "e \<and> c = Some lang")
        case True
        let ?k = "\<lparr>kb_last_seen = Some lang, kb_last_applied = None\<rparr>"
        have "kb_poll e c k = ([], ?k)" using True False Cons.prems(2) by (simp add: kb_poll_def)
        moreover have "kb_polls ps ?k = ([], ?k)" by (rule kb_polls_silent) (use Cons.prems(1) in auto)
        ultimately show ?thesis by (simp add: p)
      next
        case False
        then have "kb_poll e c k = ([], k)" using Cons.prems(1) by (auto simp: kb_poll_def p split: option.splits)
        then show ?thesis using Cons by (simp add: p)
      qed
    qed
  qed simp
  then show ?thesis using assms(4) applied by (simp add: append before)
qed

text \<open>
  The remembered language outlives the switch when the read-back already shows it: if the user then
  switches away and back, the first is sent and the second is taken for an echo, so the peer stays
  at the other language.
\<close>

lemma switch_back_swallowed:
  assumes "other \<noteq> lang" "cur \<noteq> Some lang"
  shows "fst (kb_polls [(True, Some other), (True, Some lang)] (kb_apply_remote cur True (Some lang) lang kb)) = [other]"
  using assms by (simp add: kb_apply_remote_def kb_poll_def)

end
