(* ===== verification/Actor.thy ===== *)
theory Actor
  imports Pairing Clipboard Keyboard Inbox Connect "HOL-Library.List_Lexorder" "HOL-Library.Char_ord"
begin

text \<open>
  The actor of the side channel (\<open>src/sync/mod.rs\<close>) and the certificate policy of its TLS
  configurations (\<open>src/sync/tls.rs\<close>). What the actor starts and sends is recorded in order:
  \<open>ac_events\<close> to the service, \<open>ac_sent\<close> and \<open>ac_ctl\<close> to the connections by their id,
  \<open>ac_cancelled\<close> the connections it ended, \<open>ac_spawned\<close> the tasks. Oracles: \<open>ac_queue\<close> says how the
  next attempts to enqueue a message end (\<open>Q_Sent\<close> when it runs out), \<open>ac_mdns\<close> whether discovery
  starts. Connection ids and transfer ids are counters.
\<close>

definition PAIRING_WINDOW :: nat where "PAIRING_WINDOW = 120000"

datatype sync_request =
    SR_StartPairing
  | SR_PairWithPeer string string
  | SR_CancelPairing
  | SR_SendFiles "path list"
  | SR_SetClipboardSync bool
  | SR_SetKeyboardLayoutSync bool
  | SR_SetFileDir path
  | SR_SetDeviceName string
  | SR_AddrHint ip_addr
  | SR_DragFiles "path list"
  | SR_DragDrop
  | SR_DragCancel

datatype internal =
    IN_Established u64 string string bool
  | IN_ConnClosed u64
  | IN_PairingOk string string ip_addr bool
  | IN_PairingErr string bool
  | IN_DialFinished

datatype conn_ctl = CT_SendFiles "path list" | CT_DragFiles "path list" | CT_DragDrop | CT_DragCancel

record active_conn =
  an_id :: u64
  an_peer_fp :: string
  an_peer_name :: string
  an_outbound :: bool

datatype spawned = SP_Dial "ip_addr list" u16 u64 | SP_Accept ip_addr "string option" u64 | SP_PairDial string string

datatype queued = Q_Sent | Q_Full | Q_Closed

record actor =
  ac_authorized :: "(string, string) hmap"
  ac_local_fp :: string
  ac_sync_port :: u16
  ac_device_name :: string
  ac_file_dir :: path
  ac_clipboard_enabled :: bool
  ac_keyboard_enabled :: bool
  ac_pairing_open :: bool
  ac_pairing :: "(string \<times> nat) option"
  ac_pairing_dial :: bool
  ac_active :: "active_conn option"
  ac_pending_clip :: "(sync_message \<times> clipboard_kind) option"
  ac_pending_layout :: "string option"
  ac_last_sync_status :: "(bool \<times> string option) option"
  ac_conn_seq :: u64
  ac_candidates :: "ip_addr list"
  ac_dialing :: bool
  ac_discovery :: bool
  ac_events :: "sync_event list"
  ac_sent :: "(u64 \<times> sync_message) list"
  ac_ctl :: "(u64 \<times> conn_ctl) list"
  ac_cancelled :: "u64 list"
  ac_spawned :: "spawned list"
  ac_queue :: "queued list"
  ac_mdns :: "bool list"
  ac_next_id :: u64

definition ac_emit :: "sync_event \<Rightarrow> actor \<Rightarrow> actor" where
  "ac_emit e a = a\<lparr>ac_events := ac_events a @ [e]\<rparr>"

definition start_discovery :: "actor \<Rightarrow> actor" where
  "start_discovery a =
     (let ok = (case ac_mdns a of [] \<Rightarrow> True | b # _ \<Rightarrow> b);
          a = a\<lparr>ac_mdns := tl (ac_mdns a)\<rparr>
      in if ok then a\<lparr>ac_discovery := True\<rparr> else a)"

record sync_options =
  so_sync_port :: u16
  so_clipboard_sync :: bool
  so_keyboard_layout_sync :: bool
  so_file_dir :: path
  so_device_name :: string

text \<open>the actor when its loop begins; \<open>first_id\<close> is the random start of the transfer ids\<close>

definition actor_new ::
  "(string, string) hmap \<Rightarrow> string \<Rightarrow> sync_options \<Rightarrow> queued list \<Rightarrow> bool list \<Rightarrow> u64 \<Rightarrow> actor" where
  "actor_new authorized local_fp opts queue mdns first_id =
     start_discovery
     \<lparr>ac_authorized = authorized, ac_local_fp = local_fp, ac_sync_port = so_sync_port opts,
      ac_device_name = so_device_name opts, ac_file_dir = so_file_dir opts,
      ac_clipboard_enabled = so_clipboard_sync opts, ac_keyboard_enabled = so_keyboard_layout_sync opts,
      ac_pairing_open = False, ac_pairing = None, ac_pairing_dial = False, ac_active = None,
      ac_pending_clip = None, ac_pending_layout = None, ac_last_sync_status = None, ac_conn_seq = 0,
      ac_candidates = [], ac_dialing = False, ac_discovery = False, ac_events = [], ac_sent = [],
      ac_ctl = [], ac_cancelled = [], ac_spawned = [], ac_queue = queue, ac_mdns = mdns,
      ac_next_id = first_id\<rparr>"

section \<open>Certificates\<close>

definition policy_check :: "(u8 list \<Rightarrow> u8 list) \<Rightarrow> (string, string) hmap \<Rightarrow> bool \<Rightarrow> bool \<Rightarrow> u8 list \<Rightarrow> bool" where
  "policy_check sha256 authorized pairing_open allow_pairing end_entity \<longleftrightarrow>
     hm_get authorized (generate_fingerprint sha256 end_entity) \<noteq> None \<or> (allow_pairing \<and> pairing_open)"

text \<open>the three configurations of \<open>build_tls\<close>\<close>

definition acceptor_admits :: "(u8 list \<Rightarrow> u8 list) \<Rightarrow> actor \<Rightarrow> u8 list \<Rightarrow> bool" where
  "acceptor_admits sha256 a = policy_check sha256 (ac_authorized a) (ac_pairing_open a) True"

definition connector_admits :: "(u8 list \<Rightarrow> u8 list) \<Rightarrow> actor \<Rightarrow> u8 list \<Rightarrow> bool" where
  "connector_admits sha256 a = policy_check sha256 (ac_authorized a) (ac_pairing_open a) False"

definition pairing_connector_admits :: "(u8 list \<Rightarrow> u8 list) \<Rightarrow> actor \<Rightarrow> u8 list \<Rightarrow> bool" where
  "pairing_connector_admits sha256 a = policy_check sha256 (ac_authorized a) (ac_pairing_open a) True"

definition peer_fingerprint :: "(u8 list \<Rightarrow> u8 list) \<Rightarrow> u8 list list option \<Rightarrow> string option" where
  "peer_fingerprint sha256 peer_certificates =
     (case peer_certificates of Some (c # _) \<Rightarrow> Some (generate_fingerprint sha256 c) | _ \<Rightarrow> None)"

section \<open>Sending\<close>

text \<open>\<open>try_send\<close> on the queue of the active connection\<close>

definition try_send :: "active_conn \<Rightarrow> sync_message \<Rightarrow> actor \<Rightarrow> queued \<times> actor" where
  "try_send c m a =
     (let q = (case ac_queue a of [] \<Rightarrow> Q_Sent | q # _ \<Rightarrow> q);
          a = a\<lparr>ac_queue := tl (ac_queue a)\<rparr>
      in (q, if q = Q_Sent then a\<lparr>ac_sent := ac_sent a @ [(an_id c, m)]\<rparr> else a))"

definition send_clip :: "sync_message \<Rightarrow> clipboard_kind \<Rightarrow> actor \<Rightarrow> actor" where
  "send_clip m kind a =
     (case ac_active a of
        None \<Rightarrow> a\<lparr>ac_pending_clip := Some (m, kind)\<rparr>
      | Some c \<Rightarrow>
          (case try_send c m a of
             (Q_Sent, a) \<Rightarrow> ac_emit (SY_Clipboard Sent kind) (a\<lparr>ac_pending_clip := None\<rparr>)
           | (Q_Full, a) \<Rightarrow> a\<lparr>ac_pending_clip := Some (m, kind)\<rparr>
           | (Q_Closed, a) \<Rightarrow> a\<lparr>ac_pending_clip := None\<rparr>))"

definition clip_message :: "change \<Rightarrow> sync_message \<times> clipboard_kind" where
  "clip_message c =
     (case c of
        Change_Text t \<Rightarrow> (SM_ClipText t, CK_Text)
      | Change_Image width height png \<Rightarrow> (SM_ClipImage width height png, CK_Image))"

definition handle_clip_change :: "change \<Rightarrow> actor \<Rightarrow> actor" where
  "handle_clip_change c a = (case clip_message c of (m, kind) \<Rightarrow> send_clip m kind a)"

definition flush_pending_clip :: "actor \<Rightarrow> actor" where
  "flush_pending_clip a =
     (if ac_active a = None then a
      else case ac_pending_clip a of
        None \<Rightarrow> a
      | Some (m, kind) \<Rightarrow> send_clip m kind (a\<lparr>ac_pending_clip := None\<rparr>))"

definition send_layout :: "string \<Rightarrow> actor \<Rightarrow> actor" where
  "send_layout lang a =
     (case ac_active a of
        None \<Rightarrow> a\<lparr>ac_pending_layout := Some lang\<rparr>
      | Some c \<Rightarrow>
          (case try_send c (SM_KeyboardLayout lang) a of
             (Q_Sent, a) \<Rightarrow> a\<lparr>ac_pending_layout := None\<rparr>
           | (Q_Full, a) \<Rightarrow> a\<lparr>ac_pending_layout := Some lang\<rparr>
           | (Q_Closed, a) \<Rightarrow> a\<lparr>ac_pending_layout := None\<rparr>))"

definition flush_pending_layout :: "actor \<Rightarrow> actor" where
  "flush_pending_layout a =
     (if ac_active a = None then a
      else case ac_pending_layout a of
        None \<Rightarrow> a
      | Some lang \<Rightarrow> send_layout lang (a\<lparr>ac_pending_layout := None\<rparr>))"

definition emit_sync_status :: "bool \<Rightarrow> string option \<Rightarrow> actor \<Rightarrow> actor" where
  "emit_sync_status connected peer_name a =
     (if ac_last_sync_status a = Some (connected, peer_name) then a
      else ac_emit (SY_Status connected peer_name) (a\<lparr>ac_last_sync_status := Some (connected, peer_name)\<rparr>))"

text \<open>to the connection, if there is one\<close>

definition send_ctl :: "conn_ctl \<Rightarrow> actor \<Rightarrow> actor" where
  "send_ctl ctl a = (case ac_active a of None \<Rightarrow> a | Some c \<Rightarrow> a\<lparr>ac_ctl := ac_ctl a @ [(an_id c, ctl)]\<rparr>)"

section \<open>Pairing windows and dialing\<close>

definition close_pairing_window :: "actor \<Rightarrow> actor" where
  "close_pairing_window a =
     (let a = a\<lparr>ac_pairing := None\<rparr> in if \<not> ac_pairing_dial a then a\<lparr>ac_pairing_open := False\<rparr> else a)"

definition conn_ctx :: "actor \<Rightarrow> u64 \<times> actor" where
  "conn_ctx a = (let n = ac_conn_seq a + 1 in (n, a\<lparr>ac_conn_seq := n\<rparr>))"

definition ac_spawn :: "spawned \<Rightarrow> actor \<Rightarrow> actor" where
  "ac_spawn s a = a\<lparr>ac_spawned := ac_spawned a @ [s]\<rparr>"

definition maybe_dial :: "actor \<Rightarrow> actor" where
  "maybe_dial a =
     (if ac_active a \<noteq> None \<or> ac_dialing a \<or> ac_candidates a = [] then a
      else if ac_authorized a = [] then a
      else if ac_pairing_open a then a
      else
        let a = a\<lparr>ac_dialing := True\<rparr>;
            (n, a) = conn_ctx a
        in ac_spawn (SP_Dial (ac_candidates a) (ac_sync_port a) n) a)"

definition tick :: "nat \<Rightarrow> actor \<Rightarrow> actor" where
  "tick now a =
     (let a = (case ac_pairing a of
                 Some (_, opened) \<Rightarrow>
                   if now - opened > PAIRING_WINDOW
                   then ac_emit (SY_PairingFailed ''pairing window timed out'') (close_pairing_window a) else a
               | None \<Rightarrow> a)
      in maybe_dial (flush_pending_layout (flush_pending_clip a)))"

definition spawn_accept :: "ip_addr \<Rightarrow> actor \<Rightarrow> actor" where
  "spawn_accept addr a =
     (case conn_ctx a of (n, a) \<Rightarrow> ac_spawn (SP_Accept addr (map_option fst (ac_pairing a)) n) a)"

definition spawn_pair_dial :: "string \<Rightarrow> string \<Rightarrow> actor \<Rightarrow> actor" where
  "spawn_pair_dial addr pin a =
     ac_spawn (SP_PairDial addr pin) (a\<lparr>ac_pairing_dial := True, ac_pairing_open := True\<rparr>)"

text \<open>files offered while no device is connected: each is reported as failed\<close>

definition next_transfer_id :: "actor \<Rightarrow> u64 \<times> actor" where
  "next_transfer_id a = (ac_next_id a, a\<lparr>ac_next_id := ac_next_id a + 1\<rparr>)"

definition file_name :: "path \<Rightarrow> string" where
  "file_name p = (if p = [] then show_path p else last p)"

definition not_connected :: "(path \<Rightarrow> bool) \<Rightarrow> path \<Rightarrow> actor \<Rightarrow> actor" where
  "not_connected isdir p a =
     (case next_transfer_id a of (i, a) \<Rightarrow>
        ac_emit (SY_Transfer
          (if isdir p
           then tree_status i (file_name p) 0 Sent 0 0 TS_Failed (Some ''no device connected'')
           else file_status i (file_name p) Sent 0 0 TS_Failed (Some ''no device connected''))) a)"

definition handle_sync_request :: "(path \<Rightarrow> bool) \<Rightarrow> nat \<Rightarrow> nat \<Rightarrow> sync_request \<Rightarrow> actor \<Rightarrow> actor" where
  "handle_sync_request isdir now rnd r a =
     (case r of
        SR_StartPairing \<Rightarrow>
          let pin = generate_pin rnd;
              a = a\<lparr>ac_pairing := Some (pin, now), ac_pairing_open := True\<rparr>
          in ac_emit (SY_PairingStarted pin (ac_sync_port a)) a
      | SR_PairWithPeer addr pin \<Rightarrow> spawn_pair_dial addr pin a
      | SR_CancelPairing \<Rightarrow> ac_emit (SY_PairingFailed ''cancelled'') (close_pairing_window a)
      | SR_SendFiles paths \<Rightarrow>
          if ac_active a \<noteq> None then send_ctl (CT_SendFiles paths) a else fold (not_connected isdir) paths a
      | SR_SetClipboardSync enabled \<Rightarrow> a\<lparr>ac_clipboard_enabled := enabled\<rparr>
      | SR_SetKeyboardLayoutSync enabled \<Rightarrow> a\<lparr>ac_keyboard_enabled := enabled\<rparr>
      | SR_SetFileDir dir \<Rightarrow> a\<lparr>ac_file_dir := dir\<rparr>
      | SR_SetDeviceName name \<Rightarrow>
          if name \<noteq> ac_device_name a
          then start_discovery (a\<lparr>ac_device_name := name, ac_discovery := False\<rparr>) else a
      | SR_AddrHint ip \<Rightarrow> a\<lparr>ac_candidates := List.insert ip (ac_candidates a)\<rparr>
      | SR_DragFiles paths \<Rightarrow> send_ctl (CT_DragFiles paths) a
      | SR_DragDrop \<Rightarrow> send_ctl CT_DragDrop a
      | SR_DragCancel \<Rightarrow> send_ctl CT_DragCancel a)"

section \<open>What the tasks report\<close>

definition orientation_prefers :: "string \<Rightarrow> bool \<Rightarrow> string \<Rightarrow> bool" where
  "orientation_prefers local_fp outbound peer_fp \<longleftrightarrow> outbound = (local_fp < peer_fp)"

definition prefers :: "actor \<Rightarrow> active_conn \<Rightarrow> bool" where
  "prefers a c = orientation_prefers (ac_local_fp a) (an_outbound c) (an_peer_fp c)"

definition keep_new :: "active_conn \<Rightarrow> actor \<Rightarrow> bool" where
  "keep_new c a = (case ac_active a of None \<Rightarrow> True | Some old \<Rightarrow> prefers a c \<or> \<not> prefers a old)"

definition ac_cancel :: "u64 \<Rightarrow> actor \<Rightarrow> actor" where
  "ac_cancel n a = a\<lparr>ac_cancelled := ac_cancelled a @ [n]\<rparr>"

definition established :: "active_conn \<Rightarrow> actor \<Rightarrow> actor" where
  "established c a =
     (if keep_new c a then
        let a = (case ac_active a of None \<Rightarrow> a | Some old \<Rightarrow> ac_cancel (an_id old) a)
        in flush_pending_layout (flush_pending_clip
             (emit_sync_status True (Some (an_peer_name c)) (a\<lparr>ac_active := Some c\<rparr>)))
      else ac_cancel (an_id c) a)"

definition handle_internal :: "internal \<Rightarrow> actor \<Rightarrow> actor" where
  "handle_internal i a =
     (case i of
        IN_Established n peer_fp peer_name outbound \<Rightarrow>
          established \<lparr>an_id = n, an_peer_fp = peer_fp, an_peer_name = peer_name, an_outbound = outbound\<rparr> a
      | IN_ConnClosed n \<Rightarrow>
          (case ac_active a of
             Some c \<Rightarrow> if an_id c = n then emit_sync_status False None (a\<lparr>ac_active := None\<rparr>) else a
           | None \<Rightarrow> a)
      | IN_PairingOk fingerprint name addr initiated \<Rightarrow>
          let a = close_pairing_window (a\<lparr>ac_pairing_dial := False\<rparr>);
              a = a\<lparr>ac_pairing_open := False, ac_candidates := List.insert addr (ac_candidates a)\<rparr>
          in ac_emit (SY_PairingComplete fingerprint name addr initiated) a
      | IN_PairingErr msg initiated \<Rightarrow>
          if initiated then
            ac_emit (SY_PairingFailed msg) (a\<lparr>ac_pairing_dial := False, ac_pairing_open := False\<rparr>)
          else a
      | IN_DialFinished \<Rightarrow> a\<lparr>ac_dialing := False\<rparr>)"

text \<open>one turn of the actor's loop\<close>

datatype actor_input =
    AI_Request nat sync_request
  | AI_Accepted ip_addr
  | AI_Clip change
  | AI_Layout string
  | AI_Peers "discovered_peer list"
  | AI_Internal internal
  | AI_Tick

definition actor_step :: "(path \<Rightarrow> bool) \<Rightarrow> nat \<times> actor_input \<Rightarrow> actor \<Rightarrow> actor" where
  "actor_step isdir i a =
     (case i of (now, i) \<Rightarrow>
        (case i of
           AI_Request rnd r \<Rightarrow> handle_sync_request isdir now rnd r a
         | AI_Accepted addr \<Rightarrow> spawn_accept addr a
         | AI_Clip c \<Rightarrow> handle_clip_change c a
         | AI_Layout lang \<Rightarrow> send_layout lang a
         | AI_Peers peers \<Rightarrow> ac_emit (SY_PeersDiscovered peers) a
         | AI_Internal n \<Rightarrow> handle_internal n a
         | AI_Tick \<Rightarrow> tick now a))"

end
