(* ===== verification/ActorSafety.thy ===== *)
theory ActorSafety
  imports Actor "HOL-Library.Multiset"
begin

text \<open>
  What holds of the actor over any sequence of requests, reports of its tasks and ticks: the
  statuses it reports, the connections it keeps and cancels, when strangers are admitted, and that
  two machines that dial each other at once keep the same connection.
\<close>

section \<open>What the operations leave alone\<close>

fun sync_status :: "sync_event \<Rightarrow> (bool \<times> string option) option" where
  "sync_status (SY_Status connected peer_name) = Some (connected, peer_name)"
| "sync_status _ = None"

definition statuses :: "actor \<Rightarrow> (bool \<times> string option) list" where
  "statuses a = List.map_filter sync_status (ac_events a)"

definition conn_view :: "actor \<Rightarrow> (bool \<times> string option) list \<times> (bool \<times> string option) option \<times> active_conn option \<times> u64 list \<times> string" where
  "conn_view a = (statuses a, ac_last_sync_status a, ac_active a, ac_cancelled a, ac_local_fp a)"

definition pairing_view :: "actor \<Rightarrow> bool \<times> (string \<times> nat) option \<times> bool" where
  "pairing_view a = (ac_pairing_open a, ac_pairing a, ac_pairing_dial a)"

lemma map_filter_snoc: "List.map_filter f (xs @ [x]) = List.map_filter f xs @ (case f x of None \<Rightarrow> [] | Some y \<Rightarrow> [y])"
  by (simp add: List.map_filter_def split: option.split)

lemma conn_view_emit [simp]: "sync_status e = None \<Longrightarrow> conn_view (ac_emit e a) = conn_view a"
  by (simp add: conn_view_def statuses_def ac_emit_def map_filter_snoc)

lemma pairing_view_emit [simp]: "pairing_view (ac_emit e a) = pairing_view a"
  by (simp add: pairing_view_def ac_emit_def)

lemma conn_view_updates [simp]:
  "conn_view (a\<lparr>ac_pending_clip := c\<rparr>) = conn_view a" "conn_view (a\<lparr>ac_pending_layout := l\<rparr>) = conn_view a"
  "conn_view (a\<lparr>ac_clipboard_enabled := b\<rparr>) = conn_view a" "conn_view (a\<lparr>ac_keyboard_enabled := b\<rparr>) = conn_view a"
  "conn_view (a\<lparr>ac_file_dir := d\<rparr>) = conn_view a" "conn_view (a\<lparr>ac_candidates := ips\<rparr>) = conn_view a"
  "conn_view (a\<lparr>ac_dialing := b\<rparr>) = conn_view a" "conn_view (a\<lparr>ac_next_id := i\<rparr>) = conn_view a"
  "conn_view (a\<lparr>ac_ctl := cs\<rparr>) = conn_view a" "conn_view (a\<lparr>ac_queue := qs\<rparr>) = conn_view a"
  "conn_view (a\<lparr>ac_sent := ms\<rparr>) = conn_view a" "conn_view (a\<lparr>ac_conn_seq := n\<rparr>) = conn_view a"
  "conn_view (a\<lparr>ac_spawned := ss\<rparr>) = conn_view a" "conn_view (a\<lparr>ac_mdns := bs\<rparr>) = conn_view a"
  "conn_view (a\<lparr>ac_discovery := b\<rparr>) = conn_view a" "conn_view (a\<lparr>ac_device_name := name\<rparr>) = conn_view a"
  "conn_view (a\<lparr>ac_pairing_open := b\<rparr>) = conn_view a" "conn_view (a\<lparr>ac_pairing := p\<rparr>) = conn_view a"
  "conn_view (a\<lparr>ac_pairing_dial := b\<rparr>) = conn_view a"
  by (simp_all add: conn_view_def statuses_def)

lemma pairing_view_updates [simp]:
  "pairing_view (a\<lparr>ac_pending_clip := c\<rparr>) = pairing_view a" "pairing_view (a\<lparr>ac_pending_layout := l\<rparr>) = pairing_view a"
  "pairing_view (a\<lparr>ac_clipboard_enabled := b\<rparr>) = pairing_view a" "pairing_view (a\<lparr>ac_keyboard_enabled := b\<rparr>) = pairing_view a"
  "pairing_view (a\<lparr>ac_file_dir := d\<rparr>) = pairing_view a" "pairing_view (a\<lparr>ac_candidates := ips\<rparr>) = pairing_view a"
  "pairing_view (a\<lparr>ac_dialing := b\<rparr>) = pairing_view a" "pairing_view (a\<lparr>ac_next_id := i\<rparr>) = pairing_view a"
  "pairing_view (a\<lparr>ac_ctl := cs\<rparr>) = pairing_view a" "pairing_view (a\<lparr>ac_queue := qs\<rparr>) = pairing_view a"
  "pairing_view (a\<lparr>ac_sent := ms\<rparr>) = pairing_view a" "pairing_view (a\<lparr>ac_conn_seq := n\<rparr>) = pairing_view a"
  "pairing_view (a\<lparr>ac_spawned := ss\<rparr>) = pairing_view a" "pairing_view (a\<lparr>ac_mdns := bs\<rparr>) = pairing_view a"
  "pairing_view (a\<lparr>ac_discovery := b\<rparr>) = pairing_view a" "pairing_view (a\<lparr>ac_device_name := name\<rparr>) = pairing_view a"
  "pairing_view (a\<lparr>ac_active := c'\<rparr>) = pairing_view a" "pairing_view (a\<lparr>ac_cancelled := ns\<rparr>) = pairing_view a"
  "pairing_view (a\<lparr>ac_last_sync_status := s\<rparr>) = pairing_view a"
  by (simp_all add: pairing_view_def)

lemma try_send_view [simp]:
  "conn_view (snd (try_send c m a)) = conn_view a" "pairing_view (snd (try_send c m a)) = pairing_view a"
  by (simp_all add: try_send_def Let_def)

lemma send_clip_view [simp]: "conn_view (send_clip m kind a) = conn_view a" "pairing_view (send_clip m kind a) = pairing_view a"
proof -
  have "conn_view (send_clip m kind a) = conn_view a \<and> pairing_view (send_clip m kind a) = pairing_view a"
  proof (cases "ac_active a")
    case (Some c)
    obtain q a' where q: "try_send c m a = (q, a')" by fastforce
    have "conn_view a' = conn_view a" "pairing_view a' = pairing_view a" using try_send_view [of c m a] q by simp_all
    then show ?thesis using Some q by (cases q) (simp_all add: send_clip_def)
  qed (simp add: send_clip_def)
  then show "conn_view (send_clip m kind a) = conn_view a" "pairing_view (send_clip m kind a) = pairing_view a" by simp_all
qed

lemma send_layout_view [simp]: "conn_view (send_layout lang a) = conn_view a" "pairing_view (send_layout lang a) = pairing_view a"
proof -
  have "conn_view (send_layout lang a) = conn_view a \<and> pairing_view (send_layout lang a) = pairing_view a"
  proof (cases "ac_active a")
    case (Some c)
    obtain q a' where q: "try_send c (SM_KeyboardLayout lang) a = (q, a')" by fastforce
    have "conn_view a' = conn_view a" "pairing_view a' = pairing_view a"
      using try_send_view [of c "SM_KeyboardLayout lang" a] q by simp_all
    then show ?thesis using Some q by (cases q) (simp_all add: send_layout_def)
  qed (simp add: send_layout_def)
  then show "conn_view (send_layout lang a) = conn_view a" "pairing_view (send_layout lang a) = pairing_view a" by simp_all
qed

lemma flush_view [simp]:
  "conn_view (flush_pending_clip a) = conn_view a" "pairing_view (flush_pending_clip a) = pairing_view a"
  "conn_view (flush_pending_layout a) = conn_view a" "pairing_view (flush_pending_layout a) = pairing_view a"
  by (simp_all add: flush_pending_clip_def flush_pending_layout_def split: option.split)

lemma start_discovery_view [simp]:
  "conn_view (start_discovery a) = conn_view a" "pairing_view (start_discovery a) = pairing_view a"
  by (simp_all add: start_discovery_def Let_def)

lemma spawn_view [simp]:
  "conn_view (ac_spawn s a) = conn_view a" "pairing_view (ac_spawn s a) = pairing_view a"
  "conn_view (snd (conn_ctx a)) = conn_view a" "pairing_view (snd (conn_ctx a)) = pairing_view a"
  by (simp_all add: ac_spawn_def conn_ctx_def Let_def)

lemma maybe_dial_view [simp]: "conn_view (maybe_dial a) = conn_view a" "pairing_view (maybe_dial a) = pairing_view a"
  by (simp_all add: maybe_dial_def conn_ctx_def Let_def)

lemma spawn_accept_view [simp]:
  "conn_view (spawn_accept addr a) = conn_view a" "pairing_view (spawn_accept addr a) = pairing_view a"
  by (simp_all add: spawn_accept_def conn_ctx_def Let_def)

lemma send_ctl_view [simp]: "conn_view (send_ctl c a) = conn_view a" "pairing_view (send_ctl c a) = pairing_view a"
  by (simp_all add: send_ctl_def split: option.split)

lemma not_connected_view [simp]:
  "conn_view (not_connected isdir p a) = conn_view a" "pairing_view (not_connected isdir p a) = pairing_view a"
  by (simp_all add: not_connected_def next_transfer_id_def)

lemma fold_not_connected_view [simp]:
  "conn_view (fold (not_connected isdir) ps a) = conn_view a" "pairing_view (fold (not_connected isdir) ps a) = pairing_view a"
  by (induction ps arbitrary: a) simp_all

lemma close_window_view [simp]: "conn_view (close_pairing_window a) = conn_view a"
  by (simp add: close_pairing_window_def Let_def)

lemma request_view [simp]: "conn_view (handle_sync_request isdir now rnd r a) = conn_view a"
  by (cases r) (simp_all add: handle_sync_request_def spawn_pair_dial_def Let_def)

lemma tick_view [simp]: "conn_view (tick now a) = conn_view a"
  by (simp add: tick_def Let_def split: option.split)

lemma clip_change_view [simp]:
  "conn_view (handle_clip_change c a) = conn_view a" "pairing_view (handle_clip_change c a) = pairing_view a"
  by (simp_all add: handle_clip_change_def split: prod.split)

section \<open>Connections\<close>

lemma conn_view_cong:
  assumes "conn_view a = conn_view b"
  shows "statuses a = statuses b" "ac_last_sync_status a = ac_last_sync_status b" "ac_active a = ac_active b"
    "ac_cancelled a = ac_cancelled b" "ac_local_fp a = ac_local_fp b"
  using assms by (simp_all add: conn_view_def)

lemma emit_sync_status_view:
  "conn_view (emit_sync_status c n a) =
     (statuses a @ (if ac_last_sync_status a = Some (c, n) then [] else [(c, n)]), Some (c, n), ac_active a, ac_cancelled a, ac_local_fp a)"
  by (simp add: emit_sync_status_def conn_view_def statuses_def ac_emit_def map_filter_snoc)

text \<open>the reported statuses follow the connection and never repeat\<close>

definition status_ok :: "actor \<Rightarrow> bool" where
  "status_ok a \<longleftrightarrow>
     distinct_adj (statuses a) \<and>
     ac_last_sync_status a = (if statuses a = [] then None else Some (last (statuses a))) \<and>
     (case ac_active a of
        Some c \<Rightarrow> ac_last_sync_status a = Some (True, Some (an_peer_name c))
      | None \<Rightarrow> ac_last_sync_status a \<in> {None, Some (False, None)})"

lemma status_ok_cong: "conn_view a = conn_view b \<Longrightarrow> status_ok a \<longleftrightarrow> status_ok b"
  by (simp add: status_ok_def conn_view_cong [of a b] cong: option.case_cong)

lemma emit_sync_status_ok:
  assumes "distinct_adj (statuses a)"
    and "ac_last_sync_status a = (if statuses a = [] then None else Some (last (statuses a)))"
    and "case ac_active a of Some p \<Rightarrow> c \<and> n = Some (an_peer_name p) | None \<Rightarrow> \<not> c \<and> n = None"
  shows "status_ok (emit_sync_status c n a)"
proof -
  note view = emit_sync_status_view [of c n a, unfolded conn_view_def, simplified]
  have "distinct_adj (statuses a @ [(c, n)])" if "ac_last_sync_status a \<noteq> Some (c, n)"
    using assms(1,2) that by (auto simp: distinct_adj_append_iff)
  then show ?thesis using assms view by (auto simp: status_ok_def split: option.splits)
qed

lemma handle_internal_view:
  "conn_view (handle_internal i a) =
     (case i of
        IN_Established n peer_fp peer_name outbound \<Rightarrow>
          let c = \<lparr>an_id = n, an_peer_fp = peer_fp, an_peer_name = peer_name, an_outbound = outbound\<rparr> in
          if keep_new c a then
            conn_view (emit_sync_status True (Some peer_name)
              ((case ac_active a of None \<Rightarrow> a | Some old \<Rightarrow> ac_cancel (an_id old) a)\<lparr>ac_active := Some c\<rparr>))
          else conn_view (ac_cancel n a)
      | IN_ConnClosed n \<Rightarrow>
          (case ac_active a of
             Some c \<Rightarrow> if an_id c = n then conn_view (emit_sync_status False None (a\<lparr>ac_active := None\<rparr>)) else conn_view a
           | None \<Rightarrow> conn_view a)
      | _ \<Rightarrow> conn_view a)"
  by (cases i) (simp_all add: handle_internal_def established_def Let_def split: option.split)

lemma status_ok_internal:
  assumes "status_ok a"
  shows "status_ok (handle_internal i a)"
proof -
  have d: "distinct_adj (statuses a)" "ac_last_sync_status a = (if statuses a = [] then None else Some (last (statuses a)))"
    using assms by (simp_all add: status_ok_def)
  have cancel: "statuses (ac_cancel n b) = statuses b" "ac_last_sync_status (ac_cancel n b) = ac_last_sync_status b"
    "ac_active (ac_cancel n b) = ac_active b" for n b
    by (simp_all add: ac_cancel_def statuses_def)
  have upd: "statuses (b\<lparr>ac_active := c\<rparr>) = statuses b" for b c by (simp add: statuses_def)
  show ?thesis
  proof (cases i)
    case (IN_Established n fp name out)
    let ?c = "\<lparr>an_id = n, an_peer_fp = fp, an_peer_name = name, an_outbound = out\<rparr>"
    let ?b = "(case ac_active a of None \<Rightarrow> a | Some old \<Rightarrow> ac_cancel (an_id old) a)\<lparr>ac_active := Some ?c\<rparr>"
    have new: "status_ok (emit_sync_status True (Some name) ?b)"
      by (rule emit_sync_status_ok) (auto simp: upd cancel d split: option.split)
    have old: "status_ok (ac_cancel n a)" using assms unfolding status_ok_def cancel by (cases "ac_active a") (auto split: if_splits)
    have "conn_view (handle_internal i a) =
        conn_view (if keep_new ?c a then emit_sync_status True (Some name) ?b else ac_cancel n a)"
      by (simp add: handle_internal_view IN_Established Let_def)
    from status_ok_cong [OF this] new old show ?thesis by (cases "keep_new ?c a") (simp_all only: if_True if_False)
  next
    case (IN_ConnClosed n)
    have "status_ok (emit_sync_status False None (a\<lparr>ac_active := None\<rparr>))"
      by (rule emit_sync_status_ok) (simp_all add: upd d)
    then show ?thesis
      using assms by (simp add: handle_internal_def IN_ConnClosed split: option.split)
  qed (use assms status_ok_cong [of "handle_internal i a" a] in \<open>simp_all add: handle_internal_view\<close>)
qed

lemma status_ok_step: "status_ok a \<Longrightarrow> status_ok (actor_step isdir i a)"
proof -
  assume ok: "status_ok a"
  obtain now j where i: "i = (now, j)" by fastforce
  have "conn_view (actor_step isdir i a) = conn_view a \<or> (\<exists>n. actor_step isdir i a = handle_internal n a)"
    by (cases j) (auto simp: i actor_step_def)
  then show ?thesis using ok status_ok_internal status_ok_cong by metis
qed

interpretation actor_status: machine "actor_step isdir" status_ok for isdir
  by unfold_locales (rule status_ok_step)

lemma status_ok_new: "status_ok (actor_new authorized local_fp opts queue mdns first_id)"
proof -
  have "status_ok a" if "ac_events a = []" "ac_last_sync_status a = None" "ac_active a = None" for a
    using that by (simp add: status_ok_def statuses_def map_filter_simps)
  then show ?thesis
    by (simp add: actor_new_def start_discovery_def Let_def)
qed

lemma status_ok_reported:
  assumes "status_ok a"
  shows "distinct_adj (statuses a) \<and>
     (case ac_active a of
        Some c \<Rightarrow> statuses a \<noteq> [] \<and> last (statuses a) = (True, Some (an_peer_name c))
      | None \<Rightarrow> statuses a = [] \<or> last (statuses a) = (False, None))"
proof (cases "ac_active a")
  case None
  then show ?thesis using assms by (auto simp: status_ok_def split: if_splits)
next
  case (Some c)
  then show ?thesis using assms by (auto simp: status_ok_def split: if_splits)
qed

text \<open>
  After any requests, reports and ticks, the connection statuses reported to the
  frontends never repeat, so nothing flickers, and the last one reported is the truth: connected
  with the name of the peer exactly when there is a connection.
\<close>

theorem sync_status_never_repeats:
  "let a = fold (actor_step isdir) inputs (actor_new authorized local_fp opts queue mdns first_id) in
     distinct_adj (statuses a) \<and>
     (case ac_active a of
        Some c \<Rightarrow> statuses a \<noteq> [] \<and> last (statuses a) = (True, Some (an_peer_name c))
      | None \<Rightarrow> statuses a = [] \<or> last (statuses a) = (False, None))"
  unfolding Let_def by (rule status_ok_reported) (rule actor_status.run_inv [OF status_ok_new])

section \<open>No connection is forgotten\<close>

fun reported_open :: "nat \<times> actor_input \<Rightarrow> u64 set" where
  "reported_open (_, AI_Internal (IN_Established n _ _ _)) = {n}"
| "reported_open _ = {}"

fun reported_closed :: "nat \<times> actor_input \<Rightarrow> u64 set" where
  "reported_closed (_, AI_Internal (IN_ConnClosed n)) = {n}"
| "reported_closed _ = {}"

definition held :: "actor \<Rightarrow> u64 set" where
  "held a = (case ac_active a of None \<Rightarrow> {} | Some c \<Rightarrow> {an_id c}) \<union> set (ac_cancelled a)"

lemma held_cong: "conn_view a = conn_view b \<Longrightarrow> held a = held b"
  by (simp add: held_def conn_view_cong [of a b])

lemma held_emit_sync_status: "held (emit_sync_status c n a) = held a"
  using emit_sync_status_view [of c n a] by (simp add: conn_view_def held_def)

lemma held_internal: "held a \<union> reported_open (now, AI_Internal i) \<subseteq> held (handle_internal i a) \<union> reported_closed (now, AI_Internal i)"
proof (cases i)
  case (IN_Established n fp name out)
  let ?c = "\<lparr>an_id = n, an_peer_fp = fp, an_peer_name = name, an_outbound = out\<rparr>"
  let ?b = "(case ac_active a of None \<Rightarrow> a | Some old \<Rightarrow> ac_cancel (an_id old) a)\<lparr>ac_active := Some ?c\<rparr>"
  have "held (handle_internal i a) = held (if keep_new ?c a then ?b else ac_cancel n a)"
    using held_cong [of "handle_internal i a" "if keep_new ?c a then emit_sync_status True (Some name) ?b else ac_cancel n a"]
    by (simp add: handle_internal_view IN_Established Let_def held_emit_sync_status)
  moreover have "held a \<union> {n} \<subseteq> held ?b" by (auto simp: held_def ac_cancel_def split: option.splits)
  moreover have "held a \<union> {n} \<subseteq> held (ac_cancel n a)" by (auto simp: held_def ac_cancel_def split: option.splits)
  ultimately show ?thesis by (simp add: IN_Established)
next
  case (IN_ConnClosed n)
  have "held a \<subseteq> insert (an_id c) (held (a\<lparr>ac_active := None\<rparr>))" if "ac_active a = Some c" for c
    using that by (auto simp: held_def)
  then show ?thesis
    by (cases "ac_active a") (auto simp: IN_ConnClosed handle_internal_def held_emit_sync_status)
qed (use held_cong [of "handle_internal i a" a] in \<open>simp_all add: handle_internal_view\<close>)

lemma held_step: "held a \<union> reported_open i \<subseteq> held (actor_step isdir i a) \<union> reported_closed i"
proof -
  obtain now j where i: "i = (now, j)" by fastforce
  show ?thesis
  proof (cases "\<exists>n. j = AI_Internal n")
    case True
    then obtain n where n: "j = AI_Internal n" by blast
    show ?thesis using held_internal [of a now n] by (simp add: i n actor_step_def)
  next
    case False
    then have "conn_view (actor_step isdir i a) = conn_view a" "reported_open i = {}"
      by (cases j; simp add: i actor_step_def)+
    then show ?thesis using held_cong by blast
  qed
qed

lemma held_run:
  "held a \<union> (\<Union>i \<in> set inputs. reported_open i) \<subseteq> held (fold (actor_step isdir) inputs a) \<union> (\<Union>i \<in> set inputs. reported_closed i)"
proof (induction inputs arbitrary: a)
  case (Cons i inputs)
  show ?case using held_step [of a i isdir] Cons.IH [of "actor_step isdir i a"] by auto
qed simp

text \<open>
  \<^bold>\<open>C29.\<close> No connection is left open beside the active one: every connection that was ever reported
  established is the active one, has been cancelled, or has reported its end. There is one active
  connection at most.
\<close>

theorem no_connection_leaks:
  "(\<Union>i \<in> set inputs. reported_open i) \<subseteq>
     (let a = fold (actor_step isdir) inputs (actor_new authorized local_fp opts queue mdns first_id) in
      (case ac_active a of None \<Rightarrow> {} | Some c \<Rightarrow> {an_id c}) \<union> set (ac_cancelled a)) \<union>
     (\<Union>i \<in> set inputs. reported_closed i)"
  using held_run [where a = "actor_new authorized local_fp opts queue mdns first_id" and inputs = inputs and isdir = isdir]
  by (auto simp: held_def Let_def)

section \<open>Who is admitted\<close>

text \<open>the acceptor is open only while a window is shown or this machine dials to pair\<close>

definition pairing_ok :: "actor \<Rightarrow> bool" where
  "pairing_ok a \<longleftrightarrow> (ac_pairing_open a \<longrightarrow> ac_pairing a \<noteq> None \<or> ac_pairing_dial a)"

lemma pairing_ok_cong: "pairing_view a = pairing_view b \<Longrightarrow> pairing_ok a \<longleftrightarrow> pairing_ok b"
  by (simp add: pairing_ok_def pairing_view_def)

lemma pairing_ok_emit [simp]: "pairing_ok (ac_emit e a) \<longleftrightarrow> pairing_ok a"
  by (rule pairing_ok_cong) simp

lemma pairing_ok_close [simp]: "pairing_ok (close_pairing_window a)"
  by (simp add: close_pairing_window_def pairing_ok_def Let_def)

lemma pairing_ok_step:
  assumes "pairing_ok a"
  shows "pairing_ok (actor_step isdir i a)"
proof -
  obtain now j where i: "i = (now, j)" by fastforce
  have tick: "pairing_ok (tick now a)"
  proof -
    define b where "b = (case ac_pairing a of
                 Some (_, opened) \<Rightarrow>
                   if now - opened > PAIRING_WINDOW
                   then ac_emit (SY_PairingFailed ''pairing window timed out'') (close_pairing_window a) else a
               | None \<Rightarrow> a)"
    have "pairing_ok b" using assms by (auto simp: b_def split: option.split)
    moreover have "pairing_view (tick now a) = pairing_view b" by (simp add: tick_def b_def Let_def)
    ultimately show ?thesis using pairing_ok_cong by blast
  qed
  have request: "pairing_ok (handle_sync_request isdir now rnd r a)" for rnd r
  proof (cases r)
    case SR_CancelPairing
    then show ?thesis by (simp add: handle_sync_request_def)
  next
    case (SR_SetDeviceName name)
    have "pairing_view (handle_sync_request isdir now rnd r a) = pairing_view a"
      by (simp add: handle_sync_request_def SR_SetDeviceName)
    then show ?thesis using assms pairing_ok_cong by blast
  next
    case (SR_SendFiles ps)
    have "pairing_view (handle_sync_request isdir now rnd r a) = pairing_view a"
      by (simp add: handle_sync_request_def SR_SendFiles)
    then show ?thesis using assms pairing_ok_cong by blast
  qed (use assms in \<open>auto simp: handle_sync_request_def pairing_ok_def spawn_pair_dial_def ac_spawn_def ac_emit_def
        send_ctl_def Let_def split: option.splits\<close>)
  have internal: "pairing_ok (handle_internal n a)" for n
  proof (cases n)
    case (IN_Established m fp name out)
    have "pairing_view (handle_internal n a) = pairing_view a"
      by (simp add: handle_internal_def IN_Established established_def emit_sync_status_def ac_cancel_def split: option.split)
    then show ?thesis using assms pairing_ok_cong by blast
  next
    case (IN_ConnClosed m)
    have "pairing_view (handle_internal n a) = pairing_view a"
      by (simp add: handle_internal_def IN_ConnClosed emit_sync_status_def split: option.split)
    then show ?thesis using assms pairing_ok_cong by blast
  qed (use assms in \<open>auto simp: handle_internal_def pairing_ok_def ac_emit_def Let_def\<close>)
  have view: "pairing_view (actor_step isdir i a) = pairing_view a \<Longrightarrow> pairing_ok (actor_step isdir i a)"
    using assms pairing_ok_cong by blast
  show ?thesis
    using tick request internal view by (cases j) (simp_all add: i actor_step_def)
qed

interpretation actor_pairing: machine "actor_step isdir" pairing_ok for isdir
  by unfold_locales (rule pairing_ok_step)

lemma pairing_ok_new: "pairing_ok (actor_new authorized local_fp opts queue mdns first_id)"
  by (simp add: actor_new_def start_discovery_def pairing_ok_def Let_def)

text \<open>
  \<^bold>\<open>C14.\<close> A peer whose certificate is not on the allowlist gets through TLS only while a pairing
  window is shown or this machine is dialing to pair; an ordinary outgoing connection never admits
  one.
\<close>

theorem strangers_only_while_pairing:
  assumes "a = fold (actor_step isdir) inputs (actor_new authorized local_fp opts queue mdns first_id)"
    and "hm_get (ac_authorized a) (generate_fingerprint sha256 cert) = None"
  shows "\<not> connector_admits sha256 a cert \<and>
    (acceptor_admits sha256 a cert \<or> pairing_connector_admits sha256 a cert \<longrightarrow>
       ac_pairing a \<noteq> None \<or> ac_pairing_dial a)"
  using actor_pairing.run_inv [OF pairing_ok_new, of isdir inputs authorized local_fp opts queue mdns first_id] assms
  by (simp add: pairing_ok_def connector_admits_def acceptor_admits_def pairing_connector_admits_def policy_check_def)

definition example_options :: sync_options where
  "example_options =
     \<lparr>so_sync_port = 4243, so_clipboard_sync = True, so_keyboard_layout_sync = True, so_file_dir = [''home'', ''me''],
      so_device_name = ''alice''\<rparr>"

theorem strangers_only_while_pairing_witness:
  "let a = fold (actor_step (\<lambda>_. False)) [(5, AI_Request 482913 SR_StartPairing)] (actor_new [] ''aa'' example_options [] [] 1) in
     acceptor_admits id a [1, 2] \<and> \<not> connector_admits id a [1, 2] \<and> (ac_pairing a \<noteq> None \<or> ac_pairing_dial a)"
proof -
  define a where "a = fold (actor_step (\<lambda>_. False)) [(5, AI_Request 482913 SR_StartPairing)] (actor_new [] ''aa'' example_options [] [] 1)"
  have auth: "ac_authorized a = []" and adm: "acceptor_admits id a [1, 2]"
    by (simp_all add: a_def actor_step_def handle_sync_request_def actor_new_def start_discovery_def ac_emit_def Let_def
        acceptor_admits_def policy_check_def)
  have "hm_get (ac_authorized a) (generate_fingerprint id [1, 2]) = None" by (simp add: auth)
  from strangers_only_while_pairing [OF a_def this] adm show ?thesis unfolding a_def [symmetric] Let_def by blast
qed

text \<open>when the own dial fails, a window that is still shown is no longer open\<close>

lemma failed_dial_shuts_window:
  "ac_pairing (handle_internal (IN_PairingErr msg True) a) = ac_pairing a \<and>
   \<not> ac_pairing_open (handle_internal (IN_PairingErr msg True) a)"
  by (simp add: handle_internal_def ac_emit_def)

section \<open>Two machines that dial each other at once\<close>

text \<open>
  One side's view of the connections between two machines, in the order they are established there:
  each with its id and whether this side dialed.
\<close>

definition meet :: "string \<Rightarrow> string \<Rightarrow> (u64 \<times> bool) list \<Rightarrow> actor \<Rightarrow> actor" where
  "meet peer_fp peer_name = fold (\<lambda>(n, outbound) a. handle_internal (IN_Established n peer_fp peer_name outbound) a)"

lemma established_conn:
  fixes n :: u64
  assumes "i = IN_Established n fp name out"
  shows "ac_local_fp (handle_internal i a) = ac_local_fp a"
    and "ac_active (handle_internal i a) =
       (if keep_new \<lparr>an_id = n, an_peer_fp = fp, an_peer_name = name, an_outbound = out\<rparr> a
        then Some \<lparr>an_id = n, an_peer_fp = fp, an_peer_name = name, an_outbound = out\<rparr> else ac_active a)"
    and "ac_cancelled (handle_internal i a) = ac_cancelled a @
       (if keep_new \<lparr>an_id = n, an_peer_fp = fp, an_peer_name = name, an_outbound = out\<rparr> a
        then (case ac_active a of None \<Rightarrow> [] | Some old \<Rightarrow> [an_id old]) else [n])"
proof -
  let ?c = "\<lparr>an_id = n, an_peer_fp = fp, an_peer_name = name, an_outbound = out\<rparr>"
  let ?b = "(case ac_active a of None \<Rightarrow> a | Some old \<Rightarrow> ac_cancel (an_id old) a)\<lparr>ac_active := Some ?c\<rparr>"
  have "conn_view (handle_internal i a) = conn_view (if keep_new ?c a then emit_sync_status True (Some name) ?b else ac_cancel n a)"
    by (simp add: assms handle_internal_view Let_def)
  note view = conn_view_cong [OF this]
  note emit = conn_view_cong [of _ "emit_sync_status True (Some name) ?b"]
  have e: "ac_active (emit_sync_status True (Some name) ?b) = Some ?c"
    "ac_cancelled (emit_sync_status True (Some name) ?b) = ac_cancelled ?b"
    "ac_local_fp (emit_sync_status True (Some name) ?b) = ac_local_fp ?b"
    using emit_sync_status_view [of True "Some name" ?b] by (simp_all add: conn_view_def)
  show "ac_local_fp (handle_internal i a) = ac_local_fp a"
    "ac_active (handle_internal i a) = (if keep_new ?c a then Some ?c else ac_active a)"
    "ac_cancelled (handle_internal i a) = ac_cancelled a @
       (if keep_new ?c a then (case ac_active a of None \<Rightarrow> [] | Some old \<Rightarrow> [an_id old]) else [n])"
    using view e by (auto simp: ac_cancel_def split: option.splits)
qed

lemma keep_new_meet:
  assumes "ac_active a = Some \<lparr>an_id = n, an_peer_fp = fp, an_peer_name = name, an_outbound = out\<rparr>"
  shows "keep_new \<lparr>an_id = m, an_peer_fp = fp, an_peer_name = name, an_outbound = out'\<rparr> a \<longleftrightarrow>
     out' = (ac_local_fp a < fp) \<or> out \<noteq> (ac_local_fp a < fp)"
  by (simp add: keep_new_def assms prefers_def orientation_prefers_def)

text \<open>the connection kept is the last one the rule prefers; without one, the last\<close>

lemma meet_keeps:
  fixes conns :: "(u64 \<times> bool) list"
  assumes "ac_active a = None" "conns \<noteq> []"
  shows "ac_local_fp (meet fp name conns a) = ac_local_fp a \<and>
    (\<exists>n out. ac_active (meet fp name conns a) = Some \<lparr>an_id = n, an_peer_fp = fp, an_peer_name = name, an_outbound = out\<rparr> \<and>
       (n, out) = (case filter (\<lambda>(_, out). out = (ac_local_fp a < fp)) conns of [] \<Rightarrow> last conns | c # cs \<Rightarrow> last (c # cs)) \<and>
       mset (ac_cancelled (meet fp name conns a)) + {#n#} = mset (ac_cancelled a) + mset (map fst conns))"
  using assms(2)
proof (induction conns rule: rev_induct)
  case (snoc c conns)
  obtain m out' where c: "c = (m, out')" by fastforce
  let ?a = "meet fp name conns a"
  let ?new = "\<lparr>an_id = m, an_peer_fp = fp, an_peer_name = name, an_outbound = out'\<rparr>"
  have step: "meet fp name (conns @ [c]) a = handle_internal (IN_Established m fp name out') ?a"
    by (simp add: meet_def c)
  note est = established_conn [OF refl, of m fp name out' ?a]
  show ?case
  proof (cases "conns = []")
    case True
    then show ?thesis using assms(1) step est by (simp add: meet_def c keep_new_def)
  next
    case False
    then obtain n out where IH: "ac_local_fp ?a = ac_local_fp a"
      "ac_active ?a = Some \<lparr>an_id = n, an_peer_fp = fp, an_peer_name = name, an_outbound = out\<rparr>"
      "(n, out) = (case filter (\<lambda>(_, out). out = (ac_local_fp a < fp)) conns of [] \<Rightarrow> last conns | c # cs \<Rightarrow> last (c # cs))"
      "mset (ac_cancelled ?a) + {#n#} = mset (ac_cancelled a) + mset (map fst conns)"
      using snoc.IH by blast
    let ?P = "\<lambda>(_ :: u64, out). out = (ac_local_fp a < fp)"
    have pref: "out = (ac_local_fp a < fp) \<longleftrightarrow> filter ?P conns \<noteq> []"
    proof (cases "filter ?P conns")
      case Nil
      then have "\<not> ?P (last conns)" using False by (auto simp: filter_empty_conv)
      then show ?thesis using IH(3) Nil by (auto split: prod.splits)
    next
      case (Cons d ds)
      then have "(n, out) \<in> set (filter ?P conns)" using IH(3) by (metis last_in_set list.simps(5) list.distinct(1))
      then have "?P (n, out)" by (simp only: set_filter mem_Collect_eq)
      then show ?thesis using Cons by simp
    qed
    have keep: "keep_new ?new ?a \<longleftrightarrow> out' = (ac_local_fp a < fp) \<or> filter ?P conns = []"
      using keep_new_meet [OF IH(2), of m out'] IH(1) pref by auto
    show ?thesis
    proof (cases "keep_new ?new ?a")
      case True
      have "(m, out') = (case filter ?P (conns @ [c]) of [] \<Rightarrow> last (conns @ [c]) | c # cs \<Rightarrow> last (c # cs))"
        using True keep by (auto simp: c split: list.split)
      then show ?thesis using True step est IH by (auto simp: c)
    next
      case no: False
      then have "filter ?P (conns @ [c]) = filter ?P conns" "filter ?P conns \<noteq> []" using keep by (auto simp: c)
      then have "(n, out) = (case filter ?P (conns @ [c]) of [] \<Rightarrow> last (conns @ [c]) | c # cs \<Rightarrow> last (c # cs))"
        using IH(3) by (auto split: list.splits)
      then show ?thesis using no step est IH by (auto simp: c)
    qed
  qed
qed simp

text \<open>
  \<^bold>\<open>C30.\<close> Two machines that dial each other at once converge: for any connections between them, of
  which one was dialed by the machine with the smaller fingerprint, and whatever the order in which
  each side sees them established, both keep that one and cancel each other one once. So neither
  cancels what the other keeps.
\<close>

theorem simultaneous_connect_converges:
  assumes "fp_a \<noteq> fp_b" "ac_local_fp a = fp_a" "ac_local_fp b = fp_b"
    and "ac_active a = None" "ac_active b = None" "ac_cancelled a = []" "ac_cancelled b = []"
    and "mset conns_b = image_mset (\<lambda>(n, outbound). (n, \<not> outbound)) (mset conns_a)"
    and "filter (\<lambda>(n, outbound). outbound = (fp_a < fp_b)) conns_a = [(k, out)]"
  shows "map_option an_id (ac_active (meet fp_b name_b conns_a a)) = Some k \<and>
    map_option an_id (ac_active (meet fp_a name_a conns_b b)) = Some k \<and>
    mset (ac_cancelled (meet fp_b name_b conns_a a)) = mset (map fst conns_a) - {#k#} \<and>
    mset (ac_cancelled (meet fp_a name_a conns_b b)) = mset (map fst conns_a) - {#k#}"
proof -
  let ?P = "\<lambda>(n :: u64, outbound). outbound = (fp_a < fp_b)" and ?Q = "\<lambda>(n :: u64, outbound). outbound = (fp_b < fp_a)"
  have ne: "conns_a \<noteq> []" using assms(9) by auto
  have PQ: "?Q (case c of (n, outbound) \<Rightarrow> (n, \<not> outbound)) = ?P c" for c
    using assms(1) by (cases c) auto
  have "mset (filter ?Q conns_b) = image_mset (\<lambda>(n, outbound). (n, \<not> outbound)) (filter_mset ?P (mset conns_a))"
    using assms(8) PQ by (simp add: filter_mset_image_mset comp_def cong: filter_mset_cong)
  also have "filter_mset ?P (mset conns_a) = {#(k, out)#}"
    using assms(9) by (metis mset_filter mset_single_iff_right)
  finally have "mset (filter ?Q conns_b) = {#(k, \<not> out)#}" by (simp del: mset_filter)
  then have fb: "filter ?Q conns_b = [(k, \<not> out)]" by (rule mset_single_iff [THEN iffD1])
  have fst: "mset (map fst conns_b) = mset (map fst conns_a)"
    using assms(8) by (simp add: multiset.map_comp comp_def split_def)
  have neb: "conns_b \<noteq> []" using fb by auto
  from meet_keeps [OF assms(4) ne, of fp_b name_b] obtain n o1 where A:
    "ac_active (meet fp_b name_b conns_a a) = Some \<lparr>an_id = n, an_peer_fp = fp_b, an_peer_name = name_b, an_outbound = o1\<rparr>"
    "(n, o1) = (k, out)" "mset (ac_cancelled (meet fp_b name_b conns_a a)) + {#n#} = mset (map fst conns_a)"
    using assms(2,6,9) by auto
  from meet_keeps [OF assms(5) neb, of fp_a name_a] obtain m o2 where B:
    "ac_active (meet fp_a name_a conns_b b) = Some \<lparr>an_id = m, an_peer_fp = fp_a, an_peer_name = name_a, an_outbound = o2\<rparr>"
    "(m, o2) = (k, \<not> out)" "mset (ac_cancelled (meet fp_a name_a conns_b b)) + {#m#} = mset (map fst conns_a)"
    using assms(3,7) fb fst by auto
  have "mset (ac_cancelled (meet fp_b name_b conns_a a)) = mset (map fst conns_a) - {#k#}"
    "mset (ac_cancelled (meet fp_a name_a conns_b b)) = mset (map fst conns_a) - {#k#}"
    using A(2,3) B(2,3) by (metis add_diff_cancel_right' prod.inject)+
  then show ?thesis using A B by simp
qed

theorem simultaneous_connect_converges_witness:
  "let a = actor_new [] ''aa'' example_options [] [] 1; b = actor_new [] ''bb'' example_options [] [] 1 in
   map_option an_id (ac_active (meet ''bb'' ''bob'' [(1, True), (2, False)] a)) = Some 1 \<and>
   map_option an_id (ac_active (meet ''aa'' ''alice'' [(2, True), (1, False)] b)) = Some 1"
proof -
  let ?a = "actor_new [] ''aa'' example_options [] [] 1" and ?b = "actor_new [] ''bb'' example_options [] [] 1"
  have less: "''aa'' < ''bb''" by code_simp
  have new: "ac_local_fp (actor_new au l op q ms i) = l" "ac_active (actor_new au l op q ms i) = None"
    "ac_cancelled (actor_new au l op q ms i) = []" for au l op q ms i
    by (simp_all add: actor_new_def start_discovery_def Let_def)
  have "map_option an_id (ac_active (meet ''bb'' ''bob'' [(1, True), (2, False)] ?a)) = Some 1 \<and>
    map_option an_id (ac_active (meet ''aa'' ''alice'' [(2, True), (1, False)] ?b)) = Some 1 \<and>
    mset (ac_cancelled (meet ''bb'' ''bob'' [(1, True), (2, False)] ?a)) = mset (map fst [(1, True), (2, False)]) - {#1#} \<and>
    mset (ac_cancelled (meet ''aa'' ''alice'' [(2, True), (1, False)] ?b)) = mset (map fst [(1, True), (2, False)]) - {#1#}"
    by (rule simultaneous_connect_converges [where out = True]) (simp_all add: new less)
  then show ?thesis by (simp add: Let_def)
qed

end
