(* ===== verification/Service.thy ===== *)
theory Service
  imports CaptureTask EmulationTask Actor
begin

text \<open>
  The service (\<open>src/service.rs\<close>): the one loop that owns the client manager, the configuration, the
  authorized keys and the connections of the peers, and drives the capture, the emulation, the
  resolver and the side channel. What it asks of them is recorded in order (\<open>sv_capture\<close>,
  \<open>sv_emulation\<close>, \<open>sv_resolver\<close>, \<open>sv_sync\<close>, \<open>sv_hooks\<close>), as is what it tells the frontends
  (\<open>sv_sent\<close>, then \<open>sv_pending\<close>). A handler that can panic returns \<open>None\<close> when it does.
\<close>

section \<open>State\<close>

record incoming =
  inc_fingerprint :: string
  inc_addr :: socket_addr
  inc_pos :: position

datatype dns_event = DE_Resolving client_handle | DE_Resolved client_handle string "ip_addr list option"

text \<open>
  The last seven fields are the environment's: the disk the configuration is on, the default of
  the download directory and the host name, and the logs of what the service asked for.
\<close>

record service =
  sv_config :: config
  sv_authorized :: "(string, string) hmap"
  sv_mgr :: client_manager
  sv_port :: u16
  sv_fingerprint :: string
  sv_pending :: "frontend_event list"
  sv_capture_status :: status
  sv_emulation_status :: status
  sv_incoming_conns :: "socket_addr set"
  sv_incoming_info :: "(client_handle, incoming) hmap"
  sv_next_trigger :: u64
  sv_sync_connected :: bool
  sv_sync_peer :: "string option"
  sv_files :: files
  sv_download_dir :: string
  sv_hostname :: string
  sv_sent :: "frontend_event list"
  sv_capture :: "capture_request list"
  sv_emulation :: "emulation_request list"
  sv_resolver :: "(client_handle \<times> string) list"
  sv_sync :: "sync_request list"
  sv_hooks :: "(client_handle \<times> string) list"

text \<open>
  What one turn of the loop finds outside: the key the slab would insert at (\<open>None\<close> when it cannot
  grow, which panics), the outcome of file operations, how much of a failed write arrives, and
  the files being dragged, and the text of an error of the listener.
\<close>

record host =
  ho_slab :: "client_manager \<Rightarrow> client_handle option"
  ho_env :: config_env
  ho_partial :: nat
  ho_drag_files :: "path list"
  ho_listen_error :: string

text \<open>\<open>PathBuf::from\<close>: empty components and \<open>.\<close> mean nothing\<close>

definition path_of :: "string \<Rightarrow> path" where
  "path_of s = filter (\<lambda>c. c \<noteq> [] \<and> c \<noteq> ''.'') (split_on (\<lambda>c. c = CHR ''/'') s)"

section \<open>Telling the others\<close>

definition notify_frontend :: "frontend_event \<Rightarrow> service \<Rightarrow> service" where
  "notify_frontend e s = s\<lparr>sv_pending := sv_pending s @ [e]\<rparr>"

definition handle_frontend_pending :: "service \<Rightarrow> service" where
  "handle_frontend_pending s = s\<lparr>sv_sent := sv_sent s @ sv_pending s, sv_pending := []\<rparr>"

definition sync_req :: "sync_request \<Rightarrow> service \<Rightarrow> service" where
  "sync_req r s = s\<lparr>sv_sync := sv_sync s @ [r]\<rparr>"

text \<open>\<open>Capture::create\<close>, \<open>destroy\<close>, \<open>release\<close>, \<open>reenable\<close>, \<open>set_release_bind\<close>, \<open>set_drag_pending\<close>, \<open>set_tuning\<close>\<close>

definition capture_req :: "capture_request \<Rightarrow> service \<Rightarrow> service" where
  "capture_req r s = s\<lparr>sv_capture := sv_capture s @ [r]\<rparr>"

definition capture_create :: "client_handle \<Rightarrow> position \<Rightarrow> capture_type \<Rightarrow> service \<Rightarrow> service" where
  "capture_create h pos t = capture_req (CreateCapture h (to_capture_pos pos) t)"

text \<open>\<open>Emulation::send_leave_event\<close>, \<open>reenable\<close>, \<open>request_port_change\<close>\<close>

definition emulation_req :: "emulation_request \<Rightarrow> service \<Rightarrow> service" where
  "emulation_req r s = s\<lparr>sv_emulation := sv_emulation s @ [r]\<rparr>"

definition resolve :: "client_handle \<Rightarrow> service \<Rightarrow> service" where
  "resolve h s =
     (case get_hostname h (sv_mgr s) of
        Some hostname \<Rightarrow> s\<lparr>sv_resolver := sv_resolver s @ [(h, hostname)]\<rparr>
      | None \<Rightarrow> s)"

definition spawn_hook_command :: "client_handle \<Rightarrow> service \<Rightarrow> service" where
  "spawn_hook_command h s =
     (case get_enter_cmd h (sv_mgr s) of
        None \<Rightarrow> s
      | Some cmd \<Rightarrow> s\<lparr>sv_hooks := sv_hooks s @ [(h, cmd)]\<rparr>)"

definition broadcast_client :: "client_handle \<Rightarrow> service \<Rightarrow> service" where
  "broadcast_client h s =
     notify_frontend (case get_state h (sv_mgr s) of Some (c, st) \<Rightarrow> State h c st | None \<Rightarrow> NoSuchClient h) s"

definition push_tuning :: "client_handle \<Rightarrow> service \<Rightarrow> service" where
  "push_tuning h s =
     (case get_tuning h (sv_mgr s) of
        Some (speed, modifiers) \<Rightarrow> capture_req (SetTuning h \<lparr>ct_speed = speed, ct_modifiers = modifiers\<rparr>) s
      | None \<Rightarrow> s)"

definition enumerate :: "service \<Rightarrow> service" where
  "enumerate s = notify_frontend (EnumerateE (get_client_states (sv_mgr s))) s"

definition vylo_state :: "service \<Rightarrow> frontend_event" where
  "vylo_state s =
     VyloState (config_clipboard_sync (sv_config s)) (config_keyboard_layout_sync (sv_config s))
       (config_file_dir (sv_download_dir s) (sv_config s)) (config_device_name (sv_hostname s) (sv_config s))
       (config_sync_port (sv_config s))"

definition broadcast_vylo_state :: "service \<Rightarrow> service" where
  "broadcast_vylo_state s = notify_frontend (vylo_state s) s"

definition sync_frontend :: "service \<Rightarrow> service" where
  "sync_frontend s =
     (let s = enumerate s;
          s = notify_frontend (EmulationStatus (sv_emulation_status s)) s;
          s = notify_frontend (CaptureStatus (sv_capture_status s)) s;
          s = notify_frontend (PortChanged (sv_port s) None) s;
          s = notify_frontend (PublicKeyFingerprint (sv_fingerprint s)) s;
          s = notify_frontend (AuthorizedUpdated (sv_authorized s)) s;
          s = broadcast_vylo_state s
      in notify_frontend (SyncStatus (sv_sync_connected s) (sv_sync_peer s)) s)"

section \<open>Saving\<close>

definition client_of_entry :: "client_config \<times> client_state \<Rightarrow> config_client" where
  "client_of_entry e =
     (case e of (c, s) \<Rightarrow>
        \<lparr>ccl_ips = set (cc_fix_ips c), ccl_hostname = cc_hostname c, ccl_port = cc_port c, ccl_pos = cc_pos c,
         ccl_active = cs_active s, ccl_enter_hook = cc_cmd c, ccl_speed = cc_speed c,
         ccl_modifiers = cc_modifiers c\<rparr>)"

definition save_config :: "host \<Rightarrow> service \<Rightarrow> service" where
  "save_config ho s =
     (let cfg = set_clients (map client_of_entry (clients (sv_mgr s))) (sv_config s);
          cfg = set_authorized_keys (sv_authorized s) cfg
      in s\<lparr>sv_config := cfg, sv_files := snd (write_back (ho_env ho) (ho_partial ho) (sv_files s) cfg)\<rparr>)"

section \<open>Clients\<close>

definition sv_deactivate_client :: "client_handle \<Rightarrow> service \<Rightarrow> service" where
  "sv_deactivate_client h s =
     (case deactivate_client h (sv_mgr s) of
        (True, m) \<Rightarrow> broadcast_client h (capture_req (DestroyCapture h) (s\<lparr>sv_mgr := m\<rparr>))
      | (False, m) \<Rightarrow> s)"

text \<open>another client at this position is deactivated first\<close>

definition clear_position :: "client_handle \<Rightarrow> position \<Rightarrow> service \<Rightarrow> service" where
  "clear_position h pos s =
     (case client_at pos (sv_mgr s) of
        Some other \<Rightarrow> if other \<noteq> h then sv_deactivate_client other s else s
      | None \<Rightarrow> s)"

definition sv_activate_client :: "client_handle \<Rightarrow> service \<Rightarrow> service" where
  "sv_activate_client h s =
     (let s = resolve h s in
      case get_pos h (sv_mgr s) of
        None \<Rightarrow> s
      | Some pos \<Rightarrow>
          (let s = clear_position h pos s in
           case activate_client h (sv_mgr s) of
             (True, m) \<Rightarrow>
               broadcast_client h (capture_create h pos CT_Default (push_tuning h (s\<lparr>sv_mgr := m\<rparr>)))
           | (False, m) \<Rightarrow> s))"

definition set_client_active :: "client_handle \<Rightarrow> bool \<Rightarrow> service \<Rightarrow> service" where
  "set_client_active h active s = (if active then sv_activate_client h s else sv_deactivate_client h s)"

definition sv_insert :: "host \<Rightarrow> (client_handle \<Rightarrow> client_manager \<Rightarrow> client_handle \<times> client_manager)
    \<Rightarrow> service \<Rightarrow> (client_handle \<times> service) option" where
  "sv_insert ho f s =
     (case ho_slab ho (sv_mgr s) of
        None \<Rightarrow> None
      | Some k \<Rightarrow> (case f k (sv_mgr s) of (h, m) \<Rightarrow> Some (h, s\<lparr>sv_mgr := m\<rparr>)))"

text \<open>\<open>get_state(handle).unwrap()\<close>\<close>

definition notify_created :: "client_handle \<Rightarrow> service \<Rightarrow> service option" where
  "notify_created h s =
     (case get_state h (sv_mgr s) of
        None \<Rightarrow> None
      | Some (c, st) \<Rightarrow> Some (notify_frontend (Created h c st) s))"

definition sv_add_client :: "host \<Rightarrow> service \<Rightarrow> service option" where
  "sv_add_client ho s = Option.bind (sv_insert ho add_client s) (\<lambda>(h, s). notify_created h s)"

definition sv_remove_client :: "client_handle \<Rightarrow> service \<Rightarrow> service" where
  "sv_remove_client h s =
     (case remove_client h (sv_mgr s) of (removed, m) \<Rightarrow>
        let s = s\<lparr>sv_mgr := m\<rparr>;
            s = (if unwrap_or (map_option (\<lambda>(_, st). cs_active st) removed) False
                 then capture_req (DestroyCapture h) s else s)
        in notify_frontend (Deleted h) s)"

definition update_fix_ips :: "client_handle \<Rightarrow> ip_addr list \<Rightarrow> service \<Rightarrow> service" where
  "update_fix_ips h ips s = broadcast_client h (s\<lparr>sv_mgr := set_fix_ips h ips (sv_mgr s)\<rparr>)"

definition update_hostname :: "client_handle \<Rightarrow> string option \<Rightarrow> service \<Rightarrow> service" where
  "update_hostname h hostname s =
     (case set_hostname h hostname (sv_mgr s) of (changed, m) \<Rightarrow>
        let s = s\<lparr>sv_mgr := m\<rparr> in broadcast_client h (if changed then resolve h s else s))"

definition update_port :: "client_handle \<Rightarrow> u16 \<Rightarrow> service \<Rightarrow> service" where
  "update_port h port s = broadcast_client h (s\<lparr>sv_mgr := set_port h port (sv_mgr s)\<rparr>)"

definition update_pos :: "client_handle \<Rightarrow> position \<Rightarrow> service \<Rightarrow> service" where
  "update_pos h pos s =
     (case set_pos h pos (sv_mgr s) of (moved, m) \<Rightarrow>
        let s = s\<lparr>sv_mgr := m\<rparr>
        in broadcast_client h (if moved then sv_activate_client h (sv_deactivate_client h s) else s))"

definition update_enter_hook :: "client_handle \<Rightarrow> string option \<Rightarrow> service \<Rightarrow> service" where
  "update_enter_hook h hook s = broadcast_client h (s\<lparr>sv_mgr := set_enter_hook h hook (sv_mgr s)\<rparr>)"

definition update_speed :: "client_handle \<Rightarrow> f64 \<Rightarrow> service \<Rightarrow> service" where
  "update_speed h speed s =
     broadcast_client h (push_tuning h (s\<lparr>sv_mgr := set_speed h (clamp_speed speed) (sv_mgr s)\<rparr>))"

definition update_modifiers :: "client_handle \<Rightarrow> modifier_map \<Rightarrow> service \<Rightarrow> service" where
  "update_modifiers h mm s = broadcast_client h (push_tuning h (s\<lparr>sv_mgr := set_modifiers h mm (sv_mgr s)\<rparr>))"

definition change_port :: "u16 \<Rightarrow> service \<Rightarrow> service" where
  "change_port port s =
     (if sv_port s \<noteq> port then emulation_req (ER_ChangePort port) s
      else notify_frontend (PortChanged (sv_port s) None) s)"

section \<open>Authorized keys\<close>

definition add_authorized_key :: "string \<Rightarrow> string \<Rightarrow> service \<Rightarrow> service" where
  "add_authorized_key desc fp s =
     (let s = s\<lparr>sv_authorized := hm_insert fp desc (sv_authorized s)\<rparr>
      in notify_frontend (AuthorizedUpdated (sv_authorized s)) s)"

definition remove_authorized_key :: "string \<Rightarrow> service \<Rightarrow> service" where
  "remove_authorized_key fp s =
     (let s = s\<lparr>sv_authorized := hm_remove fp (sv_authorized s)\<rparr>
      in notify_frontend (AuthorizedUpdated (sv_authorized s)) s)"

section \<open>Incoming connections\<close>

definition ENTER_HANDLE_BEGIN :: u64 where "ENTER_HANDLE_BEGIN = (- 1) div 2 + 1"

definition add_incoming :: "socket_addr \<Rightarrow> position \<Rightarrow> string \<Rightarrow> service \<Rightarrow> service" where
  "add_incoming addr pos fingerprint s =
     (let h = ENTER_HANDLE_BEGIN + sv_next_trigger s;
          s = s\<lparr>sv_next_trigger := sv_next_trigger s + 1\<rparr>;
          s = capture_create h pos CT_EnterOnly s
      in s\<lparr>sv_incoming_conns := insert addr (sv_incoming_conns s),
           sv_incoming_info := hm_insert h \<lparr>inc_fingerprint = fingerprint, inc_addr = addr, inc_pos = pos\<rparr>
             (sv_incoming_info s)\<rparr>)"

definition incoming_at :: "socket_addr \<Rightarrow> (client_handle, incoming) hmap \<Rightarrow> client_handle option" where
  "incoming_at addr info = map_option fst (find (\<lambda>(k, i). inc_addr i = addr) info)"

definition remove_incoming :: "socket_addr \<Rightarrow> service \<Rightarrow> socket_addr option \<times> service" where
  "remove_incoming addr s =
     (case incoming_at addr (sv_incoming_info s) of
        None \<Rightarrow> (None, s)
      | Some h \<Rightarrow>
          let s = capture_req (DestroyCapture h) s
          in (map_option inc_addr (hm_get (sv_incoming_info s) h),
              s\<lparr>sv_incoming_conns := sv_incoming_conns s - {addr},
                sv_incoming_info := hm_remove h (sv_incoming_info s)\<rparr>))"

text \<open>\<open>expect("no such client")\<close>\<close>

definition update_incoming :: "socket_addr \<Rightarrow> position \<Rightarrow> string \<Rightarrow> service \<Rightarrow> service option" where
  "update_incoming addr pos fingerprint s =
     (case incoming_at addr (sv_incoming_info s) of
        None \<Rightarrow> None
      | Some h \<Rightarrow>
          let changed = (case hm_get (sv_incoming_info s) h of
                Some i \<Rightarrow> inc_fingerprint i \<noteq> fingerprint \<or> inc_pos i \<noteq> pos | None \<Rightarrow> False);
              s = s\<lparr>sv_incoming_info := hm_modify h (\<lambda>i. i\<lparr>inc_fingerprint := fingerprint, inc_pos := pos\<rparr>)
                      (sv_incoming_info s)\<rparr>
          in Some (if changed then
              notify_frontend (DeviceEntered fingerprint addr pos)
               (notify_frontend (IncomingDisconnected addr)
                 (add_incoming addr pos fingerprint (snd (remove_incoming addr s))))
             else s))"

section \<open>Pairing\<close>

definition is_peer :: "string \<Rightarrow> ip_addr \<Rightarrow> client_config \<Rightarrow> bool" where
  "is_peer name addr c \<longleftrightarrow> addr \<in> set (cc_fix_ips c) \<or> cc_hostname c = Some name"

definition peer_client :: "string \<Rightarrow> ip_addr \<Rightarrow> client_manager \<Rightarrow> client_handle option" where
  "peer_client name addr m = map_option fst (find (\<lambda>(h, c, st). is_peer name addr c) m)"

definition paired_config :: "string \<Rightarrow> ip_addr \<Rightarrow> bool \<Rightarrow> config_client" where
  "paired_config name addr initiated =
     \<lparr>ccl_ips = {addr}, ccl_hostname = Some name, ccl_port = DEFAULT_PORT,
      ccl_pos = (if initiated then Left else Right), ccl_active = False, ccl_enter_hook = None,
      ccl_speed = DEFAULT_SPEED, ccl_modifiers = modifier_map_default\<rparr>"

definition learn_address :: "client_handle \<Rightarrow> ip_addr \<Rightarrow> client_manager \<Rightarrow> client_manager" where
  "learn_address h addr m =
     (case get_state h m of
        Some (c, st) \<Rightarrow> if addr \<notin> set (cc_fix_ips c) then set_fix_ips h (cc_fix_ips c @ [addr]) m else m
      | None \<Rightarrow> m)"

definition ensure_paired_client :: "host \<Rightarrow> string \<Rightarrow> ip_addr \<Rightarrow> bool \<Rightarrow> service \<Rightarrow> service option" where
  "ensure_paired_client ho name addr initiated s =
     (case peer_client name addr (sv_mgr s) of
        Some h \<Rightarrow>
          Some (broadcast_client h (sv_activate_client h (s\<lparr>sv_mgr := learn_address h addr (sv_mgr s)\<rparr>)))
      | None \<Rightarrow>
          (case sv_insert ho (\<lambda>k. add_with_config k (paired_config name addr initiated)) s of
             None \<Rightarrow> None
           | Some (h, s) \<Rightarrow>
               let s = (case get_state h (sv_mgr s) of Some (c, st) \<Rightarrow> notify_frontend (Created h c st) s | None \<Rightarrow> s)
               in Some (sv_activate_client h s)))"

section \<open>The events of the loop\<close>

definition set_setting :: "host \<Rightarrow> (config \<Rightarrow> config) \<Rightarrow> sync_request \<Rightarrow> service \<Rightarrow> service" where
  "set_setting ho f r s = broadcast_vylo_state (save_config ho (sync_req r (s\<lparr>sv_config := f (sv_config s)\<rparr>)))"

text \<open>the second argument is \<open>None\<close> for a request that could not be received\<close>

definition handle_frontend_request :: "host \<Rightarrow> frontend_request option \<Rightarrow> service \<Rightarrow> service option" where
  "handle_frontend_request ho request s =
     (case request of
        None \<Rightarrow> Some s
      | Some r \<Rightarrow>
         (case r of
            Activate h active \<Rightarrow> Some (save_config ho (set_client_active h active s))
          | AuthorizeKey desc fp \<Rightarrow> Some (save_config ho (add_authorized_key desc fp s))
          | ChangePort port \<Rightarrow> Some (change_port port s)
          | Create \<Rightarrow> map_option (save_config ho) (sv_add_client ho s)
          | Delete h \<Rightarrow> Some (save_config ho (sv_remove_client h s))
          | EnableCapture \<Rightarrow> Some (capture_req Reenable s)
          | EnableEmulation \<Rightarrow> Some (emulation_req ER_Reenable s)
          | Enumerate \<Rightarrow> Some (enumerate s)
          | UpdateFixIps h ips \<Rightarrow> Some (save_config ho (update_fix_ips h ips s))
          | UpdateHostname h host \<Rightarrow> Some (save_config ho (update_hostname h host s))
          | UpdatePort h port \<Rightarrow> Some (save_config ho (update_port h port s))
          | UpdatePosition h pos \<Rightarrow> Some (save_config ho (update_pos h pos s))
          | ResolveDns h \<Rightarrow> Some (resolve h s)
          | Sync \<Rightarrow> Some (sync_frontend s)
          | RemoveAuthorizedKey key \<Rightarrow> Some (save_config ho (remove_authorized_key key s))
          | UpdateEnterHook h hook \<Rightarrow> Some (update_enter_hook h hook s)
          | UpdateSpeed h speed \<Rightarrow> Some (save_config ho (update_speed h speed s))
          | UpdateModifierMap h mm \<Rightarrow> Some (save_config ho (update_modifiers h mm s))
          | SaveConfiguration \<Rightarrow> Some (save_config ho s)
          | StartPairing \<Rightarrow> Some (sync_req SR_StartPairing s)
          | PairWithPeer addr pin \<Rightarrow> Some (sync_req (SR_PairWithPeer addr pin) s)
          | CancelPairing \<Rightarrow> Some (sync_req SR_CancelPairing s)
          | SendFiles paths \<Rightarrow> Some (sync_req (SR_SendFiles (map path_of paths)) s)
          | SetClipboardSync enabled \<Rightarrow>
              Some (set_setting ho (set_clipboard_sync enabled) (SR_SetClipboardSync enabled) s)
          | SetKeyboardLayoutSync enabled \<Rightarrow>
              Some (set_setting ho (set_keyboard_layout_sync enabled) (SR_SetKeyboardLayoutSync enabled) s)
          | SetFileDir dir \<Rightarrow> Some (set_setting ho (set_file_dir dir) (SR_SetFileDir (path_of dir)) s)
          | SetDeviceName name \<Rightarrow> Some (set_setting ho (set_device_name name) (SR_SetDeviceName name) s)))"

definition handle_sync_event :: "host \<Rightarrow> sync_event \<Rightarrow> service \<Rightarrow> service option" where
  "handle_sync_event ho e s =
     (case e of
        SY_Status up peer_name \<Rightarrow>
          Some (notify_frontend (SyncStatus up peer_name)
            (s\<lparr>sv_sync_connected := up, sv_sync_peer := peer_name\<rparr>))
      | SY_PairingStarted pin port \<Rightarrow> Some (notify_frontend (PairingStarted pin port) s)
      | SY_PairingComplete fingerprint name addr initiated \<Rightarrow>
          map_option (\<lambda>s. notify_frontend (PairingComplete fingerprint name) (save_config ho s))
            (ensure_paired_client ho name addr initiated (add_authorized_key name fingerprint s))
      | SY_PairingFailed msg \<Rightarrow> Some (notify_frontend (PairingFailed msg) s)
      | SY_PeersDiscovered peers \<Rightarrow> Some (notify_frontend (PeersDiscovered peers) s)
      | SY_Clipboard direction kind \<Rightarrow> Some (notify_frontend (ClipboardSynced direction kind) s)
      | SY_Transfer st \<Rightarrow> Some (notify_frontend (FileTransfer st) s)
      | SY_DragDropped paths \<Rightarrow> Some (notify_frontend (FilesDropped (map show_path paths)) s))"

fun add_configured :: "host \<Rightarrow> config_client list \<Rightarrow> service \<Rightarrow> service option" where
  "add_configured ho [] s = Some s"
| "add_configured ho (cc # ccs) s =
     (case sv_insert ho (\<lambda>k. add_with_config k cc) s of
        None \<Rightarrow> None
      | Some (h, s) \<Rightarrow>
          (case get_state h (sv_mgr s) of
             None \<Rightarrow> None
           | Some (c, st) \<Rightarrow>
               let s = (if cs_active st
                        then sv_activate_client h (s\<lparr>sv_mgr := snd (deactivate_client h (sv_mgr s))\<rparr>) else s)
               in add_configured ho ccs (notify_frontend (Created h c st) s)))"

text \<open>the settings of the changed file, passed on\<close>

definition reload_settings :: "service \<Rightarrow> service" where
  "reload_settings s =
     (let s = capture_req (SetReleaseBind (config_release_bind (sv_config s))) s;
          s = s\<lparr>sv_authorized := authorized_fingerprints (sv_config s)\<rparr>;
          s = sync_req (SR_SetClipboardSync (config_clipboard_sync (sv_config s))) s;
          s = sync_req (SR_SetKeyboardLayoutSync (config_keyboard_layout_sync (sv_config s))) s;
          s = sync_req (SR_SetFileDir (path_of (config_file_dir (sv_download_dir s) (sv_config s)))) s
      in sync_req (SR_SetDeviceName (config_device_name (sv_hostname s) (sv_config s))) s)"

definition handle_config_change :: "host \<Rightarrow> service \<Rightarrow> service option" where
  "handle_config_change ho s =
     map_option (\<lambda>s. sync_frontend (reload_settings s))
     (add_configured ho (config_clients (sv_config s))
       (fold sv_remove_client (registered_clients (sv_mgr s)) s))"

text \<open>
  \<open>Config::changed\<close>, woken by the watcher: the file is read and compared. The branch of the loop
  matches \<open>_\<close>, so a file that cannot be read counts as a change too.
\<close>

definition handle_watch :: "host \<Rightarrow> files \<Rightarrow> service \<Rightarrow> service option" where
  "handle_watch ho fs s =
     (case read_from_disk (ho_env ho) fs (sv_config s) of (r, cfg) \<Rightarrow>
        let s = s\<lparr>sv_files := fs, sv_config := cfg\<rparr>
        in if r = Ok False then Some s else handle_config_change ho s)"

definition handle_emulation_event :: "host \<Rightarrow> emulation_event \<Rightarrow> service \<Rightarrow> service option" where
  "handle_emulation_event ho e s =
     (case e of
        EV_ConnectionAttempt fingerprint \<Rightarrow> Some (notify_frontend (ConnectionAttempt fingerprint) s)
      | EV_Entered addr pos fingerprint \<Rightarrow>
          let s = sync_req (SR_AddrHint (sa_ip addr)) s
          in if addr \<notin> sv_incoming_conns s
             then Some (notify_frontend (DeviceEntered fingerprint addr pos) (add_incoming addr pos fingerprint s))
             else update_incoming addr pos fingerprint s
      | EV_Disconnected addr \<Rightarrow>
          (case remove_incoming addr s of
             (Some addr, s) \<Rightarrow> Some (notify_frontend (IncomingDisconnected addr) s)
           | (None, s) \<Rightarrow> Some s)
      | EV_PortChanged (Some port) \<Rightarrow> Some (notify_frontend (PortChanged port None) (s\<lparr>sv_port := port\<rparr>))
      | EV_PortChanged None \<Rightarrow> Some (notify_frontend (PortChanged (sv_port s) (Some (ho_listen_error ho))) s)
      | EV_EmulationDisabled \<Rightarrow>
          Some (notify_frontend (EmulationStatus Disabled) (s\<lparr>sv_emulation_status := Disabled\<rparr>))
      | EV_EmulationEnabled \<Rightarrow>
          Some (notify_frontend (EmulationStatus Enabled) (s\<lparr>sv_emulation_status := Enabled\<rparr>))
      | EV_ReleaseNotify \<Rightarrow> Some (capture_req Release s)
      | EV_Connected addr fingerprint \<Rightarrow>
          Some (notify_frontend (DeviceConnected addr fingerprint) (sync_req (SR_AddrHint (sa_ip addr)) s))
      | EV_PeerHello addr commit \<Rightarrow>
          (case get_client addr (sv_mgr s) of
             Some h \<Rightarrow> Some (broadcast_client h (s\<lparr>sv_mgr := set_peer_commit h (Some commit) (sv_mgr s)\<rparr>))
           | None \<Rightarrow> Some s))"

definition sv_capture_event :: "host \<Rightarrow> icapture_event \<Rightarrow> service \<Rightarrow> service" where
  "sv_capture_event ho e s =
     (case e of
        CaptureBegin h \<Rightarrow>
          (case hm_get (sv_incoming_info s) h of
             Some i \<Rightarrow> emulation_req (ER_Release (inc_addr i)) s
           | None \<Rightarrow> s)
      | CaptureDisabled \<Rightarrow> notify_frontend (CaptureStatus Disabled) (s\<lparr>sv_capture_status := Disabled\<rparr>)
      | CaptureEnabled \<Rightarrow> notify_frontend (CaptureStatus Enabled) (s\<lparr>sv_capture_status := Enabled\<rparr>)
      | ClientEntered h \<Rightarrow>
          let s = spawn_hook_command h s
          in if sv_sync_connected s \<and> ho_drag_files ho \<noteq> []
             then capture_req (SetDragPending True) (sync_req (SR_DragFiles (ho_drag_files ho)) s) else s
      | DragReleased h \<Rightarrow> sync_req SR_DragDrop s
      | DragCancelled h \<Rightarrow> sync_req SR_DragCancel s)"

definition handle_resolver_event :: "dns_event \<Rightarrow> service \<Rightarrow> service" where
  "handle_resolver_event e s =
     (case e of
        DE_Resolving h \<Rightarrow> broadcast_client h (s\<lparr>sv_mgr := set_resolving h True (sv_mgr s)\<rparr>)
      | DE_Resolved h hostname ips \<Rightarrow>
          let s = s\<lparr>sv_mgr := set_resolving h False (sv_mgr s)\<rparr>;
              ips = unwrap_or ips [];
              s = fold (\<lambda>ip. sync_req (SR_AddrHint ip)) ips s
          in broadcast_client h (s\<lparr>sv_mgr := set_dns_ips h ips (sv_mgr s)\<rparr>))"

text \<open>the manager is shared with the tasks of the outgoing connections, which update it in between\<close>

datatype conn_update =
    CU_ActiveAddr client_handle "socket_addr option"
  | CU_Alive client_handle bool
  | CU_PeerCommit client_handle "u8 list option"

fun apply_conn_update :: "conn_update \<Rightarrow> client_manager \<Rightarrow> client_manager" where
  "apply_conn_update (CU_ActiveAddr h a) m = set_active_addr h a m"
| "apply_conn_update (CU_Alive h b) m = set_alive h b m"
| "apply_conn_update (CU_PeerCommit h c) m = set_peer_commit h c m"

datatype service_input =
    SI_Request "frontend_request option"
  | SI_Pending
  | SI_Emulation emulation_event
  | SI_Capture icapture_event
  | SI_Resolver dns_event
  | SI_Sync sync_event
  | SI_Watch files
  | SI_Conn conn_update

fun service_step :: "host \<times> service_input \<Rightarrow> service \<Rightarrow> service option" where
  "service_step (ho, SI_Request r) s = handle_frontend_request ho r s"
| "service_step (ho, SI_Pending) s = Some (handle_frontend_pending s)"
| "service_step (ho, SI_Emulation e) s = handle_emulation_event ho e s"
| "service_step (ho, SI_Capture e) s = Some (sv_capture_event ho e s)"
| "service_step (ho, SI_Resolver e) s = Some (handle_resolver_event e s)"
| "service_step (ho, SI_Sync e) s = handle_sync_event ho e s"
| "service_step (ho, SI_Watch fs) s = handle_watch ho fs s"
| "service_step (ho, SI_Conn u) s = Some (s\<lparr>sv_mgr := apply_conn_update u (sv_mgr s)\<rparr>)"

section \<open>Starting\<close>

fun add_all :: "host \<Rightarrow> config_client list \<Rightarrow> client_manager \<Rightarrow> client_manager option" where
  "add_all ho [] m = Some m"
| "add_all ho (cc # ccs) m =
     (case ho_slab ho m of None \<Rightarrow> None | Some k \<Rightarrow> add_all ho ccs (snd (add_with_config k cc m)))"

definition service_new :: "host \<Rightarrow> string \<Rightarrow> string \<Rightarrow> string \<Rightarrow> config \<Rightarrow> files \<Rightarrow> service option" where
  "service_new ho fingerprint download_dir hostname cfg fs =
     map_option (\<lambda>m.
       \<lparr>sv_config = cfg, sv_authorized = authorized_fingerprints cfg, sv_mgr = m, sv_port = config_port cfg,
        sv_fingerprint = fingerprint, sv_pending = [], sv_capture_status = Disabled,
        sv_emulation_status = Disabled, sv_incoming_conns = {}, sv_incoming_info = [], sv_next_trigger = 0,
        sv_sync_connected = False, sv_sync_peer = None, sv_files = fs, sv_download_dir = download_dir,
        sv_hostname = hostname, sv_sent = [], sv_capture = [], sv_emulation = [], sv_resolver = [],
        sv_sync = [], sv_hooks = []\<rparr>)
     (add_all ho (config_clients cfg) [])"

text \<open>the beginning of \<open>run\<close>; an address set is iterated in its order\<close>

definition hint_addresses :: "client_handle \<Rightarrow> service \<Rightarrow> service" where
  "hint_addresses h s =
     (case get_ips h (sv_mgr s) of
        Some ips \<Rightarrow> fold (\<lambda>ip. sync_req (SR_AddrHint ip)) (sorted_list_of_set ips) s
      | None \<Rightarrow> s)"

definition service_start :: "service \<Rightarrow> service" where
  "service_start s =
     (let active = active_clients (sv_mgr s);
          s = s\<lparr>sv_mgr := fold (\<lambda>h m. snd (deactivate_client h m)) active (sv_mgr s)\<rparr>;
          s = fold sv_activate_client active s
      in fold hint_addresses (registered_clients (sv_mgr s)) s)"

fun service_run :: "(host \<times> service_input) list \<Rightarrow> service \<Rightarrow> service option" where
  "service_run [] s = Some s"
| "service_run (i # is) s = Option.bind (service_step i s) (service_run is)"

end
