(* ===== verification/ServiceSafety.thy ===== *)
theory ServiceSafety
  imports Service
begin

text \<open>
  What the service keeps true over every run of its loop: one active client per screen edge, exactly
  one barrier for it and for every incoming connection, with its tuning, and consistent tables of
  incoming connections. \<open>ServiceBarriers\<close> follows the barriers into the capture task.
\<close>

section \<open>Runs of machines that may panic\<close>

locale partial_machine =
  fixes step :: "'i \<Rightarrow> 's \<Rightarrow> 's option"
    and run :: "'i list \<Rightarrow> 's \<Rightarrow> 's option"
    and ok :: "'i \<Rightarrow> bool"
    and inv :: "nat \<Rightarrow> 's \<Rightarrow> bool"
    and limit :: nat
  assumes run_Nil: "run [] s = Some s"
    and run_Cons: "run (i # is) s = Option.bind (step i s) (run is)"
    and step_inv: "inv n s \<Longrightarrow> ok i \<Longrightarrow> Suc n < limit \<Longrightarrow> step i s = Some s' \<Longrightarrow> inv (Suc n) s'"
begin

lemma run_inv:
  "inv n s \<Longrightarrow> list_all ok is \<Longrightarrow> n + length is < limit \<Longrightarrow> run is s = Some s' \<Longrightarrow> inv (n + length is) s'"
proof (induction "is" arbitrary: n s)
  case Nil
  then show ?case by (simp add: run_Nil)
next
  case (Cons i "is")
  from Cons.prems(4) obtain s1 where s1: "step i s = Some s1" "run is s1 = Some s'"
    by (auto simp: run_Cons bind_eq_Some_conv)
  have "inv (Suc n) s1" using Cons.prems(2,3) by (intro step_inv [OF Cons.prems(1) _ _ s1(1)]) simp_all
  from Cons.IH [OF this _ _ s1(2)] Cons.prems(2,3) show ?case by simp
qed

end

section \<open>What the capture is asked for\<close>

type_synonym registrations =
  "(capture_handle \<times> capture_position \<times> capture_type) list \<times> (capture_handle, client_tuning) hmap"

fun cap_apply :: "capture_request \<Rightarrow> registrations \<Rightarrow> registrations" where
  "cap_apply (CreateCapture h p t) (cs, tn) = (cs @ [(h, p, t)], tn)"
| "cap_apply (DestroyCapture h) (cs, tn) = (hm_remove h cs, hm_remove h tn)"
| "cap_apply (SetTuning h t) (cs, tn) = (cs, hm_insert h t tn)"
| "cap_apply _ r = r"

definition requested :: "service \<Rightarrow> registrations" where
  "requested s = fold cap_apply (sv_capture s) ([], [])"

abbreviation asked :: "service \<Rightarrow> (capture_handle, capture_position \<times> capture_type) hmap" where
  "asked s \<equiv> fst (requested s)"

abbreviation tunings :: "service \<Rightarrow> (capture_handle, client_tuning) hmap" where
  "tunings s \<equiv> snd (requested s)"

lemma hm_get_snoc: "hm_get (m @ [(k, v)]) k' = (case hm_get m k' of Some w \<Rightarrow> Some w | None \<Rightarrow> if k' = k then Some v else None)"
  by (simp add: hm_get_def map_add_def split: option.split)

lemma hm_ok_snoc: "hm_ok (m @ [(k, v)]) \<longleftrightarrow> hm_ok m \<and> hm_get m k = None"
  by (auto simp: hm_ok_def hm_get_None_iff hm_keys_def)

section \<open>The invariant\<close>

text \<open>an active client, by its handle: where it is and how its input is tuned\<close>

definition active_at :: "client_manager \<Rightarrow> client_handle \<Rightarrow> (position \<times> client_tuning) option" where
  "active_at m h =
     (case hm_get m h of
        Some (c, st) \<Rightarrow>
          if cs_active st then Some (cc_pos c, \<lparr>ct_speed = cc_speed c, ct_modifiers = cc_modifiers c\<rparr>) else None
      | None \<Rightarrow> None)"

definition want :: "(position \<times> client_tuning) option \<Rightarrow> incoming option \<Rightarrow> (capture_position \<times> capture_type) option" where
  "want act inc =
     (case act of
        Some (p, _) \<Rightarrow> Some (to_capture_pos p, CT_Default)
      | None \<Rightarrow> map_option (\<lambda>i. (to_capture_pos (inc_pos i), CT_EnterOnly)) inc)"

lemma want_simps [simp]:
  "want (Some (p, t)) inc = Some (to_capture_pos p, CT_Default)" "want None None = None"
  "want None (Some i) = Some (to_capture_pos (inc_pos i), CT_EnterOnly)"
  by (simp_all add: want_def)

definition wanted :: "service \<Rightarrow> client_handle \<Rightarrow> (capture_position \<times> capture_type) option" where
  "wanted s h = want (active_at (sv_mgr s) h) (hm_get (sv_incoming_info s) h)"

definition one_per_edge :: "client_manager \<Rightarrow> bool" where
  "one_per_edge m \<longleftrightarrow>
     (\<forall>h h' p t t'. active_at m h = Some (p, t) \<longrightarrow> active_at m h' = Some (p, t') \<longrightarrow> h = h')"

definition speeds_ok :: "client_manager \<Rightarrow> bool" where
  "speeds_ok m \<longleftrightarrow> (\<forall>h c st. hm_get m h = Some (c, st) \<longrightarrow> clamp_speed (cc_speed c) = cc_speed c)"

definition mgr_inv :: "client_manager \<Rightarrow> bool" where
  "mgr_inv m \<longleftrightarrow> mgr_ok m \<and> speeds_ok m \<and> one_per_edge m \<and> (\<forall>h. hm_get m h \<noteq> None \<longrightarrow> h < ENTER_HANDLE_BEGIN)"

definition barriers_inv :: "service \<Rightarrow> bool" where
  "barriers_inv s \<longleftrightarrow>
     hm_ok (asked s) \<and> (\<forall>h. hm_get (asked s) h = wanted s h) \<and>
     (\<forall>h p t. active_at (sv_mgr s) h = Some (p, t) \<longrightarrow> hm_get (tunings s) h = Some t)"

definition incoming_inv :: "service \<Rightarrow> bool" where
  "incoming_inv s \<longleftrightarrow>
     hm_ok (sv_incoming_info s) \<and> sv_incoming_conns s = inc_addr ` set (hm_values (sv_incoming_info s)) \<and>
     (\<forall>h h' i i'. hm_get (sv_incoming_info s) h = Some i \<longrightarrow> hm_get (sv_incoming_info s) h' = Some i' \<longrightarrow>
        inc_addr i = inc_addr i' \<longrightarrow> h = h') \<and>
     (\<forall>h. hm_get (sv_incoming_info s) h \<noteq> None \<longrightarrow>
        unat ENTER_HANDLE_BEGIN \<le> unat h \<and> unat h < unat ENTER_HANDLE_BEGIN + unat (sv_next_trigger s))"

definition service_inv :: "service \<Rightarrow> bool" where
  "service_inv s \<longleftrightarrow> mgr_inv (sv_mgr s) \<and> barriers_inv s \<and> incoming_inv s"

text \<open>the part of the state the invariant is about\<close>

definition core where
  "core s = (sv_mgr s, sv_capture s, sv_incoming_conns s, sv_incoming_info s, sv_next_trigger s)"

lemma service_inv_core: "core s = core s' \<Longrightarrow> service_inv s = service_inv s'"
proof -
  assume eq: "core s = core s'"
  then have "wanted s = wanted s'" "requested s = requested s'"
    by (simp_all add: core_def wanted_def [abs_def] requested_def)
  then show ?thesis using eq by (simp add: core_def service_inv_def barriers_inv_def incoming_inv_def)
qed

lemma core_frame [simp]:
  "core (notify_frontend e s) = core s" "core (handle_frontend_pending s) = core s"
  "core (sync_req r s) = core s" "core (emulation_req er s) = core s" "core (resolve h s) = core s"
  "core (spawn_hook_command h s) = core s" "core (broadcast_client h s) = core s" "core (enumerate s) = core s"
  "core (broadcast_vylo_state s) = core s" "core (sync_frontend s) = core s" "core (save_config ho s) = core s"
  "core (set_setting ho f r s) = core s" "core (change_port port s) = core s"
  "core (add_authorized_key d fp s) = core s" "core (remove_authorized_key fp s) = core s"
  by (simp_all add: core_def notify_frontend_def handle_frontend_pending_def sync_req_def emulation_req_def
      resolve_def spawn_hook_command_def broadcast_client_def enumerate_def broadcast_vylo_state_def
      sync_frontend_def save_config_def set_setting_def change_port_def add_authorized_key_def
      remove_authorized_key_def Let_def split: option.split)

lemma core_fields [simp]:
  "core (s\<lparr>sv_config := cfg\<rparr>) = core s" "core (s\<lparr>sv_authorized := ks\<rparr>) = core s"
  "core (s\<lparr>sv_port := p\<rparr>) = core s" "core (s\<lparr>sv_emulation_status := es\<rparr>) = core s"
  "core (s\<lparr>sv_capture_status := es\<rparr>) = core s" "core (s\<lparr>sv_sync_connected := b\<rparr>) = core s"
  "core (s\<lparr>sv_sync_peer := n\<rparr>) = core s" "core (s\<lparr>sv_files := fs\<rparr>) = core s"
  by (simp_all add: core_def)

lemma service_inv_frame [simp]:
  "service_inv (notify_frontend e s) = service_inv s" "service_inv (handle_frontend_pending s) = service_inv s"
  "service_inv (sync_req r s) = service_inv s" "service_inv (emulation_req er s) = service_inv s"
  "service_inv (resolve h s) = service_inv s" "service_inv (spawn_hook_command h s) = service_inv s"
  "service_inv (broadcast_client h s) = service_inv s" "service_inv (enumerate s) = service_inv s"
  "service_inv (broadcast_vylo_state s) = service_inv s" "service_inv (sync_frontend s) = service_inv s"
  "service_inv (save_config ho s) = service_inv s" "service_inv (set_setting ho f r s) = service_inv s"
  "service_inv (change_port port s) = service_inv s" "service_inv (add_authorized_key d fp s) = service_inv s"
  "service_inv (remove_authorized_key fp s) = service_inv s"
  "service_inv (s\<lparr>sv_config := cfg\<rparr>) = service_inv s" "service_inv (s\<lparr>sv_authorized := ks\<rparr>) = service_inv s"
  "service_inv (s\<lparr>sv_port := p\<rparr>) = service_inv s" "service_inv (s\<lparr>sv_emulation_status := es\<rparr>) = service_inv s"
  "service_inv (s\<lparr>sv_capture_status := es\<rparr>) = service_inv s"
  "service_inv (s\<lparr>sv_sync_connected := b\<rparr>) = service_inv s" "service_inv (s\<lparr>sv_sync_peer := n\<rparr>) = service_inv s"
  "service_inv (s\<lparr>sv_files := fs\<rparr>) = service_inv s"
  by (rule service_inv_core, simp)+

lemma requested_req [simp]: "requested (capture_req r s) = cap_apply r (requested s)"
  by (simp add: requested_def capture_req_def)

lemma capture_req_fields [simp]:
  "sv_mgr (capture_req r s) = sv_mgr s" "sv_incoming_info (capture_req r s) = sv_incoming_info s"
  "sv_incoming_conns (capture_req r s) = sv_incoming_conns s" "sv_next_trigger (capture_req r s) = sv_next_trigger s"
  "requested (s\<lparr>sv_mgr := m\<rparr>) = requested s" "requested (s\<lparr>sv_incoming_info := info\<rparr>) = requested s"
  "requested (s\<lparr>sv_incoming_conns := conns\<rparr>) = requested s" "requested (s\<lparr>sv_next_trigger := n\<rparr>) = requested s"
  by (simp_all add: capture_req_def requested_def)

lemma core_mgr: "core s = core s' \<Longrightarrow> sv_mgr s = sv_mgr s'"
  by (simp add: core_def)

lemma frame_mgr [simp]:
  "sv_mgr (notify_frontend e s) = sv_mgr s" "sv_mgr (resolve h s) = sv_mgr s" "sv_mgr (broadcast_client h s) = sv_mgr s"
  "sv_mgr (sync_req r s) = sv_mgr s"
  by (rule core_mgr, simp)+

section \<open>The manager's part\<close>

lemma mgr_invD:
  assumes "mgr_inv m"
  shows "mgr_ok m" "hm_ok m" "speeds_ok m" "one_per_edge m" "hm_get m h \<noteq> None \<Longrightarrow> h < ENTER_HANDLE_BEGIN"
  using assms by (auto simp: mgr_inv_def mgr_ok_def)

lemma speeds_okD: "speeds_ok m \<Longrightarrow> hm_get m h = Some (c, st) \<Longrightarrow> clamp_speed (cc_speed c) = cc_speed c"
  unfolding speeds_ok_def by blast

lemma speeds_okI: "(\<And>h c st. hm_get m h = Some (c, st) \<Longrightarrow> clamp_speed (cc_speed c) = cc_speed c) \<Longrightarrow> speeds_ok m"
  unfolding speeds_ok_def by blast

lemma one_per_edgeD:
  "one_per_edge m \<Longrightarrow> active_at m h = Some (p, t) \<Longrightarrow> active_at m h' = Some (p, t') \<Longrightarrow> h = h'"
  unfolding one_per_edge_def by blast

lemma active_at_Some: "active_at m h = Some x \<Longrightarrow> hm_get m h \<noteq> None"
  by (auto simp: active_at_def split: option.splits)

lemma client_at_active:
  assumes "hm_ok m"
  shows "(client_at p m = Some h \<longrightarrow> (\<exists>t. active_at m h = Some (p, t))) \<and>
    (client_at p m = None \<longrightarrow> (\<forall>h t. active_at m h \<noteq> Some (p, t)))"
  using find_entry [OF assms, of "\<lambda>(k, c, s). cs_active s \<and> cc_pos c = p"]
  unfolding client_at_def active_at_def by (fastforce split: option.splits if_splits)

lemma deactivate_active_at:
  "active_at (snd (deactivate_client h m)) h' = (if h' = h then None else active_at m h')"
  by (auto simp: deactivate_client_def active_at_def split: option.splits)

lemma deactivate_fst: "fst (deactivate_client h m) \<longleftrightarrow> active_at m h \<noteq> None"
  by (auto simp: deactivate_client_def active_at_def split: option.splits)

lemma activate_fst: "fst (activate_client h m) \<longleftrightarrow> hm_get m h \<noteq> None \<and> active_at m h = None"
  by (auto simp: activate_client_def active_at_def split: option.splits)

lemma activate_active_at:
  assumes "hm_get m h = Some (c, st)"
  shows "active_at (snd (activate_client h m)) h' =
    (if h' = h then Some (cc_pos c, \<lparr>ct_speed = cc_speed c, ct_modifiers = cc_modifiers c\<rparr>) else active_at m h')"
  using assms by (auto simp: activate_client_def active_at_def)

text \<open>what a manager operation may change without anyone noticing\<close>

definition same_clients :: "client_manager \<Rightarrow> client_manager \<Rightarrow> bool" where
  "same_clients m m' \<longleftrightarrow>
     (\<forall>h. map_option (\<lambda>(c, st). (cc_pos c, cc_speed c, cc_modifiers c, cs_active st)) (hm_get m h) =
          map_option (\<lambda>(c, st). (cc_pos c, cc_speed c, cc_modifiers c, cs_active st)) (hm_get m' h))"

lemma same_clientsD:
  assumes "same_clients m m'"
  shows "active_at m' = active_at m" "hm_get m' h = None \<longleftrightarrow> hm_get m h = None" "speeds_ok m' = speeds_ok m"
proof -
  note eq = assms [unfolded same_clients_def, rule_format]
  show "active_at m' = active_at m"
  proof
    show "active_at m' h = active_at m h" for h
      using eq [of h] by (auto simp: active_at_def split: option.splits)
  qed
  show "hm_get m' h = None \<longleftrightarrow> hm_get m h = None"
    using eq [of h] by (cases "hm_get m h"; cases "hm_get m' h") auto
  have "(\<forall>c st. hm_get m h = Some (c, st) \<longrightarrow> clamp_speed (cc_speed c) = cc_speed c) \<longleftrightarrow>
      (\<forall>c st. hm_get m' h = Some (c, st) \<longrightarrow> clamp_speed (cc_speed c) = cc_speed c)" for h
    using eq [of h] by (cases "hm_get m h"; cases "hm_get m' h") auto
  then show "speeds_ok m' = speeds_ok m" by (simp add: speeds_ok_def)
qed

lemma service_inv_same:
  assumes "service_inv s" "same_clients (sv_mgr s) m" "mgr_ok m"
  shows "service_inv (s\<lparr>sv_mgr := m\<rparr>)"
proof -
  note D = same_clientsD [OF assms(2)]
  have "wanted (s\<lparr>sv_mgr := m\<rparr>) = wanted s" by (rule ext) (simp add: wanted_def D(1))
  then show ?thesis
    using assms by (simp add: service_inv_def mgr_inv_def one_per_edge_def barriers_inv_def incoming_inv_def D)
qed

lemma same_clients_refl [simp]: "same_clients m m"
  by (simp add: same_clients_def)

lemma same_clients_hm_modify:
  assumes "\<And>c st. (case f (c, st) of (c', st') \<Rightarrow> (cc_pos c', cc_speed c', cc_modifiers c', cs_active st')) =
      (cc_pos c, cc_speed c, cc_modifiers c, cs_active st)"
    and "same_clients m m'"
  shows "same_clients m (hm_modify h f m')"
  using assms(2) unfolding same_clients_def
  by (simp add: option.map_comp comp_def case_prod_unfold assms(1) [unfolded case_prod_unfold, of "fst x" "snd x" for x, simplified])

lemma same_clients_update_ips: "same_clients m m' \<Longrightarrow> same_clients m (update_ips h m')"
  unfolding update_ips_def by (rule same_clients_hm_modify) auto

lemma same_clients_quiet:
  "same_clients m (set_fix_ips h ips m)" "same_clients m (set_dns_ips h ips m)"
  "same_clients m (snd (set_hostname h name m))" "same_clients m (set_port h port m)"
  "same_clients m (set_enter_hook h hook m)" "same_clients m (set_resolving h b m)"
  "same_clients m (set_active_addr h a m)" "same_clients m (set_alive h b m)" "same_clients m (set_peer_commit h cm m)"
  by (auto simp: set_fix_ips_def set_dns_ips_def set_hostname_def set_port_def set_enter_hook_def
      set_resolving_def set_active_addr_def set_alive_def set_peer_commit_def
      intro!: same_clients_update_ips same_clients_hm_modify split: option.split)

lemma same_clients_learn: "same_clients m (learn_address h ip m)"
  by (auto simp: learn_address_def same_clients_quiet split: option.split)

lemma same_clients_conn: "same_clients m (apply_conn_update u m)"
  by (cases u) (simp_all add: same_clients_quiet)

lemma mgr_ok_quiet:
  assumes "mgr_ok m"
  shows "mgr_ok (set_fix_ips h ips m)" "mgr_ok (set_dns_ips h ips m)" "mgr_ok (snd (set_hostname h name m))"
    "mgr_ok (set_port h port m)" "mgr_ok (set_enter_hook h hook m)" "mgr_ok (set_resolving h b m)"
    "mgr_ok (set_active_addr h a m)" "mgr_ok (set_alive h b m)" "mgr_ok (set_peer_commit h cm m)"
    "mgr_ok (snd (deactivate_client h m))" "mgr_ok (snd (activate_client h m))" "mgr_ok (set_speed h v m)"
    "mgr_ok (set_modifiers h mm m)" "mgr_ok (snd (set_pos h pos m))" "mgr_ok (snd (remove_client h m))"
    "mgr_ok (snd (add_client h m))" "mgr_ok (snd (add_with_config h cc m))"
    "mgr_ok (learn_address h ip m)" "mgr_ok (apply_conn_update u m)"
proof -
  note step = mgr_step_ok [OF assms]
  show "mgr_ok (set_fix_ips h ips m)" using step [of "M_FixIps h ips"] by simp
  then show "mgr_ok (learn_address h ip m)"
    using mgr_step_ok [OF assms, of "M_FixIps h x" for x] assms
    by (auto simp: learn_address_def split: option.split)
  show "mgr_ok (set_dns_ips h ips m)" using step [of "M_DnsIps h ips"] by simp
  show "mgr_ok (snd (set_hostname h name m))" using step [of "M_Hostname h name"] by simp
  show "mgr_ok (set_port h port m)" using step [of "M_Port h port"] by simp
  show "mgr_ok (set_enter_hook h hook m)" using step [of "M_EnterHook h hook"] by simp
  show "mgr_ok (set_resolving h b m)" using step [of "M_Resolving h b"] by simp
  show "mgr_ok (set_active_addr h a m)" using step [of "M_ActiveAddr h a"] by simp
  show "mgr_ok (set_alive h b m)" using step [of "M_Alive h b"] by simp
  show "mgr_ok (set_peer_commit h cm m)" using step [of "M_PeerCommit h cm"] by simp
  show "mgr_ok (snd (deactivate_client h m))" using step [of "M_Deactivate h"] by simp
  show "mgr_ok (snd (activate_client h m))" using step [of "M_Activate h"] by simp
  show "mgr_ok (set_speed h v m)" using step [of "M_Speed h v"] by simp
  show "mgr_ok (set_modifiers h mm m)" using step [of "M_Modifiers h mm"] by simp
  show "mgr_ok (snd (set_pos h pos m))" using step [of "M_Pos h pos"] by simp
  show "mgr_ok (snd (remove_client h m))" using step [of "M_Remove h"] by simp
  show "mgr_ok (snd (add_client h m))" using step [of "M_AddClient h"] by simp
  show "mgr_ok (snd (add_with_config h cc m))" using step [of "M_AddWithConfig h cc"] by simp
  show "mgr_ok (apply_conn_update u m)"
    using step [of "M_ActiveAddr x y" for x y] step [of "M_Alive x y" for x y] step [of "M_PeerCommit x y" for x y]
    by (cases u) simp_all
qed

lemma service_inv_mgr_ok: "service_inv s \<Longrightarrow> mgr_ok (sv_mgr s)"
  by (simp add: service_inv_def mgr_inv_def)

lemmas service_inv_quiet = service_inv_same [OF _ same_clients_quiet(1) mgr_ok_quiet(1) [OF service_inv_mgr_ok]]
  service_inv_same [OF _ same_clients_quiet(2) mgr_ok_quiet(2) [OF service_inv_mgr_ok]]
  service_inv_same [OF _ same_clients_quiet(3) mgr_ok_quiet(3) [OF service_inv_mgr_ok]]
  service_inv_same [OF _ same_clients_quiet(4) mgr_ok_quiet(4) [OF service_inv_mgr_ok]]
  service_inv_same [OF _ same_clients_quiet(5) mgr_ok_quiet(5) [OF service_inv_mgr_ok]]
  service_inv_same [OF _ same_clients_quiet(6) mgr_ok_quiet(6) [OF service_inv_mgr_ok]]
  service_inv_same [OF _ same_clients_quiet(9) mgr_ok_quiet(9) [OF service_inv_mgr_ok]]
  service_inv_same [OF _ same_clients_learn mgr_ok_quiet(18) [OF service_inv_mgr_ok]]
  service_inv_same [OF _ same_clients_conn mgr_ok_quiet(19) [OF service_inv_mgr_ok]]

section \<open>Activating and deactivating\<close>

lemma fst_cap_apply_destroy [simp]:
  "fst (cap_apply (DestroyCapture h) r) = hm_remove h (fst r)" "snd (cap_apply (DestroyCapture h) r) = hm_remove h (snd r)"
  "fst (cap_apply (CreateCapture h p t) r) = fst r @ [(h, p, t)]" "snd (cap_apply (CreateCapture h p t) r) = snd r"
  "fst (cap_apply (SetTuning h tn) r) = fst r" "snd (cap_apply (SetTuning h tn) r) = hm_insert h tn (snd r)"
  by (cases r, simp)+

lemma handles_apart:
  assumes "service_inv s" "hm_get (sv_mgr s) h \<noteq> None"
  shows "hm_get (sv_incoming_info s) h = None"
proof (rule ccontr)
  assume "hm_get (sv_incoming_info s) h \<noteq> None"
  then have "unat ENTER_HANDLE_BEGIN \<le> unat h" using assms(1) by (simp add: service_inv_def incoming_inv_def)
  moreover have "h < ENTER_HANDLE_BEGIN" using assms by (simp add: service_inv_def mgr_inv_def)
  ultimately show False by (simp add: word_less_nat_alt)
qed

text \<open>the manager's clients and the requests change together, at one handle\<close>

lemma service_inv_update:
  assumes inv: "service_inv s" and m: "mgr_inv m"
    and other: "\<And>h'. h' \<noteq> h \<Longrightarrow> active_at m h' = active_at (sv_mgr s) h'"
    and mgr: "sv_mgr s' = m" and info: "sv_incoming_info s' = sv_incoming_info s"
    and conns: "sv_incoming_conns s' = sv_incoming_conns s" and nx: "sv_next_trigger s' = sv_next_trigger s"
    and ok: "hm_ok (asked s')"
    and at: "hm_get (asked s') h = want (active_at m h) (hm_get (sv_incoming_info s) h)"
    and away: "\<And>h'. h' \<noteq> h \<Longrightarrow> hm_get (asked s') h' = hm_get (asked s) h'"
    and tuned: "\<And>p t. active_at m h = Some (p, t) \<Longrightarrow> hm_get (tunings s') h = Some t"
    and tunings: "\<And>h'. h' \<noteq> h \<Longrightarrow> hm_get (tunings s') h' = hm_get (tunings s) h'"
  shows "service_inv s'"
proof -
  have bar: "hm_get (asked s') h' = wanted s' h'" for h'
  proof (cases "h' = h")
    case True
    then show ?thesis by (simp add: wanted_def at mgr info)
  next
    case False
    then show ?thesis using inv by (simp add: wanted_def service_inv_def barriers_inv_def mgr info other away)
  qed
  have tun: "hm_get (tunings s') h' = Some t" if "active_at m h' = Some (p, t)" for h' p t
  proof (cases "h' = h")
    case True
    then show ?thesis using tuned that by simp
  next
    case False
    then show ?thesis using inv that other [OF False] tunings [OF False]
      by (simp add: service_inv_def barriers_inv_def)
  qed
  have inc: "incoming_inv s'" using inv by (simp add: service_inv_def incoming_inv_def info conns nx)
  show ?thesis using m inc ok bar tun by (simp add: service_inv_def barriers_inv_def mgr)
qed

lemma mgr_inv_configs:
  assumes inv: "mgr_inv m" and ok: "mgr_ok m'" and edge: "one_per_edge m'"
    and same: "\<And>h. map_option fst (hm_get m' h) = map_option fst (hm_get m h)"
  shows "mgr_inv m'"
proof -
  have "clamp_speed (cc_speed c) = cc_speed c" if "hm_get m' h = Some (c, st)" for h c st
  proof -
    from same [of h] that obtain st' where "hm_get m h = Some (c, st')"
      by (cases "hm_get m h") auto
    then show ?thesis using inv unfolding mgr_inv_def speeds_ok_def by blast
  qed
  moreover have "h < ENTER_HANDLE_BEGIN" if "hm_get m' h \<noteq> None" for h
    using same [of h] that inv by (cases "hm_get m h") (auto simp: mgr_inv_def)
  ultimately show ?thesis using ok edge by (simp add: mgr_inv_def speeds_ok_def)
qed

lemma deactivate_config: "map_option fst (hm_get (snd (deactivate_client h m)) h') = map_option fst (hm_get m h')"
  by (auto simp: deactivate_client_def split: option.split)

lemma activate_config: "map_option fst (hm_get (snd (activate_client h m)) h') = map_option fst (hm_get m h')"
  by (auto simp: activate_client_def split: option.split)

lemma mgr_inv_deactivate:
  assumes "mgr_inv m" shows "mgr_inv (snd (deactivate_client h m))"
proof (rule mgr_inv_configs [OF assms mgr_ok_quiet(10) [OF mgr_invD(1) [OF assms]] _ deactivate_config])
  show "one_per_edge (snd (deactivate_client h m))"
    using mgr_invD(4) [OF assms] unfolding one_per_edge_def deactivate_active_at by auto
qed

lemma deactivate_step:
  "sv_deactivate_client h s =
     (if active_at (sv_mgr s) h \<noteq> None
      then broadcast_client h (capture_req (DestroyCapture h) (s\<lparr>sv_mgr := snd (deactivate_client h (sv_mgr s))\<rparr>))
      else s)"
proof (cases "deactivate_client h (sv_mgr s)")
  case (Pair b m)
  then show ?thesis using deactivate_fst [of h "sv_mgr s"] by (cases b) (simp_all add: sv_deactivate_client_def)
qed

lemma deactivate_mgr [simp]: "sv_mgr (sv_deactivate_client h s) = snd (deactivate_client h (sv_mgr s))"
  by (auto simp: deactivate_step) (auto simp: deactivate_client_def active_at_def split: option.splits)

lemma deactivate_inv:
  assumes inv: "service_inv s"
  shows "service_inv (sv_deactivate_client h s)"
proof (cases "active_at (sv_mgr s) h")
  case (Some x)
  have m: "mgr_inv (sv_mgr s)" using inv by (simp add: service_inv_def)
  have "service_inv (capture_req (DestroyCapture h) (s\<lparr>sv_mgr := snd (deactivate_client h (sv_mgr s))\<rparr>))"
  proof (rule service_inv_update [OF inv mgr_inv_deactivate [OF m, of h], of h])
    show "hm_get (asked (capture_req (DestroyCapture h) (s\<lparr>sv_mgr := snd (deactivate_client h (sv_mgr s))\<rparr>))) h =
        want (active_at (snd (deactivate_client h (sv_mgr s))) h) (hm_get (sv_incoming_info s) h)"
      using handles_apart [OF inv active_at_Some [OF Some]] by (simp add: deactivate_active_at)
    show "hm_ok (asked (capture_req (DestroyCapture h) (s\<lparr>sv_mgr := snd (deactivate_client h (sv_mgr s))\<rparr>)))"
      using inv by (simp add: service_inv_def barriers_inv_def)
  qed (simp_all add: deactivate_active_at)
  then show ?thesis by (simp add: deactivate_step Some)
qed (simp add: deactivate_step inv)

lemma one_per_edge_clear:
  assumes inv: "service_inv s"
  shows "service_inv (clear_position h pos s)"
    "h' \<noteq> h \<Longrightarrow> active_at (sv_mgr (clear_position h pos s)) h' \<noteq> Some (pos, t)"
    "map_option fst (hm_get (sv_mgr (clear_position h pos s)) k) = map_option fst (hm_get (sv_mgr s) k)"
    "active_at (sv_mgr (clear_position h pos s)) h = active_at (sv_mgr s) h"
proof -
  have m: "mgr_inv (sv_mgr s)" using inv by (simp add: service_inv_def)
  note at = client_at_active [OF mgr_invD(2) [OF m], of pos]
  show "service_inv (clear_position h pos s)"
    using inv deactivate_inv by (auto simp: clear_position_def split: option.split)
  show "map_option fst (hm_get (sv_mgr (clear_position h pos s)) k) = map_option fst (hm_get (sv_mgr s) k)"
    by (simp add: clear_position_def deactivate_config split: option.split)
  show "active_at (sv_mgr (clear_position h pos s)) h = active_at (sv_mgr s) h"
    by (simp add: clear_position_def deactivate_active_at split: option.split)
  assume ne: "h' \<noteq> h"
  show "active_at (sv_mgr (clear_position h pos s)) h' \<noteq> Some (pos, t)"
  proof (cases "client_at pos (sv_mgr s)")
    case None
    then show ?thesis using at by (simp add: clear_position_def)
  next
    case (Some other)
    then obtain t' where t': "active_at (sv_mgr s) other = Some (pos, t')" using at by blast
    have unique: "h' = other" if "active_at (sv_mgr s) h' = Some (pos, t)"
      by (rule one_per_edgeD [OF mgr_invD(4) [OF m] that t'])
    show ?thesis
    proof (cases "other = h")
      case True
      then show ?thesis using unique ne by (auto simp: clear_position_def Some)
    next
      case False
      then show ?thesis using unique by (simp add: clear_position_def Some deactivate_active_at) blast
    qed
  qed
qed

lemma activate_step:
  "sv_activate_client h s =
     (case hm_get (sv_mgr s) h of
        None \<Rightarrow> resolve h s
      | Some (c, st) \<Rightarrow>
          let s1 = clear_position h (cc_pos c) (resolve h s) in
          if active_at (sv_mgr s1) h = None
          then broadcast_client h (capture_create h (cc_pos c) CT_Default
                 (push_tuning h (s1\<lparr>sv_mgr := snd (activate_client h (sv_mgr s1))\<rparr>)))
          else s1)"
proof (cases "hm_get (sv_mgr s) h")
  case None
  then show ?thesis by (simp add: sv_activate_client_def get_pos_def)
next
  case (Some e)
  obtain c st where e: "e = (c, st)" by fastforce
  let ?s1 = "clear_position h (cc_pos c) (resolve h s)"
  have "hm_get (sv_mgr ?s1) h \<noteq> None"
    using Some by (simp add: clear_position_def deactivate_client_def split: option.split)
  moreover obtain b m where "activate_client h (sv_mgr ?s1) = (b, m)" by fastforce
  ultimately show ?thesis
    using activate_fst [of h "sv_mgr ?s1"]
    by (cases b; cases "active_at (sv_mgr ?s1) h") (simp_all add: sv_activate_client_def get_pos_def Some e Let_def)
qed

lemma push_tuning_active:
  "hm_get (sv_mgr s) h = Some (c, st) \<Longrightarrow>
   push_tuning h s = capture_req (SetTuning h \<lparr>ct_speed = cc_speed c, ct_modifiers = cc_modifiers c\<rparr>) s"
  by (simp add: push_tuning_def get_tuning_def)

lemma capture_create_simps [simp]:
  "requested (capture_create h p t s) = cap_apply (CreateCapture h (to_capture_pos p) t) (requested s)"
  "sv_mgr (capture_create h p t s) = sv_mgr s" "sv_incoming_info (capture_create h p t s) = sv_incoming_info s"
  "sv_incoming_conns (capture_create h p t s) = sv_incoming_conns s"
  "sv_next_trigger (capture_create h p t s) = sv_next_trigger s"
  by (simp_all add: capture_create_def)

lemma activate_inv:
  assumes inv: "service_inv s"
  shows "service_inv (sv_activate_client h s)"
proof (cases "hm_get (sv_mgr s) h")
  case None
  then show ?thesis using inv by (simp add: activate_step)
next
  case (Some e)
  obtain c st where e: "e = (c, st)" by fastforce
  let ?s1 = "clear_position h (cc_pos c) (resolve h s)"
  have inv0: "service_inv (resolve h s)" using inv by simp
  note clear = one_per_edge_clear [OF inv0, where h = h and pos = "cc_pos c"]
  have m1: "mgr_inv (sv_mgr ?s1)" using clear(1) by (simp add: service_inv_def)
  from clear(3) [of h] Some e obtain st1 where h1: "hm_get (sv_mgr ?s1) h = Some (c, st1)"
    by (cases "hm_get (sv_mgr ?s1) h") auto
  let ?m = "snd (activate_client h (sv_mgr ?s1))"
  let ?t = "\<lparr>ct_speed = cc_speed c, ct_modifiers = cc_modifiers c\<rparr>"
  have act: "active_at ?m h' = (if h' = h then Some (cc_pos c, ?t) else active_at (sv_mgr ?s1) h')" for h'
    by (rule activate_active_at [OF h1])
  have edge: "one_per_edge ?m"
    using mgr_invD(4) [OF m1] clear(2) unfolding one_per_edge_def act by (auto split: if_splits)
  have m: "mgr_inv ?m" by (rule mgr_inv_configs [OF m1 mgr_ok_quiet(11) [OF mgr_invD(1) [OF m1]] edge activate_config])
  show ?thesis
  proof (cases "active_at (sv_mgr ?s1) h")
    case None
    have apart: "hm_get (sv_incoming_info ?s1) h = None" by (rule handles_apart [OF clear(1)]) (simp add: h1)
    from activate_config [of h "sv_mgr ?s1" h] h1 obtain st2 where h2: "hm_get ?m h = Some (c, st2)"
      by (cases "hm_get ?m h") auto
    have bar: "hm_ok (asked ?s1)" "hm_get (asked ?s1) h = None"
      using clear(1) None apart by (simp_all add: service_inv_def barriers_inv_def wanted_def)
    have push: "push_tuning h (?s1\<lparr>sv_mgr := ?m\<rparr>) = capture_req (SetTuning h ?t) (?s1\<lparr>sv_mgr := ?m\<rparr>)"
      by (rule push_tuning_active) (simp add: h2)
    have "service_inv (capture_create h (cc_pos c) CT_Default (capture_req (SetTuning h ?t) (?s1\<lparr>sv_mgr := ?m\<rparr>)))"
      by (rule service_inv_update [OF clear(1) m, of h]) (simp_all add: act bar hm_ok_snoc hm_get_snoc split: option.split)
    then show ?thesis using None by (simp add: activate_step Some e Let_def push)
  next
    case (Some x)
    then show ?thesis using clear(1) \<open>hm_get (sv_mgr s) h = Some e\<close> by (simp add: activate_step e Let_def)
  qed
qed

section \<open>Adding, changing and removing clients\<close>

lemma service_inv_quiet_mgr:
  assumes inv: "service_inv s" and m: "mgr_inv m" and act: "active_at m = active_at (sv_mgr s)"
  shows "service_inv (s\<lparr>sv_mgr := m\<rparr>)"
proof -
  have "wanted (s\<lparr>sv_mgr := m\<rparr>) = wanted s" by (rule ext) (simp add: wanted_def act)
  then show ?thesis using inv m by (simp add: service_inv_def barriers_inv_def incoming_inv_def act)
qed

text \<open>a client that is not active yet, under a fresh handle\<close>

lemma service_inv_insert:
  assumes inv: "service_inv s" and fresh: "hm_get (sv_mgr s) k = None" "k < ENTER_HANDLE_BEGIN"
    and ok: "mgr_ok m" and other: "\<And>h. h \<noteq> k \<Longrightarrow> hm_get m h = hm_get (sv_mgr s) h"
    and e: "hm_get m k = Some e" "\<not> cs_active (snd e)" "clamp_speed (cc_speed (fst e)) = cc_speed (fst e)"
  shows "service_inv (s\<lparr>sv_mgr := m\<rparr>)"
proof -
  obtain c st where "e = (c, st)" by fastforce
  with e have new: "hm_get m k = Some (c, st)" "\<not> cs_active st" "clamp_speed (cc_speed c) = cc_speed c" by simp_all
  have m0: "mgr_inv (sv_mgr s)" using inv by (simp add: service_inv_def)
  have act: "active_at m = active_at (sv_mgr s)"
  proof
    show "active_at m h = active_at (sv_mgr s) h" for h
      using new(1,2) fresh(1) other [of h] by (cases "h = k") (simp_all add: active_at_def)
  qed
  have "speeds_ok m"
    unfolding speeds_ok_def
  proof (intro allI impI)
    fix h c' st'
    assume "hm_get m h = Some (c', st')"
    then show "clamp_speed (cc_speed c') = cc_speed c'"
      using new other [of h] mgr_invD(3) [OF m0] unfolding speeds_ok_def by (cases "h = k") auto
  qed
  moreover have "\<forall>h. hm_get m h \<noteq> None \<longrightarrow> h < ENTER_HANDLE_BEGIN"
  proof (intro allI impI)
    fix h assume "hm_get m h \<noteq> None"
    then show "h < ENTER_HANDLE_BEGIN"
      using other [of h] fresh(2) mgr_invD(5) [OF m0, of h] by (cases "h = k") simp_all
  qed
  moreover have "one_per_edge m" using mgr_invD(4) [OF m0] by (simp add: one_per_edge_def act)
  ultimately have "mgr_inv m" using ok by (simp add: mgr_inv_def)
  then show ?thesis by (rule service_inv_quiet_mgr [OF inv _ act])
qed

definition entry_of :: "config_client \<Rightarrow> client_config \<times> client_state" where
  "entry_of cc =
     (\<lparr>cc_hostname = ccl_hostname cc, cc_fix_ips = sorted_list_of_set (ccl_ips cc), cc_port = ccl_port cc,
       cc_pos = ccl_pos cc, cc_cmd = ccl_enter_hook cc, cc_speed = ccl_speed cc, cc_modifiers = ccl_modifiers cc\<rparr>,
      client_state_default\<lparr>cs_active := ccl_active cc, cs_ips := set (sorted_list_of_set (ccl_ips cc))\<rparr>)"

lemma add_with_config_get:
  "hm_get (snd (add_with_config k cc m)) h = (if h = k then Some (entry_of cc) else hm_get m h)"
  by (simp add: add_with_config_def add_client_def set_state_def set_config_def entry_of_def Let_def)

lemma add_with_config_fst [simp]: "fst (add_with_config k cc m) = k"
  by (simp add: add_with_config_def add_client_def Let_def)

lemma add_client_get:
  "hm_get (snd (add_client k m)) h = (if h = k then Some (client_config_default, client_state_default) else hm_get m h)"
  by (simp add: add_client_def)

lemma deactivate_get:
  "hm_get (snd (deactivate_client h m)) h' =
     (if h' = h then map_option (\<lambda>(c, st). (c, st\<lparr>cs_active := False\<rparr>)) (hm_get m h) else hm_get m h')"
  by (auto simp: deactivate_client_def split: option.split)

definition slab_ok :: "host \<Rightarrow> bool" where
  "slab_ok ho \<longleftrightarrow> (\<forall>m k. ho_slab ho m = Some k \<longrightarrow> hm_get m k = None \<and> k < ENTER_HANDLE_BEGIN)"

lemma slab_okD: "slab_ok ho \<Longrightarrow> ho_slab ho m = Some k \<Longrightarrow> hm_get m k = None \<and> k < ENTER_HANDLE_BEGIN"
  by (simp add: slab_ok_def)

lemma sv_insert_Some:
  "sv_insert ho f s = Some (h, s') \<longleftrightarrow>
     (\<exists>k. ho_slab ho (sv_mgr s) = Some k \<and> h = fst (f k (sv_mgr s)) \<and> s' = s\<lparr>sv_mgr := snd (f k (sv_mgr s))\<rparr>)"
  by (auto simp: sv_insert_def split: option.splits prod.splits)

lemma default_speed_clamped: "clamp_speed DEFAULT_SPEED = DEFAULT_SPEED"
  by (simp add: clamp_speed_def f64_clamp_def speed_finite speed_order)

lemma insert_inactive_inv:
  assumes inv: "service_inv s" and slab: "slab_ok ho" and ins: "sv_insert ho (\<lambda>k. add_with_config k cc) s = Some (h, s')"
    and cc: "\<not> ccl_active cc" "clamp_speed (ccl_speed cc) = ccl_speed cc"
  shows "service_inv s'"
proof -
  from ins obtain k where k: "ho_slab ho (sv_mgr s) = Some k" "s' = s\<lparr>sv_mgr := snd (add_with_config k cc (sv_mgr s))\<rparr>"
    unfolding sv_insert_Some by blast
  note fresh = slab_okD [OF slab k(1)]
  show ?thesis
    unfolding k(2)
    by (rule service_inv_insert [OF inv conjunct1 [OF fresh] conjunct2 [OF fresh]
          mgr_ok_quiet(17) [OF service_inv_mgr_ok [OF inv]], where e = "entry_of cc"])
      (simp_all add: add_with_config_get entry_of_def client_state_default_def cc)
qed

lemma add_client_inv:
  assumes inv: "service_inv s" and slab: "slab_ok ho" and add: "sv_add_client ho s = Some s'"
  shows "service_inv s'"
proof -
  from add obtain h s1 where s1: "sv_insert ho add_client s = Some (h, s1)" "notify_created h s1 = Some s'"
    by (auto simp: sv_add_client_def bind_eq_Some_conv)
  then obtain k where k: "ho_slab ho (sv_mgr s) = Some k" "s1 = s\<lparr>sv_mgr := snd (add_client k (sv_mgr s))\<rparr>"
    unfolding sv_insert_Some by blast
  note fresh = slab_okD [OF slab k(1)]
  have "service_inv s1"
    unfolding k(2)
    by (rule service_inv_insert [OF inv conjunct1 [OF fresh] conjunct2 [OF fresh]
          mgr_ok_quiet(16) [OF service_inv_mgr_ok [OF inv]], where e = "(client_config_default, client_state_default)"])
      (simp_all add: add_client_get client_config_default_def client_state_default_def default_speed_clamped)
  then show ?thesis using s1(2) by (auto simp: notify_created_def split: option.splits)
qed

lemma remove_client_active_at: "active_at (snd (remove_client h m)) h' = (if h' = h then None else active_at m h')"
  by (simp add: remove_client_def active_at_def)

lemma mgr_inv_remove:
  assumes "mgr_inv m" shows "mgr_inv (snd (remove_client h m))"
proof -
  have "one_per_edge (snd (remove_client h m))"
    using mgr_invD(4) [OF assms] unfolding one_per_edge_def remove_client_active_at by auto
  moreover have "speeds_ok (snd (remove_client h m))"
    using mgr_invD(3) [OF assms] unfolding speeds_ok_def remove_client_def by (auto split: if_splits)
  moreover have "\<forall>k. hm_get (snd (remove_client h m)) k \<noteq> None \<longrightarrow> k < ENTER_HANDLE_BEGIN"
    using mgr_invD(5) [OF assms] by (auto simp: remove_client_def split: if_splits)
  ultimately show ?thesis using mgr_ok_quiet(15) [OF mgr_invD(1) [OF assms]] by (simp add: mgr_inv_def)
qed

lemma remove_step:
  "sv_remove_client h s = notify_frontend (Deleted h)
     (if active_at (sv_mgr s) h \<noteq> None
      then capture_req (DestroyCapture h) (s\<lparr>sv_mgr := snd (remove_client h (sv_mgr s))\<rparr>)
      else s\<lparr>sv_mgr := snd (remove_client h (sv_mgr s))\<rparr>)"
proof (cases "hm_get (sv_mgr s) h")
  case None
  then show ?thesis by (simp add: sv_remove_client_def remove_client_def active_at_def Let_def)
next
  case (Some e)
  obtain c st where "e = (c, st)" by fastforce
  then show ?thesis using Some by (cases "cs_active st") (simp_all add: sv_remove_client_def remove_client_def active_at_def Let_def)
qed

lemma remove_inv:
  assumes inv: "service_inv s"
  shows "service_inv (sv_remove_client h s)"
proof (cases "active_at (sv_mgr s) h")
  case None
  have m: "mgr_inv (sv_mgr s)" using inv by (simp add: service_inv_def)
  have "active_at (snd (remove_client h (sv_mgr s))) = active_at (sv_mgr s)"
    by (rule ext) (simp add: remove_client_active_at None)
  then show ?thesis
    using service_inv_quiet_mgr [OF inv mgr_inv_remove [OF m]] by (simp add: remove_step None)
next
  case (Some x)
  have m: "mgr_inv (sv_mgr s)" using inv by (simp add: service_inv_def)
  have "service_inv (capture_req (DestroyCapture h) (s\<lparr>sv_mgr := snd (remove_client h (sv_mgr s))\<rparr>))"
    using handles_apart [OF inv active_at_Some [OF Some]] inv
    by (intro service_inv_update [OF inv mgr_inv_remove [OF m, of h], of h])
      (simp_all add: remove_client_active_at service_inv_def barriers_inv_def)
  then show ?thesis by (simp add: remove_step Some)
qed

lemma set_pos_get:
  "hm_get (snd (set_pos h pos m)) h' =
     (if h' = h then map_option (\<lambda>(c, st). (c\<lparr>cc_pos := pos\<rparr>, st)) (hm_get m h) else hm_get m h')"
  by (auto simp: set_pos_def split: option.split)

lemma set_pos_moved:
  assumes "mgr_inv m"
  shows "mgr_inv (snd (deactivate_client h (snd (set_pos h pos m))))" "\<not> fst (set_pos h pos m) \<Longrightarrow> mgr_inv (snd (set_pos h pos m))"
    "\<not> fst (set_pos h pos m) \<Longrightarrow> active_at (snd (set_pos h pos m)) = active_at m"
proof -
  let ?m = "snd (set_pos h pos m)" and ?d = "snd (deactivate_client h (snd (set_pos h pos m)))"
  have sp: "speeds_ok ?m"
    by (rule speeds_okI)
      (auto simp: set_pos_get split: if_splits dest: speeds_okD [OF mgr_invD(3) [OF assms]])
  have keys: "\<forall>k. hm_get ?m k \<noteq> None \<longrightarrow> k < ENTER_HANDLE_BEGIN"
    using mgr_invD(5) [OF assms] by (auto simp: set_pos_get split: if_splits)
  have ok: "mgr_ok ?m" by (rule mgr_ok_quiet(14) [OF mgr_invD(1) [OF assms]])
  have act: "active_at ?m h' = active_at m h'" if "h' \<noteq> h" for h' using that by (simp add: active_at_def set_pos_get)
  have "one_per_edge ?d"
    using mgr_invD(4) [OF assms] unfolding one_per_edge_def deactivate_active_at by (auto simp: act)
  moreover have "speeds_ok ?d"
    by (rule speeds_okI) (auto simp: deactivate_get split: if_splits dest: speeds_okD [OF sp])
  moreover have "\<forall>k. hm_get ?d k \<noteq> None \<longrightarrow> k < ENTER_HANDLE_BEGIN"
    using keys by (auto simp: deactivate_get split: if_splits)
  ultimately show "mgr_inv ?d" using mgr_ok_quiet(10) [OF ok] by (simp add: mgr_inv_def)
  assume nf: "\<not> fst (set_pos h pos m)"
  show same: "active_at ?m = active_at m"
  proof
    show "active_at ?m h' = active_at m h'" for h'
      using nf act [of h'] by (cases "h' = h") (auto simp: active_at_def set_pos_def split: option.splits if_splits)
  qed
  show "mgr_inv ?m" using ok sp keys mgr_invD(4) [OF assms] by (simp add: mgr_inv_def one_per_edge_def same)
qed

lemma update_pos_inv:
  assumes inv: "service_inv s"
  shows "service_inv (update_pos h pos s)"
proof -
  have m: "mgr_inv (sv_mgr s)" using inv by (simp add: service_inv_def)
  obtain b m1 where sp: "set_pos h pos (sv_mgr s) = (b, m1)" by fastforce
  show ?thesis
  proof (cases b)
    case True
    then obtain x where act: "active_at (sv_mgr s) h = Some x" "active_at m1 h \<noteq> None"
      using sp by (auto simp: set_pos_def active_at_def split: option.splits if_splits)
    have "service_inv (capture_req (DestroyCapture h) (s\<lparr>sv_mgr := snd (deactivate_client h m1)\<rparr>))"
      using handles_apart [OF inv active_at_Some [OF act(1)]] inv set_pos_get [of h pos "sv_mgr s"]
      by (intro service_inv_update [OF inv set_pos_moved(1) [OF m, of h pos, unfolded sp snd_conv], of h])
        (simp_all add: deactivate_active_at service_inv_def barriers_inv_def, simp add: active_at_def sp)
    then have "service_inv (sv_deactivate_client h (s\<lparr>sv_mgr := m1\<rparr>))" using act(2) by (simp add: deactivate_step)
    then show ?thesis using True by (simp add: update_pos_def sp activate_inv)
  next
    case False
    then show ?thesis
      using service_inv_quiet_mgr [OF inv set_pos_moved(2,3) [OF m, of h pos]] by (simp add: update_pos_def sp)
  qed
qed

text \<open>new tuning, pushed to the capture\<close>

lemma retune_inv:
  assumes inv: "service_inv s" and m: "m = hm_modify h (\<lambda>(c, st). (f c, st)) (sv_mgr s)" and ok: "mgr_ok m"
    and pos: "\<And>c. cc_pos (f c) = cc_pos c" and speed: "\<And>c. clamp_speed (cc_speed c) = cc_speed c \<Longrightarrow> clamp_speed (cc_speed (f c)) = cc_speed (f c)"
  shows "service_inv (push_tuning h (s\<lparr>sv_mgr := m\<rparr>))"
proof (cases "hm_get (sv_mgr s) h")
  case None
  have "hm_get m = hm_get (sv_mgr s)" by (rule ext) (simp add: m None)
  then have "active_at m = active_at (sv_mgr s)" "speeds_ok m = speeds_ok (sv_mgr s)"
    by (simp_all add: active_at_def [abs_def] speeds_ok_def)
  moreover have "mgr_inv m"
    using inv ok calculation \<open>hm_get m = hm_get (sv_mgr s)\<close> by (simp add: service_inv_def mgr_inv_def one_per_edge_def)
  ultimately show ?thesis
    using service_inv_quiet_mgr [OF inv] by (simp add: push_tuning_def get_tuning_def m None)
next
  case (Some e)
  obtain c st where e: "e = (c, st)" by fastforce
  have m0: "mgr_inv (sv_mgr s)" using inv by (simp add: service_inv_def)
  have get: "hm_get m h = Some (f c, st)" "h' \<noteq> h \<Longrightarrow> hm_get m h' = hm_get (sv_mgr s) h'" for h'
    by (simp_all add: m Some e)
  let ?t = "\<lparr>ct_speed = cc_speed (f c), ct_modifiers = cc_modifiers (f c)\<rparr>"
  have act: "active_at m h' = (if h' = h then (if cs_active st then Some (cc_pos c, ?t) else None) else active_at (sv_mgr s) h')" for h'
    using get(2) [of h'] by (simp add: active_at_def get(1) pos)
  have old: "active_at (sv_mgr s) h = (if cs_active st then Some (cc_pos c, \<lparr>ct_speed = cc_speed c, ct_modifiers = cc_modifiers c\<rparr>) else None)"
    by (simp add: active_at_def Some e)
  have edge: "one_per_edge m"
    using mgr_invD(4) [OF m0] old unfolding one_per_edge_def act by (auto split: if_splits)
  have "speeds_ok m"
    using speeds_okD [OF mgr_invD(3) [OF m0]] Some e
    by (intro speeds_okI) (auto simp: m intro!: speed split: if_splits)
  moreover have "\<forall>k. hm_get m k \<noteq> None \<longrightarrow> k < ENTER_HANDLE_BEGIN"
    using mgr_invD(5) [OF m0] by (simp add: m) blast
  ultimately have mi: "mgr_inv m" using ok edge by (simp add: mgr_inv_def)
  have push: "push_tuning h (s\<lparr>sv_mgr := m\<rparr>) = capture_req (SetTuning h ?t) (s\<lparr>sv_mgr := m\<rparr>)"
    by (rule push_tuning_active) (simp add: get)
  have bar: "hm_get (asked s) h = want (active_at m h) (hm_get (sv_incoming_info s) h)"
    using inv old by (simp add: service_inv_def barriers_inv_def wanted_def act)
  have ok: "hm_ok (asked s)" using inv by (simp add: service_inv_def barriers_inv_def)
  show ?thesis
    unfolding push
  proof (rule service_inv_update [OF inv mi, of h])
    show "hm_get (tunings (capture_req (SetTuning h ?t) (s\<lparr>sv_mgr := m\<rparr>))) h = Some t" if "active_at m h = Some (p, t)" for p t
      using that by (auto simp: act split: if_splits)
    show "hm_get (asked (capture_req (SetTuning h ?t) (s\<lparr>sv_mgr := m\<rparr>))) h = want (active_at m h) (hm_get (sv_incoming_info s) h)"
      using bar by simp
  qed (use ok in \<open>simp_all add: act\<close>)
qed

lemma update_speed_inv: "service_inv s \<Longrightarrow> service_inv (update_speed h v s)"
  using retune_inv [of s "set_speed h (clamp_speed v) (sv_mgr s)" h "\<lambda>c. c\<lparr>cc_speed := clamp_speed v\<rparr>"]
    mgr_ok_quiet(12) [OF service_inv_mgr_ok]
  by (simp add: update_speed_def clamp_speed_idem) (simp add: set_speed_def)

lemma update_modifiers_inv: "service_inv s \<Longrightarrow> service_inv (update_modifiers h mm s)"
  using retune_inv [of s "set_modifiers h mm (sv_mgr s)" h "\<lambda>c. c\<lparr>cc_modifiers := mm\<rparr>"]
    mgr_ok_quiet(13) [OF service_inv_mgr_ok]
  by (simp add: update_modifiers_def) (simp add: set_modifiers_def)

lemma ensure_paired_inv:
  assumes inv: "service_inv s" and slab: "slab_ok ho" and e: "ensure_paired_client ho name addr initiated s = Some s'"
  shows "service_inv s'"
proof (cases "peer_client name addr (sv_mgr s)")
  case (Some h)
  then show ?thesis
    using e activate_inv [OF service_inv_quiet(8) [OF inv inv, of h addr], of h] by (auto simp: ensure_paired_client_def)
next
  case None
  then obtain h s1 where ins: "sv_insert ho (\<lambda>k. add_with_config k (paired_config name addr initiated)) s = Some (h, s1)"
    using e by (auto simp: ensure_paired_client_def split: option.splits)
  have "service_inv s1"
    by (rule insert_inactive_inv [OF inv slab ins]) (simp_all add: paired_config_def default_speed_clamped)
  then show ?thesis
    using e None ins by (auto simp: ensure_paired_client_def Let_def intro!: activate_inv split: option.splits)
qed

section \<open>Incoming connections\<close>

lemma ENTER_HANDLE_BEGIN_uint: "uint ENTER_HANDLE_BEGIN = 2 ^ 63"
  by code_simp

lemma ENTER_HANDLE_BEGIN_unat: "unat ENTER_HANDLE_BEGIN = 2 ^ 63"
  by (simp only: unat_eq_nat_uint ENTER_HANDLE_BEGIN_uint) simp

lemma unat_trigger: "unat (n :: u64) < 2 ^ 63 \<Longrightarrow> unat (ENTER_HANDLE_BEGIN + n) = unat ENTER_HANDLE_BEGIN + unat n"
  by (subst unat_add_lem [THEN iffD1]) (simp_all add: ENTER_HANDLE_BEGIN_unat)

lemma hm_get_value: "hm_get m k = Some v \<Longrightarrow> v \<in> set (hm_values m)"
  unfolding hm_values_def using hm_get_mem [of m k v] by force

lemma incoming_at_Some: "hm_ok info \<Longrightarrow> incoming_at addr info = Some h \<Longrightarrow> \<exists>i. hm_get info h = Some i \<and> inc_addr i = addr"
  using find_entry [of info "\<lambda>(k, i). inc_addr i = addr"] by (auto simp: incoming_at_def)

lemma incoming_at_None: "incoming_at addr info = None \<longleftrightarrow> addr \<notin> inc_addr ` set (hm_values info)"
  by (force simp: incoming_at_def find_None_iff hm_values_def)

lemma incoming_invD:
  assumes "incoming_inv s"
  shows "hm_ok (sv_incoming_info s)" "sv_incoming_conns s = inc_addr ` set (hm_values (sv_incoming_info s))"
    "hm_get (sv_incoming_info s) h = Some i \<Longrightarrow> hm_get (sv_incoming_info s) h' = Some i' \<Longrightarrow> inc_addr i = inc_addr i' \<Longrightarrow> h = h'"
    "hm_get (sv_incoming_info s) h \<noteq> None \<Longrightarrow>
       unat ENTER_HANDLE_BEGIN \<le> unat h \<and> unat h < unat ENTER_HANDLE_BEGIN + unat (sv_next_trigger s)"
  using assms unfolding incoming_inv_def by blast+

lemma service_invD:
  assumes "service_inv s"
  shows "mgr_inv (sv_mgr s)" "barriers_inv s" "incoming_inv s" "hm_ok (asked s)"
    "hm_get (asked s) h = wanted s h" "active_at (sv_mgr s) h = Some (p, t) \<Longrightarrow> hm_get (tunings s) h = Some t"
  using assms by (auto simp: service_inv_def barriers_inv_def)

lemma add_incoming_inv:
  assumes inv: "service_inv s" and new: "addr \<notin> sv_incoming_conns s" and lim: "unat (sv_next_trigger s) + 1 < 2 ^ 63"
  shows "service_inv (add_incoming addr pos fp s) \<and> unat (sv_next_trigger (add_incoming addr pos fp s)) = unat (sv_next_trigger s) + 1"
proof -
  let ?s = "add_incoming addr pos fp s" and ?n = "sv_next_trigger s" and ?h = "ENTER_HANDLE_BEGIN + sv_next_trigger s"
  let ?i = "\<lparr>inc_fingerprint = fp, inc_addr = addr, inc_pos = pos\<rparr>"
  note I = incoming_invD [OF service_invD(3) [OF inv]]
  have h: "unat ?h = unat ENTER_HANDLE_BEGIN + unat ?n" using lim by (intro unat_trigger) simp
  have n: "unat (?n + 1) = unat ?n + 1" using lim by (subst unat_add_lem [THEN iffD1]) simp_all
  have fresh: "hm_get (sv_incoming_info s) ?h = None"
  proof (rule ccontr)
    assume "hm_get (sv_incoming_info s) ?h \<noteq> None"
    from I(4) [OF this] h show False by simp
  qed
  have nomgr: "hm_get (sv_mgr s) ?h = None"
  proof (rule ccontr)
    assume "hm_get (sv_mgr s) ?h \<noteq> None"
    from mgr_invD(5) [OF service_invD(1) [OF inv] this] h show False by (simp add: word_less_nat_alt)
  qed
  then have noact: "active_at (sv_mgr s) ?h = None" by (simp add: active_at_def)
  have f: "sv_mgr ?s = sv_mgr s" "sv_next_trigger ?s = ?n + 1" "sv_incoming_conns ?s = insert addr (sv_incoming_conns s)"
    "sv_incoming_info ?s = hm_insert ?h ?i (sv_incoming_info s)"
    "requested ?s = cap_apply (CreateCapture ?h (to_capture_pos pos) CT_EnterOnly) (requested s)"
    by (simp_all add: add_incoming_def Let_def)
  have bfree: "hm_get (asked s) ?h = None" by (simp add: service_invD(5) [OF inv] wanted_def noact fresh)
  have "hm_get (asked ?s) k = wanted ?s k" for k
  proof (cases "k = ?h")
    case True
    then show ?thesis using bfree noact by (simp add: f wanted_def hm_get_snoc)
  next
    case False
    then show ?thesis using service_invD(5) [OF inv, of k] by (simp add: f wanted_def hm_get_snoc split: option.split)
  qed
  then have b: "barriers_inv ?s"
    using bfree service_invD(4,6) [OF inv] by (simp add: barriers_inv_def f hm_ok_snoc)
  have addrs: "inc_addr i \<noteq> addr" if "hm_get (sv_incoming_info s) k = Some i" for k i
    using new hm_get_value [OF that] by (auto simp: I(2))
  have "incoming_inv ?s"
    unfolding incoming_inv_def f
  proof (intro conjI allI impI)
    show "hm_ok (hm_insert ?h ?i (sv_incoming_info s))" by (rule hm_ok_insert [OF I(1)])
    show "insert addr (sv_incoming_conns s) = inc_addr ` set (hm_values (hm_insert ?h ?i (sv_incoming_info s)))"
      by (simp add: hm_values_insert [OF I(1) fresh] I(2))
    show "k = k'" if "hm_get (hm_insert ?h ?i (sv_incoming_info s)) k = Some i"
      "hm_get (hm_insert ?h ?i (sv_incoming_info s)) k' = Some i'" "inc_addr i = inc_addr i'" for k k' i i'
    proof -
      have other: "hm_get (sv_incoming_info s) l = Some j \<and> inc_addr j \<noteq> addr" if "l \<noteq> ?h"
        "hm_get (hm_insert ?h ?i (sv_incoming_info s)) l = Some j" for l j
        using that addrs [of l j] by simp
      have at: "inc_addr j = addr" if "hm_get (hm_insert ?h ?i (sv_incoming_info s)) ?h = Some j" for j
        using that by auto
      show ?thesis
        using that other [of k i] other [of k' i'] at [of i] at [of i'] I(3) [of k i k' i']
        by (cases "k = ?h"; cases "k' = ?h") metis+
    qed
    show "unat ENTER_HANDLE_BEGIN \<le> unat k" "unat k < unat ENTER_HANDLE_BEGIN + unat (?n + 1)"
      if "hm_get (hm_insert ?h ?i (sv_incoming_info s)) k \<noteq> None" for k
      using that I(4) [of k] h n by (auto split: if_splits)
  qed
  then show ?thesis using service_invD(1) [OF inv] b by (simp add: service_inv_def f n)
qed

lemma remove_incoming_inv:
  assumes inv: "service_inv s"
  shows "service_inv (snd (remove_incoming addr s)) \<and> addr \<notin> sv_incoming_conns (snd (remove_incoming addr s)) \<and>
    sv_next_trigger (snd (remove_incoming addr s)) = sv_next_trigger s"
proof (cases "incoming_at addr (sv_incoming_info s)")
  case None
  note I = incoming_invD [OF service_invD(3) [OF inv]]
  have "addr \<notin> sv_incoming_conns s" using incoming_at_None [THEN iffD1, OF None] by (simp add: I(2))
  moreover have "remove_incoming addr s = (None, s)" by (simp add: remove_incoming_def None)
  ultimately show ?thesis using inv by simp
next
  case (Some h)
  note I = incoming_invD [OF service_invD(3) [OF inv]]
  from incoming_at_Some [OF I(1) Some] obtain i where i: "hm_get (sv_incoming_info s) h = Some i" "inc_addr i = addr" by blast
  let ?s = "snd (remove_incoming addr s)"
  have f: "sv_mgr ?s = sv_mgr s" "sv_next_trigger ?s = sv_next_trigger s"
    "sv_incoming_conns ?s = sv_incoming_conns s - {addr}" "sv_incoming_info ?s = hm_remove h (sv_incoming_info s)"
    "requested ?s = cap_apply (DestroyCapture h) (requested s)"
    by (simp_all add: remove_incoming_def Some Let_def)
  have noact: "active_at (sv_mgr s) h = None"
    using handles_apart [OF inv, of h] i active_at_Some by fastforce
  have "hm_get (asked ?s) k = wanted ?s k" for k
    using noact service_invD(5) [OF inv, of k] by (simp add: f wanted_def)
  moreover have "hm_get (tunings ?s) k = Some t" if "active_at (sv_mgr s) k = Some (p, t)" for k p t
    using that noact service_invD(6) [OF inv that] by (auto simp: f)
  ultimately have b: "barriers_inv ?s" using service_invD(4) [OF inv] by (simp add: barriers_inv_def f)
  have "inc_addr ` set (hm_values (sv_incoming_info s)) - {addr} = inc_addr ` set (hm_values (hm_remove h (sv_incoming_info s)))"
  proof (intro set_eqI iffI)
    fix x assume "x \<in> inc_addr ` set (hm_values (sv_incoming_info s)) - {addr}"
    then obtain k j where j: "hm_get (sv_incoming_info s) k = Some j" "x = inc_addr j" "x \<noteq> addr"
      by (auto simp: hm_values_get [OF I(1)])
    then have "k \<noteq> h" using i by auto
    then show "x \<in> inc_addr ` set (hm_values (hm_remove h (sv_incoming_info s)))"
      using j by (auto simp: hm_values_get [OF hm_ok_remove [OF I(1)]] intro!: image_eqI [of _ _ j] exI [of _ k])
  next
    fix x assume "x \<in> inc_addr ` set (hm_values (hm_remove h (sv_incoming_info s)))"
    then obtain k j where j: "hm_get (sv_incoming_info s) k = Some j" "x = inc_addr j" "k \<noteq> h"
      by (auto simp: hm_values_get [OF hm_ok_remove [OF I(1)]] split: if_splits)
    then have "x \<noteq> addr" using I(3) [OF j(1) i(1)] i(2) by auto
    then show "x \<in> inc_addr ` set (hm_values (sv_incoming_info s)) - {addr}"
      using j hm_get_value [OF j(1)] by simp
  qed
  moreover have "k = k'" if "hm_get (hm_remove h (sv_incoming_info s)) k = Some j"
    "hm_get (hm_remove h (sv_incoming_info s)) k' = Some j'" "inc_addr j = inc_addr j'" for k k' j j'
    using that I(3) [of k j k' j'] by (auto split: if_splits)
  moreover have "unat ENTER_HANDLE_BEGIN \<le> unat k \<and> unat k < unat ENTER_HANDLE_BEGIN + unat (sv_next_trigger s)"
    if "hm_get (hm_remove h (sv_incoming_info s)) k \<noteq> None" for k
    using that I(4) [of k] by (cases "k = h") simp_all
  ultimately have "incoming_inv ?s"
    unfolding incoming_inv_def f I(2) using hm_ok_remove [OF I(1), of h] by blast
  then show ?thesis using service_invD(1) [OF inv] b by (simp add: service_inv_def f)
qed

lemma incoming_at_modify:
  "(\<And>i. inc_addr (f i) = inc_addr i) \<Longrightarrow> incoming_at addr (hm_modify h f info) = incoming_at addr info"
proof (induction info)
  case (Cons e info)
  then show ?case by (cases e) (simp add: incoming_at_def hm_modify_def)
qed (simp add: incoming_at_def hm_modify_def)

lemma hm_remove_modify: "hm_remove h (hm_modify h f m) = hm_remove h m"
  unfolding hm_remove_def hm_modify_def by (induction m) auto

lemma hm_modify_same: "hm_ok m \<Longrightarrow> hm_get m h = Some v \<Longrightarrow> f v = v \<Longrightarrow> hm_modify h f m = m"
  unfolding hm_modify_def by (rule map_idI) (auto simp: hm_mem_get)

text \<open>the entry that is changed in place is removed right after, so the change does not show\<close>

lemma update_incoming_step:
  assumes inv: "service_inv s"
  shows "update_incoming addr pos fp s =
    (case incoming_at addr (sv_incoming_info s) of
       None \<Rightarrow> None
     | Some h \<Rightarrow>
         Some (if \<exists>i. hm_get (sv_incoming_info s) h = Some i \<and> inc_fingerprint i = fp \<and> inc_pos i = pos then s
           else notify_frontend (DeviceEntered fp addr pos) (notify_frontend (IncomingDisconnected addr)
             (add_incoming addr pos fp (snd (remove_incoming addr s))))))"
proof (cases "incoming_at addr (sv_incoming_info s)")
  case None
  then show ?thesis by (simp add: update_incoming_def)
next
  case (Some h)
  note I = incoming_invD [OF service_invD(3) [OF inv]]
  from incoming_at_Some [OF I(1) Some] obtain i where i: "hm_get (sv_incoming_info s) h = Some i" by blast
  let ?f = "\<lambda>i. i\<lparr>inc_fingerprint := fp, inc_pos := pos\<rparr>"
  let ?s = "s\<lparr>sv_incoming_info := hm_modify h ?f (sv_incoming_info s)\<rparr>"
  have at: "incoming_at addr (hm_modify h ?f (sv_incoming_info s)) = Some h"
    using Some by (simp add: incoming_at_modify)
  have rm: "snd (remove_incoming addr ?s) = snd (remove_incoming addr s)"
    by (simp add: remove_incoming_def at Some Let_def hm_remove_modify capture_req_def)
  show ?thesis
  proof (cases "inc_fingerprint i = fp \<and> inc_pos i = pos")
    case True
    then have "hm_modify h ?f (sv_incoming_info s) = sv_incoming_info s"
      by (intro hm_modify_same [OF I(1) i]) auto
    then show ?thesis using True by (simp add: update_incoming_def Some i Let_def)
  next
    case False
    then show ?thesis using rm by (auto simp: update_incoming_def Some i Let_def)
  qed
qed

text \<open>the counter of the barriers only moves when one is added\<close>

abbreviation trigger :: "service \<Rightarrow> u64" where "trigger \<equiv> sv_next_trigger"

lemma core_trigger: "core s = core s' \<Longrightarrow> trigger s = trigger s'"
  by (simp add: core_def)

lemma trigger_frame [simp]:
  "trigger (notify_frontend e s) = trigger s" "trigger (handle_frontend_pending s) = trigger s"
  "trigger (sync_req r s) = trigger s" "trigger (emulation_req er s) = trigger s" "trigger (resolve h s) = trigger s"
  "trigger (spawn_hook_command h s) = trigger s" "trigger (broadcast_client h s) = trigger s"
  "trigger (enumerate s) = trigger s" "trigger (broadcast_vylo_state s) = trigger s"
  "trigger (sync_frontend s) = trigger s" "trigger (save_config ho s) = trigger s"
  "trigger (set_setting ho f r s) = trigger s" "trigger (change_port port s) = trigger s"
  "trigger (add_authorized_key d fp s) = trigger s" "trigger (remove_authorized_key fp s) = trigger s"
  by (rule core_trigger, simp)+

lemma trigger_clients [simp]:
  "trigger (push_tuning h s) = trigger s" "trigger (sv_deactivate_client h s) = trigger s"
  "trigger (clear_position h pos s) = trigger s" "trigger (sv_activate_client h s) = trigger s"
  "trigger (sv_remove_client h s) = trigger s" "trigger (update_pos h pos s) = trigger s"
  "trigger (set_client_active h b s) = trigger s" "trigger (update_speed h v s) = trigger s"
  "trigger (update_modifiers h mm s) = trigger s" "trigger (update_fix_ips h ips s) = trigger s"
  "trigger (update_hostname h name s) = trigger s" "trigger (update_port h port s) = trigger s"
  "trigger (update_enter_hook h hook s) = trigger s"
proof -
  show push [simp]: "trigger (push_tuning h s) = trigger s" for s
    by (simp add: push_tuning_def split: option.split)
  show deact [simp]: "trigger (sv_deactivate_client h s) = trigger s" for h s
    by (simp add: deactivate_step)
  show clear [simp]: "trigger (clear_position h pos s) = trigger s" for pos s
    by (simp add: clear_position_def split: option.split)
  show act [simp]: "trigger (sv_activate_client h s) = trigger s" for s
    by (simp add: activate_step Let_def split: option.split)
  show "trigger (sv_remove_client h s) = trigger s" by (simp add: remove_step)
  show "trigger (update_pos h pos s) = trigger s"
    by (simp add: update_pos_def Let_def split: prod.split)
  show "trigger (set_client_active h b s) = trigger s" by (simp add: set_client_active_def)
  show "trigger (update_speed h v s) = trigger s" by (simp add: update_speed_def)
  show "trigger (update_modifiers h mm s) = trigger s" by (simp add: update_modifiers_def)
  show "trigger (update_fix_ips h ips s) = trigger s" by (simp add: update_fix_ips_def)
  show "trigger (update_hostname h name s) = trigger s" by (simp add: update_hostname_def Let_def split: prod.split)
  show "trigger (update_port h port s) = trigger s" by (simp add: update_port_def)
  show "trigger (update_enter_hook h hook s) = trigger s" by (simp add: update_enter_hook_def)
qed

lemma trigger_insert: "sv_insert ho f s = Some (h, s') \<Longrightarrow> trigger s' = trigger s"
  by (auto simp: sv_insert_Some)

section \<open>Every step\<close>

lemma add_configured_inv:
  assumes "add_configured ho ccs s = Some s'" "service_inv s" "slab_ok ho" "\<forall>cc \<in> set ccs. clamp_speed (ccl_speed cc) = ccl_speed cc"
  shows "service_inv s' \<and> trigger s' = trigger s"
  using assms
proof (induction ccs arbitrary: s)
  case (Cons cc ccs)
  from Cons.prems(1) obtain h s1 c st where s1: "sv_insert ho (\<lambda>k. add_with_config k cc) s = Some (h, s1)"
    "get_state h (sv_mgr s1) = Some (c, st)"
    "add_configured ho ccs (notify_frontend (Created h c st)
       (if cs_active st then sv_activate_client h (s1\<lparr>sv_mgr := snd (deactivate_client h (sv_mgr s1))\<rparr>) else s1)) = Some s'"
    by (auto simp: Let_def split: option.splits)
  from s1(1) have slab: "ho_slab ho (sv_mgr s) = Some h" and
    s1': "s1 = s\<lparr>sv_mgr := snd (add_with_config h cc (sv_mgr s))\<rparr>"
    unfolding sv_insert_Some by auto
  have entry: "(c, st) = entry_of cc" using s1(2) by (simp add: s1' get_state_def add_with_config_get)
  note fresh = slab_okD [OF Cons.prems(3) slab]
  have cc: "clamp_speed (ccl_speed cc) = ccl_speed cc" using Cons.prems(4) by simp
  have inv1: "service_inv (if cs_active st then sv_activate_client h (s1\<lparr>sv_mgr := snd (deactivate_client h (sv_mgr s1))\<rparr>) else s1)"
  proof (cases "cs_active st")
    case True
    let ?m = "snd (deactivate_client h (snd (add_with_config h cc (sv_mgr s))))"
    have "service_inv (s\<lparr>sv_mgr := ?m\<rparr>)"
      by (rule service_inv_insert [OF Cons.prems(2) conjunct1 [OF fresh] conjunct2 [OF fresh]
            mgr_ok_quiet(10) [OF mgr_ok_quiet(17) [OF service_inv_mgr_ok [OF Cons.prems(2)]]],
            where e = "(c, st\<lparr>cs_active := False\<rparr>)"])
        (use entry cc in \<open>simp_all add: deactivate_get add_with_config_get entry_of_def\<close>)
    then show ?thesis using True activate_inv by (simp add: s1')
  next
    case False
    have "\<not> ccl_active cc" using False entry by (simp add: entry_of_def client_state_default_def)
    then show ?thesis using insert_inactive_inv [OF Cons.prems(2,3) s1(1) _ cc] False by simp
  qed
  from Cons.IH [OF s1(3)] inv1 Cons.prems(3,4) show ?case by (simp add: s1' split: if_splits)
qed simp

lemma config_change_inv:
  assumes "handle_config_change ho s = Some s'" "service_inv s" "slab_ok ho"
  shows "service_inv s' \<and> trigger s' = trigger s"
proof -
  let ?s = "fold sv_remove_client (registered_clients (sv_mgr s)) s"
  have rm: "service_inv ?s \<and> trigger ?s = trigger s"
    by (rule fold_inv) (auto simp: assms(2) remove_inv)
  from assms(1) obtain s1 where s1: "add_configured ho (config_clients (sv_config s)) ?s = Some s1"
    by (auto simp: handle_config_change_def)
  have "\<forall>cc \<in> set (config_clients (sv_config s)). clamp_speed (ccl_speed cc) = ccl_speed cc"
    using config_clients_normal by (auto simp: client_normal_def)
  from add_configured_inv [OF s1 _ assms(3) this] rm have "service_inv s1 \<and> trigger s1 = trigger s" by simp
  moreover have "service_inv (capture_req (SetReleaseBind b) s) = service_inv s" for b s
    by (simp add: service_inv_def barriers_inv_def wanted_def incoming_inv_def)
  ultimately show ?thesis using assms(1) s1 by (auto simp: handle_config_change_def reload_settings_def Let_def)
qed

lemma capture_req_inv:
  "(\<And>x. cap_apply r x = x) \<Longrightarrow> service_inv (capture_req r s) = service_inv s"
  by (simp add: service_inv_def barriers_inv_def wanted_def incoming_inv_def)

lemma capture_req_quiet [simp]:
  "service_inv (capture_req Reenable s) = service_inv s" "service_inv (capture_req Release s) = service_inv s"
  "service_inv (capture_req (SetReleaseBind b) s) = service_inv s"
  "service_inv (capture_req (SetDragPending d) s) = service_inv s"
  by (rule capture_req_inv, simp)+

lemma client_requests_inv:
  assumes "service_inv s"
  shows "service_inv (set_client_active h b s)" "service_inv (update_fix_ips h ips s)" "service_inv (update_hostname h name s)"
    "service_inv (update_port h port s)" "service_inv (update_enter_hook h hook s)"
  using assms service_inv_quiet(1) [OF assms assms] service_inv_quiet(3) [OF assms assms, of h name]
    service_inv_quiet(4) [OF assms assms] service_inv_quiet(5) [OF assms assms]
  by (auto simp: set_client_active_def update_fix_ips_def update_hostname_def update_port_def update_enter_hook_def
      activate_inv deactivate_inv Let_def split: prod.split)

lemma frontend_request_inv:
  assumes step: "handle_frontend_request ho (Some r) s = Some s'" and inv: "service_inv s" and slab: "slab_ok ho"
  shows "service_inv s' \<and> trigger s' = trigger s"
proof (cases "r = Create")
  case True
  then obtain s1 where "sv_add_client ho s = Some s1" "s' = save_config ho s1"
    using step by (auto simp: handle_frontend_request_def)
  moreover from this have "trigger s1 = trigger s"
    by (auto simp: sv_add_client_def bind_eq_Some_conv notify_created_def sv_insert_Some split: option.splits)
  ultimately show ?thesis using add_client_inv [OF inv slab] by simp
next
  case False
  then show ?thesis
    using step inv client_requests_inv [OF inv] remove_inv [OF inv] update_pos_inv [OF inv]
      update_speed_inv [OF inv] update_modifiers_inv [OF inv]
    by (cases r) (auto simp: handle_frontend_request_def)
qed

lemma emulation_event_inv:
  assumes step: "handle_emulation_event ho e s = Some s'" and inv: "service_inv s" and lim: "unat (trigger s) + 1 < 2 ^ 63"
  shows "service_inv s' \<and> unat (trigger s') \<le> unat (trigger s) + 1"
proof (cases e)
  case (EV_Entered addr pos fp)
  let ?s = "sync_req (SR_AddrHint (sa_ip addr)) s"
  have inv1: "service_inv ?s" "trigger ?s = trigger s" using inv by simp_all
  show ?thesis
  proof (cases "addr \<in> sv_incoming_conns ?s")
    case False
    then show ?thesis
      using step add_incoming_inv [OF inv1(1) False, of pos fp] lim inv1(2)
      by (auto simp: EV_Entered handle_emulation_event_def)
  next
    case True
    have rm: "service_inv (snd (remove_incoming addr ?s))" "addr \<notin> sv_incoming_conns (snd (remove_incoming addr ?s))"
      "trigger (snd (remove_incoming addr ?s)) = trigger s"
      using remove_incoming_inv [OF inv1(1), of addr] inv1(2) by auto
    show ?thesis
      using step True add_incoming_inv [OF rm(1,2), of pos fp] rm(3) lim inv1
      by (auto simp: EV_Entered handle_emulation_event_def update_incoming_step [OF inv1(1)] Let_def split: option.splits if_splits)
  qed
next
  case (EV_Disconnected addr)
  obtain r s1 where "remove_incoming addr s = (r, s1)" by fastforce
  then show ?thesis
    using step remove_incoming_inv [OF inv, of addr] by (auto simp: EV_Disconnected handle_emulation_event_def split: option.splits)
next
  case (EV_PortChanged p)
  then show ?thesis using step inv by (cases p) (auto simp: handle_emulation_event_def)
next
  case (EV_PeerHello addr commit)
  then show ?thesis
    using step inv service_inv_quiet(7) [OF inv inv] by (auto simp: handle_emulation_event_def split: option.splits)
qed (use step inv in \<open>auto simp: handle_emulation_event_def\<close>)

lemma sync_event_inv:
  assumes step: "handle_sync_event ho e s = Some s'" and inv: "service_inv s" and slab: "slab_ok ho"
  shows "service_inv s' \<and> trigger s' = trigger s"
proof (cases "\<exists>fp name addr initiated. e = SY_PairingComplete fp name addr initiated")
  case True
  then obtain fp name addr initiated s1 where e: "e = SY_PairingComplete fp name addr initiated"
    "ensure_paired_client ho name addr initiated (add_authorized_key name fp s) = Some s1"
    using step by (auto simp: handle_sync_event_def)
  have "service_inv (add_authorized_key name fp s)" using inv by simp
  from ensure_paired_inv [OF this slab e(2)] have "service_inv s1" .
  moreover have "trigger s1 = trigger s"
    using e(2) by (auto simp: ensure_paired_client_def Let_def sv_insert_Some split: option.splits)
  ultimately show ?thesis using step e by (auto simp: handle_sync_event_def)
next
  case False
  then show ?thesis using step inv by (cases e) (auto simp: handle_sync_event_def)
qed

lemma resolver_event_inv: "service_inv s \<Longrightarrow> service_inv (handle_resolver_event e s) \<and> trigger (handle_resolver_event e s) = trigger s"
proof (cases e)
  case (DE_Resolving h)
  assume inv: "service_inv s"
  then show ?thesis using service_inv_quiet(6) [OF inv inv] by (simp add: handle_resolver_event_def DE_Resolving)
next
  case (DE_Resolved h hostname ips)
  assume inv: "service_inv s"
  let ?s = "s\<lparr>sv_mgr := set_resolving h False (sv_mgr s)\<rparr>"
  have "service_inv (fold (\<lambda>ip. sync_req (SR_AddrHint ip)) xs ?s) \<and> trigger (fold (\<lambda>ip. sync_req (SR_AddrHint ip)) xs ?s) = trigger s" for xs
    by (rule fold_inv) (use service_inv_quiet(6) [OF inv inv] in auto)
  then show ?thesis
    using service_inv_quiet(2) by (simp add: handle_resolver_event_def DE_Resolved Let_def)
qed

lemma capture_event_inv: "service_inv s \<Longrightarrow> service_inv (sv_capture_event ho e s) \<and> trigger (sv_capture_event ho e s) = trigger s"
  by (cases e) (auto simp: sv_capture_event_def Let_def split: option.split)

definition reach_inv :: "nat \<Rightarrow> service \<Rightarrow> bool" where
  "reach_inv n s \<longleftrightarrow> service_inv s \<and> unat (trigger s) \<le> n"

interpretation sv: partial_machine service_step service_run "\<lambda>i. slab_ok (fst i)" reach_inv "2 ^ 63"
proof
  show "service_run [] s = Some s" for s by simp
  show "service_run (i # is) s = Option.bind (service_step i s) (service_run is)" for i "is" s by simp
next
  fix n s i s'
  assume inv: "reach_inv n s" and ok: "slab_ok (fst i)" and lim: "Suc n < 2 ^ 63" and step: "service_step i s = Some s'"
  obtain ho i' where i: "i = (ho, i')" by fastforce
  have s: "service_inv s" and n: "unat (trigger s) \<le> n" and slab: "slab_ok ho"
    using inv ok by (simp_all add: reach_inv_def i)
  have "service_inv s' \<and> unat (trigger s') \<le> Suc n"
  proof (cases i')
    case (SI_Request r)
    then show ?thesis
      using step s n frontend_request_inv [OF _ s slab]
      by (cases r) (auto simp: i handle_frontend_request_def [of ho None])
  next
    case (SI_Emulation e)
    then show ?thesis using step emulation_event_inv [OF _ s, of ho e s'] n lim by (simp add: i)
  next
    case (SI_Sync e)
    then show ?thesis using step sync_event_inv [OF _ s slab, of e s'] n by (simp add: i)
  next
    case (SI_Watch fs)
    obtain r cfg where r: "read_from_disk (ho_env ho) fs (sv_config s) = (r, cfg)" by fastforce
    have "service_inv (s\<lparr>sv_files := fs, sv_config := cfg\<rparr>)"
      using s service_inv_core [of "s\<lparr>sv_files := fs, sv_config := cfg\<rparr>" s] by (simp add: core_def)
    from config_change_inv [OF _ this slab, of s'] show ?thesis
      using step s n \<open>service_inv (s\<lparr>sv_files := fs, sv_config := cfg\<rparr>)\<close>
      by (auto simp: i SI_Watch handle_watch_def r Let_def split: if_splits)
  next
    case (SI_Conn u)
    then show ?thesis using step service_inv_quiet(9) [OF s s, of u] n by (auto simp: i)
  qed (use step s n in \<open>auto simp: i resolver_event_inv capture_event_inv\<close>)
  then show "reach_inv (Suc n) s'" by (simp add: reach_inv_def)
qed

section \<open>The start\<close>

lemma add_all_inv:
  assumes "add_all ho ccs m = Some m'" "slab_ok ho" "mgr_ok m" "speeds_ok m" "\<forall>h. hm_get m h \<noteq> None \<longrightarrow> h < ENTER_HANDLE_BEGIN"
    "\<forall>cc \<in> set ccs. clamp_speed (ccl_speed cc) = ccl_speed cc"
  shows "mgr_ok m' \<and> speeds_ok m' \<and> (\<forall>h. hm_get m' h \<noteq> None \<longrightarrow> h < ENTER_HANDLE_BEGIN)"
  using assms
proof (induction ccs arbitrary: m)
  case (Cons cc ccs)
  from Cons.prems(1) obtain k where k: "ho_slab ho m = Some k" "add_all ho ccs (snd (add_with_config k cc m)) = Some m'"
    by (auto split: option.splits)
  let ?m = "snd (add_with_config k cc m)"
  have "speeds_ok ?m"
    using Cons.prems(6)
    by (intro speeds_okI)
      (auto simp: add_with_config_get entry_of_def split: if_splits dest: speeds_okD [OF Cons.prems(4)])
  moreover have "\<forall>h. hm_get ?m h \<noteq> None \<longrightarrow> h < ENTER_HANDLE_BEGIN"
    using Cons.prems(5) slab_okD [OF Cons.prems(2) k(1)] by (simp add: add_with_config_get)
  ultimately show ?case
    using Cons.IH [OF k(2) Cons.prems(2) mgr_ok_quiet(17) [OF Cons.prems(3)]] Cons.prems(6) by simp
qed simp

lemma deactivate_all:
  "active_at (fold (\<lambda>h m. snd (deactivate_client h m)) hs m) h = (if h \<in> set hs then None else active_at m h)"
    "map_option fst (hm_get (fold (\<lambda>h m. snd (deactivate_client h m)) hs m) h) = map_option fst (hm_get m h)"
  by (induction hs arbitrary: m) (auto simp: deactivate_active_at deactivate_config)

lemma hint_frame [simp]: "service_inv (hint_addresses h s) = service_inv s" "trigger (hint_addresses h s) = trigger s"
proof -
  have "core (fold (\<lambda>ip. sync_req (SR_AddrHint ip)) xs s) = core s" for xs
    by (induction xs arbitrary: s) simp_all
  then have "core (hint_addresses h s) = core s" by (simp add: hint_addresses_def split: option.split)
  then show "service_inv (hint_addresses h s) = service_inv s" "trigger (hint_addresses h s) = trigger s"
    by (rule service_inv_core, rule core_trigger)
qed

lemma start_inv:
  assumes new: "service_new ho fp dd hn cfg fs = Some s" and slab: "slab_ok ho"
  shows "reach_inv 0 (service_start s)"
proof -
  from new obtain m where m: "add_all ho (config_clients cfg) [] = Some m"
    and s: "sv_mgr s = m" "sv_capture s = []" "sv_incoming_conns s = {}" "sv_incoming_info s = []" "trigger s = 0"
    by (auto simp: service_new_def)
  have "\<forall>cc \<in> set (config_clients cfg). clamp_speed (ccl_speed cc) = ccl_speed cc"
    using config_clients_normal by (auto simp: client_normal_def)
  with add_all_inv [OF m slab] have mi: "mgr_ok m" "speeds_ok m" "\<forall>h. hm_get m h \<noteq> None \<longrightarrow> h < ENTER_HANDLE_BEGIN"
    by (simp_all add: mgr_ok_def speeds_ok_def)
  let ?m = "fold (\<lambda>h m. snd (deactivate_client h m)) (active_clients m) m"
  have none: "active_at ?m h = None" for h
  proof (cases "h \<in> set (active_clients m)")
    case False
    then have "active_at m h = None"
      using active_clients_get [of m h] mi(1) by (auto simp: mgr_ok_def active_at_def split: option.splits)
    then show ?thesis by (simp add: deactivate_all)
  qed (simp add: deactivate_all)
  have "mgr_ok ?m" by (rule fold_inv) (use mi mgr_ok_quiet(10) in auto)
  moreover have cfgs: "map_option fst (hm_get ?m h) = map_option fst (hm_get m h)" for h
    by (rule deactivate_all(2))
  moreover have "speeds_ok ?m"
  proof (rule speeds_okI)
    fix h c st assume "hm_get ?m h = Some (c, st)"
    then show "clamp_speed (cc_speed c) = cc_speed c"
      using cfgs [of h] by (cases "hm_get m h") (auto dest: speeds_okD [OF mi(2)])
  qed
  moreover have "\<forall>h. hm_get ?m h \<noteq> None \<longrightarrow> h < ENTER_HANDLE_BEGIN"
  proof (intro allI impI)
    fix h assume "hm_get ?m h \<noteq> None"
    then show "h < ENTER_HANDLE_BEGIN" using cfgs [of h] mi(3) by (cases "hm_get m h") auto
  qed
  moreover have "one_per_edge ?m" by (simp add: one_per_edge_def none)
  ultimately have "mgr_inv ?m" unfolding mgr_inv_def by blast
  then have "service_inv (s\<lparr>sv_mgr := ?m\<rparr>)"
    unfolding service_inv_def
    by (simp add: service_inv_def barriers_inv_def incoming_inv_def requested_def s wanted_def none hm_values_def)
  then have act: "service_inv (fold sv_activate_client hs (s\<lparr>sv_mgr := ?m\<rparr>)) \<and>
      trigger (fold sv_activate_client hs (s\<lparr>sv_mgr := ?m\<rparr>)) = 0" for hs
    by (intro fold_inv [where P = "\<lambda>s. service_inv s \<and> trigger s = 0"]) (simp_all add: activate_inv s)
  have hint: "service_inv (fold hint_addresses hs s) \<and> trigger (fold hint_addresses hs s) = 0"
    if "service_inv s \<and> trigger s = 0" for hs s
    by (rule fold_inv [where P = "\<lambda>s. service_inv s \<and> trigger s = 0", OF that]) simp
  show ?thesis unfolding reach_inv_def service_start_def Let_def s(1) using hint [OF act] by simp
qed

end
