(* ===== verification/ServiceBarriers.thy ===== *)
theory ServiceBarriers
  imports ServiceSafety
begin

text \<open>
  The service and the capture task together: the requests the service makes, served by the task in
  any interleaving with its other inputs, leave exactly the barriers the clients and the incoming
  connections call for.
\<close>

section \<open>In the capture task\<close>

text \<open>the barriers and the tunings the task has recorded\<close>

definition regs :: "capture_task \<Rightarrow> registrations" where
  "regs cp = (cp_captures cp, cp_tuning cp)"

definition task_view :: "capture_task \<Rightarrow> registrations \<times> task_mode" where
  "task_view cp = (regs cp, cp_mode cp)"

lemma task_viewD: "task_view cp = task_view cp' \<Longrightarrow> regs cp = regs cp' \<and> cp_mode cp = cp_mode cp'"
  by (simp add: task_view_def)

lemma task_view_update [simp]:
  "task_view (cp\<lparr>cp_capture := x1\<rparr>) = task_view cp" "task_view (cp\<lparr>cp_active_client := x2\<rparr>) = task_view cp"
  "task_view (cp\<lparr>cp_tuning_state := x3\<rparr>) = task_view cp" "task_view (cp\<lparr>cp_state := x4\<rparr>) = task_view cp"
  "task_view (cp\<lparr>cp_release_bind := x6\<rparr>) = task_view cp" "task_view (cp\<lparr>cp_drag_pending := x7\<rparr>) = task_view cp"
  "task_view (emit e cp) = task_view cp" "task_view (cancel_drag h cp) = task_view cp"
  by (simp_all add: task_view_def regs_def cancel_drag_def emit_def)

lemma task_view_on_capture [simp]: "task_view (snd (on_capture f cp)) = task_view cp"
  by (simp add: on_capture_def split: prod.split)

lemma task_view_send [simp]: "task_view (snd (send e h cp)) = task_view cp"
  by (simp add: task_view_def regs_def send_def split: prod.split)

lemma task_view_send_all [simp]: "task_view (send_all es h cp) = task_view cp"
  unfolding send_all_def by (induction es arbitrary: cp) simp_all

lemma task_view_release [simp]: "task_view (snd (release_capture br cp)) = task_view cp"
  by (cases "cp_active_client cp") (simp_all add: release_capture_None release_capture_Some leaving_def)

lemma task_view_forward [simp]: "task_view (snd (forward br h msg cp)) = task_view cp"
  by (simp add: forward_def split_beta Let_def)

lemma task_view_outgoing: "outgoing h pos e cp = (out, cp') \<Longrightarrow> task_view cp' = task_view cp"
  by (auto simp: outgoing_def tune_def Let_def split: capture_event.splits send_state.splits prod.splits)

lemma task_view_handle [simp]: "task_view (snd (handle_capture_event br h e cp)) = task_view cp"
proof (cases rule: handle_cases [where cp = cp and h = h])
  case (4 pos)
  define cp1 where "cp1 = report_drop h e (activate h e (entered h e cp))"
  have cp1: "task_view cp1 = task_view cp" by (simp add: cp1_def entered_def report_drop_def activate_def)
  obtain out cp2 where out: "outgoing h pos e cp1 = (out, cp2)" by fastforce
  then show ?thesis
    using task_view_outgoing [OF out] cp1 by (cases out) (simp_all add: handle_default [OF 4 cp1_def])
qed (simp_all add: handle_bind handle_removed handle_enter_only entered_def)

lemma task_view_peer [simp]: "task_view (snd (handle_peer_event br h e cp)) = task_view cp"
  by (cases e) (simp_all add: handle_peer_event_def)

text \<open>leaving and entering a session\<close>

lemma end_regs: "regs (end_capture br cp) = regs cp" "cp_mode (end_capture br cp) = Stopped"
proof -
  have "task_view (emit CaptureDisabled (snd (on_capture (ic_terminate (br B_Terminate)) cp))) = task_view cp" by simp
  then show "regs (end_capture br cp) = regs cp" by (simp add: end_capture_def task_view_def) (simp add: regs_def)
qed (simp add: end_capture_def)

lemma or_end_regs:
  "regs (or_end br rc) = regs (snd rc) \<and> (cp_mode (snd rc) \<noteq> Ended \<longrightarrow> cp_mode (or_end br rc) \<noteq> Ended)"
  by (simp add: or_end_def split_beta end_regs)

lemma start_regs: "cp_mode cp \<noteq> Ended \<Longrightarrow> regs (start_capture created br cp) = regs cp \<and> cp_mode (start_capture created br cp) \<noteq> Ended"
proof -
  assume live: "cp_mode cp \<noteq> Ended"
  define f where "f = (\<lambda>(h, pos, _ :: capture_type) rc. and_then rc (on_capture (ic_create (br (B_Create pos)) h pos)))"
  have "task_view (snd (fold f cs rc)) = task_view (snd rc)" for cs rc
    by (induction cs arbitrary: rc) (simp_all add: f_def and_then_def split_beta)
  then have create: "task_view (snd (create_captures br cp)) = task_view cp" for cp
    by (simp add: create_captures_def f_def)
  let ?cp = "emit CaptureEnabled (cp\<lparr>cp_capture := input_capture_new\<rparr>)"
  have "regs (snd (create_captures br ?cp)) = regs cp"
    using task_viewD [OF create [of ?cp]] task_viewD [of ?cp cp] by simp
  then show ?thesis
    using live by (simp add: start_capture_def split_beta end_regs) (simp add: regs_def)
qed

lemma regs_remove: "regs (remove_capture h cp) = cap_apply (DestroyCapture h) (regs cp) \<and> cp_mode (remove_capture h cp) = cp_mode cp"
  by (auto simp: regs_def remove_capture_def Let_def hm_remove_def intro!: filter_cong)

lemma regs_add: "regs (add_capture h p t cp) = cap_apply (CreateCapture h p t) (regs cp) \<and> cp_mode (add_capture h p t cp) = cp_mode cp"
  by (simp add: regs_def add_capture_def)

lemma regs_tuning: "regs (cp_set_tuning h t cp) = cap_apply (SetTuning h t) (regs cp) \<and> cp_mode (cp_set_tuning h t cp) = cp_mode cp"
  by (simp add: regs_def cp_set_tuning_def)

lemma release_result: "fst (release_capture br cp) = br B_Release"
  by (cases "cp_active_client cp")
    (simp_all add: release_capture_None release_capture_Some on_capture_def ic_release_def backend_def)

lemma cap_apply_quiet [simp]:
  "cap_apply Reenable x = x" "cap_apply Release x = x" "cap_apply (SetReleaseBind b) x = x" "cap_apply (SetDragPending d) x = x"
  by (cases x, simp)+

lemma regs_request_view:
  assumes "br B_Release = Ok ()"
  shows "task_view (snd (handle_request br r cp)) = (cap_apply r (regs cp), cp_mode cp)"
proof (cases r)
  case (DestroyCapture h)
  let ?cp = "if cp_active_client cp = Some h then snd (release_capture br cp) else cp"
  have "task_view ?cp = task_view cp" by simp
  then have "task_view (remove_capture h ?cp) = (cap_apply (DestroyCapture h) (regs cp), cp_mode cp)"
    using regs_remove [of h ?cp] by (simp add: task_view_def)
  moreover have "snd (handle_request br r cp) = snd (on_capture (\<lambda>ic. ic_destroy
      (case hm_get (ic_id_map ic) h of Some p \<Rightarrow> br (B_Destroy p) | None \<Rightarrow> Ok ()) h ic) (remove_capture h ?cp))"
    using assms by (simp add: handle_request_def DestroyCapture and_then_def split_beta Let_def release_result)
  ultimately show ?thesis by (simp add: DestroyCapture)
next
  case (CreateCapture h p t)
  then show ?thesis using regs_add [of h p t cp] by (simp add: handle_request_def task_view_def [of "add_capture h p t cp"])
next
  case (SetTuning h t)
  then show ?thesis using regs_tuning [of h t cp] by (simp add: handle_request_def task_view_def)
next
  case Release
  then show ?thesis by (simp add: handle_request_def) (simp add: task_view_def)
qed (simp_all add: handle_request_def task_view_def regs_def)

lemma regs_stopped_view: "task_view (snd (handle_request_stopped r cp)) = (cap_apply r (regs cp), cp_mode cp)"
  using regs_add regs_tuning regs_remove
  by (cases r) (simp_all add: handle_request_stopped_def task_view_def, simp_all add: regs_def)

text \<open>
  Whatever else happens in between, the task ends up with what the requests in its queue say; what
  it takes is a backend that can release the pointer, for an error there loses the request.
\<close>

fun request_of :: "bool \<times> backend_answers \<times> task_input \<Rightarrow> capture_request list" where
  "request_of (_, _, I_Request r) = [r]"
| "request_of _ = []"

lemma task_step_regs:
  assumes live: "cp_mode cp \<noteq> Ended" and br: "br B_Release = Ok ()" and i: "i \<noteq> I_Cancel"
  shows "regs (task_step (created, br, i) cp) = fold cap_apply (request_of (created, br, i)) (regs cp) \<and>
    cp_mode (task_step (created, br, i) cp) \<noteq> Ended"
proof (cases "cp_mode cp")
  case Running
  show ?thesis
  proof (cases i)
    case (I_Capture items)
    obtain p rest ic where poll: "poll_next items (cp_capture cp) = (p, rest, ic)" by (metis prod_cases3)
    let ?cp = "cp\<lparr>cp_capture := ic\<rparr>"
    have v: "task_view ?cp = task_view cp" "task_view (snd (handle_capture_event br h e ?cp)) = task_view cp" for h e by simp_all
    show ?thesis
      using task_viewD [OF v(1)] task_viewD [OF v(2)] live or_end_regs [of br]
      by (cases p) (simp_all add: Running session_step_def I_Capture poll end_regs)
  next
    case (I_Peer h e)
    have "regs (snd (handle_peer_event br h e cp)) = regs cp \<and> cp_mode (snd (handle_peer_event br h e cp)) = cp_mode cp"
      by (rule task_viewD) simp
    then show ?thesis
      using live or_end_regs [of br "handle_peer_event br h e cp"] by (simp add: Running session_step_def I_Peer)
  next
    case (I_Request r)
    then show ?thesis
      using regs_request_view [of br r cp, OF br] live or_end_regs [of br]
      by (simp add: Running session_step_def task_view_def)
  qed (use i in simp)
next
  case Stopped
  show ?thesis
  proof (cases i)
    case (I_Request r)
    obtain b cp1 where h: "handle_request_stopped r cp = (b, cp1)" by fastforce
    then have "regs cp1 = cap_apply r (regs cp)" "cp_mode cp1 \<noteq> Ended"
      using regs_stopped_view [of r cp] live by (simp_all add: task_view_def)
    then show ?thesis using start_regs [of cp1] by (cases b) (simp_all add: Stopped I_Request h)
  qed (use Stopped i in simp_all)
qed (use live in simp)

lemma task_run_regs:
  assumes "\<forall>(created, br, i) \<in> set inputs. br B_Release = Ok () \<and> i \<noteq> I_Cancel" "cp_mode cp \<noteq> Ended"
  shows "regs (fold task_step inputs cp) = fold cap_apply (concat (map request_of inputs)) (regs cp)"
  using assms
proof (induction inputs arbitrary: cp)
  case (Cons x inputs)
  obtain created br i where x: "x = (created, br, i)" by (metis prod_cases3)
  then have s: "regs (task_step x cp) = fold cap_apply (request_of x) (regs cp)" "cp_mode (task_step x cp) \<noteq> Ended"
    using task_step_regs [of cp br i created] Cons.prems by (simp_all del: task_step.simps)
  show ?case using Cons.IH [OF _ s(2)] Cons.prems(1) s(1) by (simp del: task_step.simps)
qed simp

section \<open>Properties\<close>

text \<open>
  \<^bold>\<open>C4.\<close> The screen edges are guarded exactly as the clients and the incoming connections say. Take any
  run of the service, from any configuration, with frontends, peers, the resolver, pairing, edits of
  the file and the connection tasks in any order, and any run of the capture task that has served
  the service's requests in between anything else. Then the barriers of the task are one per active
  client, at its edge, and one enter-only barrier per incoming connection, no handle occurs twice,
  at most one client is active at an edge, and each active client's current speed and modifiers
  are what its input is tuned with.
\<close>

theorem barriers_match_clients:
  assumes new: "service_new ho fp dd hn cfg fs = Some s0" and slab: "slab_ok ho" "list_all (\<lambda>i. slab_ok (fst i)) ops"
    and len: "length ops < 2 ^ 63" and run: "service_run ops (service_start s0) = Some s"
    and inputs: "\<forall>(created, br, i) \<in> set inputs. br B_Release = Ok () \<and> i \<noteq> I_Cancel"
    and served: "concat (map request_of inputs) = sv_capture s"
    and cp: "cp = fold task_step inputs (capture_task_new conn bind)"
  shows "(\<forall>h. hm_get (cp_captures cp) h =
      (case hm_get (sv_mgr s) h of
         Some (c, st) \<Rightarrow> if cs_active st then Some (to_capture_pos (cc_pos c), CT_Default) else None
       | None \<Rightarrow> map_option (\<lambda>i. (to_capture_pos (inc_pos i), CT_EnterOnly)) (hm_get (sv_incoming_info s) h))) \<and>
    distinct (map fst (cp_captures cp)) \<and>
    (\<forall>h c st h' c' st'. hm_get (sv_mgr s) h = Some (c, st) \<and> cs_active st \<and>
       hm_get (sv_mgr s) h' = Some (c', st') \<and> cs_active st' \<and> cc_pos c = cc_pos c' \<longrightarrow> h = h') \<and>
    (\<forall>h c st. hm_get (sv_mgr s) h = Some (c, st) \<and> cs_active st \<longrightarrow>
       hm_get (cp_tuning cp) h = Some \<lparr>ct_speed = cc_speed c, ct_modifiers = cc_modifiers c\<rparr>)"
proof -
  have "reach_inv (0 + length ops) s"
    by (rule sv.run_inv [OF start_inv [OF new slab(1)] slab(2) _ run]) (use len in simp)
  then have inv: "service_inv s" by (simp add: reach_inv_def)
  have "regs cp = fold cap_apply (sv_capture s) (regs (capture_task_new conn bind))"
    unfolding cp served [symmetric] by (rule task_run_regs [OF inputs]) (simp add: capture_task_new_def)
  then have regs: "cp_captures cp = asked s" "cp_tuning cp = tunings s"
    by (simp_all add: requested_def regs_def capture_task_new_def prod_eq_iff)
  have "hm_get (cp_captures cp) h =
      (case hm_get (sv_mgr s) h of
         Some (c, st) \<Rightarrow> if cs_active st then Some (to_capture_pos (cc_pos c), CT_Default) else None
       | None \<Rightarrow> map_option (\<lambda>i. (to_capture_pos (inc_pos i), CT_EnterOnly)) (hm_get (sv_incoming_info s) h))" for h
    using handles_apart [OF inv, of h]
    by (simp add: regs service_invD(5) [OF inv] wanted_def active_at_def want_def split: option.split)
  moreover have "distinct (map fst (cp_captures cp))"
    using service_invD(4) [OF inv] by (simp add: regs hm_ok_def)
  moreover have "h = h'" if "hm_get (sv_mgr s) h = Some (c, st)" "cs_active st"
      "hm_get (sv_mgr s) h' = Some (c', st')" "cs_active st'" "cc_pos c = cc_pos c'" for h c st h' c' st'
    using that by (intro one_per_edgeD [OF mgr_invD(4) [OF service_invD(1) [OF inv]]]) (simp_all add: active_at_def)
  moreover have "hm_get (cp_tuning cp) h = Some \<lparr>ct_speed = cc_speed c, ct_modifiers = cc_modifiers c\<rparr>"
    if "hm_get (sv_mgr s) h = Some (c, st)" "cs_active st" for h c st
    unfolding regs using that by (intro service_invD(6) [OF inv]) (simp add: active_at_def)
  ultimately show ?thesis by blast
qed

text \<open>one active client at the left edge, and a peer enters from the right\<close>

definition example_host :: host where
  "example_host =
     \<lparr>ho_slab = \<lambda>m. find (\<lambda>k. hm_get m k = None) [0, 1, 2], ho_env = example_env config_toml_default,
      ho_partial = 0, ho_drag_files = [], ho_listen_error = []\<rparr>"

definition example_client :: config_client where
  "example_client = (paired_config ''peer'' (V4 1) True)\<lparr>ccl_active := True\<rparr>"

definition example_service :: "service option" where
  "example_service = service_new example_host ''fp'' ''d'' ''h'' (set_clients [example_client] example_config) []"

definition example_inputs :: "service \<Rightarrow> (bool \<times> backend_answers \<times> task_input) list" where
  "example_inputs s = map (\<lambda>r. (True, \<lambda>_. Ok (), I_Request r)) (sv_capture s)"

lemma example_slab: "slab_ok example_host"
proof -
  have "find P xs = Some k \<Longrightarrow> P k \<and> k \<in> set xs" for P :: "u64 \<Rightarrow> bool" and xs k
    by (auto simp: find_Some_iff)
  then show ?thesis
    by (fastforce simp: slab_ok_def example_host_def word_less_nat_alt ENTER_HANDLE_BEGIN_unat)
qed

lemma example_clients: "config_clients (set_clients [example_client] example_config) = [example_client]"
  by (rule config_clients_set_clients)
    (simp add: client_normal_def example_client_def paired_config_def default_speed_clamped)

lemma example_new:
  "\<exists>s. example_service = Some s \<and> sv_mgr s = [(0, entry_of example_client)] \<and> sv_capture s = [] \<and>
     sv_incoming_info s = [] \<and> sv_incoming_conns s = {} \<and> trigger s = 0"
  using add_with_config_get [of 0 example_client "[]"]
  by (simp add: example_service_def service_new_def example_clients example_host_def
      add_with_config_def add_client_def set_state_def set_config_def hm_insert_def hm_modify_def entry_of_def Let_def)

lemma example_start:
  assumes "sv_mgr s = [(0, entry_of example_client)]" "sv_capture s = []"
    "sv_incoming_info s = []" "sv_incoming_conns s = {}" "trigger s = 0"
  shows "map_option (\<lambda>(c, st). (cc_pos c, cs_active st)) (hm_get (sv_mgr (service_start s)) 0) = Some (Left, True) \<and>
    sv_incoming_info (service_start s) = [] \<and> sv_incoming_conns (service_start s) = {} \<and> trigger (service_start s) = 0 \<and>
    (\<exists>tn. sv_capture (service_start s) = [SetTuning 0 tn, CreateCapture 0 C_Left CT_Default]) \<and>
    length (sv_mgr (service_start s)) = 1 \<and> sv_config (service_start s) = sv_config s"
  using assms
  by (simp add: service_start_def active_clients_def deactivate_client_def hm_get_def hm_modify_def entry_of_def
      sv_activate_client_def resolve_def get_hostname_def get_pos_def clear_position_def client_at_def
      activate_client_def push_tuning_def get_tuning_def capture_create_def capture_req_def broadcast_client_def
      get_state_def notify_frontend_def registered_clients_def hm_keys_def hint_addresses_def get_ips_def
      example_client_def paired_config_def sync_req_def Let_def)

abbreviation example_ops :: "(host \<times> service_input) list" where
  "example_ops \<equiv> [(example_host, SI_Emulation (EV_Entered example_addr Right ''fp''))]"

lemma example_entered:
  assumes "sv_incoming_info s = []" "sv_incoming_conns s = {}" "trigger s = 0"
  shows "\<exists>s'. service_run example_ops s = Some s' \<and> sv_mgr s' = sv_mgr s \<and>
    map_option inc_pos (hm_get (sv_incoming_info s') ENTER_HANDLE_BEGIN) = Some Right"
  using assms
  by (simp add: handle_emulation_event_def add_incoming_def sync_req_def notify_frontend_def
      capture_create_def capture_req_def Let_def)

lemma barriers_match_clients_witness:
  "\<exists>s0 s. example_service = Some s0 \<and> service_run example_ops (service_start s0) = Some s \<and>
     (let caps = cp_captures (fold task_step (example_inputs s) (capture_task_new (cp_conn example_task) []))
      in hm_get caps 0 = Some (C_Left, CT_Default) \<and> hm_get caps ENTER_HANDLE_BEGIN = Some (C_Right, CT_EnterOnly))"
proof -
  from example_new obtain s0 where s0: "example_service = Some s0" "sv_mgr s0 = [(0, entry_of example_client)]"
    "sv_capture s0 = []" "sv_incoming_info s0 = []" "sv_incoming_conns s0 = {}" "trigger s0 = 0" by blast
  note start = example_start [OF s0(2-6)]
  from start example_entered [of "service_start s0"] obtain s where
    s: "service_run example_ops (service_start s0) = Some s" "sv_mgr s = sv_mgr (service_start s0)"
      "map_option inc_pos (hm_get (sv_incoming_info s) ENTER_HANDLE_BEGIN) = Some Right" by blast
  have served: "concat (map request_of (example_inputs s)) = sv_capture s"
    unfolding example_inputs_def by (induction "sv_capture s") (simp_all add: comp_def concat_map_singleton)
  have slab: "slab_ok (fst i)" if "i \<in> set example_ops" for i using that example_slab by auto
  have "list_all (\<lambda>i. slab_ok (fst i)) example_ops" "length example_ops < 2 ^ 63"
    "\<forall>(created, br, i) \<in> set (example_inputs s). br B_Release = Ok () \<and> i \<noteq> I_Cancel"
    using example_slab by (auto simp: example_inputs_def)
  note bar = barriers_match_clients [OF s0(1) [unfolded example_service_def] example_slab this(1,2) s(1) this(3) served refl,
      of "cp_conn example_task" "[]", THEN conjunct1, rule_format]
  obtain c st where c: "hm_get (sv_mgr s) 0 = Some (c, st)" "cc_pos c = Left" "cs_active st"
    using start s(2) by (cases "hm_get (sv_mgr (service_start s0)) 0") auto
  have "hm_get (sv_mgr s) ENTER_HANDLE_BEGIN = None"
  proof -
    have "reach_inv (0 + length example_ops) s"
      by (rule sv.run_inv [OF start_inv [OF s0(1) [unfolded example_service_def] example_slab] _ _ s(1)])
        (simp_all add: example_slab)
    then have "mgr_inv (sv_mgr s)" by (simp add: reach_inv_def service_inv_def)
    from mgr_invD(5) [OF this, of ENTER_HANDLE_BEGIN] show ?thesis by blast
  qed
  then show ?thesis
    using s0(1) s(1,3) bar [of 0] bar [of ENTER_HANDLE_BEGIN] c
    by (intro exI [of _ s0] exI [of _ s]) (auto simp: Let_def)
qed

section \<open>Peers that come and go\<close>

lemma entered_info:
  assumes inv: "service_inv s" and lim: "unat (trigger s) + 1 < 2 ^ 63"
  shows "\<exists>s' h. handle_emulation_event ho (EV_Entered addr pos fp) s = Some s' \<and>
    hm_get (sv_incoming_info s') h = Some \<lparr>inc_fingerprint = fp, inc_addr = addr, inc_pos = pos\<rparr>"
proof (cases "addr \<in> sv_incoming_conns s")
  case False
  let ?s = "sync_req (SR_AddrHint (sa_ip addr)) s"
  have "sv_incoming_conns ?s = sv_incoming_conns s" by (simp add: sync_req_def)
  then show ?thesis
    using False by (auto simp: handle_emulation_event_def Let_def notify_frontend_def add_incoming_def
        intro!: exI [of _ "ENTER_HANDLE_BEGIN + trigger s"])
next
  case True
  let ?s = "sync_req (SR_AddrHint (sa_ip addr)) s"
  have s: "service_inv ?s" "sv_incoming_conns ?s = sv_incoming_conns s" using inv by (simp, simp add: sync_req_def)
  note I = incoming_invD [OF service_invD(3) [OF s(1)]]
  have "incoming_at addr (sv_incoming_info ?s) \<noteq> None"
    using True s(2) incoming_at_None [of addr "sv_incoming_info ?s"] by (simp add: I(2))
  then obtain h where h: "incoming_at addr (sv_incoming_info ?s) = Some h" by blast
  from incoming_at_Some [OF I(1) h] obtain i where i: "hm_get (sv_incoming_info ?s) h = Some i" "inc_addr i = addr" by blast
  have e: "handle_emulation_event ho (EV_Entered addr pos fp) s = update_incoming addr pos fp ?s"
    using True s(2) by (simp add: handle_emulation_event_def)
  show ?thesis
  proof (cases "inc_fingerprint i = fp \<and> inc_pos i = pos")
    case True
    then have "update_incoming addr pos fp ?s = Some ?s" by (simp add: update_incoming_step [OF s(1)] h i)
    then show ?thesis unfolding e using i True by (intro exI [of _ ?s] exI [of _ h]) (cases i, simp)
  next
    case False
    then show ?thesis
      by (auto simp: e update_incoming_step [OF s(1)] h i notify_frontend_def add_incoming_def Let_def)
  qed
qed

text \<open>
  \<^bold>\<open>C22.\<close> Peers that enter, move and disconnect in any order never bring the service down: in every
  state it can reach, every event of the emulation is handled (the lookup that expects a known
  address finds it), an address counts as connected exactly when one barrier handle belongs to it,
  after it enters it has a handle with the position and fingerprint it entered with, and after it
  disconnects it has none.
\<close>

theorem peers_come_and_go:
  assumes new: "service_new ho0 fp0 dd hn cfg fs = Some s0" and slab: "slab_ok ho0" "list_all (\<lambda>i. slab_ok (fst i)) ops"
    and len: "length ops + 1 < 2 ^ 63" and run: "service_run ops (service_start s0) = Some s"
  shows "handle_emulation_event ho e s \<noteq> None \<and>
    (addr \<in> sv_incoming_conns s \<longleftrightarrow> (\<exists>!h. \<exists>i. hm_get (sv_incoming_info s) h = Some i \<and> inc_addr i = addr)) \<and>
    (\<exists>s' h. handle_emulation_event ho (EV_Entered addr pos fp) s = Some s' \<and>
       hm_get (sv_incoming_info s') h = Some \<lparr>inc_fingerprint = fp, inc_addr = addr, inc_pos = pos\<rparr>) \<and>
    (\<exists>s'. handle_emulation_event ho (EV_Disconnected addr) s = Some s' \<and>
       (\<forall>h i. hm_get (sv_incoming_info s') h = Some i \<longrightarrow> inc_addr i \<noteq> addr))"
proof -
  have "reach_inv (0 + length ops) s"
    by (rule sv.run_inv [OF start_inv [OF new slab(1)] slab(2) _ run]) (use len in simp)
  then have inv: "service_inv s" and lim: "unat (trigger s) + 1 < 2 ^ 63" using len by (simp_all add: reach_inv_def)
  note I = incoming_invD [OF service_invD(3) [OF inv]]
  note enter = entered_info [OF inv lim, of ho]
  have total: "handle_emulation_event ho e s \<noteq> None"
  proof (cases e)
    case (EV_Entered a p f)
    then show ?thesis using enter [of a p f] by auto
  next
    case (EV_PortChanged p)
    then show ?thesis by (cases p) (simp_all add: handle_emulation_event_def)
  qed (auto simp: handle_emulation_event_def split: option.split prod.split)
  have known: "addr \<in> sv_incoming_conns s \<longleftrightarrow> (\<exists>!h. \<exists>i. hm_get (sv_incoming_info s) h = Some i \<and> inc_addr i = addr)"
  proof
    assume "addr \<in> sv_incoming_conns s"
    then obtain h i where "hm_get (sv_incoming_info s) h = Some i" "inc_addr i = addr"
      by (auto simp: I(2) hm_values_get [OF I(1)])
    then show "\<exists>!h. \<exists>i. hm_get (sv_incoming_info s) h = Some i \<and> inc_addr i = addr" using I(3) by blast
  next
    assume "\<exists>!h. \<exists>i. hm_get (sv_incoming_info s) h = Some i \<and> inc_addr i = addr"
    then show "addr \<in> sv_incoming_conns s" using hm_get_value by (fastforce simp: I(2))
  qed
  have gone: "\<exists>s'. handle_emulation_event ho (EV_Disconnected addr) s = Some s' \<and>
      (\<forall>h i. hm_get (sv_incoming_info s') h = Some i \<longrightarrow> inc_addr i \<noteq> addr)"
  proof -
    obtain r s1 where r: "remove_incoming addr s = (r, s1)" by fastforce
    have "service_inv s1" "addr \<notin> sv_incoming_conns s1" using remove_incoming_inv [OF inv, of addr] r by simp_all
    then have "inc_addr i \<noteq> addr" if "hm_get (sv_incoming_info s1) h = Some i" for h i
      using incoming_invD(2) [OF service_invD(3), of s1] hm_get_value [OF that] by auto
    then show ?thesis by (cases r) (auto simp: handle_emulation_event_def r notify_frontend_def)
  qed
  show ?thesis using total known enter [of addr pos fp] gone by blast
qed

lemma peers_come_and_go_witness:
  "\<exists>s0. example_service = Some s0 \<and> (\<forall>e. handle_emulation_event example_host e (service_start s0) \<noteq> None)"
proof -
  from example_new obtain s0 where s0: "example_service = Some s0" by blast
  have "service_run [] (service_start s0) = Some (service_start s0)" by simp
  from peers_come_and_go [OF s0 [unfolded example_service_def] example_slab _ _ this, THEN conjunct1]
  have "handle_emulation_event example_host e (service_start s0) \<noteq> None" for e by simp
  then show ?thesis using s0 by blast
qed

end
