(* ===== verification/ServiceMirror.thy ===== *)
theory ServiceMirror
  imports ServiceBarriers
begin

text \<open>
  What the frontends know. A frontend keeps a picture of the service by applying the events it is
  sent; the picture stays the service's state, whatever happens, up to what the tasks of the
  connections record about a client in passing. And a restart from the saved file restores the
  clients and the keys.
\<close>

section \<open>The picture of a frontend\<close>

record frontend_view =
  fv_clients :: "(client_handle, client_config \<times> client_state) hmap"
  fv_keys :: "(string, string) hmap"
  fv_port :: u16
  fv_capture :: status
  fv_emulation :: status
  fv_sync :: "bool \<times> string option"
  fv_vylo :: "bool \<times> bool \<times> string \<times> string \<times> u16"

fun fv_apply :: "frontend_event \<Rightarrow> frontend_view \<Rightarrow> frontend_view" where
  "fv_apply (Created h c st) v = v\<lparr>fv_clients := hm_insert h (c, st) (fv_clients v)\<rparr>"
| "fv_apply (State h c st) v = v\<lparr>fv_clients := hm_insert h (c, st) (fv_clients v)\<rparr>"
| "fv_apply (Deleted h) v = v\<lparr>fv_clients := hm_remove h (fv_clients v)\<rparr>"
| "fv_apply (NoSuchClient h) v = v\<lparr>fv_clients := hm_remove h (fv_clients v)\<rparr>"
| "fv_apply (EnumerateE cs) v = v\<lparr>fv_clients := cs\<rparr>"
| "fv_apply (AuthorizedUpdated ks) v = v\<lparr>fv_keys := ks\<rparr>"
| "fv_apply (PortChanged p e) v = v\<lparr>fv_port := p\<rparr>"
| "fv_apply (CaptureStatus st) v = v\<lparr>fv_capture := st\<rparr>"
| "fv_apply (EmulationStatus st) v = v\<lparr>fv_emulation := st\<rparr>"
| "fv_apply (SyncStatus up name) v = v\<lparr>fv_sync := (up, name)\<rparr>"
| "fv_apply (VyloState c k d n p) v = v\<lparr>fv_vylo := (c, k, d, n, p)\<rparr>"
| "fv_apply _ v = v"

text \<open>the connection tasks update these three fields without an event\<close>

definition shown :: "client_config \<times> client_state \<Rightarrow> client_config \<times> client_state" where
  "shown e = (case e of (c, st) \<Rightarrow> (c, st\<lparr>cs_active_addr := None, cs_alive := False, cs_peer_commit := None\<rparr>))"

definition sv_shown :: "client_manager \<Rightarrow> client_handle \<Rightarrow> (client_config \<times> client_state) option" where
  "sv_shown m h = map_option shown (hm_get m h)"

definition vylo_of :: "service \<Rightarrow> bool \<times> bool \<times> string \<times> string \<times> u16" where
  "vylo_of s = (config_clipboard_sync (sv_config s), config_keyboard_layout_sync (sv_config s),
     config_file_dir (sv_download_dir s) (sv_config s), config_device_name (sv_hostname s) (sv_config s),
     config_sync_port (sv_config s))"

definition sv_rest where
  "sv_rest s = (sv_authorized s, sv_port s, sv_capture_status s, sv_emulation_status s,
     (sv_sync_connected s, sv_sync_peer s), vylo_of s)"

definition fv_rest where
  "fv_rest v = (fv_keys v, fv_port v, fv_capture v, fv_emulation v, fv_sync v, fv_vylo v)"

text \<open>the picture is right, except for the clients in \<open>X\<close>\<close>

definition agrees :: "client_handle set \<Rightarrow> frontend_view \<Rightarrow> service \<Rightarrow> bool" where
  "agrees X v s \<longleftrightarrow> (\<forall>h. h \<notin> X \<longrightarrow> sv_shown (fv_clients v) h = sv_shown (sv_mgr s) h) \<and> fv_rest v = sv_rest s"

definition told :: "service \<Rightarrow> frontend_event list" where
  "told s = sv_sent s @ sv_pending s"

definition mirrors :: "client_handle set \<Rightarrow> client_handle set \<Rightarrow> service \<Rightarrow> service \<Rightarrow> bool" where
  "mirrors X Y s s' \<longleftrightarrow>
     (\<exists>es. told s' = told s @ es \<and> (\<forall>v. agrees X v s \<longrightarrow> agrees Y (fold fv_apply es v) s'))"

lemma mirrors_refl [simp]: "mirrors X X s s"
  unfolding mirrors_def by (intro exI [of _ "[]"]) simp

lemma mirrors_trans [trans]: "mirrors X Y s s' \<Longrightarrow> mirrors Y Z s' s'' \<Longrightarrow> mirrors X Z s s''"
  unfolding mirrors_def by (metis append.assoc fold_append comp_apply)

lemma mirrors_weaken: "mirrors X Y s s' \<Longrightarrow> Y \<subseteq> Z \<Longrightarrow> mirrors X Z s s'"
  unfolding mirrors_def agrees_def by (meson subsetD)

text \<open>a change nobody is told about\<close>

lemma mirrors_quiet:
  assumes "told s' = told s" "sv_rest s' = sv_rest s"
    "\<And>h. h \<notin> Y \<Longrightarrow> sv_shown (sv_mgr s') h = sv_shown (sv_mgr s) h" "X \<subseteq> Y"
  shows "mirrors X Y s s'"
proof -
  have "agrees Y v s'" if "agrees X v s" for v
    using that assms unfolding agrees_def by (metis subsetD)
  then show ?thesis unfolding mirrors_def using assms(1) by (intro exI [of _ "[]"]) simp
qed

lemma mirrors_notify:
  assumes "\<And>v. agrees X v s \<Longrightarrow> agrees Y (fv_apply e v) s"
  shows "mirrors X Y s (notify_frontend e s)"
proof -
  have "agrees Z v (notify_frontend e s) = agrees Z v s" for Z v
    by (simp add: agrees_def notify_frontend_def sv_rest_def vylo_of_def)
  then show ?thesis
    unfolding mirrors_def using assms by (intro exI [of _ "[e]"]) (simp add: told_def notify_frontend_def)
qed

lemma sv_shown_insert: "sv_shown (hm_insert h e m) h' = (if h' = h then Some (shown e) else sv_shown m h')"
  by (simp add: sv_shown_def)

lemma sv_shown_remove: "sv_shown (hm_remove h m) h' = (if h' = h then None else sv_shown m h')"
  by (simp add: sv_shown_def)

lemma fv_rest_clients [simp]: "fv_rest (v\<lparr>fv_clients := cs\<rparr>) = fv_rest v"
  by (simp add: fv_rest_def)

lemma broadcast_mirrors: "mirrors X (X - {h}) s (broadcast_client h s)"
  unfolding broadcast_client_def get_state_def
  by (rule mirrors_notify)
    (auto simp: agrees_def sv_shown_insert sv_shown_remove, auto simp: sv_shown_def split: option.splits)

lemma created_mirrors: "hm_get (sv_mgr s) h = Some (c, st) \<Longrightarrow> mirrors X (X - {h}) s (notify_frontend (Created h c st) s)"
  by (rule mirrors_notify) (auto simp: agrees_def sv_shown_insert, auto simp: sv_shown_def)

lemma deleted_mirrors: "hm_get (sv_mgr s) h = None \<Longrightarrow> mirrors X (X - {h}) s (notify_frontend (Deleted h) s)"
  by (rule mirrors_notify) (auto simp: agrees_def sv_shown_remove, auto simp: sv_shown_def)

lemma enumerate_mirrors: "mirrors X {} s (enumerate s)"
  unfolding enumerate_def get_client_states_def by (rule mirrors_notify) (auto simp: agrees_def)

definition tacit :: "frontend_event \<Rightarrow> bool" where
  "tacit e \<longleftrightarrow> (\<forall>v. fv_apply e v = v)"

lemma tacit_mirrors: "tacit e \<Longrightarrow> mirrors X X s (notify_frontend e s)"
  by (rule mirrors_notify) (simp add: tacit_def)

lemma tacit_simps [simp]:
  "tacit (PublicKeyFingerprint k)" "tacit (DeviceConnected a k)" "tacit (DeviceEntered k a p)"
  "tacit (IncomingDisconnected a)" "tacit (ConnectionAttempt k)" "tacit (PairingStarted k q)"
  "tacit (PairingComplete k n)" "tacit (PairingFailed k)" "tacit (PeersDiscovered ps)"
  "tacit (ClipboardSynced d ck)" "tacit (FileTransfer ft)" "tacit (FilesDropped fs)"
  by (simp_all add: tacit_def)

section \<open>The handlers\<close>

text \<open>what the requests to the other parts leave alone\<close>

definition public where
  "public s = (told s, sv_rest s, sv_mgr s)"

lemma mirrors_public: "public s' = public s \<Longrightarrow> mirrors X X s s'"
  by (rule mirrors_quiet) (simp_all add: public_def)

lemma public_frame [simp]:
  "public (sync_req r s) = public s" "public (capture_req cr s) = public s" "public (emulation_req er s) = public s"
  "public (resolve h s) = public s" "public (spawn_hook_command h s) = public s" "public (push_tuning h s) = public s"
  "public (capture_create h p t s) = public s" "public (handle_frontend_pending s) = public s"
  by (simp_all add: public_def told_def sv_rest_def vylo_of_def sync_req_def capture_req_def emulation_req_def
      resolve_def spawn_hook_command_def push_tuning_def capture_create_def handle_frontend_pending_def split: option.split)

lemma public_fields [simp]:
  "public (s\<lparr>sv_incoming_conns := a\<rparr>) = public s" "public (s\<lparr>sv_incoming_info := b\<rparr>) = public s"
  "public (s\<lparr>sv_next_trigger := c\<rparr>) = public s" "public (s\<lparr>sv_files := d\<rparr>) = public s"
  by (simp_all add: public_def told_def sv_rest_def vylo_of_def)

lemma public_save [simp]: "public (save_config ho s) = public s"
  by (simp add: public_def told_def sv_rest_def vylo_of_def save_config_def Let_def set_clients_def set_authorized_keys_def
      with_toml_def config_clipboard_sync_def config_keyboard_layout_sync_def config_file_dir_def
      config_device_name_def config_sync_port_def toml_field_def)
    (cases "cfg_toml (sv_config s)"; simp add: config_toml_default_def)

lemma mirrors_mgr:
  assumes "\<And>h. h \<notin> Y \<Longrightarrow> sv_shown m h = sv_shown (sv_mgr s) h" "X \<subseteq> Y"
  shows "mirrors X Y s (s\<lparr>sv_mgr := m\<rparr>)"
  using assms by (intro mirrors_quiet) (simp_all add: told_def sv_rest_def vylo_of_def)

text \<open>the handlers that change one client end by broadcasting it\<close>

lemma mirrors_one:
  assumes "\<And>h'. h' \<noteq> h \<Longrightarrow> hm_get m h' = hm_get (sv_mgr s) h'" "public s' = public (s\<lparr>sv_mgr := m\<rparr>)"
  shows "mirrors {} {} s (broadcast_client h s')" "mirrors {h} {} s (broadcast_client h s')"
proof -
  have "mirrors X {h} s (s\<lparr>sv_mgr := m\<rparr>)" if "X \<subseteq> {h}" for X
    using assms(1) that by (intro mirrors_mgr) (simp_all add: sv_shown_def)
  moreover have "mirrors {h} {h} (s\<lparr>sv_mgr := m\<rparr>) s'" by (rule mirrors_public [OF assms(2)])
  moreover have "mirrors {h} ({h} - {h}) s' (broadcast_client h s')" by (rule broadcast_mirrors)
  ultimately have "mirrors X {} s (broadcast_client h s')" if "X \<subseteq> {h}" for X
    using that by (metis Diff_cancel mirrors_trans)
  then show "mirrors {} {} s (broadcast_client h s')" "mirrors {h} {} s (broadcast_client h s')" by simp_all
qed

lemma modify_get: "h' \<noteq> h \<Longrightarrow> hm_get (hm_modify h f m) h' = hm_get m h'"
  by simp

lemma update_ips_get: "h' \<noteq> h \<Longrightarrow> hm_get (update_ips h m) h' = hm_get m h'"
  by (simp add: update_ips_def)

lemma one_client_get:
  assumes "h' \<noteq> h"
  shows "hm_get (set_fix_ips h ips m) h' = hm_get m h'" "hm_get (set_dns_ips h ips m) h' = hm_get m h'"
    "hm_get (snd (set_hostname h name m)) h' = hm_get m h'" "hm_get (set_port h port m) h' = hm_get m h'"
    "hm_get (set_enter_hook h hook m) h' = hm_get m h'" "hm_get (set_resolving h b m) h' = hm_get m h'"
    "hm_get (set_speed h v m) h' = hm_get m h'" "hm_get (set_modifiers h mm m) h' = hm_get m h'"
    "hm_get (learn_address h ip m) h' = hm_get m h'" "hm_get (snd (deactivate_client h m)) h' = hm_get m h'"
    "hm_get (snd (activate_client h m)) h' = hm_get m h'" "hm_get (set_peer_commit h cm m) h' = hm_get m h'"
  using assms
  by (auto simp: set_fix_ips_def set_dns_ips_def set_hostname_def set_port_def set_enter_hook_def set_resolving_def
      set_speed_def set_modifiers_def learn_address_def get_state_def deactivate_client_def activate_client_def
      set_peer_commit_def update_ips_get split: option.split)

lemma deactivate_mirrors: "mirrors X X s (sv_deactivate_client h s)"
proof (cases "active_at (sv_mgr s) h = None")
  case False
  let ?m = "snd (deactivate_client h (sv_mgr s))"
  let ?s = "capture_req (DestroyCapture h) (s\<lparr>sv_mgr := ?m\<rparr>)"
  have "mirrors X (insert h X) s (s\<lparr>sv_mgr := ?m\<rparr>)"
    by (rule mirrors_mgr) (auto simp: sv_shown_def one_client_get)
  also have "mirrors (insert h X) (insert h X) (s\<lparr>sv_mgr := ?m\<rparr>) ?s" by (rule mirrors_public) simp
  also have "mirrors (insert h X) (insert h X - {h}) ?s (broadcast_client h ?s)" by (rule broadcast_mirrors)
  finally show ?thesis using False by (auto simp: deactivate_step intro: mirrors_weaken)
qed (simp add: deactivate_step)

lemma activate_mirrors: "mirrors X X s (sv_activate_client h s)"
proof -
  have res: "mirrors X X s (resolve h s)" by (rule mirrors_public) simp
  show ?thesis
  proof (cases "hm_get (sv_mgr s) h")
    case None
    then show ?thesis using res by (simp add: activate_step)
  next
    case (Some e)
    obtain c st where e: "e = (c, st)" by fastforce
    let ?s1 = "clear_position h (cc_pos c) (resolve h s)"
    have clear: "mirrors X X s ?s1"
      using mirrors_trans [OF res deactivate_mirrors] res by (simp add: clear_position_def split: option.split)
    let ?s2 = "?s1\<lparr>sv_mgr := snd (activate_client h (sv_mgr ?s1))\<rparr>"
    let ?s3 = "capture_create h (cc_pos c) CT_Default (push_tuning h ?s2)"
    note clear
    also have "mirrors X (insert h X) ?s1 ?s2" by (rule mirrors_mgr) (auto simp: sv_shown_def one_client_get)
    also have "mirrors (insert h X) (insert h X) ?s2 ?s3" by (rule mirrors_public) simp
    also have "mirrors (insert h X) (insert h X - {h}) ?s3 (broadcast_client h ?s3)" by (rule broadcast_mirrors)
    finally have "mirrors X X s (broadcast_client h ?s3)" by (rule mirrors_weaken) blast
    then show ?thesis using clear by (simp add: activate_step Some e Let_def)
  qed
qed

lemma update_pos_mirrors: "mirrors {} {} s (update_pos h pos s)"
proof -
  obtain b m where sp: "set_pos h pos (sv_mgr s) = (b, m)" by fastforce
  let ?s1 = "s\<lparr>sv_mgr := m\<rparr>"
  let ?s2 = "if b then sv_activate_client h (sv_deactivate_client h ?s1) else ?s1"
  have "mirrors {} {h} s ?s1"
    using set_pos_get [of h pos "sv_mgr s"] by (intro mirrors_mgr) (simp_all add: sp sv_shown_def)
  also have "mirrors {h} {h} ?s1 ?s2"
    using mirrors_trans [OF deactivate_mirrors activate_mirrors] by simp
  also have "mirrors {h} ({h} - {h}) ?s2 (broadcast_client h ?s2)" by (rule broadcast_mirrors)
  finally show ?thesis by (simp add: update_pos_def sp Let_def)
qed

lemma remove_mirrors: "mirrors {} {} s (sv_remove_client h s)"
proof -
  let ?s1 = "s\<lparr>sv_mgr := snd (remove_client h (sv_mgr s))\<rparr>"
  let ?s2 = "if active_at (sv_mgr s) h \<noteq> None then capture_req (DestroyCapture h) ?s1 else ?s1"
  have "mirrors {} {h} s ?s1"
    by (rule mirrors_mgr) (simp_all add: remove_client_def sv_shown_remove)
  also have "mirrors {h} {h} ?s1 ?s2" by (rule mirrors_public) simp
  also have "mirrors {h} ({h} - {h}) ?s2 (notify_frontend (Deleted h) ?s2)"
    by (rule deleted_mirrors) (simp add: remove_client_def)
  finally show ?thesis by (simp add: remove_step)
qed

lemma insert_mirrors:
  assumes ins: "sv_insert ho f s = Some (h, s')" and f: "f = add_client \<or> f = (\<lambda>k. add_with_config k cc)"
    and st: "get_state h (sv_mgr s') = Some (c, st)"
  shows "mirrors {} {} s (notify_frontend (Created h c st) s')"
proof -
  from ins obtain k where k: "h = fst (f k (sv_mgr s))" "s' = s\<lparr>sv_mgr := snd (f k (sv_mgr s))\<rparr>"
    unfolding sv_insert_Some by blast
  have "h = k" using f k(1) by (auto simp: add_client_def)
  have "mirrors {} {h} s s'"
    unfolding k(2) \<open>h = k\<close> using f
    by (intro mirrors_mgr) (auto simp: sv_shown_def add_client_get add_with_config_get)
  also have "mirrors {h} ({h} - {h}) s' (notify_frontend (Created h c st) s')"
    using st by (intro created_mirrors) (simp add: get_state_def)
  finally show ?thesis by simp
qed

section \<open>The steps\<close>

lemma authorized_mirrors: "mirrors {} {} s (notify_frontend (AuthorizedUpdated ks) (s\<lparr>sv_authorized := ks\<rparr>))"
  unfolding mirrors_def
  by (intro exI [of _ "[AuthorizedUpdated ks]"])
    (simp add: told_def notify_frontend_def agrees_def fv_rest_def sv_rest_def vylo_of_def)

lemma keys_mirrors: "mirrors {} {} s (add_authorized_key d fp s)" "mirrors {} {} s (remove_authorized_key fp s)"
  by (simp_all add: add_authorized_key_def remove_authorized_key_def authorized_mirrors)

lemma setting_mirrors: "mirrors {} {} s (set_setting ho f r s)"
proof -
  let ?s = "save_config ho (sync_req r (s\<lparr>sv_config := f (sv_config s)\<rparr>))"
  have "public ?s = public (s\<lparr>sv_config := f (sv_config s)\<rparr>)" by simp
  then have eq: "told ?s = told s" "sv_mgr ?s = sv_mgr s" "sv_authorized ?s = sv_authorized s" "sv_port ?s = sv_port s"
    "sv_capture_status ?s = sv_capture_status s" "sv_emulation_status ?s = sv_emulation_status s"
    "sv_sync_connected ?s = sv_sync_connected s" "sv_sync_peer ?s = sv_sync_peer s"
    by (simp_all add: public_def told_def sv_rest_def)
  have "agrees {} (fv_apply (vylo_state ?s) v) (notify_frontend (vylo_state ?s) ?s)" if "agrees {} v s" for v
    using that eq by (simp add: agrees_def fv_rest_def sv_rest_def vylo_state_def vylo_of_def notify_frontend_def)
  then show ?thesis
    unfolding mirrors_def set_setting_def broadcast_vylo_state_def
    using eq(1) by (intro exI [of _ "[vylo_state ?s]"]) (simp add: told_def notify_frontend_def)
qed

lemma sync_frontend_tells:
  "\<exists>es. told (sync_frontend s) = told s @ es \<and> (\<forall>v. agrees {} (fold fv_apply es v) (sync_frontend s))"
  by (intro exI [of _ "[EnumerateE (sv_mgr s), EmulationStatus (sv_emulation_status s), CaptureStatus (sv_capture_status s),
        PortChanged (sv_port s) None, PublicKeyFingerprint (sv_fingerprint s), AuthorizedUpdated (sv_authorized s),
        vylo_state s, SyncStatus (sv_sync_connected s) (sv_sync_peer s)]"])
    (simp add: sync_frontend_def Let_def enumerate_def get_client_states_def broadcast_vylo_state_def notify_frontend_def
      told_def agrees_def fv_rest_def sv_rest_def vylo_state_def vylo_of_def)

lemma sync_frontend_mirrors: "mirrors {} {} s (sync_frontend s)"
  using sync_frontend_tells [of s] unfolding mirrors_def by blast

definition extends :: "service \<Rightarrow> service \<Rightarrow> bool" where
  "extends s s' \<longleftrightarrow> (\<exists>es. told s' = told s @ es)"

lemma extends_trans [trans]: "extends s s' \<Longrightarrow> extends s' s'' \<Longrightarrow> extends s s''"
  unfolding extends_def by (metis append.assoc)

lemma extends_refl: "told s' = told s \<Longrightarrow> extends s s'"
  by (simp add: extends_def)

lemma mirrors_extends: "mirrors X Y s s' \<Longrightarrow> extends s s'"
  unfolding mirrors_def extends_def by blast

lemma extends_notify: "extends s (notify_frontend e s)"
  by (simp add: extends_def told_def notify_frontend_def)

lemma add_configured_extends: "add_configured ho ccs s = Some s' \<Longrightarrow> extends s s'"
proof (induction ccs arbitrary: s)
  case Nil
  then show ?case by (simp add: extends_refl)
next
  case (Cons cc ccs)
  from Cons.prems obtain h s1 c st where s1: "sv_insert ho (\<lambda>k. add_with_config k cc) s = Some (h, s1)"
    "add_configured ho ccs (notify_frontend (Created h c st)
       (if cs_active st then sv_activate_client h (s1\<lparr>sv_mgr := snd (deactivate_client h (sv_mgr s1))\<rparr>) else s1)) = Some s'"
    by (auto simp: Let_def split: option.splits)
  let ?s2 = "if cs_active st then sv_activate_client h (s1\<lparr>sv_mgr := snd (deactivate_client h (sv_mgr s1))\<rparr>) else s1"
  have "extends s s1" using s1(1) by (auto simp: sv_insert_Some told_def intro: extends_refl)
  also have "extends s1 ?s2"
  proof -
    have "extends s1 (s1\<lparr>sv_mgr := snd (deactivate_client h (sv_mgr s1))\<rparr>)" by (rule extends_refl) (simp add: told_def)
    also have "extends (s1\<lparr>sv_mgr := snd (deactivate_client h (sv_mgr s1))\<rparr>)
        (sv_activate_client h (s1\<lparr>sv_mgr := snd (deactivate_client h (sv_mgr s1))\<rparr>))"
      by (rule mirrors_extends [OF activate_mirrors])
    finally show ?thesis by (simp add: extends_refl)
  qed
  also have "extends ?s2 (notify_frontend (Created h c st) ?s2)" by (rule extends_notify)
  also have "extends (notify_frontend (Created h c st) ?s2) s'" by (rule Cons.IH [OF s1(2)])
  finally show ?case .
qed

text \<open>whatever the frontend believed, it knows everything after the file has changed\<close>

lemma config_change_tells:
  assumes "handle_config_change ho s = Some s'"
  shows "\<exists>es. told s' = told s @ es \<and> (\<forall>v. agrees {} (fold fv_apply es v) s')"
proof -
  let ?s0 = "fold sv_remove_client (registered_clients (sv_mgr s)) s"
  from assms obtain s1 where s1: "add_configured ho (config_clients (sv_config s)) ?s0 = Some s1"
    by (auto simp: handle_config_change_def)
  let ?s2 = "reload_settings s1"
  have s2: "told ?s2 = told s1" "s' = sync_frontend ?s2"
    using assms s1 by (simp_all add: handle_config_change_def reload_settings_def Let_def capture_req_def sync_req_def told_def)
  have "extends s ?s0"
    by (rule fold_inv [where P = "extends s"])
      (auto intro: extends_refl extends_trans mirrors_extends [OF remove_mirrors])
  also have "extends ?s0 s1" by (rule add_configured_extends [OF s1])
  also have "extends s1 ?s2" by (rule extends_refl [OF s2(1)])
  finally obtain es where "told ?s2 = told s @ es" unfolding extends_def by blast
  then show ?thesis
    using sync_frontend_tells [of ?s2] unfolding s2(2) by (metis append.assoc fold_append comp_apply)
qed

lemma watch_quiet:
  assumes "read_from_disk env fs cfg = (Ok False, cfg')"
  shows "config_clipboard_sync cfg' = config_clipboard_sync cfg" "config_keyboard_layout_sync cfg' = config_keyboard_layout_sync cfg"
    "config_file_dir d cfg' = config_file_dir d cfg" "config_device_name n cfg' = config_device_name n cfg"
    "config_sync_port cfg' = config_sync_port cfg"
proof -
  have "cfg' = cfg \<or> (\<exists>c t. cfg_toml cfg = Some c \<and> cfg_toml cfg' = Some t \<and> config_toml_eq c t)"
    using assms by (auto simp: read_from_disk_def split: option.splits if_splits)
  moreover have "ct_clipboard_sync c = ct_clipboard_sync t \<and> ct_keyboard_layout_sync c = ct_keyboard_layout_sync t \<and>
      ct_file_dir c = ct_file_dir t \<and> ct_device_name c = ct_device_name t \<and> ct_sync_port c = ct_sync_port t"
    if "config_toml_eq c t" for c t
    using that unfolding config_toml_eq_def by (cases c; cases t) simp
  ultimately show "config_clipboard_sync cfg' = config_clipboard_sync cfg"
    "config_keyboard_layout_sync cfg' = config_keyboard_layout_sync cfg"
    "config_file_dir d cfg' = config_file_dir d cfg" "config_device_name n cfg' = config_device_name n cfg"
    "config_sync_port cfg' = config_sync_port cfg"
    by (auto simp: config_clipboard_sync_def config_keyboard_layout_sync_def config_file_dir_def config_device_name_def
        config_sync_port_def toml_field_def)
qed

lemma mirrors_step: "mirrors {} {} s s1 \<Longrightarrow> public s' = public s1 \<Longrightarrow> mirrors {} {} s s'"
  by (erule mirrors_trans) (rule mirrors_public)

lemma one_client_mirrors:
  "mirrors {} {} s (update_fix_ips h ips s)" "mirrors {} {} s (update_hostname h name s)"
  "mirrors {} {} s (update_port h port s)" "mirrors {} {} s (update_enter_hook h hook s)"
  "mirrors {} {} s (update_speed h v s)" "mirrors {} {} s (update_modifiers h mm s)"
proof -
  show "mirrors {} {} s (update_fix_ips h ips s)"
    unfolding update_fix_ips_def by (rule mirrors_one(1) [OF _ refl]) (simp add: one_client_get)
  show "mirrors {} {} s (update_port h port s)"
    unfolding update_port_def by (rule mirrors_one(1) [OF _ refl]) (simp add: one_client_get)
  show "mirrors {} {} s (update_enter_hook h hook s)"
    unfolding update_enter_hook_def by (rule mirrors_one(1) [OF _ refl]) (simp add: one_client_get)
  show "mirrors {} {} s (update_speed h v s)"
    unfolding update_speed_def
    by (rule mirrors_one(1) [of h "set_speed h (clamp_speed v) (sv_mgr s)"]) (simp_all add: one_client_get)
  show "mirrors {} {} s (update_modifiers h mm s)"
    unfolding update_modifiers_def
    by (rule mirrors_one(1) [of h "set_modifiers h mm (sv_mgr s)"]) (simp_all add: one_client_get)
  obtain b m where sh: "set_hostname h name (sv_mgr s) = (b, m)" by fastforce
  show "mirrors {} {} s (update_hostname h name s)"
    unfolding update_hostname_def sh prod.case Let_def
    by (rule mirrors_one(1) [of h m]) (use one_client_get(3) [of _ h name "sv_mgr s"] sh in simp_all)
qed

lemma request_mirrors:
  assumes "handle_frontend_request ho r s = Some s'"
  shows "mirrors {} {} s s'"
proof (cases r)
  case None
  then show ?thesis using assms by (simp add: handle_frontend_request_def)
next
  case (Some q)
  show ?thesis
  proof (cases q)
    case Create
    from assms obtain s1 where s1: "sv_add_client ho s = Some s1" "s' = save_config ho s1"
      by (auto simp: Some Create handle_frontend_request_def)
    then obtain h s2 c st where "sv_insert ho add_client s = Some (h, s2)" "get_state h (sv_mgr s2) = Some (c, st)"
      "s1 = notify_frontend (Created h c st) s2"
      by (auto simp: sv_add_client_def bind_eq_Some_conv notify_created_def split: option.splits)
    with insert_mirrors [of ho add_client s h s2] have "mirrors {} {} s s1" by simp
    then show ?thesis by (rule mirrors_step) (simp add: s1(2))
  next
    case (ChangePort port)
    have "mirrors {} {} s (notify_frontend (PortChanged (sv_port s) None) s)"
      by (rule mirrors_notify) (simp add: agrees_def fv_rest_def sv_rest_def)
    then show ?thesis
      using assms by (auto simp: Some ChangePort handle_frontend_request_def change_port_def intro: mirrors_public split: if_splits)
  next
    case Enumerate
    then show ?thesis using assms enumerate_mirrors by (auto simp: Some handle_frontend_request_def)
  next
    case (Activate h b)
    then show ?thesis
      using assms mirrors_step [OF activate_mirrors] mirrors_step [OF deactivate_mirrors]
      by (auto simp: Some handle_frontend_request_def set_client_active_def)
  next
    case (Delete h)
    then show ?thesis using assms mirrors_step [OF remove_mirrors] by (auto simp: Some handle_frontend_request_def)
  next
    case (UpdatePosition h pos)
    then show ?thesis using assms mirrors_step [OF update_pos_mirrors] by (auto simp: Some handle_frontend_request_def)
  next
    case (AuthorizeKey d fp)
    then show ?thesis using assms mirrors_step [OF keys_mirrors(1)] by (auto simp: Some handle_frontend_request_def)
  next
    case (RemoveAuthorizedKey fp)
    then show ?thesis using assms mirrors_step [OF keys_mirrors(2)] by (auto simp: Some handle_frontend_request_def)
  next
    case Sync
    then show ?thesis using assms sync_frontend_mirrors by (auto simp: Some handle_frontend_request_def)
  next
    case (UpdateFixIps h ips)
    then show ?thesis using assms mirrors_step [OF one_client_mirrors(1)] by (auto simp: Some handle_frontend_request_def)
  next
    case (UpdateHostname h name)
    then show ?thesis using assms mirrors_step [OF one_client_mirrors(2)] by (auto simp: Some handle_frontend_request_def)
  next
    case (UpdatePort h port)
    then show ?thesis using assms mirrors_step [OF one_client_mirrors(3)] by (auto simp: Some handle_frontend_request_def)
  next
    case (UpdateEnterHook h hook)
    then show ?thesis using assms one_client_mirrors(4) by (auto simp: Some handle_frontend_request_def)
  next
    case (UpdateSpeed h v)
    then show ?thesis using assms mirrors_step [OF one_client_mirrors(5)] by (auto simp: Some handle_frontend_request_def)
  next
    case (UpdateModifierMap h mm)
    then show ?thesis using assms mirrors_step [OF one_client_mirrors(6)] by (auto simp: Some handle_frontend_request_def)
  qed (use assms in \<open>auto simp: Some handle_frontend_request_def intro: mirrors_public setting_mirrors\<close>)
qed

lemma ensure_paired_mirrors:
  assumes "ensure_paired_client ho name addr initiated s = Some s'"
  shows "mirrors {} {} s s'"
proof (cases "peer_client name addr (sv_mgr s)")
  case (Some h)
  let ?s1 = "s\<lparr>sv_mgr := learn_address h addr (sv_mgr s)\<rparr>"
  have "mirrors {} {h} s ?s1" by (rule mirrors_mgr) (simp_all add: sv_shown_def one_client_get)
  also have "mirrors {h} {h} ?s1 (sv_activate_client h ?s1)" by (rule activate_mirrors)
  also have "mirrors {h} ({h} - {h}) (sv_activate_client h ?s1) (broadcast_client h (sv_activate_client h ?s1))"
    by (rule broadcast_mirrors)
  finally show ?thesis using assms Some by (auto simp: ensure_paired_client_def)
next
  case None
  let ?f = "\<lambda>k. add_with_config k (paired_config name addr initiated)"
  from assms None obtain h s1 where ins: "sv_insert ho ?f s = Some (h, s1)"
    by (auto simp: ensure_paired_client_def split: option.splits)
  then have "get_state h (sv_mgr s1) \<noteq> None" by (auto simp: sv_insert_Some get_state_def add_with_config_get)
  then obtain c st where st: "get_state h (sv_mgr s1) = Some (c, st)" by auto
  have "mirrors {} {} s (notify_frontend (Created h c st) s1)" by (rule insert_mirrors [OF ins _ st]) (rule disjI2, rule refl)
  also have "mirrors {} {} (notify_frontend (Created h c st) s1) (sv_activate_client h (notify_frontend (Created h c st) s1))"
    by (rule activate_mirrors)
  finally show ?thesis using assms None ins st by (auto simp: ensure_paired_client_def Let_def)
qed

lemma rest_mirrors:
  assumes "sv_mgr s1 = sv_mgr s" "told s1 = told s" "\<And>v. fv_rest v = sv_rest s \<Longrightarrow> fv_rest (fv_apply e v) = sv_rest s1"
    "\<And>v. fv_clients (fv_apply e v) = fv_clients v"
  shows "mirrors {} {} s (notify_frontend e s1)"
  unfolding mirrors_def using assms
  by (intro exI [of _ "[e]"]) (auto simp: told_def notify_frontend_def agrees_def sv_rest_def vylo_of_def)

lemma sync_mirrors:
  assumes "handle_sync_event ho e s = Some s'"
  shows "mirrors {} {} s s'"
proof (cases e)
  case (SY_Status up name)
  then show ?thesis
    using assms by (auto simp: handle_sync_event_def fv_rest_def sv_rest_def vylo_of_def told_def intro!: rest_mirrors)
next
  case (SY_PairingComplete fp name addr initiated)
  from assms obtain s1 where s1: "ensure_paired_client ho name addr initiated (add_authorized_key name fp s) = Some s1"
    "s' = notify_frontend (PairingComplete fp name) (save_config ho s1)"
    by (auto simp: SY_PairingComplete handle_sync_event_def)
  have "mirrors {} {} s (add_authorized_key name fp s)" by (rule keys_mirrors)
  also have "mirrors {} {} (add_authorized_key name fp s) s1" by (rule ensure_paired_mirrors [OF s1(1)])
  also have "mirrors {} {} s1 (save_config ho s1)" by (rule mirrors_public) simp
  also have "mirrors {} {} (save_config ho s1) s'" unfolding s1(2) by (rule tacit_mirrors) simp
  finally show ?thesis .
qed (use assms in \<open>auto simp: handle_sync_event_def intro!: tacit_mirrors\<close>)

lemma emulation_mirrors:
  assumes "handle_emulation_event ho e s = Some s'"
  shows "mirrors {} {} s s'"
proof -
  have req: "mirrors {} {} s (sync_req r s)" for r by (rule mirrors_public) simp
  have add: "mirrors {} {} s (notify_frontend n (add_incoming a p f s))" if "tacit n" for n a p f s
    using mirrors_trans [OF mirrors_public tacit_mirrors [OF that]] by (simp add: add_incoming_def Let_def)
  have rem: "mirrors {} {} s (snd (remove_incoming a s))" for a s
    by (rule mirrors_public) (simp add: remove_incoming_def Let_def split: option.split)
  show ?thesis
  proof (cases e)
    case (EV_Entered addr pos fp)
    let ?s = "sync_req (SR_AddrHint (sa_ip addr)) s"
    have upd: "mirrors {} {} ?s s'" if "update_incoming addr pos fp ?s = Some s'"
    proof -
      from that obtain h where h: "incoming_at addr (sv_incoming_info ?s) = Some h"
        by (auto simp: update_incoming_def split: option.splits)
      let ?s1 = "?s\<lparr>sv_incoming_info := hm_modify h (\<lambda>i. i\<lparr>inc_fingerprint := fp, inc_pos := pos\<rparr>) (sv_incoming_info ?s)\<rparr>"
      let ?s2 = "add_incoming addr pos fp (snd (remove_incoming addr ?s1))"
      have "mirrors {} {} ?s ?s1" by (rule mirrors_public) simp
      moreover have "mirrors {} {} ?s1 ?s2"
        by (rule mirrors_trans [OF rem mirrors_public]) (simp add: add_incoming_def Let_def)
      moreover have "mirrors {} {} ?s2 (notify_frontend (DeviceEntered fp addr pos) (notify_frontend (IncomingDisconnected addr) ?s2))"
        by (rule mirrors_trans [OF tacit_mirrors tacit_mirrors]) simp_all
      ultimately show ?thesis
        using that h by (auto simp: update_incoming_def Let_def split: if_splits intro: mirrors_trans)
    qed
    show ?thesis
      using assms mirrors_trans [OF req upd] mirrors_trans [OF req add]
      by (auto simp: EV_Entered handle_emulation_event_def Let_def split: if_splits)
  next
    case (EV_Disconnected addr)
    obtain r s1 where r: "remove_incoming addr s = (r, s1)" by fastforce
    with rem [of s addr] have "mirrors {} {} s s1" by simp
    then show ?thesis
      using assms mirrors_trans [OF _ tacit_mirrors, of "{}" "{}" s s1 "IncomingDisconnected a" for a]
      by (cases r) (auto simp: EV_Disconnected handle_emulation_event_def r)
  next
    case (EV_PortChanged p)
    then show ?thesis
      using assms by (cases p)
        (auto simp: handle_emulation_event_def fv_rest_def sv_rest_def vylo_of_def told_def intro!: rest_mirrors)
  next
    case (EV_PeerHello addr commit)
    have "mirrors {} {} s (broadcast_client h (s\<lparr>sv_mgr := set_peer_commit h (Some commit) (sv_mgr s)\<rparr>))" for h
      by (rule mirrors_one(1) [OF _ refl]) (simp add: one_client_get)
    then show ?thesis using assms by (auto simp: EV_PeerHello handle_emulation_event_def split: option.splits)
  next
    case EV_ReleaseNotify
    then show ?thesis using assms by (auto simp: handle_emulation_event_def intro: mirrors_public)
  next
    case (EV_Connected addr fp)
    have "mirrors {} {} s (notify_frontend (DeviceConnected addr fp) (sync_req (SR_AddrHint (sa_ip addr)) s))"
      by (rule mirrors_trans [OF req tacit_mirrors]) simp
    then show ?thesis using assms by (simp add: EV_Connected handle_emulation_event_def)
  qed (use assms in \<open>auto simp: handle_emulation_event_def fv_rest_def sv_rest_def vylo_of_def told_def
      intro!: tacit_mirrors rest_mirrors\<close>)
qed

lemma capture_event_mirrors: "mirrors {} {} s (sv_capture_event ho e s)"
proof (cases e)
  case (CaptureBegin h)
  then show ?thesis by (auto simp: sv_capture_event_def intro: mirrors_public split: option.split)
next
  case (ClientEntered h)
  then show ?thesis by (auto simp: sv_capture_event_def Let_def intro!: mirrors_public)
qed (auto simp: sv_capture_event_def fv_rest_def sv_rest_def vylo_of_def told_def intro: mirrors_public intro!: rest_mirrors)

lemma resolver_mirrors: "mirrors {} {} s (handle_resolver_event e s)"
proof (cases e)
  case (DE_Resolving h)
  have "mirrors {} {} s (broadcast_client h (s\<lparr>sv_mgr := set_resolving h True (sv_mgr s)\<rparr>))"
    by (rule mirrors_one(1) [OF _ refl]) (simp add: one_client_get)
  then show ?thesis by (simp add: DE_Resolving handle_resolver_event_def)
next
  case (DE_Resolved h hostname ips)
  let ?s1 = "s\<lparr>sv_mgr := set_resolving h False (sv_mgr s)\<rparr>"
  let ?s2 = "fold (\<lambda>ip. sync_req (SR_AddrHint ip)) (unwrap_or ips []) ?s1"
  have "public (fold (\<lambda>ip. sync_req (SR_AddrHint ip)) xs s) = public s" for xs s
    by (induction xs arbitrary: s) simp_all
  then have p: "public ?s2 = public ?s1" .
  then have m: "sv_mgr ?s2 = set_resolving h False (sv_mgr s)" by (simp add: public_def)
  have "mirrors {} {h} s ?s1" by (rule mirrors_mgr) (simp_all add: sv_shown_def one_client_get)
  also have "mirrors {h} {h} ?s1 ?s2" by (rule mirrors_public [OF p])
  also have "mirrors {h} {} ?s2 (broadcast_client h (?s2\<lparr>sv_mgr := set_dns_ips h (unwrap_or ips []) (sv_mgr ?s2)\<rparr>))"
    by (rule mirrors_one(2) [OF _ refl]) (simp add: one_client_get)
  finally show ?thesis by (simp add: DE_Resolved handle_resolver_event_def Let_def)
qed

lemma conn_shown: "sv_shown (apply_conn_update u m) h = sv_shown m h"
  by (cases u; cases "hm_get m h")
    (auto simp: sv_shown_def shown_def set_active_addr_def set_alive_def set_peer_commit_def)

lemma watch_mirrors:
  assumes "handle_watch ho fs s = Some s'"
  shows "mirrors {} {} s s'"
proof -
  obtain r cfg where r: "read_from_disk (ho_env ho) fs (sv_config s) = (r, cfg)" by fastforce
  let ?s = "s\<lparr>sv_files := fs, sv_config := cfg\<rparr>"
  show ?thesis
  proof (cases "r = Ok False")
    case True
    have "public ?s = public s"
      using watch_quiet [of "ho_env ho" fs "sv_config s" cfg] r True
      by (simp add: public_def told_def sv_rest_def vylo_of_def)
    then show ?thesis using assms True by (auto simp: handle_watch_def r Let_def intro: mirrors_public)
  next
    case False
    then have "handle_config_change ho ?s = Some s'" using assms by (simp add: handle_watch_def r)
    from config_change_tells [OF this] show ?thesis
      unfolding mirrors_def by (simp add: told_def) blast
  qed
qed

lemma step_mirrors: "service_step i s = Some s' \<Longrightarrow> mirrors {} {} s s'"
proof (cases i)
  case (Pair ho x)
  assume step: "service_step i s = Some s'"
  have quiet: "mirrors {} {} s (s\<lparr>sv_mgr := apply_conn_update u (sv_mgr s)\<rparr>)" for u
    by (rule mirrors_mgr) (simp_all add: conn_shown)
  show ?thesis
    using step Pair
    by (cases x)
      (auto intro: request_mirrors sync_mirrors emulation_mirrors capture_event_mirrors resolver_mirrors watch_mirrors
        quiet mirrors_public)
qed

interpretation told: partial_machine service_step service_run "\<lambda>_. True" "\<lambda>n s'. mirrors {} {} base s'" "Suc lim" for base lim
  by unfold_locales (auto intro: mirrors_trans step_mirrors)

section \<open>Properties\<close>

text \<open>
  \<^bold>\<open>C8.\<close> A frontend's picture is the service's state. Let a frontend's picture agree with the service
  and let the service run through any requests, events, resolutions, pairings, edits of the file and
  updates of the connection tasks: after the events the service sent in the meantime the picture
  agrees again, for every client's configuration and state (its current address, liveness and
  version apart), the authorized keys, the port, both statuses, the side channel and the settings.
\<close>

theorem frontend_mirrors_service:
  assumes "service_run ops s = Some s'" and "agrees {} v s"
  shows "\<exists>es. sv_sent s' @ sv_pending s' = (sv_sent s @ sv_pending s) @ es \<and> agrees {} (fold fv_apply es v) s'"
proof -
  have "mirrors {} {} s s'"
    by (rule told.run_inv [where base = s and lim = "length ops" and n = 0, OF mirrors_refl _ _ assms(1)])
      (simp_all add: list_all_iff)
  then show ?thesis using assms(2) unfolding mirrors_def told_def by blast
qed

definition picture :: "service \<Rightarrow> frontend_view" where
  "picture s =
     \<lparr>fv_clients = sv_mgr s, fv_keys = sv_authorized s, fv_port = sv_port s, fv_capture = sv_capture_status s,
      fv_emulation = sv_emulation_status s, fv_sync = (sv_sync_connected s, sv_sync_peer s), fv_vylo = vylo_of s\<rparr>"

lemma picture_agrees: "agrees {} (picture s) s"
  by (simp add: agrees_def picture_def fv_rest_def sv_rest_def)

lemma frontend_mirrors_service_witness:
  "\<exists>s0 s es. example_service = Some s0 \<and>
     service_run [(example_host, SI_Request (Some (Delete 0)))] (service_start s0) = Some s \<and>
     agrees {} (fold fv_apply es (picture (service_start s0))) s \<and> sv_shown (fv_clients (picture (service_start s0))) 0 \<noteq> None \<and>
     sv_shown (fv_clients (fold fv_apply es (picture (service_start s0)))) 0 = None"
proof -
  from example_new obtain s0 where s0: "example_service = Some s0" "sv_mgr s0 = [(0, entry_of example_client)]"
    "sv_capture s0 = []" "sv_incoming_info s0 = []" "sv_incoming_conns s0 = {}" "trigger s0 = 0" by blast
  let ?s = "save_config example_host (sv_remove_client 0 (service_start s0))"
  have run: "service_run [(example_host, SI_Request (Some (Delete 0)))] (service_start s0) = Some ?s"
    by (simp add: handle_frontend_request_def)
  from frontend_mirrors_service [OF run picture_agrees] obtain es where
    es: "agrees {} (fold fv_apply es (picture (service_start s0))) ?s" by blast
  have "sv_mgr ?s = hm_remove 0 (sv_mgr (service_start s0))"
    by (simp add: save_config_def remove_step remove_client_def Let_def)
  then have "sv_shown (fv_clients (fold fv_apply es (picture (service_start s0)))) 0 = None"
    using es by (simp add: agrees_def sv_shown_remove)
  moreover have "sv_shown (fv_clients (picture (service_start s0))) 0 \<noteq> None"
    using example_start [OF s0(2-6)] by (auto simp: picture_def sv_shown_def)
  ultimately show ?thesis using s0(1) run es by blast
qed

section \<open>Restarting\<close>

definition same_client :: "client_config \<times> client_state \<Rightarrow> client_config \<times> client_state \<Rightarrow> bool" where
  "same_client e e' \<longleftrightarrow>
     (case (e, e') of ((c, st), (c', st')) \<Rightarrow>
        cc_hostname c' = cc_hostname c \<and> set (cc_fix_ips c') = set (cc_fix_ips c) \<and> cc_port c' = cc_port c \<and>
        cc_pos c' = cc_pos c \<and> cc_cmd c' = cc_cmd c \<and> cc_speed c' = cc_speed c \<and>
        cc_modifiers c' = cc_modifiers c \<and> cs_active st' = cs_active st)"

lemma same_client_entry: "same_client e (entry_of (client_of_entry e))"
  by (auto simp: same_client_def entry_of_def client_of_entry_def client_state_default_def split: prod.split)

lemma entries_normal:
  assumes mi: "mgr_inv m"
  shows "\<forall>cc \<in> set (map client_of_entry (clients m)). client_normal cc"
proof -
  have "client_normal (client_of_entry e)" if e: "e \<in> set (clients m)" for e
  proof -
    obtain h where "hm_get m h = Some e"
      using e hm_values_get [OF mgr_invD(2) [OF mi]] by (auto simp: clients_def)
    then show ?thesis
      using speeds_okD [OF mgr_invD(3) [OF mi], of h "fst e" "snd e"]
      by (cases e) (simp add: client_normal_def client_of_entry_def)
  qed
  then show ?thesis by auto
qed

lemma add_with_config_fresh:
  "hm_get m k = None \<Longrightarrow> snd (add_with_config k cc m) = m @ [(k, entry_of cc)]"
proof -
  assume fresh: "hm_get m k = None"
  then have upd: "hm_insert k v m = m @ [(k, v)]" for v :: "client_config \<times> client_state"
    unfolding hm_insert_def hm_get_def by (induction m) (auto split: if_splits)
  have "hm_modify k f m = m" for f :: "client_config \<times> client_state \<Rightarrow> _"
    using fresh unfolding hm_modify_def hm_get_def by (induction m) (auto split: if_splits)
  then have "hm_modify k f (m @ [(k, v)]) = m @ [(k, f v)]" for f and v :: "client_config \<times> client_state"
    unfolding hm_modify_def by simp
  then show ?thesis
    by (simp add: add_with_config_def add_client_def set_state_def set_config_def entry_of_def Let_def upd)
qed

lemma add_all_entries:
  "add_all ho ccs m = Some m' \<Longrightarrow> slab_ok ho \<Longrightarrow> hm_values m' = hm_values m @ map entry_of ccs"
proof (induction ccs arbitrary: m)
  case (Cons cc ccs)
  from Cons.prems(1) obtain k where k: "ho_slab ho m = Some k" "add_all ho ccs (snd (add_with_config k cc m)) = Some m'"
    by (auto split: option.splits)
  have "hm_values (snd (add_with_config k cc m)) = hm_values m @ [entry_of cc]"
    using slab_okD [OF Cons.prems(2) k(1)] by (simp add: add_with_config_fresh hm_values_def)
  then show ?case using Cons.IH [OF k(2) Cons.prems(2)] by simp
qed (simp add: hm_values_def)

text \<open>
  \<^bold>\<open>C13.\<close> Nothing a frontend saved is lost in a restart. In any state the service can reach, when it saves
  and the file is written, a service started later from that file (with a TOML library that reads
  back what it wrote) has the same clients in the same order, each with the same name, addresses,
  port, position, hook, speed and modifiers and just as active, and the same authorized keys.
\<close>

theorem restart_restores:
  assumes new: "service_new ho0 fp0 dd hn cfg0 fs0 = Some s0" and slab: "slab_ok ho0" "list_all (\<lambda>i. slab_ok (fst i)) ops"
    and len: "length ops < 2 ^ 63" and run: "service_run ops (service_start s0) = Some s"
    and toml: "\<And>t. cfg_toml (sv_config (save_config ho s)) = Some t \<Longrightarrow>
       env_doc (ho_env ho) (env_ser (ho_env ho) t) \<and> env_de (ho_env ho) (env_ser (ho_env ho) t) = Some t"
    and written: "fst (write_back (ho_env ho) (ho_partial ho) (sv_files s) (sv_config (save_config ho s))) = Ok ()"
    and same: "cfg_config_path cfg1 = cfg_config_path (sv_config s)"
    and again: "service_new ho1 fp1 dd hn (snd (read_from_disk (ho_env ho) (sv_files (save_config ho s)) cfg1)) fs1 = Some s1"
      "slab_ok ho1"
  shows "list_all2 same_client (clients (sv_mgr s)) (clients (sv_mgr s1)) \<and> sv_authorized s1 = sv_authorized s"
proof -
  have "reach_inv (0 + length ops) s"
    by (rule sv.run_inv [OF start_inv [OF new slab(1)] slab(2) _ run]) (use len in simp)
  then have mi: "mgr_inv (sv_mgr s)" by (simp add: reach_inv_def service_inv_def)
  let ?ccs = "map client_of_entry (clients (sv_mgr s))"
  let ?cfg = "sv_config (save_config ho s)" and ?fs = "sv_files (save_config ho s)"
  have normal: "\<forall>cc \<in> set ?ccs. client_normal cc" by (rule entries_normal [OF mi])
  have cfg: "?cfg = set_authorized_keys (sv_authorized s) (set_clients ?ccs (sv_config s))"
    by (simp add: save_config_def Let_def)
  obtain t where t: "cfg_toml ?cfg = Some t" by (simp add: cfg set_authorized_keys_def with_toml_def)
  have path: "cfg_config_path ?cfg = cfg_config_path (sv_config s)"
    by (simp add: cfg set_authorized_keys_def set_clients_def with_toml_def)
  have fs: "?fs = snd (write_back (ho_env ho) (ho_partial ho) (sv_files s) ?cfg)"
    by (simp add: save_config_def Let_def)
  obtain fs' where wb: "write_back (ho_env ho) (ho_partial ho) (sv_files s) ?cfg = (Ok (), fs')"
    using written by (cases "write_back (ho_env ho) (ho_partial ho) (sv_files s) ?cfg") auto
  have "hm_get ?fs (cfg_config_path cfg1) = Some (env_ser (ho_env ho) t)"
    unfolding fs wb using wb by (auto simp: write_back_def Let_def t path same split: if_splits)
  then have read: "cfg_toml (snd (read_from_disk (ho_env ho) ?fs cfg1)) = Some t"
    using toml [OF t] by (simp add: read_from_disk_def)
  then have eq: "config_clients (snd (read_from_disk (ho_env ho) ?fs cfg1)) = config_clients ?cfg"
      "authorized_fingerprints (snd (read_from_disk (ho_env ho) ?fs cfg1)) = authorized_fingerprints ?cfg"
    using t by (simp_all add: config_clients_def authorized_fingerprints_def toml_field_def)
  have "config_clients ?cfg = config_clients (set_clients ?ccs (sv_config s))"
    by (simp add: cfg config_clients_def set_authorized_keys_def set_clients_def with_toml_def)
  also have "\<dots> = ?ccs" by (rule config_clients_set_clients [OF normal])
  finally have ccs: "config_clients (snd (read_from_disk (ho_env ho) ?fs cfg1)) = ?ccs" using eq(1) by simp
  have keys: "authorized_fingerprints ?cfg = sv_authorized s"
    by (simp add: cfg set_authorized_keys_def with_toml_def authorized_fingerprints_def toml_field_def)
  from again(1) obtain m where m: "add_all ho1 ?ccs [] = Some m" "sv_mgr s1 = m" "sv_authorized s1 = sv_authorized s"
    using ccs eq(2) keys by (auto simp: service_new_def)
  have "clients (sv_mgr s1) = map entry_of ?ccs"
    using add_all_entries [OF m(1) again(2)] by (simp add: clients_def m(2)) (simp add: hm_values_def)
  then show ?thesis using m(3) by (simp add: list_all2_map2 list_all2_same same_client_entry)
qed

lemma restart_restores_witness:
  "\<exists>s0 s1 ho. example_service = Some s0 \<and> cfg_config_path (sv_config (service_start s0)) = ''p'' \<and>
     service_new example_host ''fp'' ''d'' ''h''
       (snd (read_from_disk (ho_env ho) (sv_files (save_config ho (service_start s0))) (sv_config (service_start s0)))) [] = Some s1 \<and>
     list_all2 same_client (clients (sv_mgr (service_start s0))) (clients (sv_mgr s1)) \<and> clients (sv_mgr s1) \<noteq> []"
proof -
  from example_new obtain s0 where s0: "example_service = Some s0" "sv_mgr s0 = [(0, entry_of example_client)]"
    "sv_capture s0 = []" "sv_incoming_info s0 = []" "sv_incoming_conns s0 = {}" "trigger s0 = 0" by blast
  let ?s = "service_start s0"
  have one: "length (sv_mgr ?s) = 1" and cfg: "sv_config ?s = sv_config s0" using example_start [OF s0(2-6)] by simp_all
  have path: "cfg_config_path (sv_config ?s) = ''p''"
    using s0(1) unfolding cfg by (auto simp: example_service_def service_new_def set_clients_def with_toml_def example_config_def)
  obtain cc where cc: "map client_of_entry (clients (sv_mgr ?s)) = [cc]"
    using one by (cases "sv_mgr ?s") (auto simp: clients_def hm_values_def)
  define c2 where "c2 = set_authorized_keys (sv_authorized ?s) (set_clients [cc] (sv_config ?s))"
  obtain t where t: "cfg_toml c2 = Some t" by (simp add: c2_def set_authorized_keys_def with_toml_def)
  define ho where "ho = example_host\<lparr>ho_env := example_env t\<rparr>"
  have saved: "sv_config (save_config ho ?s) = c2" by (simp add: save_config_def cc c2_def Let_def)
  have toml: "env_doc (ho_env ho) (env_ser (ho_env ho) u) \<and> env_de (ho_env ho) (env_ser (ho_env ho) u) = Some u"
    if "cfg_toml (sv_config (save_config ho ?s)) = Some u" for u
    using that t unfolding saved by (simp add: ho_def example_env_def)
  have written: "fst (write_back (ho_env ho) (ho_partial ho) (sv_files ?s) (sv_config (save_config ho ?s))) = Ok ()"
    by (simp add: write_back_def ho_def example_env_def Let_def)
  have path2: "cfg_config_path c2 = ''p''" by (simp add: c2_def set_authorized_keys_def set_clients_def with_toml_def path)
  have disk: "hm_get (sv_files (save_config ho ?s)) ''p'' = Some ''doc''"
    by (simp add: save_config_def cc c2_def [symmetric] write_back_def ho_def example_env_def path2 Let_def)
  let ?cfg = "snd (read_from_disk (ho_env ho) (sv_files (save_config ho ?s)) (sv_config ?s))"
  have "cfg_toml ?cfg = Some t" by (simp add: read_from_disk_def path disk) (simp add: ho_def example_env_def)
  then have "length (config_clients ?cfg) = 1"
    using t by (auto simp: config_clients_def c2_def set_authorized_keys_def set_clients_def with_toml_def)
  then have "service_new example_host ''fp'' ''d'' ''h'' ?cfg [] \<noteq> None"
    by (cases "config_clients ?cfg") (auto simp: service_new_def example_host_def)
  then obtain s1 where again: "service_new example_host ''fp'' ''d'' ''h'' ?cfg [] = Some s1" by blast
  have same: "list_all2 same_client (clients (sv_mgr ?s)) (clients (sv_mgr s1))"
    by (rule restart_restores [OF s0(1) [unfolded example_service_def] example_slab _ _ _ toml written refl again example_slab,
          of "[]", THEN conjunct1]) simp_all
  moreover have "clients (sv_mgr s1) \<noteq> []"
    using list_all2_lengthD [OF same] one by (auto simp: clients_def hm_values_def)
  ultimately show ?thesis using s0(1) path again by blast
qed

end
