(* ===== verification/Sender.thy ===== *)
theory Sender
  imports Files "HOL-Library.Multiset" "HOL-Library.List_Lexorder" "HOL-Library.Char_ord"
begin

text \<open>
  The sending side of \<open>src/sync/files.rs\<close>. \<open>stream_file\<close> gives the trace of what the task for one
  file does, as \<open>action\<close>s, and its result; \<open>send_file\<close> carries the trace out, \<open>send_tree\<close>
  interleaves those of a folder's files. What a task meets is in \<open>stream_env\<close>: how opening the file
  goes, what the peer answers, and for each turn of the loop whether the transfer was cancelled
  before it, what is read, how enqueueing the chunk goes and what the clock says. When the turns run
  out the file is at its end.
\<close>

definition TREE_WINDOW :: nat where "TREE_WINDOW = 3"

section \<open>Transfers waiting on the peer\<close>

record outgoing_slot =
  os_reply :: "(unit, string) outcome option"
  os_cancelled :: bool
  os_reason :: "string option"

type_synonym outgoing_map = "(u64, outgoing_slot) hmap"

definition abort_reason :: "outgoing_slot \<Rightarrow> string" where
  "abort_reason s = (case os_reason s of Some r \<Rightarrow> r | None \<Rightarrow> ''cancelled by peer'')"

definition og_register :: "u64 \<Rightarrow> outgoing_map \<Rightarrow> outgoing_map" where
  "og_register i = hm_insert i \<lparr>os_reply = None, os_cancelled = False, os_reason = None\<rparr>"

definition og_finished :: "u64 \<Rightarrow> outgoing_map \<Rightarrow> outgoing_map" where
  "og_finished i = hm_remove i"

text \<open>the reply is given once: the channel is taken by the first answer\<close>

definition og_reply :: "(unit, string) outcome \<Rightarrow> u64 \<Rightarrow> outgoing_map \<Rightarrow> outgoing_map" where
  "og_reply r i = hm_modify i (\<lambda>s. if os_reply s = None then s\<lparr>os_reply := Some r\<rparr> else s)"

definition og_accepted :: "u64 \<Rightarrow> outgoing_map \<Rightarrow> outgoing_map" where
  "og_accepted i = og_reply (Ok ()) i"

definition og_rejected :: "u64 \<Rightarrow> string \<Rightarrow> outgoing_map \<Rightarrow> outgoing_map" where
  "og_rejected i reason = og_reply (Err reason) i"

definition og_aborted :: "u64 \<Rightarrow> string \<Rightarrow> outgoing_map \<Rightarrow> bool \<times> outgoing_map" where
  "og_aborted i reason og =
     (if hm_get og i = None then (False, og)
      else (True, hm_modify i (\<lambda>s. s\<lparr>os_reason := Some reason, os_cancelled := True\<rparr>) og))"

section \<open>One file\<close>

datatype offer = Offer_Plain | Offer_Drag u64 | Offer_Tree u64 string

datatype opened = OP_File u64 | OP_Dir | OP_NoStat string | OP_NoOpen string

datatype accept = AC_Accepted | AC_Rejected string | AC_Dropped | AC_Aborted string

datatype enqueued = EQ_Sent | EQ_Closed | EQ_Aborted string

type_synonym chunk_turn = "string option \<times> (u8 list, string) outcome \<times> enqueued \<times> nat"

record stream_env =
  se_opened :: opened
  se_offered :: bool
  se_accept :: accept
  se_start :: nat
  se_turns :: "chunk_turn list"
  se_done :: bool

datatype action = AN_Msg sync_message | AN_Active u64 | AN_Progress u64 u64 nat

fun stream_chunks ::
  "u64 \<Rightarrow> u64 \<Rightarrow> chunk_turn list \<Rightarrow> u64 \<Rightarrow> nat \<Rightarrow> u8 list \<Rightarrow> action list \<times> (u64 \<times> u8 list, string) outcome" where
  "stream_chunks i whole [] offset prev hashed = ([], Ok (offset, hashed))"
| "stream_chunks i whole ((aborted, read, enq, now) # ts) offset prev hashed =
     (case aborted of
        Some reason \<Rightarrow> ([], Err reason)
      | None \<Rightarrow>
          (case read of
             Err e \<Rightarrow> ([AN_Msg (SM_FileCancel i (''read error: '' @ e))], Err (''read error: '' @ e))
           | Panic \<Rightarrow> ([], Panic)
           | Ok data \<Rightarrow>
               if data = [] then ([], Ok (offset, hashed))
               else (case enq of
                   EQ_Closed \<Rightarrow> ([], Err ''connection closed'')
                 | EQ_Aborted reason \<Rightarrow> ([], Err reason)
                 | EQ_Sent \<Rightarrow>
                     let offset' = offset + of_nat (length data);
                         (due, prev') = progress_due now prev;
                         (as, r) = stream_chunks i whole ts offset' prev' (hashed @ data)
                     in (AN_Msg (SM_FileChunk i offset data) # (if due then [AN_Progress offset' whole now] else []) @ as, r))))"

definition offer_message :: "u64 \<Rightarrow> string \<Rightarrow> u64 \<Rightarrow> offer \<Rightarrow> sync_message" where
  "offer_message i name whole offer =
     (case offer of
        Offer_Drag drag \<Rightarrow> SM_DragOffer drag i name whole
      | Offer_Plain \<Rightarrow> SM_FileOffer i name whole
      | Offer_Tree tree rel \<Rightarrow> SM_TreeFile tree i rel whole)"

text \<open>an item of a drag that cannot be opened is offered and cancelled, for the peer counts it\<close>

definition unopened :: "u64 \<Rightarrow> string \<Rightarrow> offer \<Rightarrow> string \<Rightarrow> action list \<times> (u64, string) outcome" where
  "unopened i name offer reason =
     (case offer of
        Offer_Drag drag \<Rightarrow> [AN_Msg (SM_DragOffer drag i name 0), AN_Msg (SM_FileCancel i reason)]
      | _ \<Rightarrow> [], Err reason)"

definition stream_opened ::
  "(u8 list \<Rightarrow> u8 list) \<Rightarrow> u64 \<Rightarrow> string \<Rightarrow> offer \<Rightarrow> stream_env \<Rightarrow> u64 \<Rightarrow> action list \<times> (u64, string) outcome" where
  "stream_opened sha256 i name offer env whole =
     (if \<not> se_offered env then ([], Err ''connection closed'')
      else
        let start = [AN_Msg (offer_message i name whole offer), AN_Active whole] in
        (case se_accept env of
           AC_Aborted reason \<Rightarrow> (start, Err reason)
         | AC_Rejected reason \<Rightarrow> (start, Err (''peer rejected: '' @ reason))
         | AC_Dropped \<Rightarrow> (start, Err ''connection closed'')
         | AC_Accepted \<Rightarrow>
             (case stream_chunks i whole (se_turns env) 0 (se_start env) [] of
                (as, Err e) \<Rightarrow> (start @ as, Err e)
              | (as, Panic) \<Rightarrow> (start @ as, Panic)
              | (as, Ok (offset, hashed)) \<Rightarrow>
                  if offset \<noteq> whole then
                    let reason = ''file changed while sending ('' @ show_word offset @ '' of '' @ show_word whole @ '' bytes)''
                    in (start @ as @ [AN_Msg (SM_FileCancel i reason)], Err reason)
                  else if \<not> se_done env then (start @ as, Err ''connection closed'')
                  else (start @ as @ [AN_Msg (SM_FileDone i (sha256 hashed))], Ok whole))))"

definition stream_file ::
  "(u8 list \<Rightarrow> u8 list) \<Rightarrow> u64 \<Rightarrow> path \<Rightarrow> string \<Rightarrow> offer \<Rightarrow> stream_env \<Rightarrow> action list \<times> (u64, string) outcome" where
  "stream_file sha256 i p name offer env =
     (case se_opened env of
        OP_File whole \<Rightarrow> stream_opened sha256 i name offer env whole
      | OP_Dir \<Rightarrow> unopened i name offer ''folders need Vylo 1.0.5 or newer on the other machine''
      | OP_NoStat e \<Rightarrow> unopened i name offer (cannot ''stat'' p e)
      | OP_NoOpen e \<Rightarrow> unopened i name offer (cannot ''open'' p e))"

section \<open>Reporting\<close>

record tree_progress =
  tp_id :: u64
  tp_name :: string
  tp_files :: u32
  tp_total :: u64
  tp_done :: u64
  tp_inflight :: "(u64, u64) hmap"
  tp_error :: "string option"
  tp_last :: nat

record sender =
  sd_out :: "sync_message list"
  sd_events :: "sync_event list"
  sd_outgoing :: outgoing_map
  sd_tree :: tree_progress

definition sd_emit :: "sync_event \<Rightarrow> sender \<Rightarrow> sender" where
  "sd_emit e s = s\<lparr>sd_events := sd_events s @ [e]\<rparr>"

definition sd_send :: "sync_message \<Rightarrow> sender \<Rightarrow> sender" where
  "sd_send m s = s\<lparr>sd_out := sd_out s @ [m]\<rparr>"

definition tp_transferred :: "tree_progress \<Rightarrow> u64" where
  "tp_transferred t = tp_done t + sum_list (hm_values (tp_inflight t))"

definition tp_emit :: "transfer_state \<Rightarrow> string option \<Rightarrow> sender \<Rightarrow> sender" where
  "tp_emit state detail s =
     (let t = sd_tree s in
      sd_emit (SY_Transfer (tree_status (tp_id t) (tp_name t) (tp_files t) Sent (tp_transferred t) (tp_total t) state detail)) s)"

text \<open>a report at most every \<open>PROGRESS_INTERVAL\<close>\<close>

definition tp_report :: "nat \<Rightarrow> sender \<Rightarrow> sender" where
  "tp_report now s =
     (case progress_due now (tp_last (sd_tree s)) of (due, prev) \<Rightarrow>
        if due then tp_emit TS_Active None (s\<lparr>sd_tree := (sd_tree s)\<lparr>tp_last := prev\<rparr>\<rparr>) else s)"

definition tp_file_progress :: "u64 \<Rightarrow> u64 \<Rightarrow> nat \<Rightarrow> sender \<Rightarrow> sender" where
  "tp_file_progress i offset now s =
     (let t = sd_tree s in tp_report now (s\<lparr>sd_tree := t\<lparr>tp_inflight := hm_insert i offset (tp_inflight t)\<rparr>\<rparr>))"

definition tp_file_done :: "u64 \<Rightarrow> u64 \<Rightarrow> nat \<Rightarrow> sender \<Rightarrow> sender" where
  "tp_file_done i whole now s =
     (let t = sd_tree s in
      tp_report now (s\<lparr>sd_tree := t\<lparr>tp_inflight := hm_remove i (tp_inflight t), tp_done := tp_done t + whole\<rparr>\<rparr>))"

definition tp_file_failed :: "u64 \<Rightarrow> string \<Rightarrow> string \<Rightarrow> sender \<Rightarrow> sender" where
  "tp_file_failed i name reason s =
     (let t = sd_tree s;
          t = t\<lparr>tp_inflight := hm_remove i (tp_inflight t)\<rparr>
      in s\<lparr>sd_tree := (if tp_error t = None then t\<lparr>tp_error := Some (name @ '': '' @ reason)\<rparr> else t)\<rparr>)"

datatype report = RP_Single | RP_Tree

definition report_active :: "report \<Rightarrow> u64 \<Rightarrow> string \<Rightarrow> u64 \<Rightarrow> sender \<Rightarrow> sender" where
  "report_active rp i name whole s =
     (case rp of
        RP_Single \<Rightarrow> sd_emit (SY_Transfer (file_status i name Sent 0 whole TS_Active None)) s
      | RP_Tree \<Rightarrow> s)"

definition report_offset :: "report \<Rightarrow> u64 \<Rightarrow> string \<Rightarrow> u64 \<Rightarrow> u64 \<Rightarrow> nat \<Rightarrow> sender \<Rightarrow> sender" where
  "report_offset rp i name offset whole now s =
     (case rp of
        RP_Single \<Rightarrow> sd_emit (SY_Transfer (file_status i name Sent offset whole TS_Active None)) s
      | RP_Tree \<Rightarrow> tp_file_progress i offset now s)"

definition report_done :: "report \<Rightarrow> u64 \<Rightarrow> string \<Rightarrow> u64 \<Rightarrow> nat \<Rightarrow> sender \<Rightarrow> sender" where
  "report_done rp i name whole now s =
     (case rp of
        RP_Single \<Rightarrow> sd_emit (SY_Transfer (file_status i name Sent whole whole TS_Done None)) s
      | RP_Tree \<Rightarrow> tp_file_done i whole now s)"

definition report_failure :: "report \<Rightarrow> u64 \<Rightarrow> string \<Rightarrow> string \<Rightarrow> sender \<Rightarrow> sender" where
  "report_failure rp i name reason s =
     (case rp of
        RP_Single \<Rightarrow> sd_emit (SY_Transfer (file_status i name Sent 0 0 TS_Failed (Some reason))) s
      | RP_Tree \<Rightarrow> tp_file_failed i name reason s)"

definition perform :: "report \<Rightarrow> u64 \<Rightarrow> string \<Rightarrow> action \<Rightarrow> sender \<Rightarrow> sender" where
  "perform rp i name an s =
     (case an of
        AN_Msg m \<Rightarrow> sd_send m s
      | AN_Active whole \<Rightarrow> report_active rp i name whole s
      | AN_Progress offset whole now \<Rightarrow> report_offset rp i name offset whole now s)"

definition name_of :: "string \<Rightarrow> path \<Rightarrow> string" where
  "name_of fallback p = (if p = [] then fallback else last p)"

text \<open>the end of \<open>send_file\<close>, at time \<open>now\<close>\<close>

definition file_settled :: "report \<Rightarrow> u64 \<Rightarrow> string \<Rightarrow> (u64, string) outcome \<Rightarrow> nat \<Rightarrow> sender \<Rightarrow> sender" where
  "file_settled rp i name r now s =
     (let s = s\<lparr>sd_outgoing := og_finished i (sd_outgoing s)\<rparr> in
      case r of
        Ok whole \<Rightarrow> report_done rp i name whole now s
      | Err reason \<Rightarrow> report_failure rp i name reason s
      | Panic \<Rightarrow> s)"

definition send_file ::
  "(u8 list \<Rightarrow> u8 list) \<Rightarrow> u64 \<Rightarrow> path \<Rightarrow> offer \<Rightarrow> report \<Rightarrow> stream_env \<Rightarrow> nat \<Rightarrow> sender \<Rightarrow> (u64, string) outcome \<times> sender" where
  "send_file sha256 i p offer rp env now s =
     (let name = name_of ''file'' p;
          s = s\<lparr>sd_outgoing := og_register i (sd_outgoing s)\<rparr>;
          (as, r) = stream_file sha256 i p name offer env
      in (r, file_settled rp i name r now (fold (perform rp i name) as s)))"

section \<open>Walking a folder\<close>

text \<open>
  A directory as \<open>read_dir\<close> finds it; \<open>None\<close> when it cannot be read (with some error text). \<open>E_Gone\<close> is an entry whose
  metadata cannot be read.
\<close>

datatype entry = E_File u64 | E_Link | E_Gone string | E_Dir "(string \<times> entry) list option"

record tree_plan =
  pl_dirs :: "string list"
  pl_files :: "(string \<times> path \<times> u64) list"
  pl_bytes :: u64

definition plan_empty :: tree_plan where
  "plan_empty = \<lparr>pl_dirs = [], pl_files = [], pl_bytes = 0\<rparr>"

type_synonym pending = "path \<times> string \<times> (string \<times> entry) list option"

definition rel_of :: "string \<Rightarrow> string \<Rightarrow> string" where
  "rel_of pre name = (if pre = [] then name else pre @ ''/'' @ name)"

definition too_many :: string where
  "too_many = ''folder has more than '' @ show_word MAX_TREE_ENTRIES @ '' entries''"

text \<open>the entries of one directory, in order; what is pending is a stack, its top first\<close>

fun walk_entries ::
  "path \<Rightarrow> string \<Rightarrow> (string \<times> entry) list \<Rightarrow> tree_plan \<Rightarrow> pending list \<Rightarrow> (tree_plan \<times> pending list, string) outcome" where
  "walk_entries dir pre [] plan stack = Ok (plan, stack)"
| "walk_entries dir pre ((name, e) # es) plan stack =
     (case e of
        E_Gone err \<Rightarrow> Err err
      | E_Link \<Rightarrow> walk_entries dir pre es plan stack
      | _ \<Rightarrow>
          if of_nat (length (pl_dirs plan) + length (pl_files plan)) \<ge> MAX_TREE_ENTRIES then Err too_many
          else (case e of
              E_Dir sub \<Rightarrow>
                walk_entries dir pre es (plan\<lparr>pl_dirs := pl_dirs plan @ [rel_of pre name]\<rparr>)
                  ((dir @ [name], rel_of pre name, sub) # stack)
            | E_File n \<Rightarrow>
                walk_entries dir pre es
                  (plan\<lparr>pl_bytes := pl_bytes plan + n, pl_files := pl_files plan @ [(rel_of pre name, dir @ [name], n)]\<rparr>)
                  stack
            | _ \<Rightarrow> Err []))"

text \<open>the work left: every entry that can still be found below what is pending\<close>

fun entry_work :: "entry \<Rightarrow> nat" where
  "entry_work (E_Dir (Some es)) = Suc (sum_list (map (\<lambda>(_, e). entry_work e) es))"
| "entry_work (E_Dir None) = 1"
| "entry_work _ = 0"

definition stack_work :: "pending list \<Rightarrow> nat" where
  "stack_work stack = sum_list (map (\<lambda>(_, _, sub). entry_work (E_Dir sub)) stack)"

lemma walk_entries_work:
  "walk_entries dir pre es plan stack = Ok (plan', stack') \<Longrightarrow>
     stack_work stack' = stack_work stack + sum_list (map (\<lambda>(_, e). entry_work e) es)"
proof (induction dir pre es plan stack rule: walk_entries.induct)
  case (2 dir pre name e es plan stack)
  then show ?case by (cases e) (auto simp: stack_work_def split: if_splits)
qed simp

lemma sum_list_sort_key:
  "sum_list (map (\<lambda>(_, e). entry_work e) (sort_key f es)) = sum_list (map (\<lambda>(_, e). entry_work e) es)"
  by (metis mset_map mset_sort sum_mset_sum_list)

lemma entry_work_Dir: "entry_work (E_Dir sub) = Suc (sum_list (map (\<lambda>(_, e). entry_work e) (case sub of None \<Rightarrow> [] | Some es \<Rightarrow> es)))"
  by (cases sub) simp_all

function walk_loop :: "pending list \<Rightarrow> tree_plan \<Rightarrow> (tree_plan, string) outcome" where
  "walk_loop [] plan = Ok plan"
| "walk_loop ((dir, pre, sub) # stack) plan =
     (case sub of
        None \<Rightarrow> Err ''cannot read directory''
      | Some es \<Rightarrow>
          (case walk_entries dir pre (sort_key fst es) plan stack of
             Ok (plan, stack) \<Rightarrow> walk_loop stack plan
           | Err e \<Rightarrow> Err e
           | Panic \<Rightarrow> Panic))"
  by pat_completeness auto
termination
proof (relation "measure (\<lambda>(stack, _). stack_work stack)")
  fix dir pre sub stack plan es r plan' stack'
  assume *: "sub = Some es" "walk_entries dir pre (sort_key fst es) plan stack = Ok r" "(plan', stack') = r"
  from walk_entries_work [of dir pre "sort_key fst es" plan stack plan' stack'] *
  show "((stack', plan'), ((dir, pre, sub) # stack, plan)) \<in> measure (\<lambda>(stack, _). stack_work stack)"
    by (simp add: sum_list_sort_key stack_work_def)
qed simp

definition walk_tree :: "path \<Rightarrow> (string \<times> entry) list option \<Rightarrow> (tree_plan, string) outcome" where
  "walk_tree root es = walk_loop [(root, [], es)] plan_empty"

text \<open>
  The specification: what a folder holds, by recursion over the tree. A folder is readable when
  every directory and the metadata of every entry in it are.
\<close>

fun readable :: "entry \<Rightarrow> bool" where
  "readable (E_Dir None) = False"
| "readable (E_Dir (Some es)) = list_all (\<lambda>(_, e). readable e) es"
| "readable (E_Gone _) = False"
| "readable _ = True"

fun dirs_in :: "string \<Rightarrow> string \<times> entry \<Rightarrow> string list" where
  "dirs_in pre (name, E_Dir (Some es)) = rel_of pre name # concat (map (dirs_in (rel_of pre name)) es)"
| "dirs_in pre (name, E_Dir None) = [rel_of pre name]"
| "dirs_in pre _ = []"

fun files_in :: "path \<Rightarrow> string \<Rightarrow> string \<times> entry \<Rightarrow> (string \<times> path \<times> u64) list" where
  "files_in dir pre (name, E_File n) = [(rel_of pre name, dir @ [name], n)]"
| "files_in dir pre (name, E_Dir (Some es)) = concat (map (files_in (dir @ [name]) (rel_of pre name)) es)"
| "files_in dir pre _ = []"

end
