(* ===== verification/SenderWalk.thy ===== *)
theory SenderWalk
  imports Sender
begin

text \<open>
  \<open>walk_tree\<close>, a loop with a stack and a plan that grows, finds exactly what the recursive
  specification of \<open>Sender\<close> lists, and lists a directory before what is in it.
\<close>

definition below_dirs :: "pending list \<Rightarrow> string list" where
  "below_dirs stack = concat (map (\<lambda>(dir, pre, sub). case sub of None \<Rightarrow> [] | Some es \<Rightarrow> concat (map (dirs_in pre) es)) stack)"

definition below_files :: "pending list \<Rightarrow> (string \<times> path \<times> u64) list" where
  "below_files stack =
     concat (map (\<lambda>(dir, pre, sub). case sub of None \<Rightarrow> [] | Some es \<Rightarrow> concat (map (files_in dir pre) es)) stack)"

definition stack_readable :: "pending list \<Rightarrow> bool" where
  "stack_readable stack \<longleftrightarrow> list_all (\<lambda>(_, _, sub). readable (E_Dir sub)) stack"

definition plan_count :: "tree_plan \<Rightarrow> nat" where
  "plan_count plan = length (pl_dirs plan) + length (pl_files plan)"

text \<open>an earlier directory of the list, or the folder itself, is the parent\<close>

definition parents_first :: "string list \<Rightarrow> bool" where
  "parents_first ds \<longleftrightarrow> (\<forall>i < length ds. \<exists>pre name. ds ! i = rel_of pre name \<and> (pre = [] \<or> pre \<in> set (take i ds)))"

definition plan_ok :: "tree_plan \<Rightarrow> bool" where
  "plan_ok plan \<longleftrightarrow>
     pl_bytes plan = sum_list (map (\<lambda>(_, _, n). n) (pl_files plan)) \<and> parents_first (pl_dirs plan) \<and>
     plan_count plan \<le> 1000000"

definition placed :: "tree_plan \<Rightarrow> pending list \<Rightarrow> bool" where
  "placed plan stack \<longleftrightarrow> list_all (\<lambda>(_, pre, _). pre = [] \<or> pre \<in> set (pl_dirs plan)) stack"

lemma below_simps [simp]:
  "below_dirs [] = []" "below_files [] = []"
  "below_dirs ((dir, pre, sub) # stack) = (case sub of None \<Rightarrow> [] | Some es \<Rightarrow> concat (map (dirs_in pre) es)) @ below_dirs stack"
  "below_files ((dir, pre, sub) # stack) = (case sub of None \<Rightarrow> [] | Some es \<Rightarrow> concat (map (files_in dir pre) es)) @ below_files stack"
  "stack_readable []" "stack_readable ((dir, pre, sub) # stack) \<longleftrightarrow> readable (E_Dir sub) \<and> stack_readable stack"
  "placed plan []" "placed plan ((dir, pre, sub) # stack) \<longleftrightarrow> (pre = [] \<or> pre \<in> set (pl_dirs plan)) \<and> placed plan stack"
  by (simp_all add: below_dirs_def below_files_def stack_readable_def placed_def)

lemma dirs_in_Dir: "dirs_in pre (name, E_Dir sub) =
     rel_of pre name # (case sub of None \<Rightarrow> [] | Some es \<Rightarrow> concat (map (dirs_in (rel_of pre name)) es))"
  by (cases sub) simp_all

lemma files_in_Dir: "files_in dir pre (name, E_Dir sub) =
     (case sub of None \<Rightarrow> [] | Some es \<Rightarrow> concat (map (files_in (dir @ [name]) (rel_of pre name)) es))"
  by (cases sub) simp_all

lemma full_iff: "plan_count plan \<le> 1000000 \<Longrightarrow>
   of_nat (length (pl_dirs plan) + length (pl_files plan)) \<ge> MAX_TREE_ENTRIES \<longleftrightarrow> plan_count plan = 1000000"
proof -
  assume le: "plan_count plan \<le> 1000000"
  then have "unat (of_nat (plan_count plan) :: u64) = plan_count plan"
    by (simp add: unat_of_nat take_bit_nat_eq_self)
  then show ?thesis using le by (auto simp: plan_count_def word_le_nat_alt MAX_TREE_ENTRIES_def)
qed

lemma parents_first_snoc:
  "parents_first ds \<Longrightarrow> pre = [] \<or> pre \<in> set ds \<Longrightarrow> parents_first (ds @ [rel_of pre name])"
  by (auto simp: parents_first_def nth_append less_Suc_eq)

text \<open>what one directory adds to the plan and the stack\<close>

definition entries_walked ::
  "path \<Rightarrow> string \<Rightarrow> (string \<times> entry) list \<Rightarrow> tree_plan \<Rightarrow> pending list \<Rightarrow> (tree_plan \<times> pending list, string) outcome \<Rightarrow> bool" where
  "entries_walked dir pre es plan stack r \<longleftrightarrow>
     (case r of
        Ok (plan', stack') \<Rightarrow>
          plan_ok plan' \<and> placed plan' stack' \<and>
          mset (pl_dirs plan') + mset (below_dirs stack') =
            mset (pl_dirs plan) + mset (below_dirs stack) + mset (concat (map (dirs_in pre) es)) \<and>
          mset (pl_files plan') + mset (below_files stack') =
            mset (pl_files plan) + mset (below_files stack) + mset (concat (map (files_in dir pre) es)) \<and>
          (stack_readable stack' \<longleftrightarrow> stack_readable stack \<and> list_all (\<lambda>(_, e). readable e) es)
      | Err _ \<Rightarrow> \<not> list_all (\<lambda>(_, e). readable e) es \<or>
          plan_count plan + length (concat (map (dirs_in pre) es)) + length (concat (map (files_in dir pre) es)) > 1000000
      | Panic \<Rightarrow> False)"

lemma walk_entries_correct:
  assumes "plan_ok plan" "placed plan stack" "pre = [] \<or> pre \<in> set (pl_dirs plan)"
  shows "entries_walked dir pre es plan stack (walk_entries dir pre es plan stack)"
  using assms
proof (induction es arbitrary: plan stack)
  case Nil
  then show ?case by (simp add: entries_walked_def)
next
  case (Cons ne es)
  obtain name e where ne: "ne = (name, e)" by fastforce
  have count: "plan_count plan \<le> 1000000" using Cons.prems(1) by (simp add: plan_ok_def)
  note full = full_iff [OF count]
  show ?case
  proof (cases e)
    case (E_File n)
    let ?plan = "plan\<lparr>pl_bytes := pl_bytes plan + n, pl_files := pl_files plan @ [(rel_of pre name, dir @ [name], n)]\<rparr>"
    show ?thesis
    proof (cases "plan_count plan = 1000000")
      case True
      then have "walk_entries dir pre (ne # es) plan stack = Err too_many" using full by (simp add: ne E_File)
      then show ?thesis using True by (simp add: entries_walked_def ne E_File)
    next
      case False
      then have eq: "walk_entries dir pre (ne # es) plan stack = walk_entries dir pre es ?plan stack"
        using full by (simp add: ne E_File)
      have "plan_ok ?plan" using Cons.prems(1) False count by (simp add: plan_ok_def plan_count_def)
      moreover have "placed ?plan stack" "pre = [] \<or> pre \<in> set (pl_dirs ?plan)"
        using Cons.prems by (simp_all add: placed_def)
      ultimately have "entries_walked dir pre es ?plan stack (walk_entries dir pre es ?plan stack)" by (rule Cons.IH)
      then show ?thesis unfolding eq
        by (auto simp: entries_walked_def ne E_File plan_count_def split: outcome.splits)
    qed
  next
    case (E_Dir sub)
    let ?plan = "plan\<lparr>pl_dirs := pl_dirs plan @ [rel_of pre name]\<rparr>" and ?stack = "(dir @ [name], rel_of pre name, sub) # stack"
    show ?thesis
    proof (cases "plan_count plan = 1000000")
      case True
      then have "walk_entries dir pre (ne # es) plan stack = Err too_many" using full by (simp add: ne E_Dir)
      then show ?thesis using True by (simp add: entries_walked_def ne E_Dir dirs_in_Dir)
    next
      case False
      then have eq: "walk_entries dir pre (ne # es) plan stack = walk_entries dir pre es ?plan ?stack"
        using full by (simp add: ne E_Dir)
      have "plan_ok ?plan" using Cons.prems False count by (simp add: plan_ok_def plan_count_def parents_first_snoc)
      moreover have "placed ?plan ?stack" "pre = [] \<or> pre \<in> set (pl_dirs ?plan)"
        using Cons.prems by (auto simp: placed_def list_all_iff)
      ultimately have "entries_walked dir pre es ?plan ?stack (walk_entries dir pre es ?plan ?stack)" by (rule Cons.IH)
      then show ?thesis unfolding eq
        by (auto simp: entries_walked_def ne E_Dir dirs_in_Dir files_in_Dir plan_count_def split: outcome.splits)
    qed
  next
    case E_Link
    then have eq: "walk_entries dir pre (ne # es) plan stack = walk_entries dir pre es plan stack" by (simp add: ne)
    show ?thesis unfolding eq
      using Cons.IH [OF Cons.prems] E_Link by (auto simp: ne entries_walked_def split: outcome.splits)
  next
    case (E_Gone err)
    then show ?thesis by (simp add: ne entries_walked_def)
  qed
qed

lemma mset_concat_sort: "mset (concat (map f (sort_key k es))) = mset (concat (map f es))"
  by (metis mset_concat mset_map mset_sort sum_mset_sum_list)

lemma list_all_sort: "list_all P (sort_key k es) \<longleftrightarrow> list_all P es"
  by (simp add: list_all_iff)

definition loop_walked :: "pending list \<Rightarrow> tree_plan \<Rightarrow> (tree_plan, string) outcome \<Rightarrow> bool" where
  "loop_walked stack plan r \<longleftrightarrow>
     (case r of
        Ok plan' \<Rightarrow>
          stack_readable stack \<and> plan_ok plan' \<and>
          mset (pl_dirs plan') = mset (pl_dirs plan) + mset (below_dirs stack) \<and>
          mset (pl_files plan') = mset (pl_files plan) + mset (below_files stack)
      | Err _ \<Rightarrow> \<not> stack_readable stack \<or>
          plan_count plan + length (below_dirs stack) + length (below_files stack) > 1000000
      | Panic \<Rightarrow> False)"

lemma length_mset_add: "mset xs + mset ys = mset us + mset vs + mset ws \<Longrightarrow> length xs + length ys = length us + length vs + length ws"
  by (metis size_mset size_union)

lemma walk_loop_correct:
  assumes "plan_ok plan" "placed plan stack"
  shows "loop_walked stack plan (walk_loop stack plan)"
  using assms
proof (induction stack plan rule: walk_loop.induct)
  case (1 plan)
  then show ?case by (simp add: loop_walked_def)
next
  case (2 dir pre sub stack plan)
  show ?case
  proof (cases sub)
    case None
    then show ?thesis by (simp add: loop_walked_def)
  next
    case (Some es)
    let ?r = "walk_entries dir pre (sort_key fst es) plan stack"
    have w: "entries_walked dir pre (sort_key fst es) plan stack ?r"
      by (rule walk_entries_correct) (use "2.prems" in simp_all)
    have len: "length (concat (map f (sort_key fst es))) = length (concat (map f es))" for f :: "_ \<Rightarrow> 'c list"
      by (metis mset_concat_sort size_mset)
    show ?thesis
    proof (cases ?r)
      case (Ok p)
      obtain plan' stack' where p: "p = (plan', stack')" by fastforce
      have w': "plan_ok plan'" "placed plan' stack'"
        "mset (pl_dirs plan') + mset (below_dirs stack') = mset (pl_dirs plan) + mset (below_dirs stack) + mset (concat (map (dirs_in pre) es))"
        "mset (pl_files plan') + mset (below_files stack') = mset (pl_files plan) + mset (below_files stack) + mset (concat (map (files_in dir pre) es))"
        "stack_readable stack' \<longleftrightarrow> stack_readable stack \<and> list_all (\<lambda>(_, e). readable e) es"
        using w by (simp_all add: entries_walked_def Ok p mset_concat_sort list_all_sort del: mset_concat)
      have eq: "walk_loop ((dir, pre, sub) # stack) plan = walk_loop stack' plan'" by (simp add: Some Ok p)
      have IH: "loop_walked stack' plan' (walk_loop stack' plan')"
        by (rule "2.IH" [OF Some Ok p [symmetric] w'(1,2)])
      have sizes: "plan_count plan' + length (below_dirs stack') + length (below_files stack') =
          plan_count plan + length (below_dirs ((dir, pre, sub) # stack)) + length (below_files ((dir, pre, sub) # stack))"
        using length_mset_add [OF w'(3)] length_mset_add [OF w'(4)] by (simp add: plan_count_def Some)
      show ?thesis
      proof (cases "walk_loop stack' plan'")
        case (Ok plan'')
        then show ?thesis unfolding eq using IH w'(3-5) by (auto simp: loop_walked_def Some)
      next
        case (Err err)
        then show ?thesis unfolding eq using IH w'(5) sizes by (auto simp: loop_walked_def Some)
      next
        case Panic
        then show ?thesis using IH by (simp add: loop_walked_def)
      qed
    next
      case (Err err)
      then show ?thesis using w by (auto simp: loop_walked_def entries_walked_def Some list_all_sort len)
    next
      case Panic
      then show ?thesis using w by (simp add: entries_walked_def)
    qed
  qed
qed


end
