(* ===== verification/SendTree.thy ===== *)
theory SendTree
  imports SenderWalk
begin

text \<open>
  \<open>send_tree\<close> of \<open>src/sync/files.rs\<close>: a folder is announced, its directories are sent, its files are
  streamed by up to \<open>TREE_WINDOW\<close> tasks at once, and \<open>TreeEnd\<close> closes it. A task is its name, its
  trace and its result; the schedule is a list of \<open>choice\<close>s, so every interleaving of the tasks is
  a run.
\<close>

record tree_task =
  tt_id :: u64
  tt_name :: string
  tt_left :: "action list"
  tt_result :: "(u64, string) outcome"

record tree_sender =
  ts_sender :: sender
  ts_tree :: u64
  ts_todo :: "(string \<times> path \<times> u64) list"
  ts_running :: "tree_task list"
  ts_next_id :: u64
  ts_results :: "(string \<times> (u64, string) outcome) list"

datatype choice = Launch stream_env | Run nat nat

definition tree_error :: "tree_sender \<Rightarrow> string option" where
  "tree_error ts = tp_error (sd_tree (ts_sender ts))"

text \<open>the loop takes the next file when there is a permit and nothing has failed\<close>

definition tree_launch :: "(u8 list \<Rightarrow> u8 list) \<Rightarrow> stream_env \<Rightarrow> tree_sender \<Rightarrow> tree_sender" where
  "tree_launch sha256 env ts =
     (case ts_todo ts of
        [] \<Rightarrow> ts
      | (rel, p, _) # todo \<Rightarrow>
          if tree_error ts \<noteq> None \<or> length (ts_running ts) \<ge> TREE_WINDOW then ts
          else
            let i = ts_next_id ts;
                name = name_of ''file'' p;
                (as, r) = stream_file sha256 i p name (Offer_Tree (ts_tree ts) rel) env;
                s = ts_sender ts
            in ts\<lparr>ts_todo := todo, ts_next_id := i + 1,
                  ts_sender := s\<lparr>sd_outgoing := og_register i (sd_outgoing s)\<rparr>,
                  ts_running := ts_running ts @ [\<lparr>tt_id = i, tt_name = name, tt_left = as, tt_result = r\<rparr>]\<rparr>)"

definition drop_nth :: "nat \<Rightarrow> 'a list \<Rightarrow> 'a list" where
  "drop_nth k xs = take k xs @ drop (Suc k) xs"

text \<open>a running task does its next action, or settles and gives its permit back\<close>

definition tree_run :: "nat \<Rightarrow> nat \<Rightarrow> tree_sender \<Rightarrow> tree_sender" where
  "tree_run k now ts =
     (if k \<ge> length (ts_running ts) then ts
      else
        let t = ts_running ts ! k in
        (case tt_left t of
           a # as \<Rightarrow>
             ts\<lparr>ts_sender := perform RP_Tree (tt_id t) (tt_name t) a (ts_sender ts),
                ts_running := (ts_running ts)[k := t\<lparr>tt_left := as\<rparr>]\<rparr>
         | [] \<Rightarrow>
             ts\<lparr>ts_sender := file_settled RP_Tree (tt_id t) (tt_name t) (tt_result t) now (ts_sender ts),
                ts_running := drop_nth k (ts_running ts),
                ts_results := ts_results ts @ [(tt_name t, tt_result t)]\<rparr>))"

definition tree_choose :: "(u8 list \<Rightarrow> u8 list) \<Rightarrow> choice \<Rightarrow> tree_sender \<Rightarrow> tree_sender" where
  "tree_choose sha256 c ts =
     (case c of Launch env \<Rightarrow> tree_launch sha256 env ts | Run k now \<Rightarrow> tree_run k now ts)"

text \<open>the loop has ended and every task has been awaited\<close>

definition tree_drained :: "tree_sender \<Rightarrow> bool" where
  "tree_drained ts \<longleftrightarrow> ts_running ts = [] \<and> (ts_todo ts = [] \<or> tree_error ts \<noteq> None)"

definition tree_close :: "tree_sender \<Rightarrow> sender" where
  "tree_close ts =
     (let s = sd_send (SM_TreeEnd (ts_tree ts) (tree_error ts)) (ts_sender ts) in
      case tree_error ts of
        None \<Rightarrow> tp_emit TS_Done None s
      | Some reason \<Rightarrow> tp_emit TS_Failed (Some reason) s)"

text \<open>before the files: \<open>Inl\<close> when the folder is not sent; \<open>closed\<close> is the first send that fails\<close>

definition tree_failure :: "u64 \<Rightarrow> string \<Rightarrow> string \<Rightarrow> sender \<Rightarrow> sender" where
  "tree_failure tree name reason s =
     sd_emit (SY_Transfer (tree_status tree name 0 Sent 0 0 TS_Failed (Some reason))) s"

definition tree_announce ::
  "u64 \<Rightarrow> path \<Rightarrow> u64 option \<Rightarrow> (tree_plan, string) outcome \<Rightarrow> nat option \<Rightarrow> nat \<Rightarrow> u64 \<Rightarrow> sender \<Rightarrow> sender + tree_sender" where
  "tree_announce tree root drag walked closed now first_id s =
     (let name = name_of ''folder'' root in
      case walked of
        Ok plan \<Rightarrow>
          let files = of_nat (length (pl_files plan));
              s = s\<lparr>sd_tree := \<lparr>tp_id = tree, tp_name = name, tp_files = files, tp_total = pl_bytes plan, tp_done = 0,
                       tp_inflight = [], tp_error = None, tp_last = now\<rparr>\<rparr>;
              opened = (case closed of None \<Rightarrow> length (pl_dirs plan) + 1 | Some n \<Rightarrow> n)
          in if opened = 0 then Inl (tree_failure tree name ''connection closed'' s)
             else
               let s = tp_emit TS_Active None (sd_send (SM_TreeOffer tree name files (pl_bytes plan) drag) s);
                   s = fold (\<lambda>rel. sd_send (SM_TreeDir tree rel)) (take (opened - 1) (pl_dirs plan)) s
               in if opened \<le> length (pl_dirs plan) then Inl (tree_failure tree name ''connection closed'' s)
                  else Inr \<lparr>ts_sender = s, ts_tree = tree, ts_todo = pl_files plan, ts_running = [],
                            ts_next_id = first_id, ts_results = []\<rparr>
      | Err e \<Rightarrow>
          let reason = ''cannot read folder: '' @ e in
          Inl (tree_failure tree name reason
            (sd_send (SM_TreeEnd tree (Some reason)) (sd_send (SM_TreeOffer tree name 0 0 drag) s)))
      | Panic \<Rightarrow> Inl s)"

definition tree_stream :: "(u8 list \<Rightarrow> u8 list) \<Rightarrow> choice list \<Rightarrow> tree_sender \<Rightarrow> tree_sender" where
  "tree_stream sha256 cs ts = fold (tree_choose sha256) cs ts"

section \<open>The window\<close>

lemma length_drop_nth: "k < length xs \<Longrightarrow> length (drop_nth k xs) = length xs - 1"
  by (simp add: drop_nth_def)

lemma mset_drop_nth: "k < length xs \<Longrightarrow> add_mset (xs ! k) (mset (drop_nth k xs)) = mset xs"
  by (subst (3) id_take_nth_drop [of k]) (simp_all add: drop_nth_def)

lemma tree_failed_mono: "tp_error (sd_tree (file_settled rp i name r now s)) = None \<Longrightarrow> tp_error (sd_tree s) = None"
  by (auto simp: file_settled_def report_done_def report_failure_def sd_emit_def tp_file_done_def tp_file_failed_def
      tp_report_def tp_emit_def Let_def split: outcome.splits report.splits prod.splits if_splits)

lemma perform_error [simp]: "tp_error (sd_tree (perform RP_Tree i name a s)) = tp_error (sd_tree s)"
  by (auto simp: perform_def sd_send_def report_active_def report_offset_def tp_file_progress_def tp_report_def tp_emit_def
      sd_emit_def Let_def split: action.splits prod.splits)

lemma settled_error:
  "tp_error (sd_tree (file_settled RP_Tree i name r now s)) =
     (case (tp_error (sd_tree s), r) of (None, Err reason) \<Rightarrow> Some (name @ '': '' @ reason) | (e, _) \<Rightarrow> e)"
  by (auto simp: file_settled_def report_done_def report_failure_def tp_file_done_def tp_file_failed_def tp_report_def
      tp_emit_def sd_emit_def Let_def split: outcome.splits prod.splits option.splits)

text \<open>
  The invariant of the loop: the window bounds the tasks, every file is still to do, running or has
  settled, and an error is recorded exactly when a file has failed.
\<close>

fun first_failure :: "(string \<times> (u64, string) outcome) list \<Rightarrow> string option" where
  "first_failure [] = None"
| "first_failure ((name, Err e) # rs) = Some (name @ '': '' @ e)"
| "first_failure (_ # rs) = first_failure rs"

lemma first_failure_snoc:
  "first_failure (rs @ [(name, r)]) = (case (first_failure rs, r) of (None, Err e) \<Rightarrow> Some (name @ '': '' @ e) | (e, _) \<Rightarrow> e)"
  by (induction rs rule: first_failure.induct) (cases r, auto)+

definition file_names :: "(string \<times> path \<times> u64) list \<Rightarrow> string list" where
  "file_names fs = map (\<lambda>(_, p, _). name_of ''file'' p) fs"

definition send_tree_ok :: "string multiset \<Rightarrow> tree_sender \<Rightarrow> bool" where
  "send_tree_ok n ts \<longleftrightarrow>
     length (ts_running ts) \<le> TREE_WINDOW \<and>
     mset (file_names (ts_todo ts)) + mset (map tt_name (ts_running ts)) + mset (map fst (ts_results ts)) = n \<and>
     tree_error ts = first_failure (ts_results ts)"

lemma send_tree_ok_step:
  assumes "send_tree_ok n ts"
  shows "send_tree_ok n (tree_choose sha256 c ts)"
proof (cases c)
  case (Launch env)
  show ?thesis
  proof (cases "ts_todo ts = [] \<or> tree_error ts \<noteq> None \<or> length (ts_running ts) \<ge> TREE_WINDOW")
    case True
    then have "tree_launch sha256 env ts = ts" by (auto simp: tree_launch_def split: list.splits)
    then show ?thesis using assms by (simp add: tree_choose_def Launch)
  next
    case False
    then obtain rel p m todo where "ts_todo ts = (rel, p, m) # todo" by (cases "ts_todo ts") auto
    then show ?thesis using assms False
      by (auto simp: tree_choose_def Launch tree_launch_def send_tree_ok_def tree_error_def file_names_def Let_def split: prod.splits)
  qed
next
  case (Run k now)
  show ?thesis
  proof (cases "k < length (ts_running ts)")
    case False
    then show ?thesis using assms by (simp add: tree_choose_def Run tree_run_def)
  next
    case True
    let ?t = "ts_running ts ! k"
    show ?thesis
    proof (cases "tt_left ?t")
      case (Cons a as)
      have "map tt_name ((ts_running ts)[k := ?t\<lparr>tt_left := as\<rparr>]) = map tt_name (ts_running ts)"
        using True by (simp add: map_update list_update_same_conv)
      then show ?thesis using assms True Cons
        by (simp add: tree_choose_def Run tree_run_def send_tree_ok_def tree_error_def Let_def)
    next
      case Nil
      let ?ts = "tree_choose sha256 c ts"
      have run: "?ts = ts\<lparr>ts_sender := file_settled RP_Tree (tt_id ?t) (tt_name ?t) (tt_result ?t) now (ts_sender ts),
          ts_running := drop_nth k (ts_running ts), ts_results := ts_results ts @ [(tt_name ?t, tt_result ?t)]\<rparr>"
        using True Nil by (simp add: tree_choose_def Run tree_run_def Let_def)
      have err: "tree_error ?ts = (case (tree_error ts, tt_result ?t) of
          (None, Err reason) \<Rightarrow> Some (tt_name ?t @ '': '' @ reason) | (e, _) \<Rightarrow> e)"
        by (simp add: run tree_error_def settled_error)
      have "tree_error ?ts = first_failure (ts_results ?ts)"
        using assms err by (simp add: run [THEN arg_cong [of _ _ ts_results]] first_failure_snoc send_tree_ok_def)
      moreover have "add_mset (tt_name ?t) (mset (map tt_name (drop_nth k (ts_running ts)))) = mset (map tt_name (ts_running ts))"
        using arg_cong [OF mset_drop_nth [OF True], of "image_mset tt_name"] by simp
      ultimately show ?thesis using assms True unfolding run
        by (auto simp: send_tree_ok_def length_drop_nth)
    qed
  qed
qed

interpretation tree_loop: machine "tree_choose sha256" "send_tree_ok names" for sha256 names
  by unfold_locales (rule send_tree_ok_step)

lemma announced_ok:
  assumes "tree_announce tree root drag (Ok plan) closed now first_id s = Inr ts"
  shows "send_tree_ok (mset (file_names (pl_files plan))) ts \<and> ts_tree ts = tree"
proof -
  have dirs: "sd_tree (fold (\<lambda>rel. sd_send (SM_TreeDir tree rel)) ds s') = sd_tree s'" for ds s'
    by (induction ds arbitrary: s') (simp_all add: sd_send_def)
  show ?thesis using assms
    by (auto simp: tree_announce_def send_tree_ok_def tree_error_def TREE_WINDOW_def dirs tp_emit_def sd_emit_def sd_send_def Let_def
        split: if_splits)
qed

lemma stream_tree [simp]: "ts_tree (tree_stream sha256 cs ts) = ts_tree ts"
proof -
  have "ts_tree (tree_choose sha256 c ts) = ts_tree ts" for c ts
    by (auto simp: tree_choose_def tree_launch_def tree_run_def Let_def split: choice.split list.split prod.split)
  then show ?thesis unfolding tree_stream_def by (induction cs arbitrary: ts) simp_all
qed

text \<open>
  \<^bold>\<open>C21.\<close> However the tasks of a folder are scheduled and whatever they meet, at most three run at a
  time, and when all are done \<open>TreeEnd\<close> is the next message: without an error exactly when every
  file of the plan has been streamed and none has failed, else with the first failure.
\<close>

theorem send_tree_whole_or_error:
  assumes "tree_announce tree root drag (Ok plan) closed now first_id s = Inr ts0"
    and "ts = tree_stream sha256 cs ts0" and "tree_drained ts"
  shows "sd_out (tree_close ts) = sd_out (ts_sender ts) @ [SM_TreeEnd tree (first_failure (ts_results ts))] \<and>
    (if list_all (\<lambda>(_, r). \<forall>e. r \<noteq> Err e) (ts_results ts)
     then first_failure (ts_results ts) = None \<and> mset (map fst (ts_results ts)) = mset (file_names (pl_files plan))
     else first_failure (ts_results ts) \<noteq> None)"
proof -
  have ok: "send_tree_ok (mset (file_names (pl_files plan))) ts"
    unfolding assms(2) tree_stream_def by (rule tree_loop.run_inv) (rule announced_ok [OF assms(1), THEN conjunct1])
  have tree: "ts_tree ts = tree" using announced_ok [OF assms(1)] assms(2) by simp
  have all: "first_failure rs = None \<longleftrightarrow> list_all (\<lambda>(_, r). \<forall>e. r \<noteq> Err e) rs" for rs
    by (induction rs rule: first_failure.induct) auto
  have "sd_out (tree_close ts) = sd_out (ts_sender ts) @ [SM_TreeEnd tree (tree_error ts)]"
    by (simp add: tree_close_def tree tp_emit_def sd_emit_def sd_send_def Let_def split: option.split)
  moreover have "tree_error ts = first_failure (ts_results ts)" using ok by (simp add: send_tree_ok_def)
  ultimately show ?thesis
    using ok assms(3) all [of "ts_results ts"] by (auto simp: send_tree_ok_def tree_drained_def file_names_def)
qed

text \<open>a folder with one empty file\<close>

definition example_plan :: tree_plan where
  "example_plan = \<lparr>pl_dirs = [], pl_files = [(''a'', [''d'', ''a''], 0)], pl_bytes = 0\<rparr>"

definition example_env :: stream_env where
  "example_env = \<lparr>se_opened = OP_File 0, se_offered = True, se_accept = AC_Accepted, se_start = 0, se_turns = [], se_done = True\<rparr>"

definition example_sender :: sender where
  "example_sender = \<lparr>sd_out = [], sd_events = [], sd_outgoing = [],
     sd_tree = \<lparr>tp_id = 0, tp_name = [], tp_files = 0, tp_total = 0, tp_done = 0, tp_inflight = [], tp_error = None, tp_last = 0\<rparr>\<rparr>"

theorem send_tree_whole_or_error_witness:
  "case tree_announce 7 [''d''] None (Ok example_plan) None 0 1 example_sender of
     Inl _ \<Rightarrow> False
   | Inr ts0 \<Rightarrow>
       sd_out (tree_close (tree_stream id [Launch example_env, Run 0 1, Run 0 2, Run 0 3, Run 0 4] ts0)) =
         [SM_TreeOffer 7 ''d'' 1 0 None, SM_TreeFile 7 1 ''a'' 0, SM_FileDone 1 [], SM_TreeEnd 7 None]"
proof -
  obtain ts0 where a: "tree_announce 7 [''d''] None (Ok example_plan) None 0 1 example_sender = Inr ts0"
    and ts0: "ts_todo ts0 = [(''a'', [''d'', ''a''], 0)]" "ts_running ts0 = []" "ts_next_id ts0 = 1" "ts_results ts0 = []"
      "ts_tree ts0 = 7" "tp_error (sd_tree (ts_sender ts0)) = None" "sd_out (ts_sender ts0) = [SM_TreeOffer 7 ''d'' 1 0 None]"
      "tp_last (sd_tree (ts_sender ts0)) = 0" "tp_inflight (sd_tree (ts_sender ts0)) = []"
    by (simp add: tree_announce_def example_plan_def example_sender_def name_of_def tp_emit_def sd_emit_def sd_send_def Let_def)
  define ts where "ts = tree_stream id [Launch example_env, Run 0 1, Run 0 2, Run 0 3, Run 0 4] ts0"
  note run = ts_def tree_stream_def tree_choose_def tree_launch_def tree_run_def tree_error_def TREE_WINDOW_def
    name_of_def stream_file_def stream_opened_def example_env_def offer_message_def Let_def ts0 drop_nth_def
    perform_def sd_send_def report_active_def file_settled_def report_done_def tp_file_done_def tp_report_def
    progress_due_def PROGRESS_INTERVAL_def
  have res: "ts_results ts = [(''a'', Ok 0)]" and drained: "tree_drained ts"
    and out: "sd_out (ts_sender ts) = [SM_TreeOffer 7 ''d'' 1 0 None, SM_TreeFile 7 1 ''a'' 0, SM_FileDone 1 []]"
    by (simp_all add: run tree_drained_def)
  from send_tree_whole_or_error [OF a ts_def drained, THEN conjunct1]
  show ?thesis unfolding a sum.case ts_def [symmetric] by (simp add: res out)
qed

section \<open>The folder is closed in the end\<close>

definition tree_steps :: "(u8 list \<Rightarrow> u8 list) \<Rightarrow> (tree_sender \<times> tree_sender) set" where
  "tree_steps sha256 = {(ts', ts). \<exists>c. ts' = tree_choose sha256 c ts \<and> ts' \<noteq> ts}"

lemma sum_list_update_less:
  "k < length xs \<Longrightarrow> f y < f (xs ! k) \<Longrightarrow> sum_list (map f (xs[k := y])) < (sum_list (map f xs) :: nat)"
  by (induction xs arbitrary: k) (auto split: nat.split)

lemma sum_list_drop_nth:
  "k < length xs \<Longrightarrow> sum_list (map f (drop_nth k xs)) + f (xs ! k) = (sum_list (map f xs) :: nat)"
  by (subst (3) id_take_nth_drop [of k]) (simp_all add: drop_nth_def)

lemma tree_steps_decrease:
  "tree_steps sha256 \<subseteq>
     measures [\<lambda>ts. length (ts_todo ts), \<lambda>ts. sum_list (map (\<lambda>t. Suc (length (tt_left t))) (ts_running ts))]"
proof
  fix p assume "p \<in> tree_steps sha256"
  then obtain c ts where p: "p = (tree_choose sha256 c ts, ts)" and ne: "tree_choose sha256 c ts \<noteq> ts"
    by (auto simp: tree_steps_def)
  show "p \<in> measures [\<lambda>ts. length (ts_todo ts), \<lambda>ts. sum_list (map (\<lambda>t. Suc (length (tt_left t))) (ts_running ts))]"
  proof (cases c)
    case (Launch env)
    then show ?thesis using ne
      by (auto simp: p tree_choose_def tree_launch_def Let_def split: list.splits prod.splits if_splits)
  next
    case (Run k now)
    then have k: "k < length (ts_running ts)" using ne by (auto simp: tree_choose_def tree_run_def split: if_splits)
    let ?f = "\<lambda>t. Suc (length (tt_left t))" and ?t = "ts_running ts ! k"
    show ?thesis
    proof (cases "tt_left ?t")
      case Nil
      have "sum_list (map ?f (drop_nth k (ts_running ts))) < sum_list (map ?f (ts_running ts))"
        using sum_list_drop_nth [OF k, of ?f] by simp
      then show ?thesis using k Nil by (simp add: p Run tree_choose_def tree_run_def Let_def)
    next
      case (Cons a as)
      have "sum_list (map ?f ((ts_running ts)[k := ?t\<lparr>tt_left := as\<rparr>])) < sum_list (map ?f (ts_running ts))"
        by (rule sum_list_update_less [OF k]) (simp add: Cons)
      then show ?thesis using k Cons by (simp add: p Run tree_choose_def tree_run_def Let_def)
    qed
  qed
qed


end
