(* ===== verification/ConnTask.thy ===== *)
theory ConnTask
  imports Actor SendTree
begin

text \<open>
  The connection tasks of \<open>src/sync/mod.rs\<close>: \<open>dial\<close>, \<open>pair_dial\<close>, the tasks the actor spawns,
  \<open>write_framed\<close>, \<open>run_conn\<close> and its writer, and \<open>reader_loop\<close>. What a \<open>select!\<close> picks is the next
  input. Sockets, TLS and the clocks are arguments: each says how the next call on them ends.
\<close>

section \<open>Opening a connection\<close>

datatype tcp_connect = TC_Timeout | TC_Err string | TC_Ok

text \<open>
  \<open>reach\<close> says how the TCP connection to an address and the handshake on it end; the handshake
  gives the certificates of the peer, if it sent any
\<close>

type_synonym certs = "u8 list list option"

type_synonym reach = "ip_addr \<Rightarrow> u16 \<Rightarrow> tcp_connect \<times> (certs, string) outcome"

definition dial :: "reach \<Rightarrow> ip_addr \<Rightarrow> u16 \<Rightarrow> (certs, string) outcome" where
  "dial reach ip port =
     (case reach ip port of
        (TC_Timeout, _) \<Rightarrow> Err ''timeout''
      | (TC_Err e, _) \<Rightarrow> Err e
      | (TC_Ok, handshake) \<Rightarrow> handshake)"

text \<open>\<open>show\<close> renders the protocol errors, whose texts come from the libraries\<close>

definition pairing_error_text :: "(proto_error \<Rightarrow> string) \<Rightarrow> pairing_error \<Rightarrow> string" where
  "pairing_error_text show e =
     (case e of
        PgE_Proto p \<Rightarrow> ''connection error during pairing: '' @ show p
      | PgE_UnexpectedMessage \<Rightarrow> ''peer sent an unexpected message''
      | PgE_WrongPin \<Rightarrow> ''wrong PIN''
      | PgE_PeerRejected \<Rightarrow> ''pairing rejected by peer (wrong PIN?)'')"

text \<open>the exchange under its time limit: \<open>None\<close> when it is over\<close>

record link =
  ln_in_time :: bool
  ln_writes :: "proto_error option list"
  ln_reads :: "(sync_message, proto_error) outcome list"

definition in_time :: "link \<Rightarrow> 'r proc \<Rightarrow> 'r option" where
  "in_time ln p = (if ln_in_time ln then Some (fst (run_proc p (ln_writes ln) (ln_reads ln))) else None)"

definition pair_dial ::
  "(u8 list \<Rightarrow> u8 list) \<Rightarrow> (u8 list \<Rightarrow> string \<Rightarrow> (string, pairing_error) outcome proc) \<Rightarrow> (proto_error \<Rightarrow> string)
    \<Rightarrow> reach \<Rightarrow> ((ip_addr \<times> u16) list, string) outcome \<Rightarrow> (u8 list, string) outcome \<Rightarrow> link
    \<Rightarrow> string \<Rightarrow> string \<Rightarrow> (string \<times> string \<times> ip_addr, string) outcome" where
  "pair_dial sha256 initiator show reach lookup exporter ln addr pin =
     (case lookup of
        Err e \<Rightarrow> Err (''cannot resolve '' @ addr @ '': '' @ e)
      | Ok [] \<Rightarrow> Err (''cannot resolve '' @ addr)
      | Ok ((ip, port) # _) \<Rightarrow>
          (case dial reach ip port of
             Err e \<Rightarrow> Err (''cannot reach '' @ addr @ '': '' @ e)
           | Ok peer_certs \<Rightarrow>
               (case peer_fingerprint sha256 peer_certs of
                  None \<Rightarrow> Err ''peer sent no certificate''
                | Some peer_fp \<Rightarrow>
                    (case exporter of
                       Err e \<Rightarrow> Err e
                     | Ok e \<Rightarrow>
                         (case in_time ln (initiator e pin) of
                            None \<Rightarrow> Err ''pairing timed out''
                          | Some (Ok peer_name) \<Rightarrow> Ok (peer_fp, peer_name, ip)
                          | Some (Err e) \<Rightarrow> Err (pairing_error_text show e)
                          | Some Panic \<Rightarrow> Panic)
                     | Panic \<Rightarrow> Panic))
           | Panic \<Rightarrow> Panic)
      | Panic \<Rightarrow> Panic)"

text \<open>what the task reports to the actor\<close>

definition pair_dial_task :: "(string \<times> string \<times> ip_addr, string) outcome \<Rightarrow> internal list" where
  "pair_dial_task r =
     (case r of
        Ok (fingerprint, name, ip) \<Rightarrow> [IN_PairingOk fingerprint name ip True]
      | Err msg \<Rightarrow> [IN_PairingErr msg True]
      | Panic \<Rightarrow> [])"

text \<open>an accepted connection: nothing, a connection of the peer with that fingerprint, or a pairing and its report\<close>

datatype accepted = AT_Nothing | AT_Conn string | AT_Report internal

definition accept_task ::
  "(u8 list \<Rightarrow> u8 list) \<Rightarrow> (u8 list \<Rightarrow> string \<Rightarrow> (string, pairing_error) outcome proc) \<Rightarrow> (proto_error \<Rightarrow> string)
    \<Rightarrow> (string, string) hmap \<Rightarrow> string option \<Rightarrow> ip_addr \<Rightarrow> (certs, string) outcome
    \<Rightarrow> (u8 list, string) outcome \<Rightarrow> link \<Rightarrow> accepted" where
  "accept_task sha256 responder show authorized pairing_pin addr handshake exporter ln =
     (case handshake of
        Ok peer_certs \<Rightarrow>
          (case peer_fingerprint sha256 peer_certs of
             None \<Rightarrow> AT_Nothing
           | Some peer_fp \<Rightarrow>
               if hm_get authorized peer_fp \<noteq> None then AT_Conn peer_fp
               else (case (pairing_pin, exporter) of
                   (Some pin, Ok e) \<Rightarrow>
                     (case (case in_time ln (responder e pin) of None \<Rightarrow> Err PgE_UnexpectedMessage | Some r \<Rightarrow> r) of
                        Ok peer_name \<Rightarrow> AT_Report (IN_PairingOk peer_fp peer_name addr False)
                      | Err e \<Rightarrow> AT_Report (IN_PairingErr (pairing_error_text show e) False)
                      | Panic \<Rightarrow> AT_Nothing)
                 | _ \<Rightarrow> AT_Nothing))
      | _ \<Rightarrow> AT_Nothing)"

text \<open>the dial of \<open>maybe_dial\<close>: the first address that answers gives the connection\<close>

fun dial_first :: "reach \<Rightarrow> u16 \<Rightarrow> ip_addr list \<Rightarrow> certs option" where
  "dial_first reach port [] = None"
| "dial_first reach port (ip # candidates) =
     (case dial reach ip port of
        Ok peer_certs \<Rightarrow> Some peer_certs
      | _ \<Rightarrow> dial_first reach port candidates)"

section \<open>Hello\<close>

definition hello_exchange :: "string \<Rightarrow> (string \<times> u16) option proc" where
  "hello_exchange device_name =
     Send (SM_Hello PROTO_VERSION device_name) (\<lambda>w. case w of
       Some _ \<Rightarrow> Return None
     | None \<Rightarrow> Recv (\<lambda>r. case r of Ok (SM_Hello version name) \<Rightarrow> Return (Some (name, version)) | _ \<Rightarrow> Return None))"

section \<open>The writer\<close>

datatype framed = WF_Cancelled | WF_Timeout | WF_Failed proto_error | WF_Written

definition write_framed :: "framed \<Rightarrow> bool" where
  "write_framed w \<longleftrightarrow> w = WF_Written"

datatype writer_input = WI_Cancelled | WI_Closed | WI_Recv | WI_Ping

section \<open>The reader\<close>

datatype send_task = ST_File u64 path offer | ST_Tree u64 path "u64 option"

text \<open>
  \<open>ib_out\<close> of the inbox is what the reader puts on the queue to the writer, \<open>ib_events\<close> what it
  reports; \<open>rd_tasks\<close> the senders it spawned, \<open>rd_layouts\<close> and \<open>rd_clips\<close> what it gave to the
  monitors, \<open>rd_full\<close> how its next \<open>try_send\<close>s end
\<close>

record reader =
  rd_inbox :: inbox
  rd_outgoing :: outgoing_map
  rd_outgoing_drag :: "u64 option"
  rd_peer_version :: u16
  rd_next_id :: u64
  rd_tasks :: "send_task list"
  rd_layouts :: "string list"
  rd_clips :: "clip_apply list"
  rd_full :: "queued list"

text \<open>what the actor shares with its connections\<close>

record shared =
  sh_file_dir :: path
  sh_clipboard_enabled :: bool
  sh_keyboard_enabled :: bool

definition reader_new :: "path \<Rightarrow> path option \<Rightarrow> fs \<Rightarrow> u16 \<Rightarrow> u64 \<Rightarrow> queued list \<Rightarrow> reader" where
  "reader_new dir desktop fs peer_version next_id full =
     \<lparr>rd_inbox = inbox_new dir desktop fs, rd_outgoing = [], rd_outgoing_drag = None,
      rd_peer_version = peer_version, rd_next_id = next_id, rd_tasks = [], rd_layouts = [], rd_clips = [],
      rd_full = full\<rparr>"

definition on_inbox :: "(inbox \<Rightarrow> inbox) \<Rightarrow> reader \<Rightarrow> reader" where
  "on_inbox f r = r\<lparr>rd_inbox := f (rd_inbox r)\<rparr>"

definition rd_emit :: "sync_event \<Rightarrow> reader \<Rightarrow> reader" where
  "rd_emit e = on_inbox (ib_emit e)"

definition rd_queue :: "sync_message \<Rightarrow> reader \<Rightarrow> reader" where
  "rd_queue m = on_inbox (ib_reply m)"

definition rd_try_queue :: "sync_message \<Rightarrow> reader \<Rightarrow> reader" where
  "rd_try_queue m r =
     (let q = (case rd_full r of [] \<Rightarrow> Q_Sent | q # _ \<Rightarrow> q);
          r = r\<lparr>rd_full := tl (rd_full r)\<rparr>
      in if q = Q_Sent then rd_queue m r else r)"

definition rd_fresh_id :: "reader \<Rightarrow> u64 \<times> reader" where
  "rd_fresh_id r = (rd_next_id r, r\<lparr>rd_next_id := rd_next_id r + 1\<rparr>)"

definition start_send :: "path \<Rightarrow> offer \<Rightarrow> reader \<Rightarrow> reader" where
  "start_send p offer r =
     (case rd_fresh_id r of (i, r) \<Rightarrow> r\<lparr>rd_tasks := rd_tasks r @ [ST_File i p offer]\<rparr>)"

definition start_tree :: "path \<Rightarrow> u64 option \<Rightarrow> reader \<Rightarrow> reader" where
  "start_tree p drag r =
     (case rd_fresh_id r of (i, r) \<Rightarrow> r\<lparr>rd_tasks := rd_tasks r @ [ST_Tree i p drag]\<rparr>)"

definition peer_takes_trees :: "reader \<Rightarrow> bool" where
  "peer_takes_trees r \<longleftrightarrow> rd_peer_version r \<ge> PROTO_TREES"

definition older_vylo :: string where
  "older_vylo = ''the other machine runs an older Vylo '' @ [CHR 0xE2, CHR 0x80, CHR 0x94] @ '' update it to receive folders''"

definition refuse_tree :: "path \<Rightarrow> reader \<Rightarrow> reader" where
  "refuse_tree p r =
     (case rd_fresh_id r of (i, r) \<Rightarrow>
        rd_emit (SY_Transfer (tree_status i (name_of ''folder'' p) 0 Sent 0 0 TS_Failed (Some older_vylo))) r)"

subsection \<open>What the actor asks for\<close>

definition ctl_send :: "(path \<Rightarrow> bool) \<Rightarrow> path \<Rightarrow> reader \<Rightarrow> reader" where
  "ctl_send isdir p r =
     (if isdir p then if peer_takes_trees r then start_tree p None r else refuse_tree p r
      else start_send p Offer_Plain r)"

definition drag_dir :: "path \<Rightarrow> path list \<times> reader \<Rightarrow> path list \<times> reader" where
  "drag_dir d s = (case s of (items, r) \<Rightarrow> if peer_takes_trees r then (items @ [d], r) else (items, refuse_tree d r))"

definition drag_item :: "(path \<Rightarrow> bool) \<Rightarrow> u64 \<Rightarrow> path \<Rightarrow> reader \<Rightarrow> reader" where
  "drag_item isdir drag p r = (if isdir p then start_tree p (Some drag) r else start_send p (Offer_Drag drag) r)"

text \<open>\<open>isdir\<close> before and \<open>isdir'\<close> after \<open>DragBegin\<close> is on the queue\<close>

definition ctl_drag :: "(path \<Rightarrow> bool) \<Rightarrow> (path \<Rightarrow> bool) \<Rightarrow> path list \<Rightarrow> reader \<Rightarrow> reader" where
  "ctl_drag isdir isdir' paths r =
     (case fold drag_dir (filter isdir paths) (filter (\<lambda>p. \<not> isdir p) paths, r) of (items, r) \<Rightarrow>
        if items = [] then r
        else
          let (drag, r) = rd_fresh_id r;
              r = rd_queue (SM_DragBegin drag (of_nat (length items))) (r\<lparr>rd_outgoing_drag := Some drag\<rparr>)
          in fold (drag_item isdir' drag) items r)"

definition ctl_end :: "(u64 \<Rightarrow> sync_message) \<Rightarrow> reader \<Rightarrow> reader" where
  "ctl_end msg r =
     (case rd_outgoing_drag r of
        None \<Rightarrow> r
      | Some drag \<Rightarrow> rd_queue (msg drag) (r\<lparr>rd_outgoing_drag := None\<rparr>))"

definition handle_ctl :: "(path \<Rightarrow> bool) \<Rightarrow> (path \<Rightarrow> bool) \<Rightarrow> conn_ctl \<Rightarrow> reader \<Rightarrow> reader" where
  "handle_ctl isdir isdir' ctl r =
     (case ctl of
        CT_SendFiles paths \<Rightarrow> fold (ctl_send isdir) paths r
      | CT_DragFiles paths \<Rightarrow> ctl_drag isdir isdir' paths r
      | CT_DragDrop \<Rightarrow> ctl_end SM_DragDrop r
      | CT_DragCancel \<Rightarrow> ctl_end SM_DragCancel r)"

subsection \<open>What the peer sends\<close>

definition apply_clip :: "shared \<Rightarrow> clip_apply \<Rightarrow> clipboard_kind \<Rightarrow> reader \<Rightarrow> reader" where
  "apply_clip sh a kind r =
     (if sh_clipboard_enabled sh
      then rd_emit (SY_Clipboard Received kind) (r\<lparr>rd_clips := rd_clips r @ [a]\<rparr>) else r)"

definition reader_msg :: "(u8 list \<Rightarrow> u8 list) \<Rightarrow> nat \<Rightarrow> shared \<Rightarrow> sync_message \<Rightarrow> reader \<Rightarrow> reader" where
  "reader_msg sha256 now sh msg r =
     (case msg of
        SM_Ping \<Rightarrow> rd_try_queue SM_Pong r
      | SM_Pong \<Rightarrow> r
      | SM_Hello _ _ \<Rightarrow> r
      | SM_KeyboardLayout lang \<Rightarrow>
          if sh_keyboard_enabled sh then r\<lparr>rd_layouts := rd_layouts r @ [lang]\<rparr> else r
      | SM_ClipText t \<Rightarrow> apply_clip sh (Apply_Text t) CK_Text r
      | SM_ClipImage _ _ png \<Rightarrow> apply_clip sh (Apply_Image png) CK_Image r
      | SM_FileAccept i \<Rightarrow> r\<lparr>rd_outgoing := og_accepted i (rd_outgoing r)\<rparr>
      | SM_FileReject i reason \<Rightarrow> r\<lparr>rd_outgoing := og_rejected i reason (rd_outgoing r)\<rparr>
      | SM_FileCancel i reason \<Rightarrow>
          if \<not> has_transfer i (rd_inbox r) then r\<lparr>rd_outgoing := snd (og_aborted i reason (rd_outgoing r))\<rparr>
          else on_inbox (ib_handle sha256 now msg) r
      | _ \<Rightarrow> if is_inbound_transfer msg then on_inbox (ib_handle sha256 now msg) r else r)"

datatype reader_input =
    RI_Cancelled
  | RI_Ctl "path \<Rightarrow> bool" "path \<Rightarrow> bool" conn_ctl
  | RI_Msg sync_message
  | RI_Failed proto_error
  | RI_Timeout

text \<open>one turn of the loop: whether it goes on\<close>

definition reader_turn ::
  "(u8 list \<Rightarrow> u8 list) \<Rightarrow> nat \<Rightarrow> shared \<Rightarrow> reader_input \<Rightarrow> reader \<Rightarrow> bool \<times> reader" where
  "reader_turn sha256 now sh i r =
     (let r = on_inbox (\<lambda>ib. ib\<lparr>ib_file_dir := sh_file_dir sh\<rparr>) r in
      case i of
        RI_Ctl isdir isdir' ctl \<Rightarrow> (True, handle_ctl isdir isdir' ctl r)
      | RI_Msg msg \<Rightarrow> (True, reader_msg sha256 now sh msg r)
      | _ \<Rightarrow> (False, r))"

text \<open>the loop on the inputs so far: whether it still runs\<close>

primrec reader_loop ::
  "(u8 list \<Rightarrow> u8 list) \<Rightarrow> (nat \<times> shared \<times> reader_input) list \<Rightarrow> reader \<Rightarrow> bool \<times> reader" where
  "reader_loop sha256 [] r = (True, r)"
| "reader_loop sha256 (i # is) r =
     (case i of (now, sh, i) \<Rightarrow>
        (case reader_turn sha256 now sh i r of
           (True, r) \<Rightarrow> reader_loop sha256 is r
         | (False, r) \<Rightarrow> (False, on_inbox ib_close r)))"

section \<open>The connection\<close>

text \<open>
  A connection after the hello: its reader, its writer and the queue between them. \<open>cn_queued\<close> is
  all that was ever put on the queue, of which the writer has taken the first \<open>cn_taken\<close>; the reader
  has put the first \<open>cn_admitted\<close> of its own messages (\<open>ib_out\<close>) there and waits for the others to
  be taken. \<open>cn_reading\<close> and \<open>cn_writing\<close>: the reader, the writer still runs.
\<close>

definition OUT_QUEUE :: nat where "OUT_QUEUE = 32"

record conn =
  cn_id :: u64
  cn_reader :: reader
  cn_reading :: bool
  cn_writing :: bool
  cn_cancelled :: bool
  cn_queued :: "sync_message list"
  cn_taken :: nat
  cn_admitted :: nat
  cn_written :: "sync_message list"

definition queue_length :: "conn \<Rightarrow> nat" where
  "queue_length c = length (cn_queued c) - cn_taken c"

text \<open>the start of \<open>run_conn\<close>: the connection it sets up and what it tells the actor\<close>

definition run_conn ::
  "(u8 list \<Rightarrow> u8 list) \<Rightarrow> certs \<Rightarrow> link \<Rightarrow> bool \<Rightarrow> u64 \<Rightarrow> string \<Rightarrow> (u16 \<Rightarrow> reader) \<Rightarrow> (internal \<times> conn) option" where
  "run_conn sha256 peer_certs ln outbound i device_name reader =
     (case peer_fingerprint sha256 peer_certs of
        None \<Rightarrow> None
      | Some peer_fp \<Rightarrow>
          (case fst (run_proc (hello_exchange device_name) (ln_writes ln) (ln_reads ln)) of
             None \<Rightarrow> None
           | Some (peer_name, peer_version) \<Rightarrow>
               Some (IN_Established i peer_fp peer_name outbound,
                 \<lparr>cn_id = i, cn_reader = reader peer_version, cn_reading = True, cn_writing = True,
                  cn_cancelled = False, cn_queued = [], cn_taken = 0, cn_admitted = 0, cn_written = []\<rparr>)))"

text \<open>the end of \<open>run_conn\<close>\<close>

definition conn_closed :: "conn \<Rightarrow> internal list" where
  "conn_closed c = (if cn_reading c \<or> cn_writing c then [] else [IN_ConnClosed (cn_id c)])"

definition writer_stop :: "conn \<Rightarrow> conn" where
  "writer_stop c = c\<lparr>cn_writing := False, cn_cancelled := True\<rparr>"

definition write_next :: "framed \<Rightarrow> sync_message \<Rightarrow> conn \<Rightarrow> conn" where
  "write_next w msg c =
     (if write_framed w then c\<lparr>cn_written := cn_written c @ [msg]\<rparr> else writer_stop c)"

text \<open>one turn of the writer, with how the write of its message ends\<close>

definition writer_turn :: "writer_input \<Rightarrow> framed \<Rightarrow> conn \<Rightarrow> conn" where
  "writer_turn i w c =
     (case i of
        WI_Cancelled \<Rightarrow> if cn_cancelled c then writer_stop c else c
      | WI_Closed \<Rightarrow> writer_stop c
      | WI_Recv \<Rightarrow>
          if cn_taken c < length (cn_queued c)
          then write_next w (cn_queued c ! cn_taken c) (c\<lparr>cn_taken := cn_taken c + 1\<rparr>) else c
      | WI_Ping \<Rightarrow> write_next w SM_Ping c)"

text \<open>
  \<open>send\<close> on the queue ends when there is room or when the writer is gone, \<open>try_send\<close> fails when
  there is none
\<close>

definition conn_put :: "sync_message \<Rightarrow> conn \<Rightarrow> conn" where
  "conn_put msg c =
     (if cn_writing c \<and> queue_length c < OUT_QUEUE then c\<lparr>cn_queued := cn_queued c @ [msg]\<rparr> else c)"

definition reader_waits :: "conn \<Rightarrow> bool" where
  "reader_waits c \<longleftrightarrow> cn_admitted c < length (ib_out (rd_inbox (cn_reader c)))"

definition conn_admit :: "conn \<Rightarrow> conn" where
  "conn_admit c =
     (if reader_waits c \<and> (queue_length c < OUT_QUEUE \<or> \<not> cn_writing c)
      then (conn_put (ib_out (rd_inbox (cn_reader c)) ! cn_admitted c) c)\<lparr>cn_admitted := cn_admitted c + 1\<rparr>
      else c)"

definition queue_state :: "conn \<Rightarrow> queued" where
  "queue_state c = (if \<not> cn_writing c then Q_Closed else if queue_length c < OUT_QUEUE then Q_Sent else Q_Full)"

definition conn_read :: "(u8 list \<Rightarrow> u8 list) \<Rightarrow> nat \<Rightarrow> shared \<Rightarrow> reader_input \<Rightarrow> conn \<Rightarrow> conn" where
  "conn_read sha256 now sh i c =
     (if \<not> cn_reading c \<or> reader_waits c \<or> (i = RI_Cancelled \<and> \<not> cn_cancelled c) then c
      else case reader_loop sha256 [(now, sh, i)] ((cn_reader c)\<lparr>rd_full := [queue_state c]\<rparr>) of
             (True, r) \<Rightarrow> c\<lparr>cn_reader := r\<rparr>
           | (False, r) \<Rightarrow> c\<lparr>cn_reader := r, cn_reading := False, cn_cancelled := True\<rparr>)"

datatype conn_input =
    CI_Read nat shared reader_input
  | CI_Admit
  | CI_Put sync_message
  | CI_Write writer_input framed
  | CI_Cancel

definition conn_turn :: "(u8 list \<Rightarrow> u8 list) \<Rightarrow> conn_input \<Rightarrow> conn \<Rightarrow> conn" where
  "conn_turn sha256 i c =
     (case i of
        CI_Read now sh i \<Rightarrow> conn_read sha256 now sh i c
      | CI_Admit \<Rightarrow> conn_admit c
      | CI_Put msg \<Rightarrow> conn_put msg c
      | CI_Write i w \<Rightarrow> if cn_writing c then writer_turn i w c else c
      | CI_Cancel \<Rightarrow> c\<lparr>cn_cancelled := True\<rparr>)"

definition conn_run :: "(u8 list \<Rightarrow> u8 list) \<Rightarrow> conn_input list \<Rightarrow> conn \<Rightarrow> conn" where
  "conn_run sha256 is c = fold (conn_turn sha256) is c"

end
