(* ===== verification/ConnSafety.thy ===== *)
theory ConnSafety
  imports ConnTask InboxSafety
begin

text \<open>
  What the connection tasks guarantee: which certificate a pairing pins, the order in which the
  peer gets what is queued for it, and the messages of a drag across the machines.
\<close>

section \<open>Pairing and accepting\<close>

lemma peer_fingerprint_Some:
  "peer_fingerprint sha256 cs = Some fp \<longleftrightarrow> (\<exists>c rest. cs = Some (c # rest) \<and> fp = generate_fingerprint sha256 c)"
  by (auto simp: peer_fingerprint_def split: option.splits list.splits)

lemma in_time_Some: "in_time ln p = Some r \<longleftrightarrow> ln_in_time ln \<and> fst (run_proc p (ln_writes ln) (ln_reads ln)) = r"
  by (auto simp: in_time_def)

lemma dial_Ok: "dial reach ip port = Ok cs \<longleftrightarrow> reach ip port = (TC_Ok, Ok cs)"
  by (auto simp: dial_def split: prod.splits tcp_connect.splits)

text \<open>the ways a task ends well\<close>

lemma accept_task_Conn:
  "accept_task sha256 resp show authorized pin addr handshake exporter ln = AT_Conn fp \<Longrightarrow>
     \<exists>c rest. handshake = Ok (Some (c # rest)) \<and> fp = generate_fingerprint sha256 c \<and> hm_get authorized fp \<noteq> None"
  by (auto simp: accept_task_def peer_fingerprint_Some split: outcome.splits option.splits if_splits)

lemma accept_task_PairingOk:
  assumes "accept_task sha256 resp show authorized pin addr handshake exporter ln = AT_Report (IN_PairingOk fp name a ini)"
  shows "\<exists>c rest p e. handshake = Ok (Some (c # rest)) \<and> fp = generate_fingerprint sha256 c \<and> hm_get authorized fp = None \<and>
     pin = Some p \<and> exporter = Ok e \<and> a = addr \<and> \<not> ini \<and> in_time ln (resp e p) = Some (Ok name)"
  using assms
  by (auto simp: accept_task_def peer_fingerprint_Some split: outcome.splits option.splits if_splits)

lemma pair_dial_Ok:
  assumes "pair_dial sha256 initiator show reach lookup exporter ln addr pin = Ok (fp, name, ip)"
  shows "\<exists>port more c rest e. lookup = Ok ((ip, port) # more) \<and> reach ip port = (TC_Ok, Ok (Some (c # rest))) \<and>
     fp = generate_fingerprint sha256 c \<and> exporter = Ok e \<and> in_time ln (initiator e pin) = Some (Ok name)"
  using assms
  by (auto simp: pair_dial_def peer_fingerprint_Some dial_Ok
      split: outcome.splits option.splits list.splits prod.splits)

text \<open>
  \<^bold>\<open>C2.\<close> A connection task trusts a peer only for the certificate of its own TLS session. An
  accepted connection carries data only when the fingerprint of that certificate is authorized; and
  a pairing is reported, on either side, only for that fingerprint and after the other end gave a
  tag over the keying material of this very session, under the key the PIN gives. The side that
  accepts reports none when no pairing window was open, and none of a peer it knows already.
\<close>

theorem pairing_pins_session:
  assumes "\<And>rnd pin. length (hmac rnd pin) = 32"
    and "\<forall>mac. Ok (SM_PairConfirmA mac) \<in> set (ln_reads ln) \<or> Ok (SM_PairConfirmB mac) \<in> set (ln_reads ln) \<longrightarrow> length mac = 32"
  shows "(accept_task sha256 (\<lambda>e p. run_responder start finish hmac rnd e p device) show authorized pin addr handshake exporter ln
         = AT_Conn fp \<longrightarrow>
       (\<exists>c rest. handshake = Ok (Some (c # rest)) \<and> fp = generate_fingerprint sha256 c \<and> hm_get authorized fp \<noteq> None)) \<and>
    (accept_task sha256 (\<lambda>e p. run_responder start finish hmac rnd e p device) show authorized pin addr handshake exporter ln
         = AT_Report (IN_PairingOk fp name a ini) \<longrightarrow>
       (\<exists>c rest p e msg key. handshake = Ok (Some (c # rest)) \<and> fp = generate_fingerprint sha256 c \<and>
          hm_get authorized fp = None \<and> a = addr \<and> \<not> ini \<and> pin = Some p \<and> exporter = Ok e \<and>
          Ok (SM_PairStart msg name) \<in> set (ln_reads ln) \<and> finish (fst (start p PAIRING_IDENTITY rnd)) msg = Some key \<and>
          Ok (SM_PairConfirmA (hmac key (CONFIRM_A @ e))) \<in> set (ln_reads ln))) \<and>
    (pair_dial sha256 (\<lambda>e p. run_initiator start finish hmac rnd e p device) show reach lookup exporter ln host p'
         = Ok (fp, name, ip) \<longrightarrow>
       (\<exists>port more c rest e msg key. lookup = Ok ((ip, port) # more) \<and> reach ip port = (TC_Ok, Ok (Some (c # rest))) \<and>
          fp = generate_fingerprint sha256 c \<and> exporter = Ok e \<and>
          Ok (SM_PairResponse msg name) \<in> set (ln_reads ln) \<and> finish (fst (start p' PAIRING_IDENTITY rnd)) msg = Some key \<and>
          Ok (SM_PairConfirmB (hmac key (CONFIRM_B @ e))) \<in> set (ln_reads ln)))"
proof (intro conjI impI)
  have proof_A: "\<exists>msg key. Ok (SM_PairStart msg name) \<in> set (ln_reads ln) \<and> finish (fst (start p PAIRING_IDENTITY rnd)) msg = Some key \<and>
      Ok (SM_PairConfirmA (hmac key (CONFIRM_A @ e))) \<in> set (ln_reads ln)"
    if "in_time ln (run_responder start finish hmac rnd e p device) = Some (Ok name)" for e p
  proof -
    obtain s m where st: "start p PAIRING_IDENTITY rnd = (s, m)" by fastforce
    from that obtain out where "run_proc (run_responder start finish hmac rnd e p device) (ln_writes ln) (ln_reads ln) = (Ok name, out)"
      by (auto simp: in_time_Some prod_eq_iff)
    from run_responder_Ok [OF this st] st show ?thesis
      using assms(2) by (auto simp: mac_matches_eq confirm_mac_def assms(1))
  qed
  have proof_B: "\<exists>msg key. Ok (SM_PairResponse msg name) \<in> set (ln_reads ln) \<and> finish (fst (start p PAIRING_IDENTITY rnd)) msg = Some key \<and>
      Ok (SM_PairConfirmB (hmac key (CONFIRM_B @ e))) \<in> set (ln_reads ln)"
    if "in_time ln (run_initiator start finish hmac rnd e p device) = Some (Ok name)" for e p
  proof -
    obtain s m where st: "start p PAIRING_IDENTITY rnd = (s, m)" by fastforce
    from that obtain out where "run_proc (run_initiator start finish hmac rnd e p device) (ln_writes ln) (ln_reads ln) = (Ok name, out)"
      by (auto simp: in_time_Some prod_eq_iff)
    from run_initiator_Ok [OF this st] st show ?thesis
      using assms(2) by (auto simp: mac_matches_eq confirm_mac_def assms(1))
  qed
  show "\<exists>c rest. handshake = Ok (Some (c # rest)) \<and> fp = generate_fingerprint sha256 c \<and> hm_get authorized fp \<noteq> None"
    if "accept_task sha256 (\<lambda>e p. run_responder start finish hmac rnd e p device) show authorized pin addr handshake exporter ln = AT_Conn fp"
    using accept_task_Conn [OF that] .
  show "\<exists>c rest p e msg key. handshake = Ok (Some (c # rest)) \<and> fp = generate_fingerprint sha256 c \<and>
      hm_get authorized fp = None \<and> a = addr \<and> \<not> ini \<and> pin = Some p \<and> exporter = Ok e \<and>
      Ok (SM_PairStart msg name) \<in> set (ln_reads ln) \<and> finish (fst (start p PAIRING_IDENTITY rnd)) msg = Some key \<and>
      Ok (SM_PairConfirmA (hmac key (CONFIRM_A @ e))) \<in> set (ln_reads ln)"
    if "accept_task sha256 (\<lambda>e p. run_responder start finish hmac rnd e p device) show authorized pin addr handshake exporter ln
        = AT_Report (IN_PairingOk fp name a ini)"
  proof -
    from accept_task_PairingOk [OF that] obtain c rest p e where
      "handshake = Ok (Some (c # rest))" "fp = generate_fingerprint sha256 c" "hm_get authorized fp = None" "pin = Some p"
      "exporter = Ok e" "a = addr" "\<not> ini"
      and ok: "in_time ln (run_responder start finish hmac rnd e p device) = Some (Ok name)" by blast
    moreover from proof_A [OF ok] obtain msg key where
      "Ok (SM_PairStart msg name) \<in> set (ln_reads ln)" "finish (fst (start p PAIRING_IDENTITY rnd)) msg = Some key"
      "Ok (SM_PairConfirmA (hmac key (CONFIRM_A @ e))) \<in> set (ln_reads ln)" by blast
    ultimately show ?thesis by (intro exI conjI)
  qed
  show "\<exists>port more c rest e msg key. lookup = Ok ((ip, port) # more) \<and> reach ip port = (TC_Ok, Ok (Some (c # rest))) \<and>
      fp = generate_fingerprint sha256 c \<and> exporter = Ok e \<and>
      Ok (SM_PairResponse msg name) \<in> set (ln_reads ln) \<and> finish (fst (start p' PAIRING_IDENTITY rnd)) msg = Some key \<and>
      Ok (SM_PairConfirmB (hmac key (CONFIRM_B @ e))) \<in> set (ln_reads ln)"
    if "pair_dial sha256 (\<lambda>e p. run_initiator start finish hmac rnd e p device) show reach lookup exporter ln host p' = Ok (fp, name, ip)"
  proof -
    from pair_dial_Ok [OF that] obtain port more c rest e where
      "lookup = Ok ((ip, port) # more)" "reach ip port = (TC_Ok, Ok (Some (c # rest)))"
      "fp = generate_fingerprint sha256 c" "exporter = Ok e"
      and ok: "in_time ln (run_initiator start finish hmac rnd e p' device) = Some (Ok name)" by blast
    moreover from proof_B [OF ok] obtain msg key where
      "Ok (SM_PairResponse msg name) \<in> set (ln_reads ln)" "finish (fst (start p' PAIRING_IDENTITY rnd)) msg = Some key"
      "Ok (SM_PairConfirmB (hmac key (CONFIRM_B @ e))) \<in> set (ln_reads ln)" by blast
    ultimately show ?thesis by (intro exI conjI)
  qed
qed

definition example_link :: link where
  "example_link = \<lparr>ln_in_time = True, ln_writes = [],
     ln_reads = [Ok (SM_PairStart [2] ''bob''), Ok (SM_PairConfirmA (toy_hmac (map of_char ''12'') (CONFIRM_A @ [7])))]\<rparr>"

theorem pairing_pins_session_witness:
  "(let fp = generate_fingerprint (\<lambda>b. b) [1] in
    accept_task (\<lambda>b. b) (\<lambda>e p. run_responder toy_start toy_finish toy_hmac 1 e p ''alice'') (\<lambda>_. []) []
      (Some ''12'') (V4 0) (Ok (Some [[1]])) (Ok [7]) example_link = AT_Report (IN_PairingOk fp ''bob'' (V4 0) False) \<and>
    (\<exists>msg key. Ok (SM_PairStart msg ''bob'') \<in> set (ln_reads example_link) \<and> toy_finish (map of_char ''12'') msg = Some key))"
proof -
  have len: "length (toy_hmac key m) = 32" for key m by (simp add: toy_hmac_def)
  let ?accept = "accept_task (\<lambda>b. b) (\<lambda>e p. run_responder toy_start toy_finish toy_hmac 1 e p ''alice'') (\<lambda>_. []) []
      (Some ''12'') (V4 0) (Ok (Some [[1]])) (Ok [7]) example_link"
  have ok: "?accept = AT_Report (IN_PairingOk (generate_fingerprint (\<lambda>b. b) [1]) ''bob'' (V4 0) False)"
    by (simp add: accept_task_def peer_fingerprint_def in_time_def example_link_def run_responder_def pair_send_def
        pair_recv_def toy_start_def toy_finish_def mac_matches_eq confirm_mac_def len hm_get_def)
  have lens: "\<forall>mac. Ok (SM_PairConfirmA mac) \<in> set (ln_reads example_link) \<or> Ok (SM_PairConfirmB mac) \<in> set (ln_reads example_link)
      \<longrightarrow> length mac = 32"
    by (simp add: example_link_def len)
  from pairing_pins_session [THEN conjunct2, THEN conjunct1, rule_format, OF len lens [rule_format] ok] ok
  show ?thesis by (auto simp: toy_start_def Let_def)
qed

section \<open>What the inbox sends back\<close>

fun is_reply :: "sync_message \<Rightarrow> bool" where
  "is_reply (SM_FileAccept _) = True"
| "is_reply (SM_FileReject _ _) = True"
| "is_reply (SM_FileCancel _ _) = True"
| "is_reply _ = False"

definition outs :: "sync_message list \<Rightarrow> inbox \<Rightarrow> bool" where
  "outs l ib \<longleftrightarrow> (\<exists>ms. ib_out ib = l @ ms \<and> list_all is_reply ms)"

named_theorems outs_intros

lemma outs_same: "outs (ib_out ib) ib"
  by (simp add: outs_def)

lemma outs_fields [simp]:
  "outs l (ib_emit e ib) \<longleftrightarrow> outs l ib" "outs l (do_fs f ib) \<longleftrightarrow> outs l ib" "outs l (put_recv i t ib) \<longleftrightarrow> outs l ib"
  "outs l (del_recv i ib) \<longleftrightarrow> outs l ib" "outs l (put_tree i tr ib) \<longleftrightarrow> outs l ib" "outs l (del_tree i ib) \<longleftrightarrow> outs l ib"
  "outs l (on_tree i g ib) \<longleftrightarrow> outs l ib" "outs l (remove_opt p ib) \<longleftrightarrow> outs l ib" "outs l (ib\<lparr>ib_drag := d\<rparr>) \<longleftrightarrow> outs l ib"
  "outs l (ib\<lparr>ib_recv := rs\<rparr>) \<longleftrightarrow> outs l ib" "outs l (ib\<lparr>ib_trees := ts\<rparr>) \<longleftrightarrow> outs l ib"
  "outs l (ib\<lparr>ib_file_dir := dir\<rparr>) \<longleftrightarrow> outs l ib" "outs l (report_failed i t reason ib) \<longleftrightarrow> outs l ib"
  by (auto simp: outs_def ib_emit_def do_fs_def on_fs_def put_recv_def del_recv_def put_tree_def del_tree_def on_tree_def
      remove_opt_def report_failed_def split: prod.splits option.splits)

lemma outs_on_fs: "on_fs f ib = (r, ib') \<Longrightarrow> outs l ib' \<longleftrightarrow> outs l ib"
  by (auto simp: outs_def on_fs_def split: prod.splits)

lemma outs_reply [simp]: "is_reply m \<Longrightarrow> outs l ib \<Longrightarrow> outs l (ib_reply m ib)"
  by (auto simp: outs_def ib_reply_def)

lemma outs_fold: "outs l ib \<Longrightarrow> (\<And>x ib. outs l ib \<Longrightarrow> outs l (f x ib)) \<Longrightarrow> outs l (fold f xs ib)"
  by (rule fold_inv [where P = "outs l"]) auto

lemma outs_place: "outs l (snd s) \<Longrightarrow> outs l (snd (place_item dest it s))"
  by (auto simp: place_item_def Let_def outs_on_fs split: prod.splits)

lemma outs_places: "outs l ib \<Longrightarrow> outs l (snd (fold (place_item dest) its (p, ib)))"
  by (rule fold_inv [where P = "\<lambda>s. outs l (snd s)"]) (auto simp: outs_place)

lemma outs_finalize_drag [outs_intros]: "outs l ib \<Longrightarrow> outs l (try_finalize_drag ib)"
proof (cases "ib_drag ib")
  case (Some d)
  assume l: "outs l ib"
  obtain p ib' where f: "fold (place_item (drop_dest ib)) (id_done d)
      ([], do_fs (create_dir_all (drop_dest ib)) (ib\<lparr>ib_drag := None\<rparr>)) = (p, ib')" by fastforce
  have "outs l ib'" using outs_places [of l "do_fs (create_dir_all (drop_dest ib)) (ib\<lparr>ib_drag := None\<rparr>)"] f l
    by (metis outs_fields(2,9) snd_conv)
  then show ?thesis using l Some f by (simp add: try_finalize_drag_def Let_def)
qed (simp add: try_finalize_drag_def)

lemma outs_for_drag [outs_intros]: "outs l ib \<Longrightarrow> outs l (for_drag d f ib)"
  by (auto simp: for_drag_def intro!: outs_intros split: option.splits)

lemma outs_finalize_tree [outs_intros]: "outs l ib \<Longrightarrow> outs l (try_finalize_tree tree ib)"
  by (auto simp: try_finalize_tree_def tree_failed_def tree_staged_def tree_placed_def Let_def outs_on_fs
      intro!: outs_intros split: option.splits prod.splits)

lemma outs_settle_failure [outs_intros]: "outs l ib \<Longrightarrow> outs l (settle_failure t i reason ib)"
  by (auto simp: settle_failure_def Let_def intro!: outs_intros split: option.splits)

lemma outs_accept_offer [outs_intros]: "outs l ib \<Longrightarrow> outs l (snd (accept_offer now dir i name whole drag tree ib))"
  by (auto simp: accept_offer_def Let_def outs_on_fs split: prod.splits outcome.splits)

lemma outs_accept_offer_eq: "accept_offer now dir i name whole drag tree ib = (ok, ib') \<Longrightarrow> outs l ib \<Longrightarrow> outs l ib'"
  using outs_accept_offer [of l ib now dir i name whole drag tree] by simp

lemma outs_tree_begin [outs_intros]: "outs l ib \<Longrightarrow> outs l (tree_begin now tree name files bytes drag parent staging ib)"
  by (auto simp: tree_begin_def Let_def outs_on_fs split: option.splits prod.splits)

lemma outs_tree_parent: "tree_parent tree drag ib = (p, ib') \<Longrightarrow> outs l ib' \<longleftrightarrow> outs l ib"
  by (auto simp: tree_parent_def Let_def split: option.splits if_splits)

lemma outs_tree_offer [outs_intros]: "outs l ib \<Longrightarrow> outs l (tree_offer now tree name files bytes drag ib)"
  by (auto simp: tree_offer_def outs_tree_parent intro!: outs_intros split: prod.splits option.splits)

lemma outs_tree_dir [outs_intros]: "outs l ib \<Longrightarrow> outs l (tree_dir tree rel ib)"
  by (auto simp: tree_dir_def Let_def outs_on_fs split: option.splits prod.splits)

lemma outs_tree_file [outs_intros]: "outs l ib \<Longrightarrow> outs l (tree_file now tree i rel whole ib)"
  by (auto simp: tree_file_def Let_def dest: outs_accept_offer_eq [where l = l] split: option.splits prod.splits bool.splits)

lemma outs_write_chunk: "write_chunk offset data t ib = (e, t', ib') \<Longrightarrow> outs l ib' \<longleftrightarrow> outs l ib"
  by (auto simp: write_chunk_def Let_def outs_on_fs split: prod.splits if_splits)

lemma outs_report_progress [simp]: "outs l (report_progress now i t ib) \<longleftrightarrow> outs l ib"
  by (auto simp: report_progress_def Let_def split: option.splits prod.splits)

lemma outs_chunk [outs_intros]: "outs l ib \<Longrightarrow> outs l (chunk now i offset data ib)"
  by (auto simp: chunk_def outs_write_chunk intro!: outs_intros split: option.splits prod.splits)

lemma outs_file_done [outs_intros]: "outs l ib \<Longrightarrow> outs l (file_done sha256 i h ib)"
  by (auto simp: file_done_def Let_def outs_on_fs intro!: outs_intros split: option.splits prod.splits)

lemma outs_file_cancel [outs_intros]: "outs l ib \<Longrightarrow> outs l (file_cancel i reason ib)"
  by (auto simp: file_cancel_def intro!: outs_intros split: option.splits)

lemma outs_drop_recv [outs_intros]: "outs l ib \<Longrightarrow> outs l (drop_recv i ib)"
  by (auto simp: drop_recv_def split: option.splits)

lemma outs_discard_drag [outs_intros]: "outs l ib \<Longrightarrow> outs l (discard_drag d ib)"
  by (auto simp: discard_drag_def discard_tree_def Let_def intro!: outs_intros outs_fold split: option.splits)

lemma outs_drag_begin [outs_intros]: "outs l ib \<Longrightarrow> outs l (drag_begin drag n ib)"
  by (auto simp: drag_begin_def Let_def outs_on_fs intro!: outs_intros split: option.splits prod.splits)

lemma outs_drag_offer [outs_intros]: "outs l ib \<Longrightarrow> outs l (drag_offer now drag i name whole ib)"
  by (auto simp: drag_offer_def dest: outs_accept_offer_eq [where l = l] intro!: outs_intros split: option.splits prod.splits bool.splits)

lemma outs_handle [outs_intros]: "outs l ib \<Longrightarrow> outs l (ib_handle sha256 now m ib)"
  by (cases m) (auto simp: drag_cancel_def tree_end_def Let_def intro!: outs_intros split: option.splits)

lemma outs_close [outs_intros]: "outs l ib \<Longrightarrow> outs l (ib_close ib)"
  by (auto simp: ib_close_def close_recv_def close_tree_def Let_def intro!: outs_fold split: option.splits prod.splits)

section \<open>Drags across the machines\<close>

text \<open>the drag that is open after these messages; \<open>None\<close> when one ends a drag that is not open\<close>

fun drag_log :: "sync_message list \<Rightarrow> u64 option \<Rightarrow> u64 option option" where
  "drag_log [] cur = Some cur"
| "drag_log (SM_DragBegin drag n # ms) cur = drag_log ms (Some drag)"
| "drag_log (SM_DragDrop drag # ms) cur = (if cur = Some drag then drag_log ms None else None)"
| "drag_log (SM_DragCancel drag # ms) cur = (if cur = Some drag then drag_log ms None else None)"
| "drag_log (_ # ms) cur = drag_log ms cur"

fun announced :: "u64 \<Rightarrow> sync_message list \<Rightarrow> u32" where
  "announced drag [] = 0"
| "announced drag (SM_DragBegin d n # ms) = (if d = drag then n else 0) + announced drag ms"
| "announced drag (_ # ms) = announced drag ms"

fun task_drag :: "send_task \<Rightarrow> u64 option" where
  "task_drag (ST_File _ _ (Offer_Drag drag)) = Some drag"
| "task_drag (ST_File _ _ _) = None"
| "task_drag (ST_Tree _ _ drag) = drag"

fun is_tree_task :: "send_task \<Rightarrow> bool" where
  "is_tree_task (ST_Tree _ _ _) = True"
| "is_tree_task _ = False"

definition tasks_of :: "u64 \<Rightarrow> reader \<Rightarrow> nat" where
  "tasks_of drag r = length (filter (\<lambda>t. task_drag t = Some drag) (rd_tasks r))"

definition reader_ok :: "bool \<Rightarrow> reader \<Rightarrow> bool" where
  "reader_ok trees r \<longleftrightarrow>
     drag_log (ib_out (rd_inbox r)) None = Some (rd_outgoing_drag r) \<and>
     (\<forall>drag. announced drag (ib_out (rd_inbox r)) = of_nat (tasks_of drag r)) \<and>
     (\<not> trees \<longrightarrow> \<not> list_ex is_tree_task (rd_tasks r)) \<and> peer_takes_trees r = trees"

lemma drag_log_append: "drag_log (xs @ ys) cur = Option.bind (drag_log xs cur) (drag_log ys)"
  by (induction xs cur rule: drag_log.induct) auto

lemma announced_append: "announced drag (xs @ ys) = announced drag xs + announced drag ys"
  by (induction drag xs rule: announced.induct) auto

fun is_drag_msg :: "sync_message \<Rightarrow> bool" where
  "is_drag_msg (SM_DragBegin _ _) = True"
| "is_drag_msg (SM_DragDrop _) = True"
| "is_drag_msg (SM_DragCancel _) = True"
| "is_drag_msg _ = False"

lemma other_msgs:
  assumes "list_all (\<lambda>m. \<not> is_drag_msg m) ms"
  shows "drag_log ms cur = Some cur" "announced drag ms = 0"
  using assms
proof -
  show "drag_log ms cur = Some cur" using assms by (induction ms cur rule: drag_log.induct) auto
  show "announced drag ms = 0" using assms by (induction drag ms rule: announced.induct) auto
qed

lemma reply_no_drag: "is_reply m \<Longrightarrow> \<not> is_drag_msg m"
  by (cases m) auto

text \<open>what the inbox and \<open>Pong\<close> add to the queue does not matter\<close>

lemma reader_ok_outs:
  assumes "reader_ok trees r" "ib_out (rd_inbox r') = ib_out (rd_inbox r) @ ms" "list_all (\<lambda>m. \<not> is_drag_msg m) ms"
    and "rd_tasks r' = rd_tasks r" "rd_outgoing_drag r' = rd_outgoing_drag r" "rd_peer_version r' = rd_peer_version r"
  shows "reader_ok trees r'"
  using assms
  by (simp add: reader_ok_def tasks_of_def peer_takes_trees_def drag_log_append announced_append other_msgs)

lemma reader_ok_on_inbox:
  assumes "reader_ok trees r" "\<And>ib. outs (ib_out ib) (f ib)"
  shows "reader_ok trees (on_inbox f r)"
proof -
  obtain ms where "ib_out (f (rd_inbox r)) = ib_out (rd_inbox r) @ ms" "list_all is_reply ms"
    using assms(2) [of "rd_inbox r"] by (auto simp: outs_def)
  then show ?thesis
    by (intro reader_ok_outs [OF assms(1), of _ ms]) (auto simp: on_inbox_def list_all_iff reply_no_drag)
qed

lemma reader_ok_refuse: "reader_ok trees r \<Longrightarrow> reader_ok trees (refuse_tree p r)"
  by (rule reader_ok_outs [where ms = "[]"]) (auto simp: refuse_tree_def rd_fresh_id_def rd_emit_def on_inbox_def ib_emit_def)

lemma reader_ok_ctl_send:
  assumes "reader_ok trees r"
  shows "reader_ok trees (ctl_send isdir p r)"
proof (cases "isdir p \<and> \<not> peer_takes_trees r")
  case True
  then show ?thesis by (simp add: ctl_send_def reader_ok_refuse assms)
next
  case False
  then show ?thesis using assms
    by (auto simp: ctl_send_def start_tree_def start_send_def rd_fresh_id_def reader_ok_def tasks_of_def peer_takes_trees_def)
qed

lemma reader_ok_ctl_end: "reader_ok trees r \<Longrightarrow> msg = SM_DragDrop \<or> msg = SM_DragCancel \<Longrightarrow> reader_ok trees (ctl_end msg r)"
  by (auto simp: ctl_end_def reader_ok_def rd_queue_def on_inbox_def ib_reply_def drag_log_append announced_append
      tasks_of_def peer_takes_trees_def split: option.split)

text \<open>the items of a drag: the folders are dropped for a peer that does not take them\<close>

lemma drag_dirs:
  assumes "fold drag_dir ds (items, r) = (items', r')" "reader_ok trees r"
  shows "reader_ok trees r' \<and> (\<forall>p \<in> set items'. p \<in> set items \<or> trees \<and> p \<in> set ds)"
  using assms
proof (induction ds arbitrary: items r)
  case (Cons d ds)
  from Cons.prems(2) have "peer_takes_trees r = trees" by (simp add: reader_ok_def)
  then have step: "fold drag_dir ds (if trees then (items @ [d], r) else (items, refuse_tree d r)) = (items', r')"
    using Cons.prems(1) by (auto simp: drag_dir_def [of d "(items, r)"])
  show ?case
    using Cons.IH [of "items @ [d]" r] Cons.IH [of items "refuse_tree d r"] step Cons.prems(2) reader_ok_refuse [OF Cons.prems(2)]
    by (cases trees) auto
qed simp

lemma drag_items:
  "rd_inbox (fold (drag_item isdir drag) ps r) = rd_inbox r"
  "rd_outgoing_drag (fold (drag_item isdir drag) ps r) = rd_outgoing_drag r"
  "rd_peer_version (fold (drag_item isdir drag) ps r) = rd_peer_version r"
  "tasks_of d (fold (drag_item isdir drag) ps r) = tasks_of d r + (if d = drag then length ps else 0)"
  "\<forall>p \<in> set ps. \<not> isdir p \<Longrightarrow> \<not> list_ex is_tree_task (rd_tasks r) \<Longrightarrow>
     \<not> list_ex is_tree_task (rd_tasks (fold (drag_item isdir drag) ps r))"
  by (induction ps arbitrary: r) (auto simp: drag_item_def start_tree_def start_send_def rd_fresh_id_def tasks_of_def)

lemma reader_ok_ctl_drag:
  assumes "reader_ok trees r" "isdir' = isdir"
  shows "reader_ok trees (ctl_drag isdir isdir' paths r)"
proof -
  obtain items r' where f: "fold drag_dir (filter isdir paths) (filter (\<lambda>p. \<not> isdir p) paths, r) = (items, r')" by fastforce
  from drag_dirs [OF f assms(1)] have ok: "reader_ok trees r'" and sub: "\<not> trees \<longrightarrow> (\<forall>p \<in> set items. \<not> isdir p)" by auto
  show ?thesis
  proof (cases "items = []")
    case False
    define drag where "drag = rd_next_id r'"
    define r'' where "r'' = rd_queue (SM_DragBegin drag (of_nat (length items)))
      (r'\<lparr>rd_next_id := drag + 1, rd_outgoing_drag := Some drag\<rparr>)"
    have c: "ctl_drag isdir isdir' paths r = fold (drag_item isdir drag) items r''"
      using False by (simp add: ctl_drag_def f rd_fresh_id_def r''_def drag_def assms(2))
    have "ib_out (rd_inbox r'') = ib_out (rd_inbox r') @ [SM_DragBegin drag (of_nat (length items))]"
      "rd_tasks r'' = rd_tasks r'" "tasks_of d r'' = tasks_of d r'" "rd_outgoing_drag r'' = Some drag"
      "rd_peer_version r'' = rd_peer_version r'" for d
      by (simp_all add: r''_def rd_queue_def on_inbox_def ib_reply_def tasks_of_def)
    then show ?thesis
      using ok sub drag_items(5) [of items isdir r'' drag]
      by (auto simp: c reader_ok_def drag_items(1-4) peer_takes_trees_def drag_log_append announced_append)
  qed (use f ok in \<open>simp add: ctl_drag_def\<close>)
qed

lemma reader_ok_msg: "reader_ok trees r \<Longrightarrow> reader_ok trees (reader_msg sha256 now sh m r)"
proof (cases "is_inbound_transfer m")
  case True
  assume ok: "reader_ok trees r"
  have "reader_ok trees (on_inbox (ib_handle sha256 now m) r)"
    using ok by (rule reader_ok_on_inbox) (intro outs_intros outs_same)
  then show ?thesis using True ok by (cases m) (auto simp: reader_msg_def reader_ok_def tasks_of_def peer_takes_trees_def)
next
  case False
  assume ok: "reader_ok trees r"
  have "\<exists>ms. ib_out (rd_inbox (reader_msg sha256 now sh m r)) = ib_out (rd_inbox r) @ ms \<and> list_all (\<lambda>m. \<not> is_drag_msg m) ms"
    using False by (cases m) (auto simp: reader_msg_def apply_clip_def rd_try_queue_def rd_queue_def rd_emit_def on_inbox_def
        ib_reply_def ib_emit_def Let_def)
  then obtain ms where "ib_out (rd_inbox (reader_msg sha256 now sh m r)) = ib_out (rd_inbox r) @ ms" "list_all (\<lambda>m. \<not> is_drag_msg m) ms"
    by blast
  then show ?thesis
    using False by (intro reader_ok_outs [OF ok, of _ ms])
      (cases m; simp add: reader_msg_def apply_clip_def rd_try_queue_def rd_queue_def rd_emit_def on_inbox_def Let_def)+
qed

section \<open>The order on a connection\<close>

abbreviation rd_out :: "reader \<Rightarrow> sync_message list" where "rd_out r \<equiv> ib_out (rd_inbox r)"

lemma outs_prefix: "outs (rd_out r) (f (rd_inbox r)) \<Longrightarrow> prefix (rd_out r) (rd_out (on_inbox f r))"
  by (auto simp: outs_def on_inbox_def)

lemma prefix_start: "prefix (rd_out r) (rd_out (ctl_send isdir p r))" "prefix (rd_out r) (rd_out (refuse_tree p r))"
  by (simp_all add: ctl_send_def start_tree_def start_send_def refuse_tree_def rd_fresh_id_def rd_emit_def on_inbox_def ib_emit_def)

lemma prefix_fold: "(\<And>x r. prefix (rd_out r) (rd_out (f x r))) \<Longrightarrow> prefix (rd_out r) (rd_out (fold f xs r))"
  by (rule fold_inv [where P = "\<lambda>r'. prefix (rd_out r) (rd_out r')"]) (auto intro: prefix_order.trans)

lemma prefix_drag_dirs: "prefix (rd_out r) (rd_out (snd (fold drag_dir ds (items, r))))"
  by (rule fold_inv [where P = "\<lambda>s. prefix (rd_out r) (rd_out (snd s))"])
    (auto simp: drag_dir_def intro: prefix_order.trans [OF _ prefix_start(2)])

lemma prefix_ctl: "prefix (rd_out r) (rd_out (handle_ctl isdir isdir' ctl r))"
proof (cases ctl)
  case (CT_DragFiles paths)
  obtain items r' where f: "fold drag_dir (filter isdir paths) (filter (\<lambda>p. \<not> isdir p) paths, r) = (items, r')" by fastforce
  then have "prefix (rd_out r) (rd_out r')" using prefix_drag_dirs [of r "filter isdir paths"] by (metis snd_conv)
  then show ?thesis
    by (auto simp: CT_DragFiles handle_ctl_def ctl_drag_def f rd_fresh_id_def drag_items rd_queue_def on_inbox_def ib_reply_def
        intro: prefix_order.trans)
qed (auto simp: handle_ctl_def ctl_end_def rd_queue_def on_inbox_def ib_reply_def intro: prefix_fold prefix_start split: option.split)

lemma prefix_msg: "prefix (rd_out r) (rd_out (reader_msg sha256 now sh m r))"
proof -
  have "prefix (rd_out r) (rd_out (on_inbox (ib_handle sha256 now m) r))"
    by (intro outs_prefix outs_intros outs_same)
  then show ?thesis
    by (cases m) (auto simp: reader_msg_def apply_clip_def rd_try_queue_def rd_queue_def rd_emit_def ib_emit_def ib_reply_def
        on_inbox_def Let_def)
qed

lemma prefix_loop:
  assumes "reader_loop sha256 [(now, sh, i)] r = (go, r')"
  shows "prefix (rd_out r) (rd_out r')"
proof -
  let ?r = "on_inbox (\<lambda>ib. ib\<lparr>ib_file_dir := sh_file_dir sh\<rparr>) r"
  have "rd_out ?r = rd_out r" by (simp add: on_inbox_def)
  moreover have "prefix (rd_out ?r) (rd_out (on_inbox ib_close ?r))" by (intro outs_prefix outs_intros outs_same)
  ultimately show ?thesis
    using assms prefix_ctl [of ?r] prefix_msg [of ?r]
    by (auto simp: reader_turn_def Let_def split: reader_input.splits)
qed

definition not_ping :: "sync_message list \<Rightarrow> sync_message list" where
  "not_ping = filter (\<lambda>m. m \<noteq> SM_Ping)"

definition conn_ok :: "conn \<Rightarrow> bool" where
  "conn_ok c \<longleftrightarrow>
     cn_taken c \<le> length (cn_queued c) \<and> queue_length c \<le> OUT_QUEUE \<and> cn_admitted c \<le> length (rd_out (cn_reader c)) \<and>
     (\<exists>n \<le> cn_taken c. not_ping (cn_written c) = not_ping (take n (cn_queued c)) \<and> (cn_writing c \<longrightarrow> n = cn_taken c)) \<and>
     (\<exists>k \<le> cn_admitted c. subseq (take k (rd_out (cn_reader c))) (cn_queued c) \<and> (cn_writing c \<longrightarrow> k = cn_admitted c))"

lemma conn_ok_put: "conn_ok c \<Longrightarrow> conn_ok (conn_put m c)"
  by (auto simp: conn_ok_def conn_put_def queue_length_def intro: subseq_order.trans [OF _ list_emb_append2])

lemma conn_ok_stop: "conn_ok c \<Longrightarrow> conn_ok (writer_stop c)"
  by (auto simp: conn_ok_def writer_stop_def queue_length_def)

lemma conn_ok_write:
  assumes "conn_ok c" "cn_writing c"
  shows "conn_ok (writer_turn i w c)"
proof (cases i)
  case WI_Recv
  show ?thesis
  proof (cases "cn_taken c < length (cn_queued c) \<and> write_framed w")
    case True
    then show ?thesis using assms
      by (auto simp: WI_Recv writer_turn_def write_next_def conn_ok_def queue_length_def not_ping_def take_Suc_conv_app_nth)
  next
    case False
    then show ?thesis using assms
      by (auto simp: WI_Recv writer_turn_def write_next_def writer_stop_def conn_ok_def queue_length_def intro: le_SucI)
  qed
next
  case WI_Ping
  then show ?thesis using assms conn_ok_stop [OF assms(1)]
    by (auto simp: writer_turn_def write_next_def conn_ok_def queue_length_def not_ping_def)
qed (use assms conn_ok_stop [OF assms(1)] in \<open>auto simp: writer_turn_def\<close>)

lemma conn_ok_admit:
  assumes "conn_ok c"
  shows "conn_ok (conn_admit c)"
proof (cases "reader_waits c \<and> (queue_length c < OUT_QUEUE \<or> \<not> cn_writing c)")
  case True
  then have k: "cn_admitted c < length (rd_out (cn_reader c))" by (simp add: reader_waits_def)
  show ?thesis
  proof (cases "cn_writing c")
    case w: True
    then have "subseq (take (cn_admitted c) (rd_out (cn_reader c))) (cn_queued c)" using assms by (auto simp: conn_ok_def)
    then have "subseq (take (Suc (cn_admitted c)) (rd_out (cn_reader c))) (cn_queued c @ [rd_out (cn_reader c) ! cn_admitted c])"
      using k by (simp add: take_Suc_conv_app_nth)
    then show ?thesis using True w k assms
      by (auto simp: conn_admit_def conn_put_def conn_ok_def queue_length_def)
  next
    case False
    then show ?thesis using True k assms
      by (auto simp: conn_admit_def conn_put_def conn_ok_def queue_length_def intro: le_SucI)
  qed
qed (use assms in \<open>auto simp: conn_admit_def\<close>)

lemma conn_ok_read:
  assumes "conn_ok c"
  shows "conn_ok (conn_read sha256 now sh i c)"
proof -
  have grow: "conn_ok (c\<lparr>cn_reader := r\<rparr>) \<and> conn_ok (c\<lparr>cn_reader := r, cn_reading := False, cn_cancelled := True\<rparr>)"
    if "prefix (rd_out (cn_reader c)) (rd_out r)" for r
  proof -
    from that obtain ms where "rd_out r = rd_out (cn_reader c) @ ms" by (auto simp: prefix_def)
    then show ?thesis using assms by (auto simp: conn_ok_def queue_length_def)
  qed
  obtain go r where loop: "reader_loop sha256 [(now, sh, i)] ((cn_reader c)\<lparr>rd_full := [queue_state c]\<rparr>) = (go, r)" by fastforce
  have "prefix (rd_out (cn_reader c)) (rd_out r)" using prefix_loop [OF loop] by simp
  from grow [OF this] assms show ?thesis
    unfolding conn_read_def loop by (cases go) simp_all
qed

interpretation conn: machine "conn_turn sha256" conn_ok for sha256
proof
  show "conn_ok (conn_turn sha256 i c)" if "conn_ok c" for i c
    using that conn_ok_put conn_ok_write conn_ok_admit conn_ok_read
    by (cases i) (auto simp: conn_turn_def conn_ok_def [of "c\<lparr>cn_cancelled := True\<rparr>"] conn_ok_def [of c] queue_length_def)
qed

lemma run_conn_start:
  assumes "run_conn sha256 peer_certs ln outbound i device_name reader = Some (e, c)"
  shows "\<exists>v. cn_reader c = reader v \<and> cn_queued c = [] \<and> cn_written c = [] \<and> cn_taken c = 0 \<and> cn_admitted c = 0 \<and> cn_writing c"
  using assms by (auto simp: run_conn_def split: option.splits)

lemma read_cut:
  assumes "length (serialize m) \<le> unat MAX_FRAME_SIZE" "strict_prefix p (write_msg serialize m)"
  shows "read_msgs deserialize p = ([], PE_Io)"
proof -
  let ?b = "serialize m"
  have "length ?b < 2 ^ 32" using assms(1) by (simp add: MAX_FRAME_SIZE_def)
  then have len: "unat (of_nat (length ?b) :: u32) = length ?b" by (simp add: unat_of_nat take_bit_nat_eq_self)
  have hdr: "of_be_bytes (be_bytes 4 (of_nat (length ?b) :: u32)) = (of_nat (length ?b) :: u32)"
    by (rule of_be_bytes_be_bytes) simp
  have small: "\<not> (of_nat (length ?b) :: u32) > MAX_FRAME_SIZE" using assms(1) by (simp add: word_less_nat_alt len)
  have "read_msg deserialize p = (Err PE_Io, [])"
  proof (cases "length p < 4")
    case False
    from assms(2) obtain rest where p: "be_bytes 4 (of_nat (length ?b) :: u32) @ ?b = p @ rest" "rest \<noteq> []"
      by (auto simp: write_msg_def strict_prefix_def prefix_def)
    then have "take 4 p = be_bytes 4 (of_nat (length ?b) :: u32)" using False
      by (metis append_eq_conv_conj length_be_bytes linorder_not_less take_all take_append take_take min.absorb1 append_take_drop_id)
    moreover have "length p < 4 + length ?b" using arg_cong [OF p(1), of length] p(2) by simp
    ultimately show ?thesis using False small by (auto simp: read_msg_def hdr len Let_def)
  qed (simp add: read_msg_def)
  then show ?thesis by (subst read_msgs.simps) simp
qed


lemma reader_ok_loop:
  assumes "reader_loop sha256 [(now, sh, i)] r = (go, r')" "reader_ok trees r"
    and "\<forall>isdir isdir' ctl. i = RI_Ctl isdir isdir' ctl \<longrightarrow> isdir' = isdir"
  shows "reader_ok trees r'"
proof -
  let ?r = "on_inbox (\<lambda>ib. ib\<lparr>ib_file_dir := sh_file_dir sh\<rparr>) r"
  have r: "reader_ok trees ?r" using assms(2) by (rule reader_ok_on_inbox) (simp add: outs_same)
  have sends: "reader_ok trees (fold (ctl_send isdir) ps ?r)" for isdir ps
    by (rule fold_inv [where P = "reader_ok trees"]) (auto simp: r reader_ok_ctl_send)
  have "reader_ok trees (handle_ctl isdir isdir ctl ?r)" for isdir ctl
    by (cases ctl) (auto simp: handle_ctl_def sends r reader_ok_ctl_drag reader_ok_ctl_end)
  moreover have "reader_ok trees (on_inbox ib_close ?r)" using r by (rule reader_ok_on_inbox) (intro outs_intros outs_same)
  ultimately show ?thesis
    using assms(1,3) r reader_ok_msg by (cases i) (auto simp: reader_turn_def Let_def)
qed

lemma conn_reader_kept [simp]:
  "cn_reader (conn_put m c) = cn_reader c" "cn_reader (conn_admit c) = cn_reader c" "cn_reader (writer_turn i w c) = cn_reader c"
  by (auto simp: conn_put_def conn_admit_def writer_turn_def write_next_def writer_stop_def split: writer_input.split)

definition toy_serialize :: "sync_message \<Rightarrow> u8 list" where
  "toy_serialize m = (if m = SM_Ping then [0] else [1])"

definition toy_deserialize :: "u8 list \<Rightarrow> sync_message option" where
  "toy_deserialize b = Some (if b = [0] then SM_Ping else SM_ClipText ''a'')"

definition example_conn :: conn where
  "example_conn = \<lparr>cn_id = 1, cn_reader = reader_new [''in''] None example_fs 3 0 [], cn_reading = True, cn_writing = True,
     cn_cancelled = False, cn_queued = [], cn_taken = 0, cn_admitted = 0, cn_written = []\<rparr>"

definition hello_link :: link where
  "hello_link = \<lparr>ln_in_time = True, ln_writes = [], ln_reads = [Ok (SM_Hello 3 ''bob'')]\<rparr>"

lemma example_run_conn:
  "run_conn (\<lambda>b. b) (Some [[1]]) hello_link True 1 ''alice'' (\<lambda>v. reader_new [''in''] None example_fs v 0 [])
     = Some (IN_Established 1 (generate_fingerprint (\<lambda>b. b) [1]) ''bob'' True, example_conn)"
  by (simp add: run_conn_def peer_fingerprint_def hello_exchange_def hello_link_def example_conn_def)


text \<open>
  \<^bold>\<open>C28.\<close> The messages of the drags a connection sends fit together, in every run. Each
  \<open>DragDrop\<close> and \<open>DragCancel\<close> ends the drag begun last, and at most once; the drag still open is the
  one the reader holds; and every drag is announced with exactly as many items as senders were
  started for it, whatever was refused. To a peer that does not know folders none is sent, as long
  as no path becomes a folder while \<open>DragBegin\<close> waits for the queue.
\<close>

theorem drags_fit:
  assumes "run_conn sha256 peer_certs ln outbound i device_name (\<lambda>v. reader_new dir desktop fs v first_id []) = Some (e, c0)"
    and "\<forall>now sh isdir isdir' ctl. CI_Read now sh (RI_Ctl isdir isdir' ctl) \<in> set is \<longrightarrow> isdir' = isdir"
    and "r = cn_reader (conn_run sha256 is c0)"
  shows "drag_log (rd_out r) None = Some (rd_outgoing_drag r) \<and>
    (\<forall>drag. announced drag (rd_out r) = of_nat (tasks_of drag r)) \<and>
    (rd_peer_version r < PROTO_TREES \<longrightarrow> \<not> list_ex is_tree_task (rd_tasks r))"
proof -
  define trees where "trees = peer_takes_trees (cn_reader c0)"
  define P where "P c = reader_ok trees (cn_reader c)" for c :: conn
  define Q where "Q i = (\<forall>now sh isdir isdir' ctl. i = CI_Read now sh (RI_Ctl isdir isdir' ctl) \<longrightarrow> isdir' = isdir)" for i
  have start: "P c0" using run_conn_start [OF assms(1)]
    by (auto simp: P_def trees_def reader_ok_def reader_new_def inbox_new_def tasks_of_def)
  have "P (conn_turn sha256 i c)" if "P c" "Q i" for i c
  proof (cases i)
    case (CI_Read now sh ri)
    obtain go r where loop: "reader_loop sha256 [(now, sh, ri)] ((cn_reader c)\<lparr>rd_full := [queue_state c]\<rparr>) = (go, r)" by fastforce
    have "reader_ok trees r"
      using that by (intro reader_ok_loop [OF loop]) (auto simp: P_def Q_def CI_Read reader_ok_def tasks_of_def peer_takes_trees_def)
    then show ?thesis using that(1)
      unfolding CI_Read conn_turn_def conn_input.case conn_read_def loop P_def by (cases go) simp_all
  qed (use that in \<open>auto simp: P_def conn_turn_def conn_reader_kept\<close>)
  moreover have "\<forall>i \<in> set is. Q i" unfolding Q_def using assms(2) by blast
  ultimately have "P (fold (conn_turn sha256) is c0)"
    using start by (intro fold_invariant [where P = P and Q = Q]) auto
  then show ?thesis
    by (auto simp: P_def conn_run_def assms(3) reader_ok_def peer_takes_trees_def not_le)
qed

theorem drags_fit_witness:
  "let r = cn_reader (conn_run (\<lambda>b. b)
         [CI_Read 0 \<lparr>sh_file_dir = [''in''], sh_clipboard_enabled = True, sh_keyboard_enabled = True\<rparr>
            (RI_Ctl (\<lambda>p. False) (\<lambda>p. False) (CT_DragFiles [[''a''], [''b'']]))] example_conn)
   in rd_out r = [SM_DragBegin 0 2] \<and> tasks_of 0 r = 2 \<and> announced 0 (rd_out r) = of_nat (tasks_of 0 r)"
proof -
  let ?r = "cn_reader (conn_run (\<lambda>b. b)
         [CI_Read 0 \<lparr>sh_file_dir = [''in''], sh_clipboard_enabled = True, sh_keyboard_enabled = True\<rparr>
            (RI_Ctl (\<lambda>p. False) (\<lambda>p. False) (CT_DragFiles [[''a''], [''b'']]))] example_conn)"
  have "rd_out ?r = [SM_DragBegin 0 2] \<and> tasks_of 0 ?r = 2"
    by (simp add: conn_run_def conn_turn_def conn_read_def reader_waits_def example_conn_def reader_new_def inbox_new_def
        reader_turn_def handle_ctl_def ctl_drag_def rd_fresh_id_def rd_queue_def on_inbox_def ib_reply_def drag_item_def
        start_send_def tasks_of_def queue_length_def OUT_QUEUE_def)
  moreover have "announced 0 (rd_out ?r) = of_nat (tasks_of 0 ?r)"
    by (rule drags_fit [OF example_run_conn _ refl, THEN conjunct2, THEN conjunct1, THEN spec]) simp
  ultimately show ?thesis by (simp only: Let_def)
qed

end
