(* ===== verification/Delivery.thy ===== *)
theory Delivery
  imports InboxSafety SendTree
begin

text \<open>
  A file sent by one machine and received by another: \<open>send_file\<close>'s messages (\<open>Sender\<close>) handled by
  the inbox (\<open>Inbox\<close>) of the other end, on its file system (\<open>Fs\<close>).
\<close>

section \<open>The sender\<close>

fun messages :: "action list \<Rightarrow> sync_message list" where
  "messages [] = []"
| "messages (AN_Msg m # as) = m # messages as"
| "messages (_ # as) = messages as"

lemma messages_append [simp]: "messages (as @ bs) = messages as @ messages bs"
  by (induction as rule: messages.induct) auto

text \<open>what the file gives until it is at its end\<close>

fun bytes_read :: "chunk_turn list \<Rightarrow> u8 list" where
  "bytes_read ((_, Ok data, _, _) # ts) = (if data = [] then [] else data @ bytes_read ts)"
| "bytes_read _ = []"

fun chunks :: "u64 \<Rightarrow> u8 list \<Rightarrow> u8 list list \<Rightarrow> sync_message list" where
  "chunks i h [] = []"
| "chunks i h (d # ds) = SM_FileChunk i (of_nat (length h)) d # chunks i (h @ d) ds"

lemma stream_chunks_messages:
  assumes "stream_chunks i whole ts (of_nat (length h)) prev h = (as, Ok (offset, h'))"
    and "\<forall>(a, r, q, n) \<in> set ts. \<forall>d. r = Ok d \<longrightarrow> length d \<le> k"
  shows "\<exists>ds. messages as = chunks i h ds \<and> concat ds = bytes_read ts \<and> h' = h @ bytes_read ts \<and>
    offset = of_nat (length h') \<and> (\<forall>d \<in> set ds. length d \<le> k) \<and> length ds \<le> length ts"
  using assms
proof (induction ts arbitrary: h prev as)
  case Nil
  then show ?case by (intro exI [of _ "[]"]) auto
next
  case (Cons turn ts)
  obtain a r q n where turn: "turn = (a, r, q, n)" by (cases turn) auto
  show ?case
  proof (cases "a = None \<and> (\<exists>d. r = Ok d \<and> d \<noteq> [] \<and> q = EQ_Sent)")
    case True
    then obtain d where d: "r = Ok d" "d \<noteq> []" "a = None" "q = EQ_Sent" by blast
    obtain due prev' where p: "progress_due n prev = (due, prev')" by fastforce
    obtain as' r' where rec: "stream_chunks i whole ts (of_nat (length (h @ d))) prev' (h @ d) = (as', r')" by fastforce
    have eq: "as = AN_Msg (SM_FileChunk i (of_nat (length h)) d) #
        (if due then [AN_Progress (of_nat (length (h @ d))) whole n] else []) @ as'" "r' = Ok (offset, h')"
      using Cons.prems(1) rec by (auto simp: turn d p split: if_splits)
    have "\<forall>(a, r, q, n) \<in> set ts. \<forall>d. r = Ok d \<longrightarrow> length d \<le> k" using Cons.prems(2) by auto
    from Cons.IH [OF rec [unfolded eq(2)] this] obtain ds where
      "messages as' = chunks i (h @ d) ds \<and> concat ds = bytes_read ts \<and> h' = (h @ d) @ bytes_read ts \<and>
       offset = of_nat (length h') \<and> (\<forall>d \<in> set ds. length d \<le> k) \<and> length ds \<le> length ts" by blast
    then show ?thesis using Cons.prems(2)
      by (intro exI [of _ "d # ds"]) (auto simp: eq(1) turn d)
  next
    case False
    then have "as = [] \<and> bytes_read (turn # ts) = [] \<and> h' = h \<and> offset = of_nat (length h)"
      using Cons.prems(1) by (auto simp: turn Let_def split: option.splits outcome.splits if_splits enqueued.splits prod.splits)
    then show ?thesis by (intro exI [of _ "[]"]) simp
  qed
qed

lemma concat_length_bound: "(\<forall>d \<in> set ds. length d \<le> k) \<Longrightarrow> length (concat ds) \<le> length ds * k"
  by (induction ds) auto

text \<open>a file sent to its end\<close>

lemma stream_file_Ok:
  assumes "stream_file sha256 i p name Offer_Plain env = (as, Ok whole)"
    and "\<forall>(a, r, q, n) \<in> set (se_turns env). \<forall>d. r = Ok d \<longrightarrow> length d \<le> CHUNK_SIZE"
    and "length (se_turns env) * CHUNK_SIZE < 2 ^ 64"
  shows "\<exists>ds. messages as = SM_FileOffer i name whole # chunks i [] ds @ [SM_FileDone i (sha256 (concat ds))] \<and>
    concat ds = bytes_read (se_turns env) \<and> unat whole = length (concat ds) \<and> (\<forall>d \<in> set ds. length d \<le> CHUNK_SIZE)"
proof -
  obtain w where w: "se_opened env = OP_File w"
    using assms(1) by (auto simp: stream_file_def unopened_def split: opened.splits)
  then have so: "stream_opened sha256 i name Offer_Plain env w = (as, Ok whole)"
    using assms(1) by (simp add: stream_file_def)
  then have acc: "se_offered env" "se_accept env = AC_Accepted" "se_done env"
    by (auto simp: stream_opened_def Let_def split: if_splits accept.splits outcome.splits prod.splits)
  obtain bs r where c: "stream_chunks i w (se_turns env) (of_nat (length ([] :: u8 list))) (se_start env) [] = (bs, r)" by fastforce
  from so c acc obtain h where r: "r = Ok (w, h)" "w = whole"
    and as: "as = [AN_Msg (SM_FileOffer i name w), AN_Active w] @ bs @ [AN_Msg (SM_FileDone i (sha256 h))]"
    by (auto simp: stream_opened_def offer_message_def Let_def split: if_splits outcome.splits)
  from stream_chunks_messages [OF c [unfolded r(1)] assms(2)] obtain ds where
    ds: "messages bs = chunks i [] ds" "concat ds = bytes_read (se_turns env)" "h = concat ds" "w = of_nat (length h)"
      "\<forall>d \<in> set ds. length d \<le> CHUNK_SIZE" "length ds \<le> length (se_turns env)" by auto
  have "length (concat ds) \<le> length ds * CHUNK_SIZE" by (rule concat_length_bound [OF ds(5)])
  also have "\<dots> \<le> length (se_turns env) * CHUNK_SIZE" using ds(6) by simp
  finally have "length (concat ds) < 2 ^ 64" using assms(3) by simp
  then have "unat whole = length (concat ds)" using ds(3,4) r(2) by (simp add: unat_of_nat take_bit_nat_eq_self)
  then show ?thesis using ds r(2) as by (intro exI [of _ ds]) simp
qed

section \<open>The receiver\<close>

lemma fs_get_make_dirs: "fs_get q (fold make_dir ps fs) = (if q \<in> set ps \<and> fs_get q fs = None then Some Dir else fs_get q fs)"
  by (induction ps arbitrary: fs) (auto simp: make_dir_def path_exists_def)

lemma make_dirs_frame [simp]:
  "fs_next (fold make_dir ps fs) = fs_next fs" "fs_content i (fold make_dir ps fs) = fs_content i fs"
  "fs_faults (fold make_dir ps fs) = fs_faults fs"
  by (induction ps arbitrary: fs) (simp_all add: make_dir_def put_node_def fs_content_def)

text \<open>a directory that exists or can be made\<close>

definition creatable :: "path \<Rightarrow> fs \<Rightarrow> bool" where
  "creatable p fs \<longleftrightarrow> \<not> list_ex (\<lambda>q. path_exists q fs \<and> \<not> is_dir q fs) (prefixes p)"

definition inodes_ok :: "fs \<Rightarrow> bool" where
  "inodes_ok fs \<longleftrightarrow> (\<forall>p j. fs_get p fs = Some (Reg j) \<longrightarrow> j < fs_next fs)"

text \<open>
  a transfer with the bytes \<open>h\<close> so far: they are in its part file, and else the file system is as
  it was
\<close>

definition receiving :: "fs \<Rightarrow> u64 \<Rightarrow> string \<Rightarrow> u64 \<Rightarrow> path \<Rightarrow> path \<Rightarrow> nat \<Rightarrow> u8 list \<Rightarrow> inbox \<Rightarrow> bool" where
  "receiving fs0 i name whole part final j h ib \<longleftrightarrow>
     (\<exists>t. hm_get (ib_recv ib) i = Some t \<and> rt_name t = name \<and> rt_size t = whole \<and> rt_received t = of_nat (length h) \<and>
        rt_hashed t = h \<and> rt_file t = j \<and> rt_part_path t = part \<and> rt_final_path t = final \<and> rt_drag t = None \<and>
        rt_tree t = None) \<and>
     fs_faults (ib_fs ib) = [] \<and> fs_content j (ib_fs ib) = h \<and>
     (\<forall>q. fs_get q (ib_fs ib) = (if q = part then Some (Reg j) else fs_get q fs0)) \<and>
     (\<forall>k. k \<noteq> j \<longrightarrow> fs_content k (ib_fs ib) = fs_content k fs0)"

lemma receiving_offer:
  assumes "sanitize_name name = Some clean" "hm_get (ib_recv ib) i = None" "fs_faults (ib_fs ib) = []"
    and "creatable (ib_file_dir ib) (ib_fs ib)"
  defines "fs0 \<equiv> fold make_dir (prefixes (ib_file_dir ib)) (ib_fs ib)"
  defines "final \<equiv> unique_path (ib_file_dir ib) clean fs0"
  defines "part \<equiv> unique_path (ib_file_dir ib) (last final @ ''.vylopart'') fs0"
  shows "receiving fs0 i clean whole part final (fs_next (ib_fs ib)) [] (ib_handle sha256 now (SM_FileOffer i name whole) ib)"
proof -
  have dir: "create_dir_all (ib_file_dir ib) (ib_fs ib) = (Ok (), fs0)"
    using assms(3,4) by (simp add: create_dir_all_def io_fault_def creatable_def fs0_def)
  have none: "fs_get part fs0 = None" using unique_path_fresh [of "ib_file_dir ib" _ fs0] by (auto simp: part_def path_exists_def)
  have ne: "part \<noteq> []" using none by auto
  have "butlast part = ib_file_dir ib"
    using unique_path_under [of "ib_file_dir ib" "last final @ ''.vylopart''" fs0] by (auto simp: part_def)
  moreover have "is_dir (ib_file_dir ib) fs0"
    using assms(4) by (auto simp: fs0_def is_dir_def fs_get_make_dirs creatable_def list_ex_iff path_exists_def
        dest!: bspec [of _ _ "ib_file_dir ib"])
  ultimately have "create_file part fs0 = (Ok (fs_next (ib_fs ib)), snd (new_file part fs0))"
    using assms(3) none by (simp add: create_file_def io_fault_def is_dir_def new_file_def fs0_def)
  moreover have "\<forall>q. fs_get q (snd (new_file part fs0)) = (if q = part then Some (Reg (fs_next (ib_fs ib))) else fs_get q fs0)"
    "fs_faults (snd (new_file part fs0)) = []" "fs_content (fs_next (ib_fs ib)) (snd (new_file part fs0)) = []"
    "k \<noteq> fs_next (ib_fs ib) \<Longrightarrow> fs_content k (snd (new_file part fs0)) = fs_content k fs0" for k
    using ne assms(3) by (simp_all add: new_file_def fs0_def) (simp add: put_data_def put_node_def)
  ultimately show ?thesis
    using assms(1,2)
    by (simp add: accept_offer_def begin_recv_def on_fs_def dir final_def [symmetric] part_def [symmetric] Let_def
        receiving_def put_recv_def ib_reply_def ib_emit_def)
qed

lemma receiving_chunk:
  assumes "receiving fs0 i name whole part final j h ib" "length d \<le> CHUNK_SIZE" "length (h @ d) \<le> unat whole"
  shows "receiving fs0 i name whole part final j (h @ d) (ib_handle sha256 now (SM_FileChunk i (of_nat (length h)) d) ib)"
proof -
  from assms(1) obtain t where t: "hm_get (ib_recv ib) i = Some t" "rt_name t = name" "rt_size t = whole"
    "rt_received t = of_nat (length h)" "rt_hashed t = h" "rt_file t = j" "rt_part_path t = part" "rt_final_path t = final"
    "rt_drag t = None" "rt_tree t = None"
    and fs: "fs_faults (ib_fs ib) = []" "fs_content j (ib_fs ib) = h"
      "\<forall>q. fs_get q (ib_fs ib) = (if q = part then Some (Reg j) else fs_get q fs0)"
      "\<forall>k. k \<noteq> j \<longrightarrow> fs_content k (ib_fs ib) = fs_content k fs0"
    by (auto simp: receiving_def)
  have "of_nat (length (h @ d)) \<le> whole"
    using assms(3) unsigned_less [where w = whole and ?'a = nat] by (simp add: word_le_nat_alt unat_of_nat take_bit_nat_eq_self del: length_append)
  then have fits: "\<not> of_nat (length h) + of_nat (length d) > whole" by simp
  have w: "write_all j d (ib_fs ib) = (Ok (), append_data j d (ib_fs ib))"
    using fs(1) by (simp add: write_all_def io_fault_def)
  have "write_chunk (of_nat (length h)) d t ib
      = (None, t\<lparr>rt_hashed := h @ d, rt_received := of_nat (length (h @ d))\<rparr>, ib\<lparr>ib_fs := append_data j d (ib_fs ib)\<rparr>)"
    using assms(2) fits t by (simp add: write_chunk_def on_fs_def w)
  then show ?thesis using t fs
    by (auto simp: receiving_def chunk_def report_progress_def put_recv_def ib_emit_def append_data_def Let_def
        split: prod.split) (simp_all add: put_data_def)
qed

lemma receiving_chunks:
  assumes "receiving fs0 i name whole part final j h ib" "\<forall>d \<in> set ds. length d \<le> CHUNK_SIZE"
    and "length (h @ concat ds) \<le> unat whole" "map snd ms = chunks i h ds"
  shows "receiving fs0 i name whole part final j (h @ concat ds) (inbox_run sha256 ms ib)"
  using assms
proof (induction ds arbitrary: h ib ms)
  case (Cons d ds)
  then obtain now rest where ms: "ms = (now, SM_FileChunk i (of_nat (length h)) d) # rest" "map snd rest = chunks i (h @ d) ds"
    by (cases ms) auto
  have "receiving fs0 i name whole part final j (h @ d) (ib_handle sha256 now (SM_FileChunk i (of_nat (length h)) d) ib)"
    using Cons.prems by (intro receiving_chunk) auto
  from Cons.IH [OF this _ _ ms(2)] Cons.prems show ?case by (simp add: ms(1) inbox_run_def)
qed (simp add: inbox_run_def)

lemma receiving_done:
  assumes "receiving fs0 i name whole part final j h ib" "unat whole = length h"
    and "fs_get part fs0 = None" "fs_get final fs0 = None" "is_dir (butlast final) fs0" "inodes_ok fs0" "fs_next fs0 = j"
    and ib'_def: "ib' = ib_handle sha256 now (SM_FileDone i (sha256 h)) ib"
  shows "read_file final (ib_fs ib') = Some h" "hm_get (ib_recv ib') i = None"
    "read_file p fs0 = Some d \<Longrightarrow> read_file p (ib_fs ib') = Some d"
    "ib_events ib' = ib_events ib @ [SY_Transfer (file_status i name Received whole whole TS_Done (Some (show_path final)))]"
proof -
  from assms(1) obtain t where t: "hm_get (ib_recv ib) i = Some t" "rt_name t = name" "rt_size t = whole"
    "rt_received t = of_nat (length h)" "rt_hashed t = h" "rt_file t = j" "rt_part_path t = part" "rt_final_path t = final"
    "rt_drag t = None" "rt_tree t = None"
    and fs: "fs_faults (ib_fs ib) = []" "fs_content j (ib_fs ib) = h"
      "\<And>q. fs_get q (ib_fs ib) = (if q = part then Some (Reg j) else fs_get q fs0)"
      "\<And>k. k \<noteq> j \<Longrightarrow> fs_content k (ib_fs ib) = fs_content k fs0"
    by (auto simp: receiving_def)
  define fs' where "fs' = (if part = final then ib_fs ib else put_node final (Reg j) (drop_nodes ((=) part) (ib_fs ib)))"
  have ne: "part \<noteq> []" "final \<noteq> []" "butlast final \<noteq> part" using assms(3-5) by (auto simp: is_dir_def)
  have "rename part final (ib_fs ib) = (Ok (), fs')"
    using ne assms(3-5) fs by (auto simp: rename_def io_fault_def fs'_def path_exists_def is_dir_def)
  moreover have "whole = of_nat (length h)" using assms(2) by (metis of_nat_unat ucast_id)
  ultimately have fin: "finish_recv sha256 t (sha256 h) (ib_fs ib) = (Ok final, fs')"
    using t by (simp add: finish_recv_def)
  have ib': "ib' = ib_emit (SY_Transfer (file_status i name Received whole whole TS_Done (Some (show_path final))))
      (del_recv i ib\<lparr>ib_fs := fs'\<rparr>)"
    using t by (simp add: ib'_def file_done_def on_fs_def del_recv_def fin for_drag_def)
  then show "hm_get (ib_recv ib') i = None"
    "ib_events ib' = ib_events ib @ [SY_Transfer (file_status i name Received whole whole TS_Done (Some (show_path final)))]"
    by (simp_all add: ib_emit_def del_recv_def)
  have fs_eq: "ib_fs ib' = fs'" by (simp add: ib' ib_emit_def del_recv_def)
  show "read_file final (ib_fs ib') = Some h"
    using ne fs by (simp add: fs_eq fs'_def read_file_def)
  assume "read_file p fs0 = Some d"
  then obtain k where k: "fs_get p fs0 = Some (Reg k)" "fs_content k fs0 = d"
    by (auto simp: read_file_def split: option.splits node.splits)
  then have "k \<noteq> j" "p \<noteq> part" "p \<noteq> final" "p \<noteq> []" using assms(3,4,6,7) by (auto simp: inodes_ok_def)
  then show "read_file p (ib_fs ib') = Some d"
    using k fs by (auto simp: fs_eq fs'_def read_file_def)
qed

text \<open>making the receive directory does not change which name is free in it\<close>

lemma first_unused_cong:
  assumes "inj candidate" "\<And>n. path_exists (dir @ [n]) fs = path_exists (dir @ [n]) fs'"
  shows "first_unused dir candidate fs = first_unused dir candidate fs'"
proof -
  from first_unused_fresh [OF assms(1), of dir fs] obtain i where
    i: "i \<ge> 1" "first_unused dir candidate fs = dir @ [candidate i]" "\<not> path_exists (dir @ [candidate i]) fs"
      "\<forall>k. 1 \<le> k \<and> k < i \<longrightarrow> path_exists (dir @ [candidate k]) fs" by blast
  from first_unused_fresh [OF assms(1), of dir fs'] obtain j where
    j: "j \<ge> 1" "first_unused dir candidate fs' = dir @ [candidate j]" "\<not> path_exists (dir @ [candidate j]) fs'"
      "\<forall>k. 1 \<le> k \<and> k < j \<longrightarrow> path_exists (dir @ [candidate k]) fs'" by blast
  have "i = j" using i j assms(2) by (metis linorder_neqE_nat)
  then show ?thesis using i(2) j(2) by simp
qed

lemma unique_path_make_dirs: "unique_path dir name (fold make_dir (prefixes dir) fs) = unique_path dir name fs"
proof -
  have same: "path_exists (dir @ [n]) (fold make_dir (prefixes dir) fs) = path_exists (dir @ [n]) fs" for n
    by (auto simp: path_exists_def fs_get_make_dirs)
  show ?thesis unfolding unique_path_def by (simp only: same first_unused_cong [OF numbered_inj same])
qed


definition example_send :: stream_env where
  "example_send = \<lparr>se_opened = OP_File 2, se_offered = True, se_accept = AC_Accepted, se_start = 0,
     se_turns = [(None, Ok [7, 8], EQ_Sent, 0), (None, Ok [], EQ_Sent, 0)], se_done = True\<rparr>"


end
