(* ===== verification/Dns.thy ===== *)
theory Dns
  imports Service
begin

text \<open>
  The resolver task (\<open>src/dns.rs\<close>) and how the service meets its answers. \<open>dn_active\<close> is
  \<open>active_tasks\<close>: a lookup is its hostname and whether it is finished; an aborted one is gone.
  What \<open>lookup_host\<close> answers, and when, is in the inputs.
\<close>

record lookup =
  lk_hostname :: string
  lk_finished :: bool

record dns =
  dn_active :: "(client_handle, lookup) hmap"
  dn_events :: "dns_event list"

definition dns_new :: dns where
  "dns_new = \<lparr>dn_active = [], dn_events = []\<rparr>"

definition dns_request :: "client_handle \<Rightarrow> string \<Rightarrow> dns \<Rightarrow> dns" where
  "dns_request h hostname d =
     (let d = d\<lparr>dn_active := hm_remove h (dn_active d)\<rparr>;
          d = d\<lparr>dn_events := dn_events d @ [DE_Resolving h]\<rparr>
      in d\<lparr>dn_active := hm_insert h \<lparr>lk_hostname = hostname, lk_finished = False\<rparr> (dn_active d)\<rparr>)"

text \<open>a lookup ends, with the addresses or an error\<close>

definition dns_looked_up :: "client_handle \<Rightarrow> ip_addr list option \<Rightarrow> dns \<Rightarrow> dns" where
  "dns_looked_up h ips d =
     (case hm_get (dn_active d) h of
        Some l \<Rightarrow>
          if lk_finished l then d
          else d\<lparr>dn_active := hm_insert h (l\<lparr>lk_finished := True\<rparr>) (dn_active d),
                 dn_events := dn_events d @ [DE_Resolved h (lk_hostname l) ips]\<rparr>
      | None \<Rightarrow> d)"

datatype dns_input = DI_Request client_handle string | DI_Looked client_handle "ip_addr list option"

fun dns_step :: "dns_input \<Rightarrow> dns \<Rightarrow> dns" where
  "dns_step (DI_Request h hostname) d = dns_request h hostname d"
| "dns_step (DI_Looked h ips) d = dns_looked_up h ips d"

definition dns_run :: "dns_input list \<Rightarrow> dns" where
  "dns_run is = fold dns_step is dns_new"

section \<open>The last request counts\<close>

text \<open>the hostname a client waits for: that of its last request, unless it was answered\<close>

fun waits_for :: "client_handle \<Rightarrow> dns_input list \<Rightarrow> string option \<Rightarrow> string option" where
  "waits_for h [] w = w"
| "waits_for h (DI_Request h' hostname # is) w = waits_for h is (if h' = h then Some hostname else w)"
| "waits_for h (DI_Looked h' ips # is) w = waits_for h is (if h' = h then None else w)"

lemma waits_for_snoc [simp]:
  "waits_for h (is @ [DI_Request h' hostname]) w = (if h' = h then Some hostname else waits_for h is w)"
  "waits_for h (is @ [DI_Looked h' ips]) w = (if h' = h then None else waits_for h is w)"
  by (induction h "is" w rule: waits_for.induct) auto

definition pending_lookup :: "client_handle \<Rightarrow> dns \<Rightarrow> string option" where
  "pending_lookup h d =
     (case hm_get (dn_active d) h of Some l \<Rightarrow> if lk_finished l then None else Some (lk_hostname l) | None \<Rightarrow> None)"

lemma pending_is_waiting: "pending_lookup h (dns_run is) = waits_for h is None"
proof (induction "is" rule: rev_induct)
  case (snoc i "is")
  then show ?case
    by (cases i) (auto simp: dns_run_def dns_request_def dns_looked_up_def pending_lookup_def Let_def split: option.splits)
qed (simp add: dns_run_def dns_new_def pending_lookup_def)

text \<open>
  \<^bold>\<open>C27.\<close> An answer is reported for a client exactly when it is the first one to its last request,
  with the hostname of that request: a lookup that a newer request replaced is never reported.
\<close>

theorem last_lookup_counts:
  "dn_events (dns_run (is @ [DI_Looked h ips])) =
     dn_events (dns_run is) @ (case waits_for h is None of Some hostname \<Rightarrow> [DE_Resolved h hostname ips] | None \<Rightarrow> [])"
  unfolding pending_is_waiting [symmetric]
  by (auto simp: dns_run_def dns_looked_up_def pending_lookup_def split: option.splits)

text \<open>
  Clearing the hostname sends no request, so a lookup that runs goes on, and its answer is
  installed: the client has no hostname and the addresses of the old one.
\<close>

theorem cleared_hostname_resolves:
  assumes "hm_get (sv_mgr s) h = Some (c, st)"
  shows "sv_resolver (update_hostname h None s) = sv_resolver s \<and>
    (\<exists>c' st'. hm_get (sv_mgr (handle_resolver_event (DE_Resolved h hostname (Some ips)) (update_hostname h None s))) h
       = Some (c', st') \<and> cc_hostname c' = None \<and> cs_dns_ips st' = ips \<and> set ips \<subseteq> cs_ips st')"
proof -
  have quiet: "sv_mgr (notify_frontend e s) = sv_mgr s" "sv_resolver (notify_frontend e s) = sv_resolver s" for e s
    by (simp_all add: notify_frontend_def)
  have reqs: "sv_mgr (fold (\<lambda>ip. sync_req (SR_AddrHint ip)) ips s) = sv_mgr s" for s
    by (rule fold_inv [where P = "\<lambda>s'. sv_mgr s' = sv_mgr s"]) (simp_all add: sync_req_def)
  show ?thesis
    using assms
    by (cases "cc_hostname c = None")
      (simp_all add: update_hostname_def set_hostname_def handle_resolver_event_def broadcast_client_def quiet reqs
        set_dns_ips_def set_resolving_def update_ips_def resolve_def get_hostname_def Let_def unwrap_or_def)
qed

end
