(* ===== verification/WinCapture.thy ===== *)
theory WinCapture
  imports InputCapture
begin

text \<open>
  The Windows capture backend (\<open>input-capture/src/windows/\<close>): the geometry of the displays and the
  event thread with its two low level hooks, the requests of the front end and the watchdog. A
  message keeps its name in the Windows API; coordinates and the corners of a display are integers
  in the range of \<open>i32\<close>. What Windows answers is an argument: \<open>devices\<close> the displays,
  \<open>hooks\<close> whether the hooks could be set, \<open>tick\<close> the tick count. \<open>w_queue\<close> says how the next
  attempts to send an event end.
\<close>

section \<open>Displays\<close>

type_synonym point = "int \<times> int"

record rect =
  r_left :: int
  r_right :: int
  r_top :: int
  r_bottom :: int

definition win_positions :: "capture_position list" where
  "win_positions = [C_Left, C_Right, C_Top, C_Bottom]"

definition is_within_dp_boundary :: "point \<Rightarrow> rect \<Rightarrow> capture_position \<Rightarrow> bool" where
  "is_within_dp_boundary pt d pos =
     (case pos of
        C_Left \<Rightarrow> r_left d \<le> fst pt
      | C_Right \<Rightarrow> r_right d > fst pt
      | C_Top \<Rightarrow> r_top d \<le> snd pt
      | C_Bottom \<Rightarrow> r_bottom d > snd pt)"

definition is_within_dp_region :: "point \<Rightarrow> rect \<Rightarrow> bool" where
  "is_within_dp_region pt d = list_all (is_within_dp_boundary pt d) win_positions"

definition in_bounds :: "point \<Rightarrow> rect list \<Rightarrow> capture_position \<Rightarrow> bool" where
  "in_bounds pt displays pos = list_ex (\<lambda>d. is_within_dp_boundary pt d pos) displays"

definition in_display_region :: "point \<Rightarrow> rect list \<Rightarrow> bool" where
  "in_display_region pt displays = list_ex (is_within_dp_region pt) displays"

definition moved_across_boundary :: "point \<Rightarrow> point \<Rightarrow> rect list \<Rightarrow> capture_position \<Rightarrow> bool" where
  "moved_across_boundary prev here displays pos \<longleftrightarrow> in_display_region prev displays \<and> \<not> in_bounds here displays pos"

definition entered_barrier :: "point \<Rightarrow> point \<Rightarrow> rect list \<Rightarrow> capture_position option" where
  "entered_barrier prev here displays = find (moved_across_boundary prev here displays) win_positions"

text \<open>\<open>Ord::clamp\<close>, which panics on an empty range\<close>

definition clamp_i32 :: "int \<Rightarrow> int \<Rightarrow> int \<Rightarrow> int option" where
  "clamp_i32 lo hi x = (if lo > hi then None else Some (if x < lo then lo else if x > hi then hi else x))"

definition clamp_to_display_bounds :: "rect list \<Rightarrow> point \<Rightarrow> point \<Rightarrow> point option" where
  "clamp_to_display_bounds displays prev pt =
     (case find (is_within_dp_region prev) displays of
        None \<Rightarrow> None
      | Some d \<Rightarrow>
          (case (clamp_i32 (r_left d) (r_right d - 1) (fst pt), clamp_i32 (r_top d) (r_bottom d - 1) (snd pt)) of
             (Some x, Some y) \<Rightarrow> Some (x, y)
           | _ \<Rightarrow> None))"

text \<open>a device: whether it is attached to the desktop, and its mode, zero if it has none\<close>

type_synonym display_device = "bool \<times> (i32 \<times> i32 \<times> u32 \<times> u32) option"

definition enumerate_displays :: "display_device list \<Rightarrow> rect list" where
  "enumerate_displays devices =
     map (\<lambda>(_, m). case (case m of Some m \<Rightarrow> m | None \<Rightarrow> (0, 0, 0, 0)) of (x, y, width, height) \<Rightarrow>
            \<lparr>r_left = sint x, r_right = sint (x + width), r_top = sint y, r_bottom = sint (y + height)\<rparr>)
       (filter fst devices)"

section \<open>Messages\<close>

datatype wm =
    WM_MOUSEMOVE | WM_LBUTTONDOWN | WM_LBUTTONUP | WM_RBUTTONDOWN | WM_RBUTTONUP | WM_MBUTTONDOWN | WM_MBUTTONUP
  | WM_MOUSEWHEEL | WM_XBUTTONDOWN | WM_XBUTTONUP | WM_MOUSEHWHEEL
  | WM_KEYDOWN | WM_KEYUP | WM_SYSKEYDOWN | WM_SYSKEYUP | WM_Other u64

record mouse_hook =
  mh_pt :: point
  mh_data :: u32

record key_hook =
  kh_scan_code :: u32
  kh_extended :: bool

definition to_key_event :: "wm \<Rightarrow> key_hook \<Rightarrow> keyboard_event option" where
  "to_key_event w k =
     (let scan_code = (if kh_extended k then kh_scan_code k OR 0xE000 else kh_scan_code k) in
      case Option.bind (windows_try_from scan_code) windows_to_linux of
        None \<Rightarrow> None
      | Some l \<Rightarrow>
          (case w of
             WM_KEYDOWN \<Rightarrow> Some (Key 0 (linux_code l) 1)
           | WM_KEYUP \<Rightarrow> Some (Key 0 (linux_code l) 0)
           | WM_SYSKEYDOWN \<Rightarrow> Some (Key 0 (linux_code l) 1)
           | WM_SYSKEYUP \<Rightarrow> Some (Key 0 (linux_code l) 0)
           | _ \<Rightarrow> None))"

text \<open>the high word of \<open>mouseData\<close>: signed for a wheel, a number for a button\<close>

definition wheel_data :: "u32 \<Rightarrow> i32" where
  "wheel_data d = signed_drop_bit 16 d"

definition x_button :: "u32 \<Rightarrow> u32 option" where
  "x_button d =
     (let hb = drop_bit 16 d in
      if hb = 1 then Some BTN_BACK else if hb = 2 then Some BTN_FORWARD else None)"

text \<open>the motion is from the entry point; its difference is an \<open>i32\<close> and wraps\<close>

definition i32_sub :: "int \<Rightarrow> int \<Rightarrow> int" where
  "i32_sub x y = sint (word_of_int (x - y) :: i32)"

definition to_mouse_event :: "point \<Rightarrow> wm \<Rightarrow> mouse_hook \<Rightarrow> pointer_event option" where
  "to_mouse_event entry w m =
     (case w of
        WM_LBUTTONDOWN \<Rightarrow> Some (Button 0 BTN_LEFT 1)
      | WM_MBUTTONDOWN \<Rightarrow> Some (Button 0 BTN_MIDDLE 1)
      | WM_RBUTTONDOWN \<Rightarrow> Some (Button 0 BTN_RIGHT 1)
      | WM_LBUTTONUP \<Rightarrow> Some (Button 0 BTN_LEFT 0)
      | WM_MBUTTONUP \<Rightarrow> Some (Button 0 BTN_MIDDLE 0)
      | WM_RBUTTONUP \<Rightarrow> Some (Button 0 BTN_RIGHT 0)
      | WM_MOUSEMOVE \<Rightarrow>
          Some (Motion 0 (f64_of_int (i32_sub (fst (mh_pt m)) (fst entry))) (f64_of_int (i32_sub (snd (mh_pt m)) (snd entry))))
      | WM_MOUSEWHEEL \<Rightarrow> Some (AxisDiscrete120 0 (- wheel_data (mh_data m)))
      | WM_XBUTTONDOWN \<Rightarrow> map_option (\<lambda>b. Button 0 b 1) (x_button (mh_data m))
      | WM_XBUTTONUP \<Rightarrow> map_option (\<lambda>b. Button 0 b 0) (x_button (mh_data m))
      | WM_MOUSEHWHEEL \<Rightarrow> Some (AxisDiscrete120 1 (wheel_data (mh_data m)))
      | _ \<Rightarrow> None)"

section \<open>The event thread\<close>

datatype client_update = CU_Create capture_position | CU_Destroy capture_position

datatype tried = T_Ok | T_Full | T_Closed

record win =
  w_requests :: "client_update list"
  w_clients :: "capture_position set"
  w_active :: "capture_position option"
  w_entry_point :: point
  w_prev_pos :: "point option"
  w_displays :: "rect list"
  w_generation :: i32
  w_resolution :: i32
  w_hooks :: "bool \<times> bool"
  w_last_hook :: u32
  w_last_install :: u32
  w_queue :: "tried list"
  w_sent :: "(capture_position \<times> capture_event) list"

definition HOOK_STALE_MS :: int where "HOOK_STALE_MS = 1500"
definition HOOK_REFRESH_MS :: int where "HOOK_REFRESH_MS = 60000"

text \<open>\<open>install_hooks\<close> at \<open>tick\<close>, with whether each hook could be set\<close>

definition install_hooks :: "bool \<times> bool \<Rightarrow> u32 \<Rightarrow> win \<Rightarrow> win" where
  "install_hooks hooks tick w = w\<lparr>w_hooks := hooks, w_last_hook := tick, w_last_install := tick\<rparr>"

definition uninstall_hooks :: "win \<Rightarrow> win" where
  "uninstall_hooks w = w\<lparr>w_hooks := (False, False)\<rparr>"

text \<open>\<open>last_input\<close> is what \<open>GetLastInputInfo\<close> gives\<close>

definition check_hooks_alive :: "u32 option \<Rightarrow> bool \<times> bool \<Rightarrow> u32 \<Rightarrow> win \<Rightarrow> win" where
  "check_hooks_alive last_input hooks tick w =
     (case last_input of
        None \<Rightarrow> w
      | Some t \<Rightarrow>
          if sint (t - w_last_hook w) > HOOK_STALE_MS then install_hooks hooks tick w
          else if w_active w \<noteq> None then w
          else if sint (tick - w_last_install w) > HOOK_REFRESH_MS then install_hooks hooks tick w
          else w)"

definition try_send_event :: "capture_position \<Rightarrow> capture_event \<Rightarrow> win \<Rightarrow> tried \<times> win" where
  "try_send_event pos e w =
     (let q = (case w_queue w of [] \<Rightarrow> T_Ok | q # _ \<Rightarrow> q);
          w = w\<lparr>w_queue := tl (w_queue w)\<rparr>
      in (q, if q = T_Ok then w\<lparr>w_sent := w_sent w @ [(pos, e)]\<rparr> else w))"

definition update_display_regions :: "display_device list \<Rightarrow> win \<Rightarrow> win" where
  "update_display_regions devices w =
     (if w_generation w \<noteq> w_resolution w
      then w\<lparr>w_displays := enumerate_displays devices, w_generation := w_resolution w\<rparr> else w)"

text \<open>a client that is entered: the entry point, and the service is told\<close>

definition enter_client :: "capture_position \<Rightarrow> point \<Rightarrow> point \<Rightarrow> win \<Rightarrow> win option" where
  "enter_client pos prev here w =
     (case clamp_to_display_bounds (w_displays w) prev here of
        None \<Rightarrow> None
      | Some entry_point \<Rightarrow>
          (case try_send_event pos Begin (w\<lparr>w_active := Some pos, w_entry_point := entry_point\<rparr>) of (r, w) \<Rightarrow>
             Some (if r = T_Ok then w else w\<lparr>w_active := None\<rparr>)))"

text \<open>the result is whether a client was active before; \<open>None\<close> is a panic\<close>

definition check_client_activation :: "display_device list \<Rightarrow> wm \<Rightarrow> mouse_hook \<Rightarrow> win \<Rightarrow> (bool \<times> win) option" where
  "check_client_activation devices msg m w =
     (if msg \<noteq> WM_MOUSEMOVE then Some (w_active w \<noteq> None, w)
      else
        let here = mh_pt m;
            prev = (case w_prev_pos w of Some p \<Rightarrow> p | None \<Rightarrow> here);
            w = w\<lparr>w_prev_pos := Some here\<rparr>
        in if w_active w \<noteq> None then Some (True, w)
           else
             let w = update_display_regions devices w in
             (case entered_barrier prev here (w_displays w) of
                None \<Rightarrow> Some (False, w)
              | Some pos \<Rightarrow>
                  if pos \<notin> w_clients w then Some (False, w)
                  else map_option (Pair False) (enter_client pos prev here w)))"

definition win_forward :: "capture_position \<Rightarrow> event \<Rightarrow> win \<Rightarrow> bool \<times> win" where
  "win_forward pos e w =
     (case try_send_event pos (CInput e) w of
        (T_Ok, w) \<Rightarrow> (True, w)
      | (_, w) \<Rightarrow> (False, w\<lparr>w_active := None\<rparr>))"

text \<open>the hooks: whether the event is kept from the other applications\<close>

definition mouse_proc :: "display_device list \<Rightarrow> u32 \<Rightarrow> wm \<Rightarrow> mouse_hook \<Rightarrow> win \<Rightarrow> (bool \<times> win) option" where
  "mouse_proc devices tick msg m w =
     (case check_client_activation devices msg m (w\<lparr>w_last_hook := tick\<rparr>) of
        None \<Rightarrow> None
      | Some (False, w) \<Rightarrow> Some (False, w)
      | Some (True, w) \<Rightarrow>
          (case w_active w of
             None \<Rightarrow> Some (True, w)
           | Some pos \<Rightarrow>
               (case to_mouse_event (w_entry_point w) msg m of
                  None \<Rightarrow> Some (True, w)
                | Some e \<Rightarrow> Some (win_forward pos (Pointer e) w))))"

definition kybrd_proc :: "u32 \<Rightarrow> wm \<Rightarrow> key_hook \<Rightarrow> win \<Rightarrow> bool \<times> win" where
  "kybrd_proc tick msg k w =
     (let w = w\<lparr>w_last_hook := tick\<rparr> in
      case w_active w of
        None \<Rightarrow> (False, w)
      | Some client \<Rightarrow>
          (case to_key_event msg k of
             None \<Rightarrow> (True, w)
           | Some e \<Rightarrow> win_forward client (Keyboard e) w))"

definition update_clients :: "client_update \<Rightarrow> win \<Rightarrow> win" where
  "update_clients r w =
     (case r of
        CU_Create pos \<Rightarrow> w\<lparr>w_clients := insert pos (w_clients w)\<rparr>
      | CU_Destroy pos \<Rightarrow>
          let w = (if w_active w = Some pos then w\<lparr>w_active := None\<rparr> else w)
          in w\<lparr>w_clients := w_clients w - {pos}\<rparr>)"

text \<open>the message loop; a request is buffered by the thread of the service before its message comes\<close>

datatype win_input =
    WI_Mouse "display_device list" u32 wm mouse_hook
  | WI_Key u32 wm key_hook
  | WI_Request client_update
  | WI_ClientUpdate
  | WI_Release
  | WI_DisplayChange
  | WI_Timer "u32 option" "bool \<times> bool" u32

definition win_step :: "win_input \<Rightarrow> win \<Rightarrow> win option" where
  "win_step i w =
     (case i of
        WI_Mouse devices tick msg m \<Rightarrow> map_option snd (mouse_proc devices tick msg m w)
      | WI_Key tick msg k \<Rightarrow> Some (snd (kybrd_proc tick msg k w))
      | WI_Request r \<Rightarrow> Some (w\<lparr>w_requests := w_requests w @ [r]\<rparr>)
      | WI_ClientUpdate \<Rightarrow> Some (fold update_clients (w_requests w) (w\<lparr>w_requests := []\<rparr>))
      | WI_Release \<Rightarrow> Some (w\<lparr>w_active := None\<rparr>)
      | WI_DisplayChange \<Rightarrow> Some (w\<lparr>w_resolution := w_resolution w + 1\<rparr>)
      | WI_Timer last_input hooks tick \<Rightarrow> Some (check_hooks_alive last_input hooks tick w))"

text \<open>the state when the message loop begins\<close>

definition win_start :: "bool \<times> bool \<Rightarrow> u32 \<Rightarrow> tried list \<Rightarrow> win" where
  "win_start hooks tick queue =
     install_hooks hooks tick
     \<lparr>w_requests = [], w_clients = {}, w_active = None, w_entry_point = (0, 0), w_prev_pos = None, w_displays = [],
      w_generation = 0, w_resolution = 1, w_hooks = (False, False), w_last_hook = 0, w_last_install = 0,
      w_queue = queue, w_sent = []\<rparr>"

fun win_run :: "win_input list \<Rightarrow> win \<Rightarrow> win option" where
  "win_run [] w = Some w"
| "win_run (i # is) w = Option.bind (win_step i w) (win_run is)"

end
