(* ===== verification/CaptureBackend.thy ===== *)
theory CaptureBackend
  imports InputCapture
begin

text \<open>
  What the front end (\<open>InputCapture\<close>) may expect of a capture backend, the trait \<open>Capture\<close> of
  \<open>input-capture/src/lib.rs\<close>: an input at an edge comes only after a capture began there, with
  nothing in between that began at another edge. \<open>step\<close> gives \<open>None\<close> when the backend ends.
\<close>

text \<open>the edge whose capture began last; \<open>None\<close> when an input comes without its begin\<close>

fun begun :: "(capture_position \<times> capture_event) list \<Rightarrow> capture_position option \<Rightarrow> capture_position option option" where
  "begun [] cur = Some cur"
| "begun ((pos, Begin) # es) cur = begun es (Some pos)"
| "begun ((pos, CInput e) # es) cur = (if cur = Some pos then begun es cur else None)"

lemma begun_append: "begun (xs @ ys) cur = Option.bind (begun xs cur) (begun ys)"
  by (induction xs cur rule: begun.induct) auto

lemma begun_last:
  "begun xs None = Some (Some pos) \<Longrightarrow> \<exists>us vs. xs = us @ (pos, Begin) # map (\<lambda>e. (pos, CInput e)) vs"
proof (induction xs rule: rev_induct)
  case (snoc x xs)
  obtain p e where x: "x = (p, e)" by fastforce
  show ?case
  proof (cases e)
    case Begin
    then show ?thesis using snoc.prems x by (intro exI [of _ xs] exI [of _ "[]"]) (auto simp: begun_append bind_eq_Some_conv)
  next
    case (CInput ev)
    then have "begun xs None = Some (Some pos)" "p = pos"
      using snoc.prems x by (auto simp: begun_append bind_eq_Some_conv split: if_splits)
    from snoc.IH [OF this(1)] obtain us vs where "xs = us @ (pos, Begin) # map (\<lambda>e. (pos, CInput e)) vs" by blast
    then show ?thesis using x CInput \<open>p = pos\<close> by (intro exI [of _ us] exI [of _ "vs @ [ev]"]) simp
  qed
qed simp

locale capture_backend =
  fixes step :: "'i \<Rightarrow> 's \<Rightarrow> 's option"
    and sent :: "'s \<Rightarrow> (capture_position \<times> capture_event) list"
    and inv :: "'s \<Rightarrow> bool"
  assumes step_inv: "inv s \<Longrightarrow> step i s = Some s' \<Longrightarrow> inv s'"
    and inv_begun: "inv s \<Longrightarrow> begun (sent s) None \<noteq> None"
begin

fun run :: "'i list \<Rightarrow> 's \<Rightarrow> 's option" where
  "run [] s = Some s"
| "run (i # is) s = Option.bind (step i s) (run is)"

lemma run_inv: "inv s \<Longrightarrow> run is s = Some s' \<Longrightarrow> inv s'"
  by (induction "is" arbitrary: s) (auto simp: bind_eq_Some_conv intro: step_inv)

lemma input_after_begin:
  assumes "inv s" "run is s = Some s'" "sent s' = xs @ (pos, CInput e) # ys"
  shows "\<exists>us vs. xs = us @ (pos, Begin) # map (\<lambda>e. (pos, CInput e)) vs"
proof -
  from run_inv [OF assms(1,2)] have "begun (sent s') None \<noteq> None" by (rule inv_begun)
  then have "begun xs None = Some (Some pos)"
    by (cases "begun xs None") (auto simp: assms(3) begun_append split: if_splits)
  then show ?thesis by (rule begun_last)
qed

end

end
