(* ===== verification/WinSafety.thy ===== *)
theory WinSafety
  imports WinCapture CaptureBackend
begin

text \<open>
  What the Windows capture backend guarantees in every run: it never panics, the stream of its
  events is what the front end expects, and no input is lost.
\<close>

section \<open>Displays\<close>

lemma region_iff: "is_within_dp_region pt d \<longleftrightarrow>
    r_left d \<le> fst pt \<and> fst pt < r_right d \<and> r_top d \<le> snd pt \<and> snd pt < r_bottom d"
  by (auto simp: is_within_dp_region_def is_within_dp_boundary_def win_positions_def)

text \<open>the entry point: the point of the display the pointer left that is nearest to where it went\<close>

lemma clamp_to_display_bounds_Some:
  assumes "in_display_region prev displays"
  shows "\<exists>pt. clamp_to_display_bounds displays prev here = Some pt \<and> in_display_region pt displays"
proof -
  from assms have "find (is_within_dp_region prev) displays \<noteq> None"
    by (auto simp: in_display_region_def list_ex_iff find_None_iff)
  then obtain d where d: "find (is_within_dp_region prev) displays = Some d" by blast
  then have "d \<in> set displays" "is_within_dp_region prev d" by (auto simp: find_Some_iff)
  then show ?thesis using d
    by (auto simp: clamp_to_display_bounds_def clamp_i32_def in_display_region_def list_ex_iff region_iff
        intro!: bexI [of _ d])
qed

lemma entered_barrier_Some: "entered_barrier prev here displays = Some pos \<Longrightarrow> in_display_region prev displays"
  by (auto simp: entered_barrier_def find_Some_iff moved_across_boundary_def)

section \<open>The events\<close>

definition win_ok :: "win \<Rightarrow> bool" where
  "win_ok w \<longleftrightarrow>
     (case w_active w of None \<Rightarrow> begun (w_sent w) None \<noteq> None
      | Some pos \<Rightarrow> pos \<in> w_clients w \<and> in_display_region (w_entry_point w) (w_displays w) \<and>
          begun (w_sent w) None = Some (Some pos))"

lemma win_ok_inactive: "win_ok w \<Longrightarrow> win_ok (w\<lparr>w_active := None\<rparr>)"
  by (auto simp: win_ok_def split: option.splits)

lemma win_ok_forward: "win_ok w \<Longrightarrow> w_active w = Some pos \<Longrightarrow> win_ok (snd (win_forward pos e w))"
  by (auto simp: win_forward_def try_send_event_def win_ok_def begun_append Let_def split: prod.split tried.split list.split)

lemma win_ok_fields [simp]:
  "win_ok (w\<lparr>w_last_hook := t\<rparr>) = win_ok w" "win_ok (w\<lparr>w_prev_pos := p\<rparr>) = win_ok w"
  "win_ok (w\<lparr>w_requests := rs\<rparr>) = win_ok w" "win_ok (w\<lparr>w_resolution := g\<rparr>) = win_ok w"
  "win_ok (install_hooks hooks t w) = win_ok w"
  by (simp_all add: win_ok_def install_hooks_def split: option.split)

lemma enter_client_ok:
  assumes "win_ok w" "w_active w = None" "pos \<in> w_clients w" "in_display_region prev (w_displays w)"
  shows "\<exists>w'. enter_client pos prev here w = Some w' \<and> win_ok w'"
proof -
  from clamp_to_display_bounds_Some [OF assms(4), of here] obtain pt where
    "clamp_to_display_bounds (w_displays w) prev here = Some pt" "in_display_region pt (w_displays w)" by blast
  then show ?thesis using assms(1-3)
    by (auto simp: enter_client_def try_send_event_def win_ok_def begun_append Let_def split: list.split)
qed

lemma check_activation_ok:
  assumes "win_ok w"
  shows "\<exists>b w'. check_client_activation devices msg m w = Some (b, w') \<and> win_ok w' \<and> (b \<longleftrightarrow> w_active w \<noteq> None) \<and>
    (b \<longrightarrow> w_active w' = w_active w \<and> w_entry_point w' = w_entry_point w \<and> w_sent w' = w_sent w \<and> w_queue w' = w_queue w)"
proof (cases "msg = WM_MOUSEMOVE \<and> w_active w = None")
  case True
  define prev where "prev = (case w_prev_pos w of Some p \<Rightarrow> p | None \<Rightarrow> mh_pt m)"
  define w1 where "w1 = update_display_regions devices (w\<lparr>w_prev_pos := Some (mh_pt m)\<rparr>)"
  have w1: "win_ok w1" "w_active w1 = None"
    using assms True by (auto simp: w1_def update_display_regions_def win_ok_def)
  have eq: "check_client_activation devices msg m w = (case entered_barrier prev (mh_pt m) (w_displays w1) of
      None \<Rightarrow> Some (False, w1)
    | Some pos \<Rightarrow> if pos \<notin> w_clients w1 then Some (False, w1) else map_option (Pair False) (enter_client pos prev (mh_pt m) w1))"
    unfolding prev_def w1_def check_client_activation_def Let_def using True by simp
  have "\<exists>w'. check_client_activation devices msg m w = Some (False, w') \<and> win_ok w'"
  proof (cases "entered_barrier prev (mh_pt m) (w_displays w1)")
    case (Some pos)
    note e = enter_client_ok [OF w1 _ entered_barrier_Some [OF Some], of pos "mh_pt m"]
    show ?thesis unfolding eq Some using e w1 by (cases "pos \<in> w_clients w1") auto
  qed (use w1 eq in simp)
  then show ?thesis using True by auto
next
  case False
  then show ?thesis using assms by (auto simp: check_client_activation_def Let_def)
qed

lemma mouse_proc_ok:
  assumes "win_ok w"
  shows "\<exists>b w'. mouse_proc devices tick msg m w = Some (b, w') \<and> win_ok w'"
proof -
  from check_activation_ok [of "w\<lparr>w_last_hook := tick\<rparr>" devices msg m] assms obtain b w1 where
    c: "check_client_activation devices msg m (w\<lparr>w_last_hook := tick\<rparr>) = Some (b, w1)" "win_ok w1" by auto
  then show ?thesis using win_ok_forward [OF c(2)]
    by (auto simp: mouse_proc_def split: bool.split option.split) (metis prod.collapse)
qed

lemma kybrd_proc_ok: "win_ok w \<Longrightarrow> win_ok (snd (kybrd_proc tick msg k w))"
  using win_ok_forward [of "w\<lparr>w_last_hook := tick\<rparr>"]
  by (auto simp: kybrd_proc_def Let_def split: option.split)

lemma update_clients_ok: "win_ok w \<Longrightarrow> win_ok (update_clients r w)"
  by (auto simp: update_clients_def win_ok_def Let_def split: client_update.split option.splits)

lemma win_step_ok:
  assumes "win_ok w"
  shows "\<exists>w'. win_step i w = Some w' \<and> win_ok w'"
proof (cases i)
  case (WI_Mouse devices tick msg m)
  then show ?thesis using mouse_proc_ok [OF assms, of devices tick msg m] by (auto simp: win_step_def)
next
  case WI_ClientUpdate
  have "win_ok (fold update_clients (w_requests w) (w\<lparr>w_requests := []\<rparr>))"
    by (rule fold_inv [where P = win_ok]) (simp_all add: assms update_clients_ok)
  then show ?thesis by (simp add: WI_ClientUpdate win_step_def)
next
  case (WI_Timer last_input hooks tick)
  then show ?thesis using assms by (auto simp: win_step_def check_hooks_alive_def split: option.split)
qed (use assms kybrd_proc_ok win_ok_inactive in \<open>auto simp: win_step_def\<close>)

lemma win_run_ok: "win_ok w \<Longrightarrow> \<exists>w'. win_run is w = Some w' \<and> win_ok w'"
proof (induction "is" arbitrary: w)
  case (Cons i "is")
  from win_step_ok [OF Cons.prems, of i] obtain w1 where "win_step i w = Some w1" "win_ok w1" by blast
  then show ?case using Cons.IH by simp
qed simp

interpretation windows_backend: capture_backend win_step w_sent win_ok
proof
  show "win_ok w'" if "win_ok w" "win_step i w = Some w'" for w w' i
    using win_step_ok [OF that(1), of i] that(2) by auto
qed (auto simp: win_ok_def split: option.splits)

lemma windows_run: "windows_backend.run is w = win_run is w"
  by (induction "is" arbitrary: w) (simp_all split: bind_splits)

text \<open>
  \<^bold>\<open>C10.\<close> The event thread of the Windows backend never panics, whatever the pointer does, the
  displays become and however full the queue is. In every state it reaches: a capture that is active
  is that of a registered barrier and its entry point lies on a display; and an input at an edge
  is sent only after a capture began there, with only inputs at that edge in between.
\<close>

theorem win_capture_sound:
  "\<exists>w. win_run is (win_start hooks tick queue) = Some w \<and>
     (\<forall>pos. w_active w = Some pos \<longrightarrow> pos \<in> w_clients w \<and> in_display_region (w_entry_point w) (w_displays w)) \<and>
     (\<forall>xs pos e ys. w_sent w = xs @ (pos, CInput e) # ys \<longrightarrow>
        (\<exists>us vs. xs = us @ (pos, Begin) # map (\<lambda>e. (pos, CInput e)) vs))"
proof -
  have start: "win_ok (win_start hooks tick queue)" by (simp add: win_start_def win_ok_def install_hooks_def)
  from win_run_ok [OF this, of "is"] obtain w where w: "win_run is (win_start hooks tick queue) = Some w" "win_ok w" by blast
  from windows_backend.input_after_begin [OF start, unfolded windows_run, OF w(1)] w show ?thesis
    by (auto simp: win_ok_def split: option.splits)
qed

section \<open>The hooks\<close>

text \<open>
  what a hook did: kept the event and sent it to the client at \<open>pos\<close>, if it could be translated, or
  gave up the capture and let the event pass
\<close>

definition captured :: "capture_position \<Rightarrow> event option \<Rightarrow> win \<Rightarrow> bool \<Rightarrow> win \<Rightarrow> bool" where
  "captured pos e w swallowed w' \<longleftrightarrow>
     (if swallowed
      then w_active w' = Some pos \<and> w_sent w' = w_sent w @ (case e of Some e \<Rightarrow> [(pos, CInput e)] | None \<Rightarrow> [])
      else e \<noteq> None \<and> w_active w' = None \<and> w_sent w' = w_sent w)"

text \<open>no capture: the event passes, and at most a capture begins\<close>

definition passed :: "win \<Rightarrow> bool \<Rightarrow> win \<Rightarrow> bool" where
  "passed w swallowed w' \<longleftrightarrow> \<not> swallowed \<and>
     w_sent w' = w_sent w @ (case w_active w' of Some pos \<Rightarrow> [(pos, Begin)] | None \<Rightarrow> [])"

lemma captured_forward:
  "w_active w = Some pos \<Longrightarrow> w_sent w = w_sent w0 \<Longrightarrow> captured pos (Some e) w0 (fst (win_forward pos e w)) (snd (win_forward pos e w))"
  by (auto simp: captured_def win_forward_def try_send_event_def Let_def split: list.split tried.split)

lemma passed_activation:
  assumes "check_client_activation devices msg m w = Some (b, w')" "w_active w = None"
  shows "passed w b w'"
  using assms
  by (auto simp: passed_def check_client_activation_def enter_client_def try_send_event_def update_display_regions_def Let_def
      split: if_splits option.splits prod.splits list.splits)


section \<open>The watchdog\<close>

lemma signed_distance:
  assumes "d < 2 ^ 31"
  shows "sint ((t + of_nat d) - t :: u32) = int d"
proof -
  have "sint (of_nat d :: u32) = int d"
    using assms by (simp add: sint_uint signed_take_bit_int_eq_self uint_nat unat_of_nat take_bit_nat_eq_self)
  then show ?thesis by simp
qed

text \<open>
  The tick counts wrap every 49 days and the watchdog still measures right: with distances
  below \<open>2 ^ 31\<close> ms it puts the hooks back exactly when Windows saw input more than 1.5 s after
  the last callback, or when no capture is active and the hooks are more than a minute old.
\<close>

theorem watchdog_exact:
  assumes "d < 2 ^ 31" "e < 2 ^ 31"
  shows "check_hooks_alive (Some (w_last_hook w + of_nat d)) hooks (w_last_install w + of_nat e) w =
    (if 1500 < d \<or> w_active w = None \<and> 60000 < e then install_hooks hooks (w_last_install w + of_nat e) w else w)"
  using signed_distance [OF assms(1), of "w_last_hook w"] signed_distance [OF assms(2), of "w_last_install w"]
  by (auto simp: check_hooks_alive_def HOOK_STALE_MS_def HOOK_REFRESH_MS_def)

definition example_moves :: "win_input list" where
  "example_moves =
     [WI_Request (CU_Create C_Left), WI_ClientUpdate,
      WI_Mouse [(True, Some (0, 0, 100, 100))] 1 WM_MOUSEMOVE \<lparr>mh_pt = (5, 5), mh_data = 0\<rparr>,
      WI_Mouse [(True, Some (0, 0, 100, 100))] 2 WM_MOUSEMOVE \<lparr>mh_pt = (-3, 5), mh_data = 0\<rparr>]"

lemma example_moves_run:
  "\<exists>w. win_run example_moves (win_start (True, True) 0 []) = Some w \<and> w_active w = Some C_Left \<and>
     w_sent w = [(C_Left, Begin)] \<and> w_entry_point w = (0, 5) \<and> w_queue w = []"
  by (simp add: example_moves_def win_start_def install_hooks_def win_step_def update_clients_def mouse_proc_def
      check_client_activation_def update_display_regions_def enumerate_displays_def entered_barrier_def win_positions_def
      moved_across_boundary_def in_display_region_def region_iff in_bounds_def is_within_dp_boundary_def enter_client_def
      clamp_to_display_bounds_def clamp_i32_def try_send_event_def)

theorem win_capture_sound_witness:
  "\<exists>w. win_run example_moves (win_start (True, True) 0 []) = Some w \<and> w_active w = Some C_Left \<and>
     C_Left \<in> w_clients w \<and> in_display_region (w_entry_point w) (w_displays w)"
  using win_capture_sound [of example_moves "(True, True)" 0 "[]"] example_moves_run by auto


theorem watchdog_exact_witness:
  "let w = (win_start (True, True) 0xFFFFFFF0 []) in
   check_hooks_alive (Some 0x5CC) (False, True) 0x700 w = w \<and>
   check_hooks_alive (Some 0x5CD) (False, True) 0x700 w = install_hooks (False, True) 0x700 w"
proof -
  let ?w = "win_start (True, True) 0xFFFFFFF0 []"
  have h: "w_last_hook ?w = 0xFFFFFFF0" "w_last_install ?w = 0xFFFFFFF0" by (simp_all add: win_start_def install_hooks_def)
  have n: "(4294968781 :: u32) = 0x5CD" "(4294968780 :: u32) = 0x5CC" "(4294969088 :: u32) = 0x700" by simp_all
  show ?thesis
    using watchdog_exact [of 1501 1808 ?w "(False, True)"] watchdog_exact [of 1500 1808 ?w "(False, True)"]
    by (simp add: Let_def h n)
qed

end
