(* ===== verification/WinEmulation.thy ===== *)
theory WinEmulation
  imports WinCapture
begin

text \<open>
  The Windows emulation backend (\<open>input-emulation/src/windows.rs\<close>): what is handed to
  \<open>SendInput\<close>, and the task that repeats a key. Then what becomes of an event that one Windows
  machine captures and another one injects.
\<close>

datatype mouse_flag =
    ME_MOVE | ME_LEFTDOWN | ME_LEFTUP | ME_RIGHTDOWN | ME_RIGHTUP | ME_MIDDLEDOWN | ME_MIDDLEUP
  | ME_XDOWN | ME_XUP | ME_WHEEL | ME_HWHEEL

record mouse_input =
  mi_dx :: i32
  mi_dy :: i32
  mi_mouse_data :: u32
  mi_flags :: mouse_flag

text \<open>a key by its scan code (\<open>KEYEVENTF_SCANCODE\<close>), with the flags \<open>EXTENDEDKEY\<close> and \<open>KEYUP\<close>\<close>

record key_input =
  ki_scan :: u16
  ki_extended :: bool
  ki_up :: bool

datatype input = IN_Mouse mouse_input | IN_Key key_input

definition rel_mouse :: "i32 \<Rightarrow> i32 \<Rightarrow> input list" where
  "rel_mouse dx dy = [IN_Mouse \<lparr>mi_dx = dx, mi_dy = dy, mi_mouse_data = 0, mi_flags = ME_MOVE\<rparr>]"

definition button_flags :: "u32 \<Rightarrow> u32 \<Rightarrow> mouse_flag option" where
  "button_flags button state =
     (if state = 0 then
        if button = BTN_LEFT then Some ME_LEFTUP
        else if button = BTN_RIGHT then Some ME_RIGHTUP
        else if button = BTN_MIDDLE then Some ME_MIDDLEUP
        else if button = BTN_BACK \<or> button = BTN_FORWARD then Some ME_XUP
        else None
      else if state = 1 then
        if button = BTN_LEFT then Some ME_LEFTDOWN
        else if button = BTN_RIGHT then Some ME_RIGHTDOWN
        else if button = BTN_MIDDLE then Some ME_MIDDLEDOWN
        else if button = BTN_BACK \<or> button = BTN_FORWARD then Some ME_XDOWN
        else None
      else None)"

text \<open>\<open>XBUTTON1\<close> is 1, \<open>XBUTTON2\<close> 2\<close>

definition mouse_button :: "u32 \<Rightarrow> u32 \<Rightarrow> input list" where
  "mouse_button button state =
     (case button_flags button state of
        None \<Rightarrow> []
      | Some flags \<Rightarrow>
          [IN_Mouse \<lparr>mi_dx = 0, mi_dy = 0,
             mi_mouse_data = (if button = BTN_BACK then 1 else if button = BTN_FORWARD then 2 else 0), mi_flags = flags\<rparr>])"

definition win_scroll :: "u8 \<Rightarrow> i32 \<Rightarrow> input list" where
  "win_scroll axis value =
     (if axis = 0 then [IN_Mouse \<lparr>mi_dx = 0, mi_dy = 0, mi_mouse_data = - value, mi_flags = ME_WHEEL\<rparr>]
      else if axis = 1 then [IN_Mouse \<lparr>mi_dx = 0, mi_dy = 0, mi_mouse_data = - value, mi_flags = ME_HWHEEL\<rparr>]
      else [])"

definition linux_keycode_to_windows_scancode :: "u32 \<Rightarrow> u16 option" where
  "linux_keycode_to_windows_scancode key =
     map_option (\<lambda>w. ucast (windows_code w)) (Option.bind (linux_try_from key) linux_to_windows)"

definition key_event :: "u32 \<Rightarrow> u8 \<Rightarrow> input list" where
  "key_event key state =
     (case linux_keycode_to_windows_scancode key of
        None \<Rightarrow> []
      | Some scancode \<Rightarrow>
          [IN_Key \<lparr>ki_scan = scancode AND 0xff, ki_extended = (scancode > 0xff), ki_up = (state = 0)\<rparr>])"

section \<open>The backend\<close>

text \<open>\<open>we_repeat\<close> is the repeat task: its key and when it wakes up next, in ms\<close>

record win_emulation =
  we_repeat :: "(u32 \<times> nat) option"
  we_sent :: "input list"

definition DEFAULT_REPEAT_DELAY :: nat where "DEFAULT_REPEAT_DELAY = 500"
definition DEFAULT_REPEAT_INTERVAL :: nat where "DEFAULT_REPEAT_INTERVAL = 32"

definition win_emulation_new :: win_emulation where
  "win_emulation_new = \<lparr>we_repeat = None, we_sent = []\<rparr>"

definition we_send :: "input list \<Rightarrow> win_emulation \<Rightarrow> win_emulation" where
  "we_send is we = we\<lparr>we_sent := we_sent we @ is\<rparr>"

definition kill_repeat_task :: "win_emulation \<Rightarrow> win_emulation" where
  "kill_repeat_task we = we\<lparr>we_repeat := None\<rparr>"

definition spawn_repeat_task :: "nat \<Rightarrow> u32 \<Rightarrow> win_emulation \<Rightarrow> win_emulation" where
  "spawn_repeat_task now key we = (kill_repeat_task we)\<lparr>we_repeat := Some (key, now + DEFAULT_REPEAT_DELAY)\<rparr>"

definition repeat_task_wakes :: "nat \<Rightarrow> win_emulation \<Rightarrow> win_emulation" where
  "repeat_task_wakes now we =
     (case we_repeat we of
        Some (key, due) \<Rightarrow>
          if due \<le> now then (we_send (key_event key 1) we)\<lparr>we_repeat := Some (key, now + DEFAULT_REPEAT_INTERVAL)\<rparr> else we
      | None \<Rightarrow> we)"

definition win_inject :: "event \<Rightarrow> input list" where
  "win_inject e =
     (case e of
        Pointer (Motion _ dx dy) \<Rightarrow> rel_mouse (f64_to_i32 dx) (f64_to_i32 dy)
      | Pointer (Button _ button state) \<Rightarrow> mouse_button button state
      | Pointer (Axis _ axis value) \<Rightarrow> win_scroll axis (f64_to_i32 value)
      | Pointer (AxisDiscrete120 axis value) \<Rightarrow> win_scroll axis value
      | Keyboard (Key _ key state) \<Rightarrow> key_event key state
      | Keyboard (Modifiers _ _ _ _) \<Rightarrow> [])"

definition win_consume :: "nat \<Rightarrow> event \<Rightarrow> win_emulation \<Rightarrow> win_emulation" where
  "win_consume now e we =
     (let we = (case e of
            Keyboard (Key _ key state) \<Rightarrow>
              if state = 0 then kill_repeat_task we else if state = 1 then spawn_repeat_task now key we else we
          | _ \<Rightarrow> we)
      in we_send (win_inject e) we)"

section \<open>From one Windows machine to another\<close>

text \<open>what would have to be injected to make the captured event happen again\<close>

definition replay_mouse :: "point \<Rightarrow> wm \<Rightarrow> mouse_hook \<Rightarrow> input list" where
  "replay_mouse entry w m =
     (let mouse = (\<lambda>flags d. [IN_Mouse \<lparr>mi_dx = 0, mi_dy = 0, mi_mouse_data = d, mi_flags = flags\<rparr>]);
          hb = drop_bit 16 (mh_data m)
      in case w of
           WM_MOUSEMOVE \<Rightarrow> rel_mouse (word_of_int (fst (mh_pt m) - fst entry)) (word_of_int (snd (mh_pt m) - snd entry))
         | WM_LBUTTONDOWN \<Rightarrow> mouse ME_LEFTDOWN 0
         | WM_LBUTTONUP \<Rightarrow> mouse ME_LEFTUP 0
         | WM_RBUTTONDOWN \<Rightarrow> mouse ME_RIGHTDOWN 0
         | WM_RBUTTONUP \<Rightarrow> mouse ME_RIGHTUP 0
         | WM_MBUTTONDOWN \<Rightarrow> mouse ME_MIDDLEDOWN 0
         | WM_MBUTTONUP \<Rightarrow> mouse ME_MIDDLEUP 0
         | WM_XBUTTONDOWN \<Rightarrow> if hb = 1 \<or> hb = 2 then mouse ME_XDOWN hb else []
         | WM_XBUTTONUP \<Rightarrow> if hb = 1 \<or> hb = 2 then mouse ME_XUP hb else []
         | WM_MOUSEWHEEL \<Rightarrow> mouse ME_WHEEL (wheel_data (mh_data m))
         | WM_MOUSEHWHEEL \<Rightarrow> mouse ME_HWHEEL (wheel_data (mh_data m))
         | _ \<Rightarrow> [])"

text \<open>an event of the other backend: \<open>None\<close> is one that is not forwarded\<close>

definition injected :: "event option \<Rightarrow> input list" where
  "injected e = (case e of None \<Rightarrow> [] | Some e \<Rightarrow> win_inject e)"

lemma i32_motion: "f64_to_i32 (f64_of_int (i32_sub x y)) = word_of_int (x - y)"
proof -
  let ?s = "sint (word_of_int (x - y) :: i32)"
  have "- (2 ^ 31) \<le> ?s" "?s < 2 ^ 31"
    using sint_greater_eq [of "word_of_int (x - y) :: i32"] sint_less [of "word_of_int (x - y) :: i32"] by simp_all
  from f64_of_int_back [OF this] show ?thesis by (simp add: i32_sub_def)
qed

lemmas buttons = BTN_LEFT_def BTN_RIGHT_def BTN_MIDDLE_def BTN_BACK_def BTN_FORWARD_def

text \<open>
  \<^bold>\<open>C26.\<close> What the mouse does on a Windows machine that is captured happens on a Windows machine
  that emulates it: the same motion, the same button with the same transition, the same turn of the
  wheel; except that a horizontal scroll comes out in the opposite direction.
\<close>

theorem windows_mouse_roundtrip:
  "injected (map_option Pointer (to_mouse_event entry w m)) =
    (if w = WM_MOUSEHWHEEL
     then [IN_Mouse \<lparr>mi_dx = 0, mi_dy = 0, mi_mouse_data = - wheel_data (mh_data m), mi_flags = ME_HWHEEL\<rparr>]
     else replay_mouse entry w m)"
  by (cases w) (simp_all add: injected_def to_mouse_event_def replay_mouse_def win_inject_def rel_mouse_def i32_motion
      mouse_button_def button_flags_def win_scroll_def x_button_def buttons Let_def)

lemma windows_to_linux_known: "windows_to_linux w = Some l \<Longrightarrow> linux_try_from (linux_code l) = Some l"
proof -
  assume "windows_to_linux w = Some l"
  then have "(w, Some l) \<in> set windows_to_linux_arms"
    by (auto simp: windows_to_linux_def bind_eq_Some_conv dest: map_of_SomeD)
  moreover have "list_all (\<lambda>(w, r). case r of None \<Rightarrow> True | Some l \<Rightarrow> linux_code l < 250) windows_to_linux_arms"
    by (simp add: scancode_tables)
  ultimately have "linux_code l < 250" by (auto simp: list_all_iff)
  then show ?thesis by (simp add: linux_try_from_eq)
qed

text \<open>the scan code of a hook and the extended flag, as \<open>SendInput\<close> takes them\<close>

lemma scan_codes:
  "list_all (\<lambda>s. (let c = (of_nat s OR 0xE000 :: u32) in (ucast c :: u16) AND 0xff = of_nat s \<and> (ucast c :: u16) > 0xff) \<and>
     (let c = (of_nat s :: u32) in (ucast c :: u16) AND 0xff = of_nat s \<and> \<not> (ucast c :: u16) > 0xff)) [0..<256]"
  by code_simp

lemma scan_code_parts:
  assumes "s < 0x100" and "c = (if ext then s OR 0xE000 else s :: u32)"
  shows "(ucast c :: u16) AND 0xff = ucast s" "(ucast c :: u16) > 0xff \<longleftrightarrow> ext"
proof -
  have "unat s \<in> set [0..<256]" using assms(1) by (simp add: word_less_nat_alt)
  with scan_codes have p: "(let c = (of_nat (unat s) OR 0xE000 :: u32) in (ucast c :: u16) AND 0xff = of_nat (unat s) \<and> (ucast c :: u16) > 0xff)"
    "(let c = (of_nat (unat s) :: u32) in (ucast c :: u16) AND 0xff = of_nat (unat s) \<and> \<not> (ucast c :: u16) > 0xff)"
    unfolding list_all_iff by blast+
  have s: "(of_nat (unat s) :: u32) = s" "(of_nat (unat s) :: u16) = ucast s" by (simp_all add: unsigned_ucast_eq)
  show "(ucast c :: u16) AND 0xff = ucast s" "(ucast c :: u16) > 0xff \<longleftrightarrow> ext"
    using p unfolding s Let_def assms(2) by (auto split: if_splits)
qed

text \<open>
  A key that is captured on one Windows machine and injected on another is the same key,
  with its extended flag, and the same transition, for every scan code of a hook that can be translated
  except the two of \<open>windows_lossy\<close>.
\<close>

theorem windows_key_roundtrip:
  assumes "to_key_event w k = Some e" "kh_scan_code k < 0x100"
    and "Windows (if kh_extended k then kh_scan_code k OR 0xE000 else kh_scan_code k) \<notin> windows_lossy"
  shows "win_inject (Keyboard e) =
    [IN_Key \<lparr>ki_scan = ucast (kh_scan_code k), ki_extended = kh_extended k, ki_up = (w = WM_KEYUP \<or> w = WM_SYSKEYUP)\<rparr>]"
proof -
  define c where "c = (if kh_extended k then kh_scan_code k OR 0xE000 else kh_scan_code k)"
  from assms(1) obtain wc l where wc: "windows_try_from c = Some wc" and l: "windows_to_linux wc = Some l"
    and e: "e = Key 0 (linux_code l) (if w = WM_KEYUP \<or> w = WM_SYSKEYUP then 0 else 1)"
    by (auto simp: to_key_event_def c_def Let_def split: option.splits wm.splits)
      (auto simp: bind_eq_Some_conv)
  have "wc = Windows c" using wc by (simp add: windows_try_from_def split: if_splits)
  moreover have "linux_to_windows l = Some wc"
    using windows_roundtrip [OF l] assms(3) \<open>wc = Windows c\<close> by (simp add: c_def)
  ultimately have "linux_keycode_to_windows_scancode (linux_code l) = Some (ucast c)"
    by (simp add: linux_keycode_to_windows_scancode_def windows_to_linux_known [OF l])
  then show ?thesis
    using scan_code_parts [OF assms(2) c_def] by (simp add: e win_inject_def key_event_def)
qed

theorem windows_key_roundtrip_witness:
  "to_key_event WM_KEYUP \<lparr>kh_scan_code = 0x1d, kh_extended = True\<rparr> = Some (Key 0 97 0) \<and>
   win_inject (Keyboard (Key 0 97 0)) = [IN_Key \<lparr>ki_scan = 0x1d, ki_extended = True, ki_up = True\<rparr>]"
proof -
  have w: "windows_try_from 0xE01D = Some W_KeyRightCtrl" by (simp add: windows_try_from_def scancode_tables)
  have e: "to_key_event WM_KEYUP \<lparr>kh_scan_code = 0x1d, kh_extended = True\<rparr> = Some (Key 0 97 0)"
    by (simp add: to_key_event_def w windows_arms)
  from windows_key_roundtrip [OF this] e show ?thesis by (simp add: windows_lossy_def)
qed

text \<open>
  \<open>Pause\<close> is \<open>0xe11d45\<close>, which does not fit in \<open>u16\<close>: what is left of it injects the extended
  scan code \<open>0x45\<close>, the one a hook reports for another key.
\<close>

lemma pause_truncated: "key_event (linux_code L_KeyPause) 1 = [IN_Key \<lparr>ki_scan = 0x45, ki_extended = True, ki_up = False\<rparr>]"
  by (simp add: key_event_def linux_keycode_to_windows_scancode_def linux_try_from_eq linux_arms)

end
