(* ===== verification/LibeiCapture.thy ===== *)
theory LibeiCapture
  imports CaptureBackend FileNames
begin

text \<open>
  The libei capture backend (\<open>input-capture/src/libei.rs\<close>) and the conversion of its events
  (\<open>input-event/src/libei.rs\<close>). The portal and the event stream of the compositor are outside: how
  their calls end is in the inputs. An \<open>f32\<close> is given by the \<open>f64\<close> it widens to.
\<close>

section \<open>Events\<close>

text \<open>the events of \<open>reis\<close> that the code looks at; \<open>EI_Other\<close> is any other\<close>

datatype ei_event =
    EI_KeyboardModifiers u32 u32 u32 u32
  | EI_PointerMotion u64 f64 f64
  | EI_Button u64 u32 bool
  | EI_ScrollDelta f64 f64
  | EI_ScrollDiscrete i32 i32
  | EI_KeyboardKey u64 u32 bool
  | EI_SeatAdded
  | EI_SeatRemoved
  | EI_DeviceRemoved
  | EI_Device
  | EI_Disconnected string
  | EI_Other

definition axes :: "bool \<Rightarrow> bool \<Rightarrow> pointer_event \<Rightarrow> pointer_event \<Rightarrow> event list" where
  "axes vertical horizontal dy dx =
     (if vertical \<and> horizontal then [Pointer dy, Pointer dx]
      else if vertical then [Pointer dy]
      else if horizontal then [Pointer dx]
      else [])"

fun to_input_events :: "ei_event \<Rightarrow> event list" where
  "to_input_events (EI_KeyboardModifiers depressed latched locked grp) =
     [Keyboard (Modifiers depressed latched locked grp)]"
| "to_input_events (EI_PointerMotion time dx dy) = [Pointer (Motion (ucast time) dx dy)]"
| "to_input_events (EI_Button time button press) = [Pointer (Button (ucast time) button (if press then 1 else 0))]"
| "to_input_events (EI_ScrollDelta dx dy) =
     axes (\<not> f64_eq dy f64_zero) (\<not> f64_eq dx f64_zero) (Axis 0 0 dy) (Axis 0 1 dx)"
| "to_input_events (EI_ScrollDiscrete dx dy) = axes (dy \<noteq> 0) (dx \<noteq> 0) (AxisDiscrete120 0 dy) (AxisDiscrete120 1 dx)"
| "to_input_events (EI_KeyboardKey time key press) = [Keyboard (Key (ucast time) key (if press then 1 else 0))]"
| "to_input_events _ = []"

section \<open>Barriers\<close>

record region =
  rg_x :: i32
  rg_y :: i32
  rg_width :: u32
  rg_height :: u32

type_synonym line = "i32 \<times> i32 \<times> i32 \<times> i32"

definition pos_to_barrier :: "region \<Rightarrow> capture_position \<Rightarrow> line" where
  "pos_to_barrier r pos =
     (let x = rg_x r; y = rg_y r; w = rg_width r; h = rg_height r in
      case pos of
        C_Left \<Rightarrow> (x, y, x, y + h - 1)
      | C_Right \<Rightarrow> (x + w, y, x + w, y + h - 1)
      | C_Top \<Rightarrow> (x, y, x + w - 1, y)
      | C_Bottom \<Rightarrow> (x, y + h, x + w - 1, y + h))"

type_synonym ic_barrier = "u32 \<times> line"

text \<open>the next id is not zero; \<open>None\<close> is the panic when it overflows\<close>

definition next_barrier :: "capture_position \<Rightarrow> region \<Rightarrow> ic_barrier list \<times> (u32, capture_position) hmap \<times> u32
    \<Rightarrow> (ic_barrier list \<times> (u32, capture_position) hmap \<times> u32) option" where
  "next_barrier pos r s =
     (case s of (bars, m, i) \<Rightarrow>
        if i + 1 = 0 then None else Some (bars @ [(i, pos_to_barrier r pos)], hm_insert i pos m, i + 1))"

fun fold_option :: "('a \<Rightarrow> 's \<Rightarrow> 's option) \<Rightarrow> 'a list \<Rightarrow> 's \<Rightarrow> 's option" where
  "fold_option f [] s = Some s"
| "fold_option f (x # xs) s = Option.bind (f x s) (fold_option f xs)"

definition select_barriers :: "region list \<Rightarrow> capture_position list \<Rightarrow> u32
    \<Rightarrow> (ic_barrier list \<times> (u32, capture_position) hmap \<times> u32) option" where
  "select_barriers regions clients i =
     fold_option (\<lambda>pos. fold_option (next_barrier pos) regions) clients ([], [], i)"

text \<open>\<open>dist\<close> is the truncated distance of \<open>distance_to_line\<close>; the first barrier with the least one\<close>

fun nearest :: "(line \<Rightarrow> int) \<Rightarrow> ic_barrier list \<Rightarrow> ic_barrier option" where
  "nearest dist [] = None"
| "nearest dist (b # bs) =
     (case nearest dist bs of
        None \<Rightarrow> Some b
      | Some c \<Rightarrow> if dist (snd c) < dist (snd b) then Some c else Some b)"

definition find_corresponding_client :: "(line \<Rightarrow> int) \<Rightarrow> ic_barrier list \<Rightarrow> u32 option" where
  "find_corresponding_client dist bars = map_option fst (nearest dist bars)"

section \<open>The capture task\<close>

type_synonym cursor = "f64 \<times> f64"

datatype portal_call =
    PC_CreateSession
  | PC_SetBarriers "ic_barrier list"
  | PC_Enable
  | PC_Release cursor
  | PC_Disable
  | PC_Close

datatype libei_notify = LN_Create capture_position | LN_Destroy capture_position

text \<open>
  Where the task waits: for clients; in a session, not captured, or captured at an edge with the cursor where
  it was crossed; for a request, after its session failed to start; for the end of the event
  stream, after a release failed (only the other task of the session was told); or it has ended.
\<close>

datatype phase =
    LP_Waiting
  | LP_Session
  | LP_Captured "capture_position \<times> cursor option"
  | LP_Failed string
  | LP_Stuck string
  | LP_Ended "string option"

record libei =
  le_clients :: "capture_position list"
  le_next_id :: u32
  le_session :: bool
  le_phase :: phase
  le_barriers :: "ic_barrier list"
  le_pos_for :: "(u32, capture_position) hmap"
  le_current :: "capture_position option"
  le_sent :: "(capture_position \<times> capture_event) list"
  le_calls :: "portal_call list"

definition libei_new :: libei where
  "libei_new = \<lparr>le_clients = [], le_next_id = 1, le_session = True, le_phase = LP_Waiting, le_barriers = [],
     le_pos_for = [], le_current = None, le_sent = [], le_calls = [PC_CreateSession]\<rparr>"

definition portal :: "portal_call \<Rightarrow> libei \<Rightarrow> libei" where
  "portal c le = le\<lparr>le_calls := le_calls le @ [c]\<rparr>"

text \<open>
  how starting a session ends: creating it (when there is none), connecting, and the answers for
  the zones, the barriers and enabling
\<close>

record starting =
  st_create :: "(unit, string) outcome"
  st_connect :: "(unit, string) outcome"
  st_zones :: "(region list, string) outcome"
  st_barriers :: "(unit, string) outcome"
  st_enable :: "(unit, string) outcome"
  st_activated :: "(unit, string) outcome"

text \<open>a call of the session whose error ends it\<close>

definition or_fail :: "('a, string) outcome \<Rightarrow> libei \<Rightarrow> ('a \<Rightarrow> libei option) \<Rightarrow> libei option" where
  "or_fail r le k =
     (case r of Ok x \<Rightarrow> k x | Err e \<Rightarrow> Some (le\<lparr>le_phase := LP_Failed e\<rparr>) | Panic \<Rightarrow> None)"

text \<open>\<open>update_barriers\<close>\<close>

definition update_barriers :: "starting \<Rightarrow> libei \<Rightarrow> (libei \<Rightarrow> libei option) \<Rightarrow> libei option" where
  "update_barriers st le k =
     or_fail (st_zones st) le (\<lambda>regions.
       case select_barriers regions (le_clients le) (le_next_id le) of
         None \<Rightarrow> None
       | Some (bars, pos_for, next_id) \<Rightarrow>
           let le = portal (PC_SetBarriers bars) (le\<lparr>le_next_id := next_id\<rparr>)
           in or_fail (st_barriers st) le (\<lambda>_. k (le\<lparr>le_barriers := bars, le_pos_for := pos_for\<rparr>)))"

definition do_capture_session :: "starting \<Rightarrow> libei \<Rightarrow> libei option" where
  "do_capture_session st le =
     (let le = le\<lparr>le_current := None\<rparr> in
      or_fail (st_connect st) le (\<lambda>_.
      update_barriers st le (\<lambda>le.
        let le = portal PC_Enable le in
        or_fail (st_enable st) le (\<lambda>_.
          case st_activated st of
            Ok _ \<Rightarrow> Some (le\<lparr>le_phase := LP_Session\<rparr>)
          | Err e \<Rightarrow> Some (le\<lparr>le_phase := LP_Stuck e\<rparr>)
          | Panic \<Rightarrow> None))))"

text \<open>a turn of the loop of \<open>do_capture\<close>\<close>

definition next_session :: "starting \<Rightarrow> libei \<Rightarrow> libei option" where
  "next_session st le =
     (if le_clients le = [] then Some (le\<lparr>le_phase := LP_Waiting\<rparr>)
      else if le_session le then do_capture_session st (le\<lparr>le_session := False\<rparr>)
      else
        let le = portal PC_CreateSession le in
        case st_create st of
          Ok _ \<Rightarrow> do_capture_session st le
        | Err e \<Rightarrow> Some (le\<lparr>le_phase := LP_Ended (Some e)\<rparr>)
        | Panic \<Rightarrow> None)"

definition close_session :: "libei \<Rightarrow> libei" where
  "close_session le = portal PC_Close (portal PC_Disable le)"

text \<open>the session is over and so is the wait for a request: with an error the task ends\<close>

definition session_done :: "starting \<Rightarrow> libei \<Rightarrow> libei option" where
  "session_done st le = next_session st (close_session le)"

definition update_positions :: "libei_notify option \<Rightarrow> libei \<Rightarrow> libei" where
  "update_positions n le =
     (case n of
        Some (LN_Create p) \<Rightarrow> le\<lparr>le_clients := le_clients le @ [p]\<rparr>
      | Some (LN_Destroy p) \<Rightarrow> le\<lparr>le_clients := filter (\<lambda>q. q \<noteq> p) (le_clients le)\<rparr>
      | None \<Rightarrow> le)"

text \<open>a request, or other zones (\<open>None\<close>)\<close>

definition session_update :: "starting \<Rightarrow> libei_notify option \<Rightarrow> libei \<Rightarrow> libei option" where
  "session_update st n le =
     (case le_phase le of
        LP_Ended _ \<Rightarrow> Some le
      | LP_Stuck _ \<Rightarrow> Some le
      | LP_Waiting \<Rightarrow> next_session st (update_positions n le)
      | LP_Failed e \<Rightarrow> Some ((close_session le)\<lparr>le_phase := LP_Ended (Some e)\<rparr>)
      | _ \<Rightarrow> next_session st (update_positions n (close_session le)))"

text \<open>the barrier that was crossed, \<open>cursor\<close> with the distances from there; without one, a panic\<close>

type_synonym crossing = "cursor \<times> (line \<Rightarrow> int)"

definition corresponding :: "crossing option \<Rightarrow> libei \<Rightarrow> u32 option" where
  "corresponding crossing le =
     Option.bind crossing (\<lambda>(_, dist). find_corresponding_client dist (le_barriers le))"

definition barrier_position :: "crossing option \<Rightarrow> u32 option \<Rightarrow> libei \<Rightarrow> capture_position option" where
  "barrier_position crossing reported le =
     Option.bind (case reported of Some i \<Rightarrow> Some i | None \<Rightarrow> corresponding crossing le) (\<lambda>i.
       case hm_get (le_pos_for le) i of
         Some pos \<Rightarrow> Some pos
       | None \<Rightarrow> Option.bind (corresponding crossing le) (hm_get (le_pos_for le)))"

definition ei_activated :: "crossing option \<Rightarrow> u32 option \<Rightarrow> libei \<Rightarrow> libei option" where
  "ei_activated crossing reported le =
     map_option (\<lambda>pos. le\<lparr>le_current := Some pos, le_sent := le_sent le @ [(pos, Begin)],
                         le_phase := LP_Captured (pos, map_option fst crossing)\<rparr>)
       (barrier_position crossing reported le)"

text \<open>the cursor is released one pixel inside, not to enter again\<close>

definition release_offset :: "capture_position \<Rightarrow> cursor" where
  "release_offset pos =
     (case pos of
        C_Left \<Rightarrow> (f64_one, f64_zero)
      | C_Right \<Rightarrow> (f64_neg f64_one, f64_zero)
      | C_Top \<Rightarrow> (f64_zero, f64_one)
      | C_Bottom \<Rightarrow> (f64_zero, f64_neg f64_one))"

text \<open>then \<open>k\<close>, unless the release fails: that ends one task of the session and leaves the other\<close>

definition libei_release :: "(unit, string) outcome \<Rightarrow> capture_position \<times> cursor option \<Rightarrow> libei
    \<Rightarrow> (libei \<Rightarrow> libei option) \<Rightarrow> libei option" where
  "libei_release r at le k =
     (case at of
        (pos, None) \<Rightarrow> None
      | (pos, Some (x, y)) \<Rightarrow>
          (case release_offset pos of (dx, dy) \<Rightarrow>
             let le = portal (PC_Release (f64_add x dx, f64_add y dy)) le in
             (case r of
                Ok _ \<Rightarrow> k le
              | Err e \<Rightarrow> Some (le\<lparr>le_phase := LP_Stuck e\<rparr>)
              | Panic \<Rightarrow> None)))"

definition handle_release :: "(unit, string) outcome \<Rightarrow> libei \<Rightarrow> libei option" where
  "handle_release r le =
     (case le_phase le of
        LP_Captured at \<Rightarrow> libei_release r at le (\<lambda>le. Some (le\<lparr>le_phase := LP_Session\<rparr>))
      | _ \<Rightarrow> Some le)"

definition devices_changed :: "starting \<Rightarrow> (unit, string) outcome \<Rightarrow> libei \<Rightarrow> libei option" where
  "devices_changed st r le =
     (case le_phase le of
        LP_Session \<Rightarrow> session_done st le
      | LP_Captured at \<Rightarrow> libei_release r at le (session_done st)
      | _ \<Rightarrow> Some le)"

text \<open>whether the task that reads the event stream runs\<close>

definition in_session :: "libei \<Rightarrow> bool" where
  "in_session le \<longleftrightarrow>
     (case le_phase le of LP_Session \<Rightarrow> True | LP_Captured _ \<Rightarrow> True | LP_Stuck _ \<Rightarrow> True | _ \<Rightarrow> False)"

text \<open>the event stream ends or fails\<close>

definition stream_ended :: "starting \<Rightarrow> libei \<Rightarrow> libei option" where
  "stream_ended st le =
     (case le_phase le of
        LP_Stuck e \<Rightarrow> Some ((close_session le)\<lparr>le_phase := LP_Ended (Some e)\<rparr>)
      | _ \<Rightarrow> session_done st le)"

text \<open>the two environment variables that decide it; the upper case of Unicode that is \<open>GNOME\<close> is that of ASCII\<close>

definition restart_session_on_device_change :: "string option \<Rightarrow> string option \<Rightarrow> bool" where
  "restart_session_on_device_change var desktop =
     (if var = Some ''1'' then True
      else if var = Some ''0'' then False
      else case desktop of
        Some desktops \<Rightarrow> list_ex (\<lambda>d. d = ''GNOME'') (split_on (\<lambda>c. c = CHR '':'') (to_ascii_uppercase desktops))
      | None \<Rightarrow> False)"

text \<open>\<open>restart\<close> is \<open>RESTART_SESSION_ON_DEVICE_CHANGE\<close>\<close>

definition handle_ei_event :: "bool \<Rightarrow> starting \<Rightarrow> (unit, string) outcome \<Rightarrow> ei_event \<Rightarrow> libei \<Rightarrow> libei option" where
  "handle_ei_event restart st r e le =
     (case e of
        EI_SeatAdded \<Rightarrow> Some le
      | EI_SeatRemoved \<Rightarrow> devices_changed st r le
      | EI_DeviceRemoved \<Rightarrow> if restart then devices_changed st r le else Some le
      | EI_Device \<Rightarrow> Some le
      | EI_Disconnected _ \<Rightarrow> stream_ended st le
      | _ \<Rightarrow>
          (case le_current le of
             None \<Rightarrow> Some le
           | Some pos \<Rightarrow> Some (le\<lparr>le_sent := le_sent le @ map (\<lambda>e. (pos, CInput e)) (to_input_events e)\<rparr>)))"

text \<open>\<open>terminate\<close> cancels the token\<close>

definition cancelled :: "libei \<Rightarrow> libei" where
  "cancelled le =
     (case le_phase le of
        LP_Ended _ \<Rightarrow> le
      | LP_Stuck _ \<Rightarrow> le
      | LP_Failed e \<Rightarrow> (close_session le)\<lparr>le_phase := LP_Ended (Some e)\<rparr>
      | LP_Waiting \<Rightarrow> le\<lparr>le_phase := LP_Ended None\<rparr>
      | _ \<Rightarrow> (close_session le)\<lparr>le_phase := LP_Ended None\<rparr>)"

text \<open>a step happens when the task waits; \<open>LI_ActivationClosed\<close> is the end of the stream of activations\<close>

datatype libei_input =
    LI_Update starting "libei_notify option"
  | LI_Activated "crossing option" "u32 option"
  | LI_ActivationClosed
  | LI_Release "(unit, string) outcome"
  | LI_Event bool starting "(unit, string) outcome" ei_event
  | LI_StreamError starting
  | LI_Cancel

definition libei_step :: "libei_input \<Rightarrow> libei \<Rightarrow> libei option" where
  "libei_step i le =
     (case i of
        LI_Update st n \<Rightarrow> session_update st n le
      | LI_Activated crossing reported \<Rightarrow>
          if le_phase le = LP_Session then ei_activated crossing reported le else Some le
      | LI_ActivationClosed \<Rightarrow>
          if le_phase le = LP_Session then Some (le\<lparr>le_phase := LP_Stuck ''activation stream closed unexpectedly''\<rparr>) else Some le
      | LI_Release r \<Rightarrow> handle_release r le
      | LI_Event restart st r e \<Rightarrow> if in_session le then handle_ei_event restart st r e le else Some le
      | LI_StreamError st \<Rightarrow> if in_session le then stream_ended st le else Some le
      | LI_Cancel \<Rightarrow> Some (cancelled le))"

fun libei_run :: "libei_input list \<Rightarrow> libei \<Rightarrow> libei option" where
  "libei_run [] le = Some le"
| "libei_run (i # is) le = Option.bind (libei_step i le) (libei_run is)"

end
