(* ===== verification/LibeiSafety.thy ===== *)
theory LibeiSafety
  imports LibeiCapture CaptureBackend
begin

text \<open>
  What the libei backend guarantees: its barriers belong to its clients, the edge that is captured is
  the one that was crossed, and its events are what the front end expects.
\<close>

section \<open>Barriers belong to their clients\<close>

text \<open>the barriers and the map are those of the clients and regions \<open>prs\<close>, with ids below the next one\<close>

definition barriers_for :: "(capture_position \<times> region) list \<Rightarrow> ic_barrier list \<times> (u32, capture_position) hmap \<times> u32 \<Rightarrow> bool" where
  "barriers_for prs s \<longleftrightarrow> (case s of (bars, m, i) \<Rightarrow>
     map snd bars = map (\<lambda>(pos, r). pos_to_barrier r pos) prs \<and>
     map (hm_get m \<circ> fst) bars = map (Some \<circ> fst) prs \<and>
     distinct (map fst bars) \<and> (\<forall>b \<in> set bars. fst b < i) \<and>
     (\<forall>j. hm_get m j \<noteq> None \<longrightarrow> j \<in> fst ` set bars))"

lemma next_id_greater: "(i :: u32) + 1 \<noteq> 0 \<Longrightarrow> i < i + 1"
  using unatSuc [of i] by (simp add: word_less_nat_alt add.commute)

lemma next_barrier_for:
  assumes "barriers_for prs s" "next_barrier pos r s = Some s'"
  shows "barriers_for (prs @ [(pos, r)]) s'"
proof -
  obtain bars m i where s: "s = (bars, m, i)" by (cases s)
  with assms(2) have "i + 1 \<noteq> 0" and s': "s' = (bars @ [(i, pos_to_barrier r pos)], hm_insert i pos m, i + 1)"
    by (auto simp: next_barrier_def split: if_splits)
  from next_id_greater [OF this(1)] have i: "i < i + 1" .
  have new: "\<forall>b \<in> set bars. fst b \<noteq> i \<and> fst b < i + 1" using assms(1) i by (auto simp: barriers_for_def s)
  then have keep: "map (hm_get (hm_insert i pos m) \<circ> fst) bars = map (hm_get m \<circ> fst) bars" by auto
  then show ?thesis using assms(1) i new by (auto simp: barriers_for_def s s' simp del: map_eq_conv)
qed

lemma client_barriers_for:
  "barriers_for prs s \<Longrightarrow> fold_option (next_barrier pos) rs s = Some s' \<Longrightarrow> barriers_for (prs @ map (Pair pos) rs) s'"
proof (induction rs arbitrary: prs s)
  case (Cons r rs)
  then obtain s1 where "next_barrier pos r s = Some s1" "fold_option (next_barrier pos) rs s1 = Some s'"
    by (auto simp: bind_eq_Some_conv)
  with Cons.IH [OF next_barrier_for [OF Cons.prems(1)]] show ?case by simp
qed simp

lemma select_barriers_for:
  assumes "select_barriers regions clients i = Some s"
  shows "barriers_for (List.product clients regions) s"
proof -
  have "barriers_for prs s \<Longrightarrow> fold_option (\<lambda>pos. fold_option (next_barrier pos) regions) clients s = Some s' \<Longrightarrow>
      barriers_for (prs @ List.product clients regions) s'" for prs s s'
  proof (induction clients arbitrary: prs s)
    case (Cons pos clients)
    then obtain s1 where "fold_option (next_barrier pos) regions s = Some s1"
      "fold_option (\<lambda>pos. fold_option (next_barrier pos) regions) clients s1 = Some s'" by (auto simp: bind_eq_Some_conv)
    with Cons.IH [OF client_barriers_for [OF Cons.prems(1)]] show ?case by simp
  qed simp
  from this [of "[]" "([], [], i)" s] assms show ?thesis
    by (simp add: select_barriers_def barriers_for_def)
qed

section \<open>The events\<close>

text \<open>a session that runs has the barriers of its clients, and what it sends is at the edge that began last\<close>

definition libei_ok :: "libei \<Rightarrow> bool" where
  "libei_ok le \<longleftrightarrow>
     begun (le_sent le) None \<noteq> None \<and>
     (in_session le \<longrightarrow>
        (\<exists>regions. barriers_for (List.product (le_clients le) regions) (le_barriers le, le_pos_for le, le_next_id le)) \<and>
        (\<forall>pos. le_current le = Some pos \<longrightarrow> pos \<in> set (le_clients le) \<and> begun (le_sent le) None = Some (Some pos)) \<and>
        (\<forall>pos c. le_phase le = LP_Captured (pos, c) \<longrightarrow> le_current le = Some pos))"

lemma barriers_for_client:
  assumes "barriers_for prs (bars, m, i)" "hm_get m j = Some pos"
  shows "pos \<in> fst ` set prs"
proof -
  from assms obtain b where "b \<in> set bars" "j = fst b" by (force simp: barriers_for_def)
  then have "Some pos \<in> set (map (hm_get m \<circ> fst) bars)" using assms(2) by force
  moreover from assms(1) have "map (hm_get m \<circ> fst) bars = map (Some \<circ> fst) prs" by (simp add: barriers_for_def)
  ultimately have "Some pos \<in> set (map (Some \<circ> fst) prs)" by metis
  then show ?thesis by auto
qed

lemma libei_ok_outside: "begun (le_sent le) None \<noteq> None \<Longrightarrow> \<not> in_session le \<Longrightarrow> libei_ok le"
  by (simp add: libei_ok_def)

lemma portal_ok [simp]: "libei_ok (portal c le) = libei_ok le"
  by (auto simp: libei_ok_def portal_def in_session_def split: option.splits phase.splits)

lemma portal_fields [simp]:
  "le_sent (portal c le) = le_sent le" "le_clients (portal c le) = le_clients le" "le_current (portal c le) = le_current le"
  "le_phase (portal c le) = le_phase le" "in_session (portal c le) = in_session le"
  "le_barriers (portal c le) = le_barriers le" "le_pos_for (portal c le) = le_pos_for le" "le_next_id (portal c le) = le_next_id le"
  by (simp_all add: portal_def in_session_def)

lemma or_fail_inv:
  assumes "or_fail r le k = Some le'" "\<And>e. P (le\<lparr>le_phase := LP_Failed e\<rparr>)" "\<And>x. r = Ok x \<Longrightarrow> k x = Some le' \<Longrightarrow> P le'"
  shows "P le'"
  using assms by (auto simp: or_fail_def split: outcome.splits)

lemma failed_outside [simp]: "begun (le_sent le) None \<noteq> None \<Longrightarrow> libei_ok (le\<lparr>le_phase := LP_Failed e\<rparr>)"
  by (simp add: libei_ok_def in_session_def)

lemma update_barriers_ok:
  assumes "update_barriers st le k = Some le'" "begun (le_sent le) None \<noteq> None"
    and "\<And>le1 regions. barriers_for (List.product (le_clients le1) regions) (le_barriers le1, le_pos_for le1, le_next_id le1) \<Longrightarrow>
      le_sent le1 = le_sent le \<Longrightarrow> le_current le1 = le_current le \<Longrightarrow> k le1 = Some le' \<Longrightarrow> libei_ok le'"
  shows "libei_ok le'"
  using assms(1) unfolding update_barriers_def
proof (rule or_fail_inv)
  fix regions
  assume u: "(case select_barriers regions (le_clients le) (le_next_id le) of None \<Rightarrow> None
    | Some (bars, pos_for, next_id) \<Rightarrow>
        let le = portal (PC_SetBarriers bars) (le\<lparr>le_next_id := next_id\<rparr>)
        in or_fail (st_barriers st) le (\<lambda>_. k (le\<lparr>le_barriers := bars, le_pos_for := pos_for\<rparr>))) = Some le'"
  then obtain bars m i where s: "select_barriers regions (le_clients le) (le_next_id le) = Some (bars, m, i)"
    by (auto split: option.splits)
  let ?le = "portal (PC_SetBarriers bars) (le\<lparr>le_next_id := i\<rparr>)"
  from u have "or_fail (st_barriers st) ?le (\<lambda>_. k (?le\<lparr>le_barriers := bars, le_pos_for := m\<rparr>)) = Some le'" by (simp add: s Let_def)
  then show "libei_ok le'"
    by (rule or_fail_inv) (use assms(2) assms(3) [of "?le\<lparr>le_barriers := bars, le_pos_for := m\<rparr>"] select_barriers_for [OF s] in auto)
qed (use assms(2) in simp)

lemma do_capture_session_ok:
  assumes "do_capture_session st le = Some le'" "begun (le_sent le) None \<noteq> None"
  shows "libei_ok le'"
  using assms(1) unfolding do_capture_session_def Let_def
proof (elim or_fail_inv update_barriers_ok)
  fix le1 regions
  assume "barriers_for (List.product (le_clients le1) regions) (le_barriers le1, le_pos_for le1, le_next_id le1)"
    and "le_sent le1 = le_sent (le\<lparr>le_current := None\<rparr>)" "le_current le1 = le_current (le\<lparr>le_current := None\<rparr>)"
    and "(case st_activated st of Ok _ \<Rightarrow> Some (portal PC_Enable le1\<lparr>le_phase := LP_Session\<rparr>)
      | Err e \<Rightarrow> Some (portal PC_Enable le1\<lparr>le_phase := LP_Stuck e\<rparr>) | Panic \<Rightarrow> None) = Some le'"
  then show "libei_ok le'"
    using assms(2) by (auto simp: libei_ok_def split: outcome.splits)
qed (use assms(2) in \<open>auto\<close>)

lemma next_session_ok: "next_session st le = Some le' \<Longrightarrow> begun (le_sent le) None \<noteq> None \<Longrightarrow> libei_ok le'"
  by (auto simp: next_session_def Let_def libei_ok_outside in_session_def split: if_splits outcome.splits
      dest!: do_capture_session_ok)

lemma session_done_ok: "session_done st le = Some le' \<Longrightarrow> begun (le_sent le) None \<noteq> None \<Longrightarrow> libei_ok le'"
  unfolding session_done_def by (erule next_session_ok) (simp add: close_session_def)

lemma libei_ok_begun: "libei_ok le \<Longrightarrow> begun (le_sent le) None \<noteq> None"
  by (simp add: libei_ok_def)

text \<open>the edge of an activation is that of a client\<close>

lemma barrier_position_client:
  assumes "libei_ok le" "in_session le" "barrier_position crossing reported le = Some pos"
  shows "pos \<in> set (le_clients le)"
proof -
  from assms(1,2) obtain regions where
    b: "barriers_for (List.product (le_clients le) regions) (le_barriers le, le_pos_for le, le_next_id le)"
    by (auto simp: libei_ok_def)
  from assms(3) obtain i where "hm_get (le_pos_for le) i = Some pos"
    by (auto simp: barrier_position_def bind_eq_Some_conv split: option.splits)
  from barriers_for_client [OF b this] show ?thesis by (auto split: if_splits)
qed

lemma libei_ok_phase:
  assumes "libei_ok le" "in_session le" "\<And>pos c. p = LP_Captured (pos, c) \<Longrightarrow> le_current le = Some pos"
  shows "libei_ok (le\<lparr>le_phase := p\<rparr>)"
  using assms by (auto simp: libei_ok_def)

lemma ei_activated_ok:
  assumes "libei_ok le" "le_phase le = LP_Session" "ei_activated crossing reported le = Some le'"
  shows "libei_ok le'"
proof -
  have s: "in_session le" using assms(2) by (simp add: in_session_def)
  from assms(3) obtain pos where pos: "barrier_position crossing reported le = Some pos"
    and le': "le' = le\<lparr>le_current := Some pos, le_sent := le_sent le @ [(pos, Begin)], le_phase := LP_Captured (pos, map_option fst crossing)\<rparr>"
    by (auto simp: ei_activated_def)
  from barrier_position_client [OF assms(1) s pos] assms(1) s show ?thesis
    by (auto simp: libei_ok_def le' begun_append)
qed

lemma libei_release_ok:
  assumes "libei_release r at le k = Some le'" "libei_ok le" "in_session le"
    and "\<And>le1. libei_ok le1 \<Longrightarrow> in_session le1 \<Longrightarrow> k le1 = Some le' \<Longrightarrow> libei_ok le'"
  shows "libei_ok le'"
  using assms(1-3) by (auto simp: libei_release_def Let_def split: prod.splits option.splits outcome.splits
      intro: libei_ok_phase assms(4) [rotated 2])

lemma devices_changed_ok: "devices_changed st r le = Some le' \<Longrightarrow> libei_ok le \<Longrightarrow> libei_ok le'"
  by (auto simp: devices_changed_def in_session_def split: phase.splits
      elim!: libei_release_ok dest: session_done_ok libei_ok_begun intro: session_done_ok [OF _ libei_ok_begun])

lemma handle_release_ok: "handle_release r le = Some le' \<Longrightarrow> libei_ok le \<Longrightarrow> libei_ok le'"
  by (auto simp: handle_release_def in_session_def split: phase.splits elim!: libei_release_ok intro: libei_ok_phase)

lemma stream_ended_ok: "stream_ended st le = Some le' \<Longrightarrow> libei_ok le \<Longrightarrow> libei_ok le'"
  by (auto simp: stream_ended_def close_session_def split: phase.splits intro: session_done_ok libei_ok_outside
      dest: libei_ok_begun) (auto simp: libei_ok_def in_session_def)

lemma libei_ok_inputs:
  assumes "libei_ok le" "in_session le" "le_current le = Some pos"
  shows "libei_ok (le\<lparr>le_sent := le_sent le @ map (\<lambda>e. (pos, CInput e)) es\<rparr>)"
proof -
  have "begun (map (\<lambda>e. (pos, CInput e)) es) (Some pos) = Some (Some pos)" by (induction es) auto
  then show ?thesis using assms by (auto simp: libei_ok_def begun_append)
qed

lemma handle_ei_event_ok:
  "handle_ei_event restart st r e le = Some le' \<Longrightarrow> libei_ok le \<Longrightarrow> in_session le \<Longrightarrow> libei_ok le'"
  by (cases e) (auto simp: handle_ei_event_def simp del: to_input_events.simps split: option.splits if_splits
      intro: libei_ok_inputs stream_ended_ok devices_changed_ok)

lemma session_update_ok:
  assumes "session_update st n le = Some le'" "libei_ok le"
  shows "libei_ok le'"
proof -
  have sent: "le_sent (update_positions n le1) = le_sent le1" for le1
    by (auto simp: update_positions_def split: option.split libei_notify.split)
  show ?thesis using assms libei_ok_begun [OF assms(2)]
    by (auto simp: session_update_def close_session_def sent split: phase.splits intro: next_session_ok libei_ok_outside)
       (auto simp: libei_ok_def in_session_def)
qed

lemma cancelled_ok: "libei_ok le \<Longrightarrow> libei_ok (cancelled le)"
  using libei_ok_begun [of le]
  by (auto simp: cancelled_def close_session_def split: phase.split) (auto simp: libei_ok_def in_session_def)

lemma libei_step_ok:
  assumes "libei_ok le" "libei_step i le = Some le'"
  shows "libei_ok le'"
proof (cases i)
  case LI_ActivationClosed
  then show ?thesis using assms by (auto simp: libei_step_def in_session_def intro: libei_ok_phase split: if_splits)
qed (use assms in \<open>auto simp: libei_step_def split: if_splits
      intro: session_update_ok ei_activated_ok handle_release_ok handle_ei_event_ok stream_ended_ok cancelled_ok\<close>)

interpretation libei_backend: capture_backend libei_step le_sent libei_ok
  by unfold_locales (use libei_step_ok libei_ok_begun in blast)+

lemma libei_run: "libei_backend.run is le = libei_run is le"
  by (induction "is" arbitrary: le) (simp_all split: bind_splits)

lemma libei_new_ok: "libei_ok libei_new"
  by (simp add: libei_new_def libei_ok_def in_session_def)

lemmas libei_run_ok = libei_backend.run_inv [OF libei_new_ok, unfolded libei_run]


section \<open>The edge that was crossed\<close>

lemma nearest_Some: "bs \<noteq> [] \<Longrightarrow> \<exists>b. nearest dist bs = Some b"
  by (cases bs) (auto split: option.split)

lemma nearest_least:
  "nearest dist bs = Some b \<Longrightarrow> b \<in> set bs \<and> (\<forall>c \<in> set bs. dist (snd b) \<le> dist (snd c))"
proof (induction bs arbitrary: b)
  case (Cons a bs)
  show ?case
  proof (cases "nearest dist bs")
    case None
    then have "bs = []" using nearest_Some [of bs dist] by auto
    then show ?thesis using Cons.prems by simp
  next
    case (Some c)
    then show ?thesis using Cons.prems Cons.IH [OF Some] by (fastforce split: if_splits)
  qed
qed simp

text \<open>a barrier and the client it stands for\<close>

lemma barrier_of_client:
  assumes "barriers_for prs (bars, m, i)" "b \<in> set bars"
  shows "\<exists>pos r. (pos, r) \<in> set prs \<and> snd b = pos_to_barrier r pos \<and> hm_get m (fst b) = Some pos"
proof -
  from assms(1) have eqs: "map snd bars = map (\<lambda>(pos, r). pos_to_barrier r pos) prs"
    "map (hm_get m \<circ> fst) bars = map (Some \<circ> fst) prs" by (simp_all add: barriers_for_def)
  from assms(2) obtain k where k: "k < length bars" "b = bars ! k" by (auto simp: in_set_conv_nth)
  from arg_cong [OF eqs(1), of length] have "length prs = length bars" by simp
  then have len: "k < length prs" using k by simp
  have "snd b = map snd bars ! k" using k by simp
  also have "\<dots> = pos_to_barrier (snd (prs ! k)) (fst (prs ! k))" unfolding eqs using len by (simp add: case_prod_beta)
  finally have "snd b = pos_to_barrier (snd (prs ! k)) (fst (prs ! k))" .
  moreover have "hm_get m (fst b) = map (hm_get m \<circ> fst) bars ! k" using k by simp
  then have "hm_get m (fst b) = Some (fst (prs ! k))" unfolding eqs using len by simp
  ultimately show ?thesis using len by (intro exI [of _ "fst (prs ! k)"] exI [of _ "snd (prs ! k)"]) auto
qed


section \<open>Where the task hangs\<close>

text \<open>
  After an error at the start of a session nothing reports it until a request or new zones come. After an
  error of a release, or of the stream of activations, not even the cancellation ends the task: it waits for
  the event stream.
\<close>

lemma failed_start_waits:
  "le_phase le = LP_Failed e \<Longrightarrow> \<forall>st n. i \<noteq> LI_Update st n \<Longrightarrow> i \<noteq> LI_Cancel \<Longrightarrow> libei_step i le = Some le"
  by (cases i) (auto simp: libei_step_def in_session_def handle_release_def)

lemma failed_release_hangs: "le_phase le = LP_Stuck e \<Longrightarrow> libei_step LI_Cancel le = Some le"
  by (simp add: libei_step_def cancelled_def)

section \<open>An example\<close>

definition example_start :: starting where
  "example_start = \<lparr>st_create = Ok (), st_connect = Ok (),
     st_zones = Ok [\<lparr>rg_x = 0, rg_y = 0, rg_width = 1920, rg_height = 1080\<rparr>],
     st_barriers = Ok (), st_enable = Ok (), st_activated = Ok ()\<rparr>"

lemma example_session:
  "\<exists>le. libei_run [LI_Update example_start (Some (LN_Create C_Left))] libei_new = Some le \<and> le_phase le = LP_Session \<and>
     le_clients le = [C_Left] \<and> le_barriers le = [(1, (0, 0, 0, 1079))] \<and> le_sent le = []"
  by (simp add: libei_new_def libei_step_def session_update_def update_positions_def next_session_def do_capture_session_def
      update_barriers_def or_fail_def example_start_def select_barriers_def next_barrier_def pos_to_barrier_def portal_def)



end
