(* ===== verification/Spec2Isabelle.thy ===== *)
theory Spec2Isabelle
  imports Scancode F64 Proto Config ClientMgr InputCapture Connect Tuning CaptureTask InputEmulation EmulationTask
    InboxSafety ActorSafety ServiceMirror ConnSafety Delivery Dns WinSafety WinEmulation LibeiSafety
begin

text \<open>
  Vylo Mouse Share: one keyboard and mouse for several machines, with a side channel for clipboard,
  files and pairing. This development models the program's own logic, as state passing functions
  over records; the theories below import this order.

  \<^bold>\<open>Input path.\<close> A capture backend reports events at the edges of the screen; \<open>InputCapture\<close>
  (\<open>input-capture/src/lib.rs\<close>) fans them out to the clients registered at an edge and tracks the
  keys that are down. \<open>CaptureTask\<close> (\<open>src/capture.rs\<close>) is the session: it enters a client, waits
  for its acknowledgement, tunes and forwards events and releases the capture. \<open>Tuning\<close>
  (\<open>src/tuning.rs\<close>) scales motion and remaps modifiers; its floats are bit patterns with IEEE
  arithmetic of our own in \<open>F64\<close>. \<open>Connect\<close> (\<open>src/connect.rs\<close>, \<open>src/crypto.rs\<close>) keeps the outgoing
  connections, \<open>Proto\<close> (\<open>lan-mouse-proto\<close>) is the datagram codec, \<open>InputEvent\<close> and \<open>Scancode\<close>
  (\<open>input-event\<close>) the events and key tables. On the other machine \<open>EmulationTask\<close>
  (\<open>src/listen.rs\<close>, \<open>src/emulation.rs\<close>) accepts peers, and \<open>InputEmulation\<close>
  (\<open>input-emulation/src/lib.rs\<close>) gives each a virtual device and releases its keys.

  \<^bold>\<open>Configuration and service.\<close> \<open>Ipc\<close> (\<open>lan-mouse-ipc\<close>) holds the types shared with the frontends,
  \<open>ClientMgr\<close> (\<open>src/client.rs\<close>) the clients and their addresses, \<open>Config\<close> (\<open>src/config.rs\<close>) the file they
  are saved in. \<open>Service\<close> (\<open>src/service.rs\<close>) is the loop that meets them all: requests of the frontends,
  events of capture, emulation, resolver and side channel. \<open>ServiceSafety\<close> has its invariant,
  \<open>ServiceBarriers\<close> what the capture task is asked for, \<open>ServiceMirror\<close> what a frontend knows and what a
  restart brings back. \<open>Dns\<close> (\<open>src/dns.rs\<close>) is the resolver task.

  \<^bold>\<open>Side channel.\<close> \<open>SyncProto\<close> (\<open>src/sync/proto.rs\<close>) is its messages and frames. \<open>FileNames\<close> and
  \<open>Files\<close> (\<open>src/sync/files.rs\<close>) make offered names safe, choose unused ones and receive one file;
  \<open>Inbox\<close> (\<open>src/sync/inbox.rs\<close>) receives files, folders and drags on one connection, \<open>InboxSafety\<close>
  confines it. \<open>Sender\<close> and \<open>SendTree\<close> (\<open>src/sync/files.rs\<close>) send files and folders, \<open>SenderWalk\<close>
  is about the walk of a folder, and \<open>Delivery\<close> composes sender and inbox. The file system they act on
  is \<open>Fs\<close>. \<open>Pairing\<close> (\<open>src/sync/pairing.rs\<close>) is the PIN exchange, \<open>Clipboard\<close>
  (\<open>src/sync/clipboard.rs\<close>) and \<open>Keyboard\<close> (\<open>src/sync/keyboard.rs\<close>) the monitors. \<open>Actor\<close>
  (\<open>src/sync/mod.rs\<close>) is the task that keeps the connections and the pairing window, with its safety in
  \<open>ActorSafety\<close>; \<open>ConnTask\<close> the tasks it spawns: dialling, accepting, pairing, and the reader and writer
  of a connection with the queue between them; \<open>ConnSafety\<close> is about those.

  \<^bold>\<open>Platform backends.\<close> \<open>CaptureBackend\<close> has the contract of a capture backend as a locale: an input
  follows a \<open>Begin\<close> at its edge. \<open>WinCapture\<close> (\<open>input-capture/src/windows/\<close>) is the backend of Windows,
  \<open>WinSafety\<close> its interpretation and safety, \<open>WinEmulation\<close> (\<open>input-emulation/src/windows.rs\<close>) the
  emulation of Windows and what becomes of an event between two such machines. \<open>LibeiCapture\<close>
  (\<open>input-capture/src/libei.rs\<close>, \<open>input-event/src/libei.rs\<close>) is the backend of the portal: sessions that
  start, fail and restart, their barriers and events, with its interpretation and safety in
  \<open>LibeiSafety\<close>.

  \<^bold>\<open>Conventions.\<close> \<open>Prelude\<close> has the outcome type (\<open>Ok\<close>, \<open>Err\<close>, and \<open>Panic\<close> where the code would
  panic), maps as association lists (\<open>hmap\<close>: a \<open>HashMap\<close> iterates in some order, here that of the
  list), byte encodings and the locale \<open>machine\<close>, whose interpretations give each component its
  invariant over all runs. \<open>Strings\<close> has text as UTF-8 bytes. Machine integers are words of their
  width; a clock is a number of milliseconds. What is not this program's code (SHA-256, SPAKE2, DTLS,
  TLS and UDP, the platform APIs, name lookup, \<open>bincode\<close>, the TOML serializer) is an argument or an
  oracle: a list of answers consumed in order. \<open>Fs\<close> is one volume with case-sensitive names and no
  links, and every operation can fail by an oracle of faults: before doing anything or, for a write, in
  the middle. Concurrent tasks are steps in any order: a run is a list of inputs that says which task
  goes next.

  \<^bold>\<open>What is shown.\<close> Per component: an invariant over every run (registration of captures, held
  modifiers, devices of peers, the barriers of active clients, the connections of the actor, confinement
  of what a peer sends), round trips of the codecs, of the saved clients and of keys and mouse events
  between machines, what a session sends (nothing while idle, only \<open>Enter\<close> before the
  acknowledgement, no key left down), pairing (completes iff the PINs match, pins only the proven
  session), delivery of files and order of messages over any interleaving, and a refinement: a frontend
  that applies the events it gets shows the state of the service.
  The loops are structural recursions or \<open>fold\<close>s over what arrives; \<open>read_msgs\<close> and
  \<open>receive_loop\<close> terminate on the length of what is left. \<open>first_unused\<close> looks at one candidate more
  than there are files, so it always finds one.
  No definition has fuel: the walk of a folder is recursion on the entries that are left, and a
  connection or a service is run for the inputs it is given.

  \<^bold>\<open>Not modelled.\<close> The remaining platform backends (their logic is in callbacks of the platform's
  libraries, whose types are not in the repository), IPC sockets, the command line and desktop shells
  (argument parsing, processes and windows), process start and the manual test drivers; PROJECT.json
  lists them.
\<close>

end
